(* ===== verification/Go_Prelude.thy ===== *)
theory Go_Prelude
  imports Main "HOL-Library.Word"
begin

text \<open>
  Shared vocabulary of the development: machine integers of the Go code, the three ways a Go
  call ends (a value, an error value, a panic), the loop that maps a fallible function over a
  slice, and the generic lemmas on words and lists that the component theories share.
  \<^item> \<open>int64\<close> and \<open>uint64\<close> are both \<open>64 word\<close>: \<open>+\<close> and \<open>-\<close> wrap as in Go; a signed
    comparison is \<open><s\<close> or \<open>\<le>s\<close>, an unsigned one \<open><\<close> or \<open>\<le>\<close>.
  \<^item> a call of Go code returns \<open>'a go\<close>: \<open>Ret x\<close> is a normal return with a nil error,
    \<open>Err e\<close> a return with a non-nil error, \<open>Panic\<close> a panic.
\<close>

named_theorems go_simps "unfolding rules for the outcome monad"
named_theorems i64_arith "reading of wrapped 64-bit sums in the integers"

type_synonym bytes = "8 word list"
type_synonym i64 = "64 word"
type_synonym u64 = "64 word"
type_synonym u32 = "32 word"

section \<open>Outcomes of Go calls\<close>

text \<open>
  Error values. \<open>Errorf\<close> is \<open>fmt.Errorf\<close> with its format string, \<open>Wrapf\<close> the same with
  a wrapped cause (\<open>%w\<close>); the named constructors are sentinel errors and the error type that
  the code tests or declares; \<open>ExternalError\<close> is any error made by code outside the repository.
\<close>

datatype error =
    Errorf string
  | Wrapf string error
  | ErrTxNotFound
  | ErrMempoolTxMaxCapacity
  | FrontRunningError
  | ExternalError nat

text \<open>\<open>errors.Is(err, target)\<close> walks the chain of wrapped errors.\<close>

fun errors_Is :: "error \<Rightarrow> error \<Rightarrow> bool" where
  "errors_Is (Wrapf s e) target = (Wrapf s e = target \<or> errors_Is e target)"
| "errors_Is e target = (e = target)"

datatype 'a go = Ret 'a | Err error | Panic

fun go_bind :: "'a go \<Rightarrow> ('a \<Rightarrow> 'b go) \<Rightarrow> 'b go" where
  "go_bind (Ret x) f = f x"
| "go_bind (Err e) f = Err e"
| "go_bind Panic f = Panic"

text \<open>
  \<open>wrap_err s m\<close>: \<open>if err != nil { return fmt.Errorf("s: %w", err) }\<close>; a panic passes through.
\<close>

fun wrap_err :: "string \<Rightarrow> 'a go \<Rightarrow> 'a go" where
  "wrap_err s (Ret x) = Ret x"
| "wrap_err s (Err e) = Err (Wrapf s e)"
| "wrap_err s Panic = Panic"

text \<open>A deferred \<open>recover\<close> that turns a panic into an error return.\<close>

fun recover_as :: "error \<Rightarrow> 'a go \<Rightarrow> 'a go" where
  "recover_as e (Ret x) = Ret x"
| "recover_as e (Err e') = Err e'"
| "recover_as e Panic = Err e"

text \<open>
  The loop \<open>for _, x := range xs { y, err := f(x); if err != nil { return nil, err };
  ys = append(ys, y) }\<close>.
\<close>

fun go_map_list :: "('a \<Rightarrow> 'b go) \<Rightarrow> 'a list \<Rightarrow> 'b list go" where
  "go_map_list f [] = Ret []"
| "go_map_list f (x # xs) =
     go_bind (f x) (\<lambda>y. go_bind (go_map_list f xs) (\<lambda>ys. Ret (y # ys)))"

text \<open>Calling a function value that may be nil: a nil call panics.\<close>

fun call1 :: "('a \<Rightarrow> 'b go) option \<Rightarrow> 'a \<Rightarrow> 'b go" where
  "call1 None x = Panic"
| "call1 (Some f) x = f x"

lemma go_bind_Ret_iff [go_simps]:
  "go_bind m f = Ret y \<longleftrightarrow> (\<exists>x. m = Ret x \<and> f x = Ret y)"
  by (cases m) auto

lemma go_bind_Panic_iff [go_simps]:
  "go_bind m f = Panic \<longleftrightarrow> m = Panic \<or> (\<exists>x. m = Ret x \<and> f x = Panic)"
  by (cases m) auto

lemma go_bind_Err_iff [go_simps]:
  "go_bind m f = Err e \<longleftrightarrow> m = Err e \<or> (\<exists>x. m = Ret x \<and> f x = Err e)"
  by (cases m) auto

lemma case_go_Ret_iff [go_simps]:
  "(case m of Ret x \<Rightarrow> f x | Err e \<Rightarrow> Err (g e) | Panic \<Rightarrow> Panic) = Ret y \<longleftrightarrow> (\<exists>x. m = Ret x \<and> f x = Ret y)"
  by (cases m) auto

lemma case_option_Ret_iff [go_simps]:
  "(case v of None \<Rightarrow> Err e | Some x \<Rightarrow> f x) = Ret y \<longleftrightarrow> (\<exists>x. v = Some x \<and> f x = Ret y)"
  by (cases v) auto

lemma wrap_err_Ret_iff [simp]: "wrap_err s m = Ret x \<longleftrightarrow> m = Ret x"
  by (cases m) auto

lemma wrap_err_Panic_iff [simp]: "wrap_err s m = Panic \<longleftrightarrow> m = Panic"
  by (cases m) auto

lemma recover_as_no_panic [simp]: "recover_as e m \<noteq> Panic"
  by (cases m) auto

lemma recover_as_Ret_iff [simp]: "recover_as e m = Ret x \<longleftrightarrow> m = Ret x"
  by (cases m) auto

lemma go_map_list_length: "go_map_list f xs = Ret ys \<Longrightarrow> length ys = length xs"
  by (induction xs arbitrary: ys) (auto simp: go_simps)

lemma go_map_list_Ret_iff:
  "go_map_list f xs = Ret ys \<longleftrightarrow> list_all2 (\<lambda>x y. f x = Ret y) xs ys"
proof (induction xs arbitrary: ys)
  case Nil
  then show ?case by (cases ys) auto
next
  case (Cons x xs)
  then show ?case by (cases ys) (auto simp: go_simps)
qed

lemma go_map_list_in: "go_map_list f xs = Ret ys \<Longrightarrow> y \<in> set ys \<Longrightarrow> \<exists>x \<in> set xs. f x = Ret y"
  by (induction xs arbitrary: ys) (auto simp: go_simps)

lemma go_map_list_append:
  "go_map_list f (xs @ ys) =
     go_bind (go_map_list f xs) (\<lambda>us. go_bind (go_map_list f ys) (\<lambda>vs. Ret (us @ vs)))"
proof (induction xs)
  case Nil
  then show ?case by (cases "go_map_list f ys") auto
next
  case (Cons x xs)
  then show ?case
    by (cases "f x"; cases "go_map_list f xs"; cases "go_map_list f ys") auto
qed

lemma go_map_list_Ret_map:
  "go_map_list f xs = Ret ys \<Longrightarrow> (\<And>x y. x \<in> set xs \<Longrightarrow> f x = Ret y \<Longrightarrow> g y = h x) \<Longrightarrow>
   map g ys = map h xs"
  by (induction xs arbitrary: ys) (auto simp: go_simps)

section \<open>Sixty-four bit sums\<close>

lemma sint_word_of_int_64 [i64_arith]:
  "- (2 ^ 63) \<le> k \<Longrightarrow> k < 2 ^ 63 \<Longrightarrow> sint (word_of_int k :: 64 word) = k"
  by (simp add: sint_sbintrunc' signed_take_bit_int_eq_self)

lemma uint_word_of_int_64 [i64_arith]:
  "0 \<le> k \<Longrightarrow> k < 2 ^ 64 \<Longrightarrow> uint (word_of_int k :: 64 word) = k"
  by (simp add: uint_word_of_int)

lemma sum_list_sint_64: "sum_list (ws :: 64 word list) = word_of_int (sum_list (map sint ws))"
  by (induction ws) (simp_all add: wi_hom_add [symmetric])

lemma sum_list_uint_64: "sum_list (ws :: 64 word list) = word_of_int (sum_list (map uint ws))"
  by (induction ws) (simp_all add: wi_hom_add [symmetric])

lemma add_sint_64: "(a :: 64 word) + b = word_of_int (sint a + sint b)"
  by (simp add: wi_hom_add [symmetric])

lemma add_uint_64: "(a :: 64 word) + b = word_of_int (uint a + uint b)"
  by (simp add: wi_hom_add [symmetric])

lemma sub_sint_64: "(a :: 64 word) - b = word_of_int (sint a - sint b)"
  by (simp add: wi_hom_sub [symmetric])

lemma sint_range_64: "- (2 ^ 63) \<le> sint (w :: 64 word) \<and> sint w < 2 ^ 63"
  using sint_ge [of w] sint_lt [of w] by simp

lemma uint_range_64: "0 \<le> uint (w :: 64 word) \<and> uint w < 2 ^ 64"
  using uint_ge_0 [of w] uint_lt2p [of w] by simp

lemma sint_of_nat_64: "n < 2 ^ 63 \<Longrightarrow> sint (of_nat n :: 64 word) = int n"
proof -
  assume "n < 2 ^ 63"
  then have "int n < 2 ^ 63" by (metis of_nat_less_iff of_nat_numeral of_nat_power)
  then have "sint (word_of_int (int n) :: 64 word) = int n"
    by (intro sint_word_of_int_64) auto
  then show ?thesis by simp
qed

lemma sum_list_nonneg_map: "(\<And>x. x \<in> set xs \<Longrightarrow> 0 \<le> f x) \<Longrightarrow> (0::int) \<le> sum_list (map f xs)"
  by (induction xs) auto

lemma member_le_sum_list_map:
  "x \<in> set xs \<Longrightarrow> (\<And>y. y \<in> set xs \<Longrightarrow> 0 \<le> f y) \<Longrightarrow> f x \<le> (sum_list (map f xs) :: int)"
proof (induction xs)
  case Nil
  then show ?case by simp
next
  case (Cons a xs)
  have "0 \<le> sum_list (map f xs)"
    using Cons.prems(2) by (intro sum_list_nonneg_map) auto
  then show ?case using Cons by (cases "x = a") (auto, smt (verit))
qed

end
