(* ===== verification/Sdk_Interface.thy ===== *)
theory Sdk_Interface
  imports Go_Prelude
begin

text \<open>
  What the repository uses of packages that are not part of it: the decimals and coins of
  \<open>cosmossdk.io/math\<close> and the Cosmos SDK, the SDK context, the transaction interfaces and the
  address type. The operations are never defined here: each group is a record of functions, an
  argument of every definition that calls into it. What theorems need of them is stated by a
  predicate (\<open>dec_laws\<close>, \<open>ctx_laws\<close>, \<open>coin_laws\<close>) with the documented behaviour, and each predicate
  is shown to hold of a concrete record (\<open>scaled_dec\<close>, \<open>value_ctx\<close>, \<open>plain_coins\<close>), which the
  witnesses use.
\<close>

section \<open>Decimals: math.LegacyDec and math.Int\<close>

text \<open>
  A \<open>LegacyDec\<close> is nil (the zero value of the struct) or a whole number of units of \<open>10\<^sup>-\<^sup>1\<^sup>8\<close>.
  A \<open>math.Int\<close> is an unbounded integer. The operations that can overflow return \<open>Panic\<close> then.
\<close>

datatype LegacyDec = DecNil | Dec int

record dec_ops =
  decZero :: LegacyDec
  decOne :: LegacyDec
  decIsNil :: "LegacyDec \<Rightarrow> bool"
  decIsZero :: "LegacyDec \<Rightarrow> bool"
  decIsNegative :: "LegacyDec \<Rightarrow> bool"
  decGT :: "LegacyDec \<Rightarrow> LegacyDec \<Rightarrow> bool"
  decLT :: "LegacyDec \<Rightarrow> LegacyDec \<Rightarrow> bool"
  decAdd :: "LegacyDec \<Rightarrow> LegacyDec \<Rightarrow> LegacyDec go"
  decMulInt64 :: "LegacyDec \<Rightarrow> i64 \<Rightarrow> LegacyDec go"
  decMulInt :: "LegacyDec \<Rightarrow> int \<Rightarrow> LegacyDec go"
  decTruncateInt :: "LegacyDec \<Rightarrow> int go"
  intInt64 :: "int \<Rightarrow> i64 go"
  intUint64 :: "int \<Rightarrow> u64 go"

abbreviation dec_unit :: int where
  "dec_unit \<equiv> 1000000000000000000"

text \<open>
  The documented behaviour: comparisons of the scaled numbers, exact addition and exact
  multiplication by an integer within the bit limit of the type, truncation towards zero (stated
  for non-negative numbers, the only ones the code truncates), and range-checked conversions to
  the machine integers.
\<close>

definition dec_laws :: "dec_ops \<Rightarrow> bool" where
  "dec_laws D \<longleftrightarrow>
     decZero D = Dec 0 \<and> decOne D = Dec dec_unit \<and>
     (\<forall>d. decIsNil D d \<longleftrightarrow> d = DecNil) \<and>
     (\<forall>x. decIsZero D (Dec x) \<longleftrightarrow> x = 0) \<and>
     (\<forall>x. decIsNegative D (Dec x) \<longleftrightarrow> x < 0) \<and>
     (\<forall>x y. decGT D (Dec x) (Dec y) \<longleftrightarrow> x > y) \<and>
     (\<forall>x y. decLT D (Dec x) (Dec y) \<longleftrightarrow> x < y) \<and>
     (\<forall>x y. \<bar>x + y\<bar> < 2 ^ 255 \<longrightarrow> decAdd D (Dec x) (Dec y) = Ret (Dec (x + y))) \<and>
     (\<forall>x n. \<bar>x * sint n\<bar> < 2 ^ 255 \<longrightarrow> decMulInt64 D (Dec x) n = Ret (Dec (x * sint n))) \<and>
     (\<forall>x n. \<bar>x * n\<bar> < 2 ^ 255 \<longrightarrow> decMulInt D (Dec x) n = Ret (Dec (x * n))) \<and>
     (\<forall>x. 0 \<le> x \<longrightarrow> decTruncateInt D (Dec x) = Ret (x div dec_unit)) \<and>
     (\<forall>i. intInt64 D i = (if - (2 ^ 63) \<le> i \<and> i < 2 ^ 63 then Ret (word_of_int i) else Panic)) \<and>
     (\<forall>i. intUint64 D i = (if 0 \<le> i \<and> i < 2 ^ 64 then Ret (word_of_int i) else Panic))"

fun scaled_binary :: "(int \<Rightarrow> int \<Rightarrow> int) \<Rightarrow> LegacyDec \<Rightarrow> LegacyDec \<Rightarrow> LegacyDec go" where
  "scaled_binary f (Dec x) (Dec y) = (if \<bar>f x y\<bar> < 2 ^ 255 then Ret (Dec (f x y)) else Panic)"
| "scaled_binary f _ _ = Panic"

fun scaled_test :: "(int \<Rightarrow> int \<Rightarrow> bool) \<Rightarrow> LegacyDec \<Rightarrow> LegacyDec \<Rightarrow> bool" where
  "scaled_test f (Dec x) (Dec y) = f x y"
| "scaled_test f _ _ = False"

definition scaled_dec :: dec_ops where
  "scaled_dec = \<lparr> decZero = Dec 0, decOne = Dec dec_unit,
     decIsNil = (\<lambda>d. d = DecNil),
     decIsZero = (\<lambda>d. d = Dec 0),
     decIsNegative = (\<lambda>d. scaled_test (<) d (Dec 0)),
     decGT = scaled_test (>), decLT = scaled_test (<),
     decAdd = scaled_binary (+),
     decMulInt64 = (\<lambda>d n. scaled_binary (*) d (Dec (sint n))),
     decMulInt = (\<lambda>d n. scaled_binary (*) d (Dec n)),
     decTruncateInt = (\<lambda>d. case d of DecNil \<Rightarrow> Panic | Dec x \<Rightarrow> Ret (sgn x * (\<bar>x\<bar> div dec_unit))),
     intInt64 = (\<lambda>i. if - (2 ^ 63) \<le> i \<and> i < 2 ^ 63 then Ret (word_of_int i) else Panic),
     intUint64 = (\<lambda>i. if 0 \<le> i \<and> i < 2 ^ 64 then Ret (word_of_int i) else Panic) \<rparr>"

lemma scaled_dec_laws: "dec_laws scaled_dec"
  by (auto simp: dec_laws_def scaled_dec_def sgn_if)

section \<open>Coins and messages\<close>

text \<open>
  \<open>sdk.Coin\<close>: a denomination and an amount, whose zero value is nil. The three staking messages
  that the free lane looks for are constructors of their own; every other message is
  \<open>OtherMsg\<close> with its type URL.
\<close>

record Coin =
  Denom :: string
  Amount :: "int option"

record MsgAuctionBidData =
  MsgBidder :: string
  MsgBid :: Coin
  MsgTransactions :: "bytes list"

datatype msg =
    MsgAuctionBid MsgAuctionBidData
  | MsgDelegate
  | MsgBeginRedelegate
  | MsgCancelUnbondingDelegation
  | OtherMsg string

section \<open>Coin operations\<close>

text \<open>
  The operations on \<open>sdk.Coin\<close>, \<open>sdk.Coins\<close> and \<open>sdk.DecCoins\<close> that the repository calls; a slice
  of coins is nil or a list. Operations on coins of different denominations, negative results and
  invalid denominations panic.
\<close>

record DecCoin =
  DcDenom :: string
  DcAmount :: LegacyDec

record coin_ops =
  coinIsNil :: "Coin \<Rightarrow> bool"
  coinIsGTE :: "Coin \<Rightarrow> Coin \<Rightarrow> bool go"
  coinIsLTE :: "Coin \<Rightarrow> Coin \<Rightarrow> bool go"
  coinAdd :: "Coin \<Rightarrow> Coin \<Rightarrow> Coin go"
  coinValidate :: "Coin \<Rightarrow> unit go"
  coinString :: "Coin \<Rightarrow> string"
  newCoin :: "string \<Rightarrow> int \<Rightarrow> Coin go"
  newCoins :: "Coin list \<Rightarrow> Coin list go"
  parseCoinsNormalized :: "string \<Rightarrow> Coin list option"
  coinsIsAllGT :: "Coin list \<Rightarrow> Coin list \<Rightarrow> bool"
  coinsIsAllLT :: "Coin list \<Rightarrow> Coin list \<Rightarrow> bool"
  newDecCoinsFromCoins :: "Coin list \<Rightarrow> DecCoin list go"
  decCoinsMulDecTruncate :: "DecCoin list \<Rightarrow> LegacyDec \<Rightarrow> DecCoin list go"
  decCoinsTruncate :: "DecCoin list \<Rightarrow> (Coin list \<times> DecCoin list) go"
  decCoinsSub :: "DecCoin list \<Rightarrow> DecCoin list \<Rightarrow> DecCoin list go"

abbreviation coin_of :: "string \<Rightarrow> int \<Rightarrow> Coin" where
  "coin_of d a \<equiv> \<lparr> Denom = d, Amount = Some a \<rparr>"

abbreviation dec_coin_of :: "string \<Rightarrow> int \<Rightarrow> DecCoin" where
  "dec_coin_of d x \<equiv> \<lparr> DcDenom = d, DcAmount = Dec x \<rparr>"

text \<open>A slice of at most one coin without zero amounts.\<close>

definition one_coin :: "string \<Rightarrow> int \<Rightarrow> Coin list" where
  "one_coin d a = (if a = 0 then [] else [coin_of d a])"

definition one_dec_coin :: "string \<Rightarrow> int \<Rightarrow> DecCoin list" where
  "one_dec_coin d x = (if x = 0 then [] else [dec_coin_of d x])"

text \<open>
  The documented behaviour on one denomination, for non-negative amounts below \<open>2^128\<close>: the
  comparisons and the sum of coins, the parser inverting the printer, coins of one positive
  amount, and decimal coins: multiplication by a fee of at most one rounds down, truncation drops
  the fraction, and zero amounts disappear from the slices.
\<close>

definition coin_laws :: "coin_ops \<Rightarrow> bool" where
  "coin_laws K \<longleftrightarrow>
     (\<forall>c. coinIsNil K c \<longleftrightarrow> Amount c = None) \<and>
     (\<forall>d a b. coinIsGTE K (coin_of d a) (coin_of d b) = Ret (a \<ge> b)) \<and>
     (\<forall>d a b. coinIsLTE K (coin_of d a) (coin_of d b) = Ret (a \<le> b)) \<and>
     (\<forall>d a b. 0 \<le> a \<and> a < 2 ^ 128 \<and> 0 \<le> b \<and> b < 2 ^ 128 \<longrightarrow>
        coinAdd K (coin_of d a) (coin_of d b) = Ret (coin_of d (a + b))) \<and>
     (\<forall>c. coinValidate K c = Ret () \<longrightarrow> (\<exists>a \<ge> 0. Amount c = Some a)) \<and>
     (\<forall>d a. coinValidate K (coin_of d a) = Ret () \<longrightarrow>
        newCoin K d a = Ret (coin_of d a) \<and> newCoins K [coin_of d a] = Ret (one_coin d a)) \<and>
     (\<forall>d a. coinValidate K (coin_of d a) = Ret () \<longrightarrow> newCoin K d 0 = Ret (coin_of d 0)) \<and>
     (\<forall>d a. coinValidate K (coin_of d a) = Ret () \<longrightarrow>
        parseCoinsNormalized K (coinString K (coin_of d a)) = Some (one_coin d a)) \<and>
     parseCoinsNormalized K [] = None \<and>
     (\<forall>d a b. 0 < a \<and> 0 < b \<longrightarrow> coinsIsAllGT K [coin_of d a] [coin_of d b] = (a > b)) \<and>
     (\<forall>d a b. 0 < a \<and> 0 < b \<longrightarrow> coinsIsAllLT K [coin_of d a] [coin_of d b] = (a < b)) \<and>
     newDecCoinsFromCoins K [] = Ret [] \<and>
     (\<forall>d a. 0 < a \<and> a < 2 ^ 128 \<longrightarrow>
        newDecCoinsFromCoins K [coin_of d a] = Ret (one_dec_coin d (a * dec_unit))) \<and>
     (\<forall>d x f. 0 < x \<and> x < 2 ^ 128 * dec_unit \<and> 0 < f \<and> f \<le> dec_unit \<longrightarrow>
        decCoinsMulDecTruncate K [dec_coin_of d x] (Dec f) = Ret (one_dec_coin d (x * f div dec_unit))) \<and>
     (\<forall>d x. 0 \<le> x \<and> x < 2 ^ 128 * dec_unit \<longrightarrow> (\<exists>change.
        decCoinsTruncate K (one_dec_coin d x) = Ret (one_coin d (x div dec_unit), change))) \<and>
     (\<forall>d x y. 0 < x \<and> 0 \<le> y \<and> y \<le> x \<and> x < 2 ^ 128 * dec_unit \<longrightarrow>
        decCoinsSub K [dec_coin_of d x] (one_dec_coin d y) = Ret (one_dec_coin d (x - y)))"

text \<open>The laws one by one.\<close>

lemma coin_lawsD:
  assumes "coin_laws K"
  shows "coinIsNil K c \<longleftrightarrow> Amount c = None"
    and "coinIsGTE K (coin_of d a) (coin_of d b) = Ret (a \<ge> b)"
    and "coinIsLTE K (coin_of d a) (coin_of d b) = Ret (a \<le> b)"
    and "0 \<le> a \<Longrightarrow> a < 2 ^ 128 \<Longrightarrow> 0 \<le> b \<Longrightarrow> b < 2 ^ 128 \<Longrightarrow>
      coinAdd K (coin_of d a) (coin_of d b) = Ret (coin_of d (a + b))"
    and "coinValidate K c = Ret () \<Longrightarrow> \<exists>a \<ge> 0. Amount c = Some a"
    and "coinValidate K (coin_of d a) = Ret () \<Longrightarrow> newCoins K [coin_of d a] = Ret (one_coin d a)"
    and "coinValidate K (coin_of d a) = Ret () \<Longrightarrow> newCoin K d 0 = Ret (coin_of d 0)"
    and "parseCoinsNormalized K [] = None"
  using assms unfolding coin_laws_def by (elim conjE, metis)+

lemma coin_laws_bids:
  assumes "coin_laws K" and "0 < a"
  shows "coinValidate K (coin_of d a) = Ret () \<Longrightarrow>
      parseCoinsNormalized K (coinString K (coin_of d a)) = Some [coin_of d a]"
    and "0 < b \<Longrightarrow> coinsIsAllGT K [coin_of d a] [coin_of d b] = (a > b)"
    and "0 < b \<Longrightarrow> coinsIsAllLT K [coin_of d a] [coin_of d b] = (a < b)"
proof -
  have one: "one_coin d a = [coin_of d a]" using assms(2) by (simp add: one_coin_def)
  show "coinValidate K (coin_of d a) = Ret () \<Longrightarrow>
      parseCoinsNormalized K (coinString K (coin_of d a)) = Some [coin_of d a]"
    using assms(1) one unfolding coin_laws_def by (elim conjE, metis)
  show "0 < b \<Longrightarrow> coinsIsAllGT K [coin_of d a] [coin_of d b] = (a > b)"
    and "0 < b \<Longrightarrow> coinsIsAllLT K [coin_of d a] [coin_of d b] = (a < b)"
    using assms unfolding coin_laws_def by (elim conjE, metis)+
qed

text \<open>
  A concrete instance: coins of any denomination, decimal coins of at most one denomination. The
  textual form of an amount is its length in strokes, followed by the denomination.
\<close>

fun plain_compare :: "(int \<Rightarrow> int \<Rightarrow> 'a) \<Rightarrow> Coin \<Rightarrow> Coin \<Rightarrow> 'a go" where
  "plain_compare f a b = (case (Amount a, Amount b) of
     (Some x, Some y) \<Rightarrow> if Denom a = Denom b then Ret (f x y) else Panic | _ \<Rightarrow> Panic)"

fun plain_all :: "(int \<Rightarrow> int \<Rightarrow> bool) \<Rightarrow> Coin list \<Rightarrow> Coin list \<Rightarrow> bool" where
  "plain_all f [a] [b] = (case (Amount a, Amount b) of (Some x, Some y) \<Rightarrow> Denom a = Denom b \<and> f x y | _ \<Rightarrow> False)"
| "plain_all f _ _ = False"

definition plain_valid :: "Coin \<Rightarrow> bool" where
  "plain_valid c \<longleftrightarrow> (case Amount c of None \<Rightarrow> False | Some a \<Rightarrow> 0 \<le> a) \<and> CHR ''|'' \<notin> set (Denom c)"

definition plain_print :: "Coin \<Rightarrow> string" where
  "plain_print c = (case Amount c of None \<Rightarrow> '''' | Some a \<Rightarrow> CHR ''|'' # replicate (nat a) CHR ''|'' @ Denom c)"

fun plain_parse :: "string \<Rightarrow> Coin list option" where
  "plain_parse [] = None"
| "plain_parse (_ # s) = Some (one_coin (dropWhile (\<lambda>c. c = CHR ''|'') s)
     (int (length (takeWhile (\<lambda>c. c = CHR ''|'') s))))"

fun plain_dec :: "(int \<Rightarrow> int) \<Rightarrow> DecCoin list \<Rightarrow> DecCoin list go" where
  "plain_dec f [] = Ret []"
| "plain_dec f [c] = (case DcAmount c of DecNil \<Rightarrow> Panic | Dec x \<Rightarrow> Ret (one_dec_coin (DcDenom c) (f x)))"
| "plain_dec f _ = Panic"

definition plain_coins :: coin_ops where
  "plain_coins = \<lparr> coinIsNil = (\<lambda>c. Amount c = None),
     coinIsGTE = plain_compare (\<ge>), coinIsLTE = plain_compare (\<le>),
     coinAdd = (\<lambda>a b. go_bind (plain_compare (+) a b) (\<lambda>n. Ret (coin_of (Denom a) n))),
     coinValidate = (\<lambda>c. if plain_valid c then Ret () else Err (ExternalError 3)),
     coinString = plain_print,
     newCoin = (\<lambda>d a. if plain_valid (coin_of d a) then Ret (coin_of d a) else Panic),
     newCoins = (\<lambda>cs. if list_all plain_valid cs then Ret (filter (\<lambda>c. Amount c \<noteq> Some 0) cs) else Panic),
     parseCoinsNormalized = plain_parse,
     coinsIsAllGT = plain_all (>), coinsIsAllLT = plain_all (<),
     newDecCoinsFromCoins = go_map_list (\<lambda>c. case Amount c of None \<Rightarrow> Panic
       | Some a \<Rightarrow> Ret (dec_coin_of (Denom c) (a * dec_unit))),
     decCoinsMulDecTruncate = (\<lambda>cs d. case d of DecNil \<Rightarrow> Panic | Dec f \<Rightarrow> plain_dec (\<lambda>x. x * f div dec_unit) cs),
     decCoinsTruncate = (\<lambda>cs. case cs of [] \<Rightarrow> Ret ([], [])
       | c # _ \<Rightarrow> (case DcAmount c of DecNil \<Rightarrow> Panic
           | Dec x \<Rightarrow> Ret (one_coin (DcDenom c) (x div dec_unit), one_dec_coin (DcDenom c) (x mod dec_unit)))),
     decCoinsSub = (\<lambda>cs ds. case ds of [] \<Rightarrow> Ret cs
       | d # _ \<Rightarrow> (case DcAmount d of DecNil \<Rightarrow> Panic | Dec y \<Rightarrow> plain_dec (\<lambda>x. x - y) cs)) \<rparr>"

lemma takeWhile_strokes:
  "c \<notin> set d \<Longrightarrow> takeWhile (\<lambda>x. x = c) (replicate n c @ d) = replicate n c \<and>
     dropWhile (\<lambda>x. x = c) (replicate n c @ d) = d"
  by (induction n) (auto simp: takeWhile_eq_all_conv dropWhile_eq_self_iff hd_in_set takeWhile_eq_Nil_iff)

lemma plain_parse_print:
  "plain_valid (coin_of d a) \<Longrightarrow> plain_parse (plain_print (coin_of d a)) = Some (one_coin d a)"
  using takeWhile_strokes [of "CHR ''|''" d "nat a"] by (simp add: plain_print_def plain_valid_def)

lemma plain_coins_laws: "coin_laws plain_coins"
  unfolding coin_laws_def
  by (intro conjI allI impI)
     (auto simp: plain_coins_def plain_valid_def one_coin_def one_dec_coin_def plain_parse_print
       split: option.splits if_splits)

section \<open>Transactions\<close>

text \<open>
  \<open>sdk.Tx\<close> is an interface; the record holds what the code observes of a transaction:
  its messages, the gas limit when it implements \<open>sdk.FeeTx\<close>, the result of
  \<open>GetSignaturesV2\<close> when it implements \<open>SigVerifiableTx\<close>, the timeout height when it implements
  \<open>TxWithTimeoutHeight\<close>, and the rest of its content, which only the encoder sees.
  A signature has the address of its public key, \<open>None\<close> when the public key is nil.
\<close>

record Signature =
  SigAddress :: "bytes option"
  SigSequence :: u64

record tx =
  TxMsgs :: "msg list"
  TxGas :: "u64 option"
  TxSignatures :: "Signature list go option"
  TxTimeoutHeight :: "u64 option"
  TxRest :: bytes

type_synonym tx_encoder = "tx \<Rightarrow> bytes go"
type_synonym tx_decoder = "bytes \<Rightarrow> tx go"

section \<open>The SDK context\<close>

text \<open>
  A context value of type \<open>'ctx\<close> stands for an \<open>sdk.Context\<close> together with the state of the store
  behind it; a call that writes to the store returns the context with the new state.
  \<open>CacheContext c\<close> is the branched context, and \<open>WriteCache c c'\<close> the parent \<open>c\<close> after the
  branch, now in state \<open>c'\<close>, has been written back. \<open>ConsBlock\<close> is
  \<open>ctx.ConsensusParams().Block\<close>, which may be nil.
\<close>

record BlockParams =
  ParamMaxBytes :: i64
  ParamMaxGas :: i64

datatype ExecMode = ExecModeCheck | ExecModeReCheck | ExecModeSimulate | ExecModePrepareProposal
  | ExecModeProcessProposal | ExecModeVoteExtension | ExecModeFinalize

record 'ctx ctx_ops =
  CacheContext :: "'ctx \<Rightarrow> 'ctx"
  WriteCache :: "'ctx \<Rightarrow> 'ctx \<Rightarrow> 'ctx"
  ConsBlock :: "'ctx \<Rightarrow> BlockParams option"
  BlockHeight :: "'ctx \<Rightarrow> i64"
  CtxExecMode :: "'ctx \<Rightarrow> ExecMode"
  CtxPriority :: "'ctx \<Rightarrow> i64"

text \<open>
  An ante handler may write to the store of the context it is given even when it fails, so its
  result is that context afterwards, paired with the context it returns.
\<close>

type_synonym 'ctx ante_handler = "'ctx \<Rightarrow> tx \<Rightarrow> bool \<Rightarrow> 'ctx \<times> 'ctx go"

text \<open>
  The documented behaviour of \<open>CacheContext\<close> that theorems use: the branch sees the parent's
  state and keeps its consensus parameters, and writing a branch back gives the parent the
  branch's state.
\<close>

definition ctx_laws :: "'ctx ctx_ops \<Rightarrow> bool" where
  "ctx_laws C \<longleftrightarrow> (\<forall>c. CacheContext C c = c) \<and> (\<forall>c c'. WriteCache C c c' = c')"

record value_context =
  VcBlock :: "BlockParams option"
  VcHeight :: i64
  VcMode :: ExecMode
  VcPriority :: i64
  VcStore :: "string \<Rightarrow> int"

definition value_ctx :: "value_context ctx_ops" where
  "value_ctx = \<lparr> CacheContext = (\<lambda>c. c), WriteCache = (\<lambda>_ c'. c'), ConsBlock = VcBlock,
     BlockHeight = VcHeight, CtxExecMode = VcMode, CtxPriority = VcPriority \<rparr>"

lemma value_ctx_laws: "ctx_laws value_ctx"
  by (simp add: ctx_laws_def value_ctx_def)

section \<open>Addresses\<close>

text \<open>
  \<open>sdk.AccAddress\<close> is a byte slice; its textual form, the parser of that form and its equality
  belong to the SDK.
\<close>

record addr_ops =
  addrString :: "bytes \<Rightarrow> string"
  addrFromBech32 :: "string \<Rightarrow> bytes go"
  addrEquals :: "bytes \<Rightarrow> bytes \<Rightarrow> bool"

text \<open>Documented: equality of addresses is equality of the bytes; the textual form is injective.\<close>

definition addr_laws :: "addr_ops \<Rightarrow> bool" where
  "addr_laws A \<longleftrightarrow> (\<forall>a b. addrEquals A a b \<longleftrightarrow> a = b) \<and>
     (\<forall>a b. addrString A a = addrString A b \<longrightarrow> a = b)"

text \<open>A concrete address record: the textual form of an address is its bytes as characters.\<close>

definition char_addr :: addr_ops where
  "char_addr = \<lparr> addrString = map (\<lambda>b. char_of (unat b)),
     addrFromBech32 = (\<lambda>s. if s = [] then Err (Errorf ''empty address string is not allowed'')
       else Ret (map (\<lambda>c. of_nat (of_char c)) s)),
     addrEquals = (=) \<rparr>"

lemma unat_byte_less: "unat (a :: 8 word) < 256"
proof -
  have "unat a < 2 ^ LENGTH(8)" by (rule unsigned_less)
  then show ?thesis by simp
qed

lemma char_of_unat_inj [simp]:
  "char_of (unat (a :: 8 word)) = (char_of (unat b) :: char) \<longleftrightarrow> a = b"
proof
  assume "char_of (unat a) = (char_of (unat b) :: char)"
  then have "(of_char (char_of (unat a) :: char) :: nat) = of_char (char_of (unat b) :: char)"
    by (rule arg_cong)
  then have "unat a = unat b"
    using unat_byte_less [of a] unat_byte_less [of b] by simp
  then show "a = b" by (rule unsigned_word_eqI)
qed simp

lemma char_addr_laws: "addr_laws char_addr"
proof -
  have "inj (\<lambda>b :: 8 word. char_of (unat b) :: char)"
    by (rule injI, rule char_of_unat_inj [THEN iffD1])
  then have "inj (map (\<lambda>b :: 8 word. char_of (unat b) :: char))"
    by (rule inj_mapI)
  then show ?thesis
    by (auto simp: addr_laws_def char_addr_def dest: injD)
qed

end
