(* ===== verification/Tx_Info.thy ===== *)
theory Tx_Info
  imports Sdk_Interface
begin

text \<open>
  Transaction utilities: the signer extraction adapter
  (\<open>adapters/signer_extraction_adapter/signer_extraction_adapter.go\<close>) and the helpers of
  \<open>block/utils/utils.go\<close>: the record that describes a transaction to a proposal, the textual
  hash, encoding and decoding of slices of transactions, and removal of a slice of transactions
  from a mempool. The hash function of CometBFT transactions and the codec are parameters.
\<close>

section \<open>Signer extraction\<close>

record SignerData =
  Signer :: bytes
  Sequence :: u64

definition NewSignerData :: "bytes \<Rightarrow> u64 \<Rightarrow> SignerData" where
  "NewSignerData signer sequence = \<lparr> Signer = signer, Sequence = sequence \<rparr>"

type_synonym adapter = "tx \<Rightarrow> SignerData list go"

text \<open>One iteration of the loop over the signatures: a nil public key is dereferenced.\<close>

definition signer_of_signature :: "Signature \<Rightarrow> SignerData go" where
  "signer_of_signature sig =
     (case SigAddress sig of
        None \<Rightarrow> Panic
      | Some a \<Rightarrow> Ret \<lparr> Signer = a, Sequence = SigSequence sig \<rparr>)"

definition DefaultAdapter_GetSigners :: adapter where
  "DefaultAdapter_GetSigners t =
     (case TxSignatures t of
        None \<Rightarrow> Err (Errorf ''tx of type %T does not implement SigVerifiableTx'')
      | Some r \<Rightarrow> go_bind r (go_map_list signer_of_signature))"

lemma GetSigners_length:
  "TxSignatures t = Some (Ret sigs) \<Longrightarrow> DefaultAdapter_GetSigners t = Ret ss \<Longrightarrow>
   length ss = length sigs"
  by (auto simp: DefaultAdapter_GetSigners_def dest: go_map_list_length)

lemma GetSigners_sequences:
  "TxSignatures t = Some (Ret sigs) \<Longrightarrow> DefaultAdapter_GetSigners t = Ret ss \<Longrightarrow>
   map Sequence ss = map SigSequence sigs"
  by (auto simp: DefaultAdapter_GetSigners_def signer_of_signature_def
      intro!: go_map_list_Ret_map split: option.splits)

section \<open>Transactions with info\<close>

text \<open>
  \<open>any\<close>: the dynamic value that \<open>Priority\<close> returns; the lanes of the repository return an \<open>int\<close>
  (default), an \<open>int64\<close> (context priority) or a \<open>string\<close> (bids). It is only logged.
\<close>

datatype any = AnyInt int | AnyInt64 i64 | AnyString string

record TxWithInfo =
  Hash :: string
  Size :: i64
  TxGasLimit :: u64
  TxBytes :: bytes
  TxPriorityValue :: any
  Signers :: "SignerData list"

definition NewTxInfo ::
    "string \<Rightarrow> i64 \<Rightarrow> u64 \<Rightarrow> bytes \<Rightarrow> any \<Rightarrow> SignerData list \<Rightarrow> TxWithInfo" where
  "NewTxInfo h sz gasLimit txBytes priority signers =
     \<lparr> Hash = h, Size = sz, TxGasLimit = gasLimit, TxBytes = txBytes,
       TxPriorityValue = priority, Signers = signers \<rparr>"

section \<open>Hashes\<close>

text \<open>\<open>hex.EncodeToString\<close> and \<open>strings.ToUpper\<close> of Go's standard library (ASCII).\<close>

definition hex_digit :: "nat \<Rightarrow> char" where
  "hex_digit n = ''0123456789abcdef'' ! n"

definition hex_byte :: "8 word \<Rightarrow> string" where
  "hex_byte b = [hex_digit (unat b div 16), hex_digit (unat b mod 16)]"

definition EncodeToString :: "bytes \<Rightarrow> string" where
  "EncodeToString bs = concat (map hex_byte bs)"

definition upper_char :: "char \<Rightarrow> char" where
  "upper_char c = (let n = of_char c :: nat in if 97 \<le> n \<and> n \<le> 122 then char_of (n - 32) else c)"

definition ToUpper :: "string \<Rightarrow> string" where
  "ToUpper s = map upper_char s"

definition TxHash :: "(bytes \<Rightarrow> bytes) \<Rightarrow> bytes \<Rightarrow> string" where
  "TxHash H txBytes = ToUpper (EncodeToString (H txBytes))"

definition GetTxHash :: "(bytes \<Rightarrow> bytes) \<Rightarrow> tx_encoder \<Rightarrow> tx \<Rightarrow> string go" where
  "GetTxHash H encoder t =
     go_bind (wrap_err ''failed to encode transaction'' (encoder t))
       (\<lambda>txBz. Ret (TxHash H txBz))"

lemma less_16_cases:
  "n < (16::nat) \<Longrightarrow> n \<in> {0, 1, 2, 3, 4, 5, 6, 7, 8, 9, 10, 11, 12, 13, 14, 15}"
  by (simp, arith)

lemma upper_hex_digit:
  assumes "n < 16"
  shows "upper_char (hex_digit n) = ''0123456789ABCDEF'' ! n"
  using less_16_cases [OF assms] by (auto simp: hex_digit_def upper_char_def char_of_def bit_Suc bit_0)

lemma upper_hex_digit_inj:
  assumes "m < 16" and "n < 16"
  shows "upper_char (hex_digit m) = upper_char (hex_digit n) \<longleftrightarrow> m = n"
proof -
  have "distinct ''0123456789ABCDEF''" by simp
  then show ?thesis
    using assms by (simp add: upper_hex_digit nth_eq_iff_index_eq)
qed

lemma upper_hex_byte_inj:
  "map upper_char (hex_byte a) = map upper_char (hex_byte b) \<longleftrightarrow> a = b"
proof
  assume "map upper_char (hex_byte a) = map upper_char (hex_byte b)"
  moreover have "unat a div 16 < 16" "unat b div 16 < 16" "unat a mod 16 < 16" "unat b mod 16 < 16"
    using unat_byte_less [of a] unat_byte_less [of b] by auto
  ultimately have "unat a div 16 = unat b div 16" and "unat a mod 16 = unat b mod 16"
    by (simp_all add: hex_byte_def upper_hex_digit_inj)
  then have "unat a = unat b" by (metis div_mult_mod_eq)
  then show "a = b" by (rule unsigned_word_eqI)
qed simp

lemma length_hex_byte [simp]: "length (hex_byte b) = 2"
  by (simp add: hex_byte_def)

lemma upper_hex_inj: "ToUpper (EncodeToString bs) = ToUpper (EncodeToString cs) \<longleftrightarrow> bs = cs"
proof (induction bs arbitrary: cs)
  case Nil
  then show ?case
    by (cases cs) (auto simp: ToUpper_def EncodeToString_def hex_byte_def)
next
  case (Cons b bs)
  show ?case
  proof (cases cs)
    case Nil
    then show ?thesis by (auto simp: ToUpper_def EncodeToString_def hex_byte_def)
  next
    case (Cons c cs')
    then show ?thesis
      using Cons.IH [of cs'] upper_hex_byte_inj [of b c]
      by (auto simp: ToUpper_def EncodeToString_def append_eq_append_conv)
  qed
qed

lemma TxHash_eq_iff: "TxHash H a = TxHash H b \<longleftrightarrow> H a = H b"
  by (simp add: TxHash_def upper_hex_inj)

lemma length_TxHash: "length (TxHash H a) = 2 * length (H a)"
proof -
  have "length (EncodeToString bs) = 2 * length bs" for bs
    by (induction bs) (auto simp: EncodeToString_def)
  then show ?thesis by (simp add: TxHash_def ToUpper_def)
qed

section \<open>Slices of transactions\<close>

definition GetDecodedTxs :: "tx_decoder \<Rightarrow> bytes list \<Rightarrow> tx list go" where
  "GetDecodedTxs txDecoder =
     go_map_list (\<lambda>txBz. wrap_err ''failed to decode transaction'' (txDecoder txBz))"

definition GetEncodedTxs :: "tx_encoder \<Rightarrow> tx list \<Rightarrow> bytes list go" where
  "GetEncodedTxs txEncoder =
     go_map_list (\<lambda>t. wrap_err ''failed to encode transaction'' (txEncoder t))"

text \<open>
  A codec is faithful when decoding inverts encoding; then the two loops are inverse.
\<close>

definition codec_faithful :: "tx_encoder \<Rightarrow> tx_decoder \<Rightarrow> bool" where
  "codec_faithful enc dec \<longleftrightarrow> (\<forall>t bz. enc t = Ret bz \<longrightarrow> dec bz = Ret t)"

lemma encoded_then_decoded:
  assumes "codec_faithful enc dec"
  shows "GetEncodedTxs enc txs = Ret bzs \<Longrightarrow> GetDecodedTxs dec bzs = Ret txs"
proof (induction txs arbitrary: bzs)
  case Nil
  then show ?case by (simp add: GetEncodedTxs_def GetDecodedTxs_def)
next
  case (Cons t txs)
  then obtain bz bzs' where "enc t = Ret bz" "GetEncodedTxs enc txs = Ret bzs'" "bzs = bz # bzs'"
    by (auto simp: GetEncodedTxs_def go_simps)
  then show ?case
    using assms Cons.IH [of bzs'] by (auto simp: GetDecodedTxs_def codec_faithful_def)
qed

text \<open>
  \<open>RemoveTxsFromLane\<close> stops at the first error; removals made before it stay.
\<close>

fun RemoveTxsFromLane :: "('m \<Rightarrow> tx \<Rightarrow> 'm \<times> unit go) \<Rightarrow> tx list \<Rightarrow> 'm \<Rightarrow> 'm \<times> unit go" where
  "RemoveTxsFromLane remove [] m = (m, Ret ())"
| "RemoveTxsFromLane remove (t # txs) m =
     (case remove m t of
        (m', Ret _) \<Rightarrow> RemoveTxsFromLane remove txs m'
      | (m', Err e) \<Rightarrow> (m', Err e)
      | (m', Panic) \<Rightarrow> (m', Panic))"

text \<open>What every removal keeps, the loop keeps.\<close>

lemma RemoveTxsFromLane_invariant:
  assumes step: "\<And>m t. P m \<Longrightarrow> P (fst (remove m t))"
  shows "P m \<Longrightarrow> P (fst (RemoveTxsFromLane remove txs m))"
proof (induction txs arbitrary: m)
  case Nil
  then show ?case by simp
next
  case (Cons t txs)
  from Cons.prems have "P (fst (remove m t))" by (rule step)
  then show ?case
    using Cons.IH [of "fst (remove m t)"] by (auto split: prod.splits go.splits)
qed

text \<open>A transaction, its encoding and its decoding, for the concrete instances of the theorems.\<close>

definition sample_tx :: "bytes \<Rightarrow> tx" where
  "sample_tx bz = \<lparr> TxMsgs = [OtherMsg ''/cosmos.bank.v1beta1.MsgSend''], TxGas = Some 5,
     TxSignatures = Some (Ret [\<lparr> SigAddress = Some [7], SigSequence = 1 \<rparr>]),
     TxTimeoutHeight = Some 0, TxRest = bz \<rparr>"

definition sample_encode :: "tx \<Rightarrow> bytes go" where
  "sample_encode t = (if t = sample_tx (TxRest t) \<and> length (TxRest t) < 2 ^ 31
     then Ret (TxRest t) else Err (ExternalError 1))"

lemma sample_tx_eq_iff [simp]: "sample_tx a = sample_tx b \<longleftrightarrow> a = b"
  by (simp add: sample_tx_def)

lemma sample_encode_tx [simp]: "length bz < 2 ^ 31 \<Longrightarrow> sample_encode (sample_tx bz) = Ret bz"
  by (simp add: sample_encode_def sample_tx_def)

lemma sample_tx_simps [simp]:
  "TxGas (sample_tx bz) = Some 5"
  "TxRest (sample_tx bz) = bz"
  "DefaultAdapter_GetSigners (sample_tx bz) = Ret [\<lparr> Signer = [7], Sequence = 1 \<rparr>]"
  by (simp_all add: sample_tx_def DefaultAdapter_GetSigners_def signer_of_signature_def)

definition sample_decode :: tx_decoder where
  "sample_decode bz = (if length bz < 2 ^ 31 then Ret (sample_tx bz) else Err (ExternalError 2))"

lemma sample_decode_short [simp]: "length bz < 2 ^ 31 \<Longrightarrow> sample_decode bz = Ret (sample_tx bz)"
  by (simp add: sample_decode_def)

lemma sample_codec_faithful: "codec_faithful sample_encode sample_decode"
  by (auto simp: codec_faithful_def sample_encode_def sample_decode_def split: if_splits)

end
