(* ===== verification/Proposals.thy ===== *)
theory Proposals
  imports Tx_Info
begin

text \<open>
  The block proposal (\<open>block/proposals/proposals.go\<close>, \<open>update.go\<close>, \<open>utils.go\<close> and the message
  \<open>ProposalInfo\<close> of \<open>block/proposals/types\<close>): its state, the limits of a lane, and the one
  operation that changes it, \<open>UpdateProposal\<close>. The lemmas give the result of the aggregation
  loop in closed form, the frame of a failing update, the arithmetic of the limits in unbounded
  integers, the bookkeeping invariant of a proposal, and an abstract specification that
  \<open>UpdateProposal\<close> refines, with sums reduced to 64 bits, and ideal ones as long as these do not wrap.
\<close>

section \<open>State\<close>

text \<open>
  The map \<open>Cache\<close> has empty structs as values: it is a set of hashes. A nil \<open>TxsByLane\<close> is the empty map:
  the code writes only to maps that \<open>NewProposal\<close> made.
\<close>

record ProposalInfo =
  TxsByLane :: "string \<rightharpoonup> u64"
  MaxBlockSize :: i64
  MaxGasLimit :: u64
  BlockSize :: i64
  GasLimit :: u64

record Proposal =
  Txs :: "bytes list"
  Cache :: "string set"
  Info :: ProposalInfo

record LaneLimits =
  LimMaxTxBytes :: i64
  LimMaxGasLimit :: u64

definition MaxUint64 :: u64 where
  "MaxUint64 = - 1"

text \<open>The block parameters are read through a pointer: reading a nil pointer panics.\<close>

definition GetBlockLimits :: "'ctx ctx_ops \<Rightarrow> 'ctx \<Rightarrow> (i64 \<times> u64) go" where
  "GetBlockLimits C ctx =
     (case ConsBlock C ctx of
        None \<Rightarrow> Panic
      | Some blockParams \<Rightarrow>
          (let maxGas = ParamMaxGas blockParams;
               maxGasLimit = (if 0 <s maxGas then maxGas else MaxUint64)
           in Ret (ParamMaxBytes blockParams, maxGasLimit)))"

definition NewProposal :: "i64 \<Rightarrow> u64 \<Rightarrow> Proposal" where
  "NewProposal maxBlockSize maxGasLimit =
     \<lparr> Txs = [], Cache = {},
       Info = \<lparr> TxsByLane = Map.empty, MaxBlockSize = maxBlockSize, MaxGasLimit = maxGasLimit,
                BlockSize = 0, GasLimit = 0 \<rparr> \<rparr>"

definition NewProposalWithContext :: "'ctx ctx_ops \<Rightarrow> 'ctx \<Rightarrow> Proposal go" where
  "NewProposalWithContext C ctx =
     go_bind (GetBlockLimits C ctx) (\<lambda>(maxBlockSize, maxGasLimit).
       Ret (NewProposal maxBlockSize maxGasLimit))"

section \<open>Operations\<close>

definition GetLaneLimits :: "dec_ops \<Rightarrow> Proposal \<Rightarrow> LegacyDec \<Rightarrow> LaneLimits go" where
  "GetLaneLimits D p ratio =
     (if decIsZero D ratio then
        (let txBytes = MaxBlockSize (Info p) - BlockSize (Info p);
             txBytes = (if txBytes <s 0 then 0 else txBytes);
             gasLimit = (if MaxGasLimit (Info p) \<le> GasLimit (Info p) then 0
                         else MaxGasLimit (Info p) - GasLimit (Info p))
         in Ret \<lparr> LimMaxTxBytes = txBytes, LimMaxGasLimit = gasLimit \<rparr>)
      else
        go_bind (decMulInt64 D ratio (MaxBlockSize (Info p))) (\<lambda>d1.
        go_bind (decTruncateInt D d1) (\<lambda>i1.
        go_bind (intInt64 D i1) (\<lambda>txBytes.
        go_bind (decMulInt D ratio (uint (MaxGasLimit (Info p)))) (\<lambda>d2.
        go_bind (decTruncateInt D d2) (\<lambda>i2.
        go_bind (intUint64 D i2) (\<lambda>gasLimit.
          Ret \<lparr> LimMaxTxBytes = txBytes, LimMaxGasLimit = gasLimit \<rparr>)))))))"

definition Contains :: "Proposal \<Rightarrow> string \<Rightarrow> bool" where
  "Contains p txHash \<longleftrightarrow> txHash \<in> Cache p"

text \<open>
  The loop of \<open>UpdateProposal\<close>: the accumulators are the set of hashes, the size, the gas limit
  and the transaction bytes of the partial proposal.
\<close>

fun aggregate :: "string set \<Rightarrow> TxWithInfo list \<Rightarrow> string set \<Rightarrow> i64 \<Rightarrow> u64 \<Rightarrow> bytes list \<Rightarrow>
    (string set \<times> i64 \<times> u64 \<times> bytes list) go" where
  "aggregate cache [] hashes sz gas txs = Ret (hashes, sz, gas, txs)"
| "aggregate cache (t # ts) hashes sz gas txs =
     (if Hash t \<in> cache then Err (Errorf ''transaction %s is already in the proposal'')
      else aggregate cache ts (insert (Hash t) hashes) (sz + Size t) (gas + TxGasLimit t)
             (txs @ [TxBytes t]))"

text \<open>
  \<open>UpdateProposal\<close> has a pointer receiver: the model returns the proposal after the call, next to
  the outcome. The lane is the pair of its name and its block space.
\<close>

definition UpdateProposal ::
    "dec_ops \<Rightarrow> string \<Rightarrow> LegacyDec \<Rightarrow> Proposal \<Rightarrow> TxWithInfo list \<Rightarrow> Proposal \<times> unit go" where
  "UpdateProposal D laneName maxBlockSpace p partialProposal =
     (if partialProposal = [] then (p, Ret ())
      else if TxsByLane (Info p) laneName \<noteq> None
      then (p, Err (Errorf ''lane %s already prepared a partial proposal''))
      else
        (case aggregate (Cache p) partialProposal {} 0 0 [] of
           Err e \<Rightarrow> (p, Err e)
         | Panic \<Rightarrow> (p, Panic)
         | Ret (hashes, partialProposalSize, partialProposalGasLimit, txs) \<Rightarrow>
        (case GetLaneLimits D p maxBlockSpace of
           Err e \<Rightarrow> (p, Err e)
         | Panic \<Rightarrow> (p, Panic)
         | Ret limit \<Rightarrow>
             (let updatedSize = BlockSize (Info p) + partialProposalSize;
                  updatedGasLimit = GasLimit (Info p) + partialProposalGasLimit
              in
              if LimMaxTxBytes limit <s partialProposalSize
              then (p, Err (Errorf ''partial proposal is too large: %d > %d''))
              else if LimMaxGasLimit limit < partialProposalGasLimit
              then (p, Err (Errorf ''partial proposal consumes too much gas: %d > %d''))
              else if MaxBlockSize (Info p) <s updatedSize
              then (p, Err (Errorf ''block proposal is too large: %d > %d''))
              else if MaxGasLimit (Info p) < updatedGasLimit
              then (p, Err (Errorf ''block proposal consumes too much gas: %d > %d''))
              else
                (p\<lparr> Info := (Info p)\<lparr>
                       BlockSize := updatedSize,
                       GasLimit := updatedGasLimit,
                       TxsByLane := (TxsByLane (Info p))
                         (laneName \<mapsto> of_nat (length partialProposal)) \<rparr>,
                     Txs := Txs p @ txs,
                     Cache := Cache p \<union> hashes \<rparr>, Ret ())))))"

section \<open>The aggregation loop\<close>

abbreviation total_size :: "TxWithInfo list \<Rightarrow> int" where
  "total_size ts \<equiv> sum_list (map (\<lambda>t. sint (Size t)) ts)"

abbreviation total_gas :: "TxWithInfo list \<Rightarrow> int" where
  "total_gas ts \<equiv> sum_list (map (\<lambda>t. uint (TxGasLimit t)) ts)"

lemma aggregate_eq:
  "aggregate cache ts hashes sz gas txs =
     (if \<exists>t \<in> set ts. Hash t \<in> cache
      then Err (Errorf ''transaction %s is already in the proposal'')
      else Ret (hashes \<union> Hash ` set ts, sz + sum_list (map Size ts),
                gas + sum_list (map TxGasLimit ts), txs @ map TxBytes ts))"
  by (induction ts arbitrary: hashes sz gas txs) (auto simp: add.assoc)

lemma UpdateProposal_Nil [simp]: "UpdateProposal D n s p [] = (p, Ret ())"
  by (simp add: UpdateProposal_def)

text \<open>The proposal that a successful, non-empty update leaves.\<close>

definition updated_proposal :: "string \<Rightarrow> Proposal \<Rightarrow> TxWithInfo list \<Rightarrow> Proposal" where
  "updated_proposal n p ts =
     p\<lparr> Info := (Info p)\<lparr>
          BlockSize := BlockSize (Info p) + sum_list (map Size ts),
          GasLimit := GasLimit (Info p) + sum_list (map TxGasLimit ts),
          TxsByLane := (TxsByLane (Info p))(n \<mapsto> of_nat (length ts)) \<rparr>,
        Txs := Txs p @ map TxBytes ts,
        Cache := Cache p \<union> Hash ` set ts \<rparr>"

text \<open>The guards of a non-empty update, in the words of the code.\<close>

definition update_guards :: "string \<Rightarrow> Proposal \<Rightarrow> LaneLimits \<Rightarrow> TxWithInfo list \<Rightarrow> bool" where
  "update_guards n p lim ts \<longleftrightarrow>
     TxsByLane (Info p) n = None \<and> Cache p \<inter> Hash ` set ts = {} \<and>
     \<not> LimMaxTxBytes lim <s sum_list (map Size ts) \<and>
     \<not> LimMaxGasLimit lim < sum_list (map TxGasLimit ts) \<and>
     \<not> MaxBlockSize (Info p) <s BlockSize (Info p) + sum_list (map Size ts) \<and>
     \<not> MaxGasLimit (Info p) < GasLimit (Info p) + sum_list (map TxGasLimit ts)"

lemma UpdateProposal_Ret_iff:
  assumes "ts \<noteq> []"
  shows "UpdateProposal D n s p ts = (p', Ret ()) \<longleftrightarrow>
    (\<exists>lim. GetLaneLimits D p s = Ret lim \<and> update_guards n p lim ts \<and> p' = updated_proposal n p ts)"
  using assms
  by (auto simp: UpdateProposal_def aggregate_eq update_guards_def updated_proposal_def Let_def
      split: go.splits if_splits)

lemma UpdateProposal_cases:
  obtains (skip) "ts = []" "UpdateProposal D n s p ts = (p, Ret ())"
  | (ok) lim where "ts \<noteq> []" "GetLaneLimits D p s = Ret lim" "update_guards n p lim ts"
      "UpdateProposal D n s p ts = (updated_proposal n p ts, Ret ())"
  | (err) e where "ts \<noteq> []" "UpdateProposal D n s p ts = (p, Err e)"
  | (panic) "ts \<noteq> []" "UpdateProposal D n s p ts = (p, Panic)"
proof (cases "ts = []")
  case True
  then show ?thesis using skip by simp
next
  case ne: False
  show ?thesis
  proof (cases "snd (UpdateProposal D n s p ts) = Ret ()")
    case True
    then have "UpdateProposal D n s p ts = (fst (UpdateProposal D n s p ts), Ret ())"
      by (metis prod.collapse)
    then show ?thesis using ok ne UpdateProposal_Ret_iff [OF ne] by metis
  next
    case False
    then have "fst (UpdateProposal D n s p ts) = p"
      using ne by (auto simp: UpdateProposal_def Let_def split: go.splits if_splits)
    with False show ?thesis using err panic ne
      by (cases "snd (UpdateProposal D n s p ts)") (auto simp: prod_eq_iff)
  qed
qed

text \<open>A failing \<open>UpdateProposal\<close> changes nothing: whatever guard refuses the partial proposal
  (or panics inside the limit computation), the proposal and its maps are exactly as before.\<close>

lemma UpdateProposal_failure_frame:
  assumes "snd (UpdateProposal D n s p ts) \<noteq> Ret ()"
  shows "fst (UpdateProposal D n s p ts) = p"
  using assms by (cases rule: UpdateProposal_cases [of ts D n s p]) auto

section \<open>Reading the machine sums in the integers\<close>

definition sums_fit :: "Proposal \<Rightarrow> TxWithInfo list \<Rightarrow> bool" where
  "sums_fit p ts \<longleftrightarrow>
     (\<forall>t \<in> set ts. 0 \<le> sint (Size t)) \<and> 0 \<le> sint (BlockSize (Info p)) \<and>
     sint (BlockSize (Info p)) + total_size ts < 2 ^ 63 \<and>
     uint (GasLimit (Info p)) + total_gas ts < 2 ^ 64"

lemma sums_fit_readings:
  assumes "sums_fit p ts"
  shows "sint (sum_list (map Size ts)) = total_size ts"
    and "uint (sum_list (map TxGasLimit ts)) = total_gas ts"
    and "sint (BlockSize (Info p) + sum_list (map Size ts)) = sint (BlockSize (Info p)) + total_size ts"
    and "uint (GasLimit (Info p) + sum_list (map TxGasLimit ts)) =
      uint (GasLimit (Info p)) + total_gas ts"
proof -
  have nn: "0 \<le> total_size ts" "0 \<le> total_gas ts"
    using assms by (auto simp: sums_fit_def intro!: sum_list_nonneg_map)
  show sz: "sint (sum_list (map Size ts)) = total_size ts"
    using assms nn by (simp add: sum_list_sint_64 o_def sums_fit_def i64_arith)
  show gas: "uint (sum_list (map TxGasLimit ts)) = total_gas ts"
  proof -
    have "total_gas ts < 2 ^ 64"
      using assms uint_ge_0 [of "GasLimit (Info p)"] unfolding sums_fit_def by linarith
    with nn show ?thesis by (simp add: sum_list_uint_64 o_def i64_arith)
  qed
  show "sint (BlockSize (Info p) + sum_list (map Size ts)) = sint (BlockSize (Info p)) + total_size ts"
    unfolding add_sint_64 [of "BlockSize (Info p)"] sz
    by (rule sint_word_of_int_64) (use assms nn in \<open>auto simp: sums_fit_def\<close>)
  show "uint (GasLimit (Info p) + sum_list (map TxGasLimit ts)) =
      uint (GasLimit (Info p)) + total_gas ts"
    unfolding add_uint_64 [of "GasLimit (Info p)"] gas
    by (rule uint_word_of_int_64) (use assms nn in \<open>auto simp: sums_fit_def\<close>)
qed

lemma update_guards_int:
  assumes "sums_fit p ts"
  shows "update_guards n p lim ts \<longleftrightarrow>
     TxsByLane (Info p) n = None \<and> Cache p \<inter> Hash ` set ts = {} \<and>
     total_size ts \<le> sint (LimMaxTxBytes lim) \<and> total_gas ts \<le> uint (LimMaxGasLimit lim) \<and>
     sint (BlockSize (Info p)) + total_size ts \<le> sint (MaxBlockSize (Info p)) \<and>
     uint (GasLimit (Info p)) + total_gas ts \<le> uint (MaxGasLimit (Info p))"
  using sums_fit_readings [OF assms]
  by (auto simp: update_guards_def word_sless_alt word_less_def)

lemma updated_proposal_simps [simp]:
  "Txs (updated_proposal n p ts) = Txs p @ map TxBytes ts"
  "Cache (updated_proposal n p ts) = Cache p \<union> Hash ` set ts"
  "MaxBlockSize (Info (updated_proposal n p ts)) = MaxBlockSize (Info p)"
  "MaxGasLimit (Info (updated_proposal n p ts)) = MaxGasLimit (Info p)"
  "BlockSize (Info (updated_proposal n p ts)) = BlockSize (Info p) + sum_list (map Size ts)"
  "GasLimit (Info (updated_proposal n p ts)) = GasLimit (Info p) + sum_list (map TxGasLimit ts)"
  "TxsByLane (Info (updated_proposal n p ts)) = (TxsByLane (Info p))(n \<mapsto> of_nat (length ts))"
  by (simp_all add: updated_proposal_def)

text \<open>When the sums fit in 64 bits, a successful update keeps the proposal, counted in
  unbounded integers, within the block limits, adds no more than the lane's own limits, and adds
  exactly the given transactions at the end.\<close>

lemma UpdateProposal_within_limits:
  assumes "ts \<noteq> []" and "sums_fit p ts" and "UpdateProposal D n s p ts = (p', Ret ())"
  shows "\<exists>lim. GetLaneLimits D p s = Ret lim \<and>
     total_size ts \<le> sint (LimMaxTxBytes lim) \<and> total_gas ts \<le> uint (LimMaxGasLimit lim) \<and>
     sint (BlockSize (Info p')) = sint (BlockSize (Info p)) + total_size ts \<and>
     sint (BlockSize (Info p')) \<le> sint (MaxBlockSize (Info p')) \<and>
     uint (GasLimit (Info p')) = uint (GasLimit (Info p)) + total_gas ts \<and>
     uint (GasLimit (Info p')) \<le> uint (MaxGasLimit (Info p')) \<and>
     Txs p' = Txs p @ map TxBytes ts \<and> TxsByLane (Info p) n = None"
  using assms(3) sums_fit_readings [OF assms(2)]
  by (auto simp: UpdateProposal_Ret_iff [OF assms(1)] update_guards_int [OF assms(2)])

text \<open>The gas invariant of \<open>UpdateProposal\<close> is a check on a wrapped sum: a proposal with a
  gas limit of 100 accepts two transactions whose gas limits are \<open>2^63\<close> each, and then records
  that no gas at all is used.\<close>

lemma UpdateProposal_gas_wraps:
  "let p = NewProposal 1000 100;
       a = NewTxInfo ''AA'' 1 (2 ^ 63) [1] (AnyInt 0) [];
       b = NewTxInfo ''BB'' 1 (2 ^ 63) [2] (AnyInt 0) [];
       r = UpdateProposal scaled_dec ''default'' (Dec 0) p [a, b]
   in snd r = Ret () \<and> GasLimit (Info (fst r)) = 0 \<and> Txs (fst r) = [[1], [2]] \<and>
      total_gas [a, b] > uint (MaxGasLimit (Info p))"
  by (simp add: UpdateProposal_def GetLaneLimits_def scaled_dec_def NewProposal_def NewTxInfo_def
      Let_def word_sless_alt)

text \<open>The cache is consulted but not extended inside the loop, so the same transaction twice
  in one partial proposal is accepted: the proposal then holds it twice.\<close>

lemma UpdateProposal_duplicate_in_partial:
  assumes "ts \<noteq> []" and "sums_fit p (ts @ ts)" and "GetLaneLimits D p s = Ret lim"
    and "update_guards n p lim ts"
    and "2 * total_size ts \<le> sint (LimMaxTxBytes lim)" and "2 * total_gas ts \<le> uint (LimMaxGasLimit lim)"
    and "sint (BlockSize (Info p)) + 2 * total_size ts \<le> sint (MaxBlockSize (Info p))"
    and "uint (GasLimit (Info p)) + 2 * total_gas ts \<le> uint (MaxGasLimit (Info p))"
  shows "\<exists>p'. UpdateProposal D n s p (ts @ ts) = (p', Ret ()) \<and>
     Txs p' = Txs p @ map TxBytes ts @ map TxBytes ts"
proof -
  have "update_guards n p lim (ts @ ts)"
    unfolding update_guards_int [OF assms(2)] using assms(4-8) by (auto simp: update_guards_def)
  with assms(1,3) have "UpdateProposal D n s p (ts @ ts) = (updated_proposal n p (ts @ ts), Ret ())"
    by (subst UpdateProposal_Ret_iff) auto
  then show ?thesis by simp
qed

section \<open>The abstract block under construction\<close>

text \<open>
  What a proposal promises: lanes take turns, each at most once, and a turn is granted iff its
  transactions are new and fit both in the lane's share and in the block. \<open>rb\<close> and \<open>rg\<close> say how the
  sums of sizes and of gas limits are read: as they are in the ideal block, reduced to 64 bits in the
  one the code keeps.
\<close>

record BlockSpec =
  specTxs :: "bytes list"
  specHashes :: "string set"
  specLanes :: "string \<rightharpoonup> nat"
  specBytes :: int
  specGas :: int
  specMaxBytes :: int
  specMaxGas :: int

definition abs_proposal :: "Proposal \<Rightarrow> BlockSpec" where
  "abs_proposal p =
     \<lparr> specTxs = Txs p, specHashes = Cache p,
       specLanes = (\<lambda>n. map_option unat (TxsByLane (Info p) n)),
       specBytes = sint (BlockSize (Info p)), specGas = uint (GasLimit (Info p)),
       specMaxBytes = sint (MaxBlockSize (Info p)), specMaxGas = uint (MaxGasLimit (Info p)) \<rparr>"

definition spec_update ::
    "(int \<Rightarrow> int) \<Rightarrow> (int \<Rightarrow> int) \<Rightarrow> string \<Rightarrow> int \<Rightarrow> int \<Rightarrow> BlockSpec \<Rightarrow> TxWithInfo list \<Rightarrow> BlockSpec option" where
  "spec_update rb rg n laneBytes laneGas b ts =
     (if specLanes b n = None \<and> specHashes b \<inter> Hash ` set ts = {} \<and>
         rb (total_size ts) \<le> laneBytes \<and> rg (total_gas ts) \<le> laneGas \<and>
         rb (specBytes b + total_size ts) \<le> specMaxBytes b \<and>
         rg (specGas b + total_gas ts) \<le> specMaxGas b
      then Some (b\<lparr> specTxs := specTxs b @ map TxBytes ts,
                    specHashes := specHashes b \<union> Hash ` set ts,
                    specLanes := (specLanes b)(n \<mapsto> length ts),
                    specBytes := rb (specBytes b + total_size ts),
                    specGas := rg (specGas b + total_gas ts) \<rparr>)
      else None)"

abbreviation ideal_update :: "string \<Rightarrow> int \<Rightarrow> int \<Rightarrow> BlockSpec \<Rightarrow> TxWithInfo list \<Rightarrow> BlockSpec option" where
  "ideal_update \<equiv> spec_update (\<lambda>x. x) (\<lambda>x. x)"

text \<open>The value of a signed and of an unsigned 64-bit sum.\<close>

definition wrap_signed :: "int \<Rightarrow> int" where
  "wrap_signed x = (x + 2 ^ 63) mod 2 ^ 64 - 2 ^ 63"

definition wrap_unsigned :: "int \<Rightarrow> int" where
  "wrap_unsigned x = x mod 2 ^ 64"

lemma wrap_sint: "sint (word_of_int x :: 64 word) = wrap_signed x"
  by (simp add: wrap_signed_def sint_sbintrunc' signed_take_bit_eq_take_bit_shift take_bit_eq_mod)

lemma wrap_uint: "uint (word_of_int x :: 64 word) = wrap_unsigned x"
  by (simp add: wrap_unsigned_def uint_word_of_int)

lemma wrapped_sums:
  "sint (sum_list (map Size ts)) = wrap_signed (total_size ts)"
  "uint (sum_list (map TxGasLimit ts)) = wrap_unsigned (total_gas ts)"
  "sint (a + sum_list (map Size ts)) = wrap_signed (sint a + total_size ts)"
  "uint (g + sum_list (map TxGasLimit ts)) = wrap_unsigned (uint g + total_gas ts)"
proof -
  have sums: "sum_list (map Size ts) = word_of_int (total_size ts)" "sum_list (map TxGasLimit ts) = word_of_int (total_gas ts)"
    by (simp_all add: sum_list_sint_64 [of "map Size ts"] sum_list_uint_64 [of "map TxGasLimit ts"] o_def)
  show "sint (sum_list (map Size ts)) = wrap_signed (total_size ts)"
    "uint (sum_list (map TxGasLimit ts)) = wrap_unsigned (total_gas ts)"
    unfolding sums by (rule wrap_sint wrap_uint)+
  have "a + word_of_int x = word_of_int (sint a + x)" "g + word_of_int x = word_of_int (uint g + x)" for x
    by (simp_all add: wi_hom_add [symmetric])
  then show "sint (a + sum_list (map Size ts)) = wrap_signed (sint a + total_size ts)"
    "uint (g + sum_list (map TxGasLimit ts)) = wrap_unsigned (uint g + total_gas ts)"
    unfolding sums by (simp_all only: wrap_sint wrap_uint)
qed

lemma abs_proposal_fields [simp]:
  "specTxs (abs_proposal p) = Txs p"
  "specHashes (abs_proposal p) = Cache p"
  "specLanes (abs_proposal p) n = map_option unat (TxsByLane (Info p) n)"
  "specBytes (abs_proposal p) = sint (BlockSize (Info p))"
  "specGas (abs_proposal p) = uint (GasLimit (Info p))"
  "specMaxBytes (abs_proposal p) = sint (MaxBlockSize (Info p))"
  "specMaxGas (abs_proposal p) = uint (MaxGasLimit (Info p))"
  by (simp_all add: abs_proposal_def)

lemma unat_of_nat_64: "n < 2 ^ 64 \<Longrightarrow> unat (of_nat n :: 64 word) = n"
  by (simp add: unat_of_nat take_bit_nat_eq_self)

lemma spec_update_updated:
  assumes "length ts < 2 ^ 64"
  shows "spec_update wrap_signed wrap_unsigned n (sint (LimMaxTxBytes lim)) (uint (LimMaxGasLimit lim)) (abs_proposal p) ts =
    (if update_guards n p lim ts then Some (abs_proposal (updated_proposal n p ts)) else None)"
proof -
  have "update_guards n p lim ts \<longleftrightarrow> TxsByLane (Info p) n = None \<and> Cache p \<inter> Hash ` set ts = {} \<and>
      wrap_signed (total_size ts) \<le> sint (LimMaxTxBytes lim) \<and> wrap_unsigned (total_gas ts) \<le> uint (LimMaxGasLimit lim) \<and>
      wrap_signed (sint (BlockSize (Info p)) + total_size ts) \<le> sint (MaxBlockSize (Info p)) \<and>
      wrap_unsigned (uint (GasLimit (Info p)) + total_gas ts) \<le> uint (MaxGasLimit (Info p))"
    by (auto simp: update_guards_def word_sless_alt word_less_def wrapped_sums)
  moreover have "abs_proposal (updated_proposal n p ts) =
    (abs_proposal p)\<lparr> specTxs := Txs p @ map TxBytes ts, specHashes := Cache p \<union> Hash ` set ts,
      specLanes := (specLanes (abs_proposal p))(n \<mapsto> length ts),
      specBytes := wrap_signed (sint (BlockSize (Info p)) + total_size ts),
      specGas := wrap_unsigned (uint (GasLimit (Info p)) + total_gas ts) \<rparr>"
    using unat_of_nat_64 [OF assms] by (auto simp: abs_proposal_def fun_eq_iff wrapped_sums)
  ultimately show ?thesis by (simp add: spec_update_def)
qed

lemma spec_update_ideal:
  assumes "sums_fit p ts"
  shows "spec_update wrap_signed wrap_unsigned n lb lg (abs_proposal p) ts = ideal_update n lb lg (abs_proposal p) ts"
proof -
  have "wrap_signed (total_size ts) = total_size ts" "wrap_unsigned (total_gas ts) = total_gas ts"
    "wrap_signed (sint (BlockSize (Info p)) + total_size ts) = sint (BlockSize (Info p)) + total_size ts"
    "wrap_unsigned (uint (GasLimit (Info p)) + total_gas ts) = uint (GasLimit (Info p)) + total_gas ts"
    using sums_fit_readings [OF assms] unfolding wrapped_sums .
  then show ?thesis by (simp add: spec_update_def)
qed

text \<open>C6: \<open>UpdateProposal\<close> refines the abstract block. Nothing happens without transactions. Otherwise it
  succeeds exactly when the lane's limits can be computed and the block whose sums are reduced to 64
  bits grants the turn, and the proposal it leaves is that block after the turn. As long as no sum
  leaves its 64 bits (and no size is negative), this is the ideal block of unbounded integers; without
  that, the two differ: the code accepts gas limits that add up to \<open>2^64\<close>.\<close>

theorem UpdateProposal_refines_spec:
  assumes "length ts < 2 ^ 64"
  shows "(case UpdateProposal D n s p ts of (p', Ret _) \<Rightarrow> Some (abs_proposal p') | _ \<Rightarrow> None) =
      (if ts = [] then Some (abs_proposal p)
       else case GetLaneLimits D p s of
         Ret lim \<Rightarrow> spec_update wrap_signed wrap_unsigned n (sint (LimMaxTxBytes lim)) (uint (LimMaxGasLimit lim))
           (abs_proposal p) ts
       | _ \<Rightarrow> None) \<and>
    (sums_fit p ts \<longrightarrow> (\<forall>lb lg.
      spec_update wrap_signed wrap_unsigned n lb lg (abs_proposal p) ts = ideal_update n lb lg (abs_proposal p) ts))"
proof (intro conjI impI allI)
  show "(case UpdateProposal D n s p ts of (p', Ret _) \<Rightarrow> Some (abs_proposal p') | _ \<Rightarrow> None) =
      (if ts = [] then Some (abs_proposal p)
       else case GetLaneLimits D p s of
         Ret lim \<Rightarrow> spec_update wrap_signed wrap_unsigned n (sint (LimMaxTxBytes lim)) (uint (LimMaxGasLimit lim))
           (abs_proposal p) ts
       | _ \<Rightarrow> None)"
  proof (cases "ts = []")
    case True
    then show ?thesis by simp
  next
    case ne: False
    show ?thesis
    proof (cases "\<exists>lim. GetLaneLimits D p s = Ret lim \<and> update_guards n p lim ts")
      case True
      then obtain lim where lim: "GetLaneLimits D p s = Ret lim" "update_guards n p lim ts" by blast
      then have "UpdateProposal D n s p ts = (updated_proposal n p ts, Ret ())"
        using ne by (subst UpdateProposal_Ret_iff) auto
      then show ?thesis using ne lim by (simp add: spec_update_updated [OF assms])
    next
      case False
      then have "snd (UpdateProposal D n s p ts) \<noteq> Ret ()"
        using ne by (cases rule: UpdateProposal_cases [of ts D n s p]) auto
      then show ?thesis
        using ne False by (auto simp: spec_update_updated [OF assms] split: prod.splits go.splits)
    qed
  qed
qed (rule spec_update_ideal)

text \<open>A turn within the limits, and one whose gas limits add up to \<open>2^64\<close>: the code grants both, the
  ideal block refuses the second.\<close>

theorem UpdateProposal_refines_spec_witness:
  "let p = NewProposal 1000 100;
       small = [NewTxInfo ''AA'' 1 5 [1] (AnyInt 0) []];
       large = [NewTxInfo ''AA'' 1 (2 ^ 63) [1] (AnyInt 0) [], NewTxInfo ''BB'' 1 (2 ^ 63) [2] (AnyInt 0) []] in
   (case UpdateProposal scaled_dec ''free'' (Dec 0) p small of (p', Ret _) \<Rightarrow> Some (abs_proposal p') | _ \<Rightarrow> None) =
     ideal_update ''free'' 1000 100 (abs_proposal p) small \<and>
   (case UpdateProposal scaled_dec ''free'' (Dec 0) p large of (p', Ret _) \<Rightarrow> Some (abs_proposal p') | _ \<Rightarrow> None) \<noteq> None \<and>
   ideal_update ''free'' 1000 100 (abs_proposal p) large = None"
proof -
  let ?p = "NewProposal 1000 100" and ?small = "[NewTxInfo ''AA'' 1 5 [1] (AnyInt 0) []]"
  let ?large = "[NewTxInfo ''AA'' 1 (2 ^ 63) [1] (AnyInt 0) [], NewTxInfo ''BB'' 1 (2 ^ 63) [2] (AnyInt 0) []]"
  have lim: "GetLaneLimits scaled_dec ?p (Dec 0) = Ret \<lparr>LimMaxTxBytes = 1000, LimMaxGasLimit = 100\<rparr>"
    by (simp add: GetLaneLimits_def scaled_dec_def NewProposal_def word_sless_alt)
  have "sums_fit ?p ?small" by (simp add: sums_fit_def NewProposal_def NewTxInfo_def)
  then have "(case UpdateProposal scaled_dec ''free'' (Dec 0) ?p ?small of (p', Ret _) \<Rightarrow> Some (abs_proposal p') | _ \<Rightarrow> None) =
      ideal_update ''free'' 1000 100 (abs_proposal ?p) ?small"
    using UpdateProposal_refines_spec [of ?small scaled_dec "''free''" "Dec 0" ?p] lim by simp
  moreover have "(case UpdateProposal scaled_dec ''free'' (Dec 0) ?p ?large of (p', Ret _) \<Rightarrow> Some (abs_proposal p') | _ \<Rightarrow> None) =
      spec_update wrap_signed wrap_unsigned ''free'' 1000 100 (abs_proposal ?p) ?large"
    using UpdateProposal_refines_spec [of ?large scaled_dec "''free''" "Dec 0" ?p] lim by simp
  moreover have "spec_update wrap_signed wrap_unsigned ''free'' 1000 100 (abs_proposal ?p) ?large \<noteq> None"
    by (simp add: spec_update_def NewProposal_def NewTxInfo_def wrap_signed_def wrap_unsigned_def)
  moreover have "ideal_update ''free'' 1000 100 (abs_proposal ?p) ?large = None"
    by (simp add: spec_update_def NewProposal_def NewTxInfo_def)
  ultimately show ?thesis by (simp only: Let_def) simp
qed

section \<open>The books of a proposal\<close>

text \<open>A transaction's info is genuine when hash and size are those of its bytes.\<close>

definition genuine :: "(bytes \<Rightarrow> bytes) \<Rightarrow> TxWithInfo \<Rightarrow> bool" where
  "genuine H t \<longleftrightarrow> Hash t = TxHash H (TxBytes t) \<and> length (TxBytes t) < 2 ^ 63 \<and>
     Size t = of_nat (length (TxBytes t))"

definition lane_count :: "Proposal \<Rightarrow> nat" where
  "lane_count p = (\<Sum>n \<in> dom (TxsByLane (Info p)). unat (the (TxsByLane (Info p) n)))"

definition proposal_accounts :: "(bytes \<Rightarrow> bytes) \<Rightarrow> Proposal \<Rightarrow> bool" where
  "proposal_accounts H p \<longleftrightarrow>
     Cache p = TxHash H ` set (Txs p) \<and>
     sint (BlockSize (Info p)) = (\<Sum>bz \<leftarrow> Txs p. int (length bz)) \<and>
     finite (dom (TxsByLane (Info p))) \<and> lane_count p = length (Txs p) \<and>
     (Txs p \<noteq> [] \<longrightarrow> sint (BlockSize (Info p)) \<le> sint (MaxBlockSize (Info p))) \<and>
     GasLimit (Info p) \<le> MaxGasLimit (Info p)"

lemma NewProposal_accounts: "proposal_accounts H (NewProposal maxBytes maxGas)"
  by (simp add: proposal_accounts_def NewProposal_def lane_count_def)

lemma genuine_total_size:
  "\<forall>t \<in> set ts. genuine H t \<Longrightarrow> total_size ts = (\<Sum>bz \<leftarrow> map TxBytes ts. int (length bz))"
  by (induction ts) (auto simp: genuine_def sint_of_nat_64)

lemma genuine_hashes: "\<forall>t \<in> set ts. genuine H t \<Longrightarrow> Hash ` set ts = TxHash H ` set (map TxBytes ts)"
  by (auto simp: genuine_def image_iff)

lemma updated_lane_count:
  assumes "finite (dom (TxsByLane (Info p)))" and "TxsByLane (Info p) n = None" and "length ts < 2 ^ 64"
  shows "lane_count (updated_proposal n p ts) = lane_count p + length ts"
proof -
  let ?m = "TxsByLane (Info p)"
  have "n \<notin> dom ?m" using assms(2) by auto
  moreover have "(\<Sum>k \<in> dom ?m. unat (the ((?m(n \<mapsto> of_nat (length ts))) k))) =
      (\<Sum>k \<in> dom ?m. unat (the (?m k)))"
    using \<open>n \<notin> dom ?m\<close> by (intro sum.cong) auto
  ultimately show ?thesis
    using assms(1) unat_of_nat_64 [OF assms(3)] by (simp add: lane_count_def)
qed

text \<open>C13: The books stay right: if the cache holds exactly the hashes of the transactions, the
  recorded size is their total length, the lane counts add up to their number and the limits
  hold, then the same is true after any call of \<open>UpdateProposal\<close> with genuine transactions,
  whatever its outcome.\<close>

theorem UpdateProposal_keeps_books:
  assumes "proposal_accounts H p" and "\<forall>t \<in> set ts. genuine H t" and "sums_fit p ts"
    and "length ts < 2 ^ 64" and "UpdateProposal D n s p ts = (p', r)"
  shows "proposal_accounts H p'"
proof (cases rule: UpdateProposal_cases [of ts D n s p])
  case (ok lim)
  then have p': "p' = updated_proposal n p ts" using assms(5) by simp
  have "update_guards n p lim ts" by fact
  then show ?thesis
    using assms(1,2,4) sums_fit_readings(3,4) [OF assms(3)] genuine_total_size [OF assms(2)]
      genuine_hashes [OF assms(2)]
    by (auto simp: p' proposal_accounts_def update_guards_int [OF assms(3)] updated_lane_count
        image_Un word_le_def)
qed (use assms(1,5) in auto)

definition sample_info :: TxWithInfo where
  "sample_info = NewTxInfo (TxHash (\<lambda>bz. bz) [171]) 1 5 [171] (AnyInt 0) []"

lemma sample_info_genuine: "genuine (\<lambda>bz. bz) sample_info"
  by (simp add: genuine_def sample_info_def NewTxInfo_def)

theorem UpdateProposal_keeps_books_witness:
  "let r = UpdateProposal scaled_dec ''free'' (Dec 0) (NewProposal 1000 100) [sample_info]
   in proposal_accounts (\<lambda>bz. bz) (fst r) \<and> Txs (fst r) = [[171]]"
proof -
  let ?r = "UpdateProposal scaled_dec ''free'' (Dec 0) (NewProposal 1000 100) [sample_info]"
  have "?r = (fst ?r, snd ?r)" by simp
  from UpdateProposal_keeps_books [OF NewProposal_accounts _ _ _ this, of "\<lambda>bz. bz"]
  have "proposal_accounts (\<lambda>bz. bz) (fst ?r)"
    by (simp add: sample_info_genuine sums_fit_def NewProposal_def)
       (simp add: sample_info_def NewTxInfo_def)
  moreover have "Txs (fst ?r) = [[171]]"
    by (simp add: sample_info_def NewProposal_def NewTxInfo_def UpdateProposal_def GetLaneLimits_def
        scaled_dec_def word_sless_alt Let_def)
  ultimately show ?thesis by simp
qed

section \<open>The limits of a lane\<close>

lemma GetLaneLimits_remaining:
  assumes "decIsZero D r" and "0 \<le> sint (MaxBlockSize (Info p))" and "0 \<le> sint (BlockSize (Info p))"
  obtains lim where "GetLaneLimits D p r = Ret lim"
    "sint (LimMaxTxBytes lim) = max 0 (sint (MaxBlockSize (Info p)) - sint (BlockSize (Info p)))"
    "uint (LimMaxGasLimit lim) = max 0 (uint (MaxGasLimit (Info p)) - uint (GasLimit (Info p)))"
proof -
  let ?d = "MaxBlockSize (Info p) - BlockSize (Info p)"
  have d: "sint ?d = sint (MaxBlockSize (Info p)) - sint (BlockSize (Info p))"
    unfolding sub_sint_64
    by (rule sint_word_of_int_64)
       (use assms(2,3) sint_range_64 [of "MaxBlockSize (Info p)"] sint_range_64 [of "BlockSize (Info p)"]
        in linarith)+
  have g: "uint (MaxGasLimit (Info p) - GasLimit (Info p)) =
      uint (MaxGasLimit (Info p)) - uint (GasLimit (Info p))"
    if "GasLimit (Info p) \<le> MaxGasLimit (Info p)"
    using that by (simp add: uint_sub_lem [THEN iffD1] word_le_def)
  show thesis
    using that [of "\<lparr> LimMaxTxBytes = (if ?d <s 0 then 0 else ?d),
      LimMaxGasLimit = (if MaxGasLimit (Info p) \<le> GasLimit (Info p) then 0
        else MaxGasLimit (Info p) - GasLimit (Info p)) \<rparr>"] assms(1) d g
    by (auto simp: GetLaneLimits_def Let_def word_sless_alt max_def word_le_def)
qed

text \<open>The share of a lane with ratio \<open>x\<close> units of \<open>10\<^sup>-\<^sup>1\<^sup>8\<close> is the rounded-down product.\<close>

lemma share_bounds:
  assumes "0 \<le> x" and "x \<le> dec_unit" and "0 \<le> (m :: int)"
  shows "0 \<le> x * m div dec_unit" and "x * m div dec_unit \<le> m"
proof -
  show "0 \<le> x * m div dec_unit" using assms by (simp add: pos_imp_zdiv_nonneg_iff)
  have "x * m \<le> dec_unit * m" using assms by (intro mult_right_mono) auto
  then have "x * m div dec_unit \<le> dec_unit * m div dec_unit" by (intro zdiv_mono1) auto
  then show "x * m div dec_unit \<le> m" by simp
qed

lemma share_product_small:
  assumes "0 \<le> x" and "x \<le> dec_unit" and "0 \<le> m" and "m < 2 ^ 64"
  shows "\<bar>x * m\<bar> < 2 ^ 255"
proof -
  have "x * m \<le> dec_unit * 2 ^ 64" using assms by (intro mult_mono) auto
  also have "\<dots> < 2 ^ 255" by simp
  finally show ?thesis using assms by simp
qed

lemma GetLaneLimits_share:
  assumes "dec_laws D" and "0 < x" and "x \<le> dec_unit" and "0 \<le> sint (MaxBlockSize (Info p))"
  obtains lim where "GetLaneLimits D p (Dec x) = Ret lim"
    "sint (LimMaxTxBytes lim) = x * sint (MaxBlockSize (Info p)) div dec_unit"
    "uint (LimMaxGasLimit lim) = x * uint (MaxGasLimit (Info p)) div dec_unit"
proof -
  let ?m = "sint (MaxBlockSize (Info p))" and ?g = "uint (MaxGasLimit (Info p))"
  let ?b = "x * ?m div dec_unit" and ?c = "x * ?g div dec_unit"
  have m: "0 \<le> ?m" "?m < 2 ^ 63" and g: "0 \<le> ?g" "?g < 2 ^ 64"
    using assms(4) sint_range_64 [of "MaxBlockSize (Info p)"] uint_range_64 [of "MaxGasLimit (Info p)"]
    by auto
  have b: "0 \<le> ?b" "?b < 2 ^ 63" and c: "0 \<le> ?c" "?c < 2 ^ 64"
    using share_bounds [of x ?m] share_bounds [of x ?g] assms(2,3) m g by auto
  have small: "\<bar>x * ?m\<bar> < 2 ^ 255" "\<bar>x * ?g\<bar> < 2 ^ 255"
    using share_product_small [of x ?m] share_product_small [of x ?g] assms(2,3) m g by auto
  have prods: "decMulInt64 D (Dec x) (MaxBlockSize (Info p)) = Ret (Dec (x * ?m))"
    "decMulInt D (Dec x) ?g = Ret (Dec (x * ?g))"
    and truncs: "decTruncateInt D (Dec (x * ?m)) = Ret ?b" "decTruncateInt D (Dec (x * ?g)) = Ret ?c"
    and convs: "intInt64 D ?b = Ret (word_of_int ?b)" "intUint64 D ?c = Ret (word_of_int ?c)"
    and nz: "\<not> decIsZero D (Dec x)"
    using assms(1,2) small m(1) g(1) b c unfolding dec_laws_def by (simp_all del: of_int_of_nat)
  have "GetLaneLimits D p (Dec x) = Ret \<lparr> LimMaxTxBytes = word_of_int ?b, LimMaxGasLimit = word_of_int ?c \<rparr>"
    using nz by (simp add: GetLaneLimits_def prods truncs convs)
  from that [OF this] show thesis
    using b c by (simp add: sint_word_of_int_64 uint_word_of_int_64)
qed

lemma GetLaneLimits_value:
  assumes "dec_laws D" and "0 \<le> x" and "x \<le> dec_unit"
    and "0 \<le> sint (MaxBlockSize (Info p))" and "0 \<le> sint (BlockSize (Info p))"
  obtains lim where "GetLaneLimits D p (Dec x) = Ret lim"
    "sint (LimMaxTxBytes lim) =
      (if x = 0 then max 0 (sint (MaxBlockSize (Info p)) - sint (BlockSize (Info p)))
       else x * sint (MaxBlockSize (Info p)) div dec_unit)"
    "uint (LimMaxGasLimit lim) =
      (if x = 0 then max 0 (uint (MaxGasLimit (Info p)) - uint (GasLimit (Info p)))
       else x * uint (MaxGasLimit (Info p)) div dec_unit)"
proof (cases "x = 0")
  case True
  then have "decIsZero D (Dec x)" using assms(1) by (simp add: dec_laws_def)
  from GetLaneLimits_remaining [OF this assms(4,5)] show thesis using True that by force
next
  case False
  then have "0 < x" using assms(2) by simp
  from GetLaneLimits_share [OF assms(1) this assms(3,4)] show thesis using False that by force
qed

text \<open>A lane with a block space between 0 and 1 never gets limits beyond the block: zero
  means exactly what is left, a positive ratio the rounded-down share of the whole block.\<close>

lemma GetLaneLimits_correct:
  assumes "dec_laws D" and "0 \<le> x" and "x \<le> dec_unit"
    and "0 \<le> sint (MaxBlockSize (Info p))" and "0 \<le> sint (BlockSize (Info p))"
  shows "\<exists>lim. GetLaneLimits D p (Dec x) = Ret lim \<and>
    sint (LimMaxTxBytes lim) =
      (if x = 0 then max 0 (sint (MaxBlockSize (Info p)) - sint (BlockSize (Info p)))
       else x * sint (MaxBlockSize (Info p)) div dec_unit) \<and>
    uint (LimMaxGasLimit lim) =
      (if x = 0 then max 0 (uint (MaxGasLimit (Info p)) - uint (GasLimit (Info p)))
       else x * uint (MaxGasLimit (Info p)) div dec_unit) \<and>
    0 \<le> sint (LimMaxTxBytes lim) \<and> sint (LimMaxTxBytes lim) \<le> sint (MaxBlockSize (Info p)) \<and>
    uint (LimMaxGasLimit lim) \<le> uint (MaxGasLimit (Info p))"
proof -
  from GetLaneLimits_value [OF assms] obtain lim where lim: "GetLaneLimits D p (Dec x) = Ret lim"
    "sint (LimMaxTxBytes lim) =
      (if x = 0 then max 0 (sint (MaxBlockSize (Info p)) - sint (BlockSize (Info p)))
       else x * sint (MaxBlockSize (Info p)) div dec_unit)"
    "uint (LimMaxGasLimit lim) =
      (if x = 0 then max 0 (uint (MaxGasLimit (Info p)) - uint (GasLimit (Info p)))
       else x * uint (MaxGasLimit (Info p)) div dec_unit)" .
  moreover have "0 \<le> uint (GasLimit (Info p))" "0 \<le> uint (MaxGasLimit (Info p))" by simp_all
  ultimately show ?thesis
    using assms(4,5) share_bounds [OF assms(2,3,4)] share_bounds [OF assms(2,3), of "uint (MaxGasLimit (Info p))"]
    by (intro exI [of _ lim]) (auto simp: max_def)
qed

lemma sum_of_shares:
  assumes "\<forall>x \<in> set xs. 0 \<le> x" and "sum_list xs \<le> dec_unit" and "0 \<le> (m :: int)"
  shows "(\<Sum>x \<leftarrow> xs. x * m div dec_unit) \<le> m"
proof -
  have "dec_unit * (\<Sum>x \<leftarrow> xs. x * m div dec_unit) \<le> sum_list xs * m" for xs
  proof (induction xs)
    case Nil
    then show ?case by simp
  next
    case (Cons x xs)
    have "dec_unit * (x * m div dec_unit) \<le> x * m"
      using mult_div_mod_eq [of dec_unit "x * m"] pos_mod_sign [of dec_unit "x * m"] by linarith
    with Cons show ?case by (simp add: distrib_left distrib_right)
  qed
  also have "sum_list xs * m \<le> dec_unit * m" using assms(2,3) by (intro mult_right_mono) auto
  finally show ?thesis by simp
qed

text \<open>Lanes whose block spaces are positive and add up to at most one can all use their full
  limits: the limits computed for one proposal add up to no more than the block.\<close>

lemma lane_shares_fit_block:
  assumes "dec_laws D" and "\<forall>x \<in> set xs. 0 < x" and "sum_list xs \<le> dec_unit"
    and "0 \<le> sint (MaxBlockSize (Info p))"
  shows "\<exists>lims. go_map_list (\<lambda>x. GetLaneLimits D p (Dec x)) xs = Ret lims \<and>
    (\<Sum>l \<leftarrow> lims. sint (LimMaxTxBytes l)) \<le> sint (MaxBlockSize (Info p)) \<and>
    (\<Sum>l \<leftarrow> lims. uint (LimMaxGasLimit l)) \<le> uint (MaxGasLimit (Info p))"
proof -
  have nn: "\<forall>x \<in> set xs. 0 \<le> x" using assms(2) by auto
  have le1: "x \<le> dec_unit" if "x \<in> set xs" for x
    using member_le_sum_list_map [of x xs "\<lambda>x. x"] that nn assms(3) by auto
  have "\<exists>lims. go_map_list (\<lambda>x. GetLaneLimits D p (Dec x)) ys = Ret lims \<and>
      map (\<lambda>l. sint (LimMaxTxBytes l)) lims = map (\<lambda>x. x * sint (MaxBlockSize (Info p)) div dec_unit) ys \<and>
      map (\<lambda>l. uint (LimMaxGasLimit l)) lims = map (\<lambda>x. x * uint (MaxGasLimit (Info p)) div dec_unit) ys"
    if "set ys \<subseteq> set xs" for ys
    using that
  proof (induction ys)
    case Nil
    then show ?case by simp
  next
    case (Cons y ys)
    have "0 < y" "y \<le> dec_unit" using Cons.prems assms(2) le1 by auto
    from GetLaneLimits_share [OF assms(1) this assms(4)] Cons show ?case by force
  qed
  from this [of xs] obtain lims where "go_map_list (\<lambda>x. GetLaneLimits D p (Dec x)) xs = Ret lims"
      "map (\<lambda>l. sint (LimMaxTxBytes l)) lims = map (\<lambda>x. x * sint (MaxBlockSize (Info p)) div dec_unit) xs"
      "map (\<lambda>l. uint (LimMaxGasLimit l)) lims = map (\<lambda>x. x * uint (MaxGasLimit (Info p)) div dec_unit) xs"
    by auto
  then show ?thesis
    using sum_of_shares [OF nn assms(3,4)] sum_of_shares [OF nn assms(3), of "uint (MaxGasLimit (Info p))"]
    by auto
qed

text \<open>A proposal built from consensus parameters with a negative \<open>MaxBytes\<close> (CometBFT's
  \<open>-1\<close>, no limit of its own) accepts no transaction at all, although a \<open>MaxGas\<close> of at most zero
  is read as unlimited.\<close>

lemma negative_MaxBytes_rejects_all:
  assumes "ConsBlock C ctx = Some bp" and "sint (ParamMaxBytes bp) < 0"
    and "NewProposalWithContext C ctx = Ret p" and "ts \<noteq> []" and "sums_fit p ts"
  shows "snd (UpdateProposal D n s p ts) \<noteq> Ret ()"
proof -
  have "MaxBlockSize (Info p) = ParamMaxBytes bp"
    using assms(1,3) by (auto simp: NewProposalWithContext_def GetBlockLimits_def NewProposal_def Let_def)
  moreover have "0 \<le> total_size ts" "0 \<le> sint (BlockSize (Info p))"
    using assms(5) by (auto simp: sums_fit_def intro!: sum_list_nonneg_map)
  ultimately have "\<not> update_guards n p lim ts" for lim
    using assms(2) by (simp add: update_guards_int [OF assms(5)])
  then show ?thesis
    using assms(4) by (cases rule: UpdateProposal_cases [of ts D n s p]) auto
qed

lemma GetBlockLimits_unlimited_gas:
  "ConsBlock C ctx = Some bp \<Longrightarrow> \<not> 0 <s ParamMaxGas bp \<Longrightarrow>
   GetBlockLimits C ctx = Ret (ParamMaxBytes bp, MaxUint64)"
  by (simp add: GetBlockLimits_def)

section \<open>Concrete instances\<close>

lemma sample_sums_fit: "sums_fit (NewProposal 1000 100) [sample_info]"
  by (simp add: sums_fit_def NewProposal_def sample_info_def NewTxInfo_def)

lemma sample_update:
  "UpdateProposal scaled_dec ''free'' (Dec 0) (NewProposal 1000 100) [sample_info] =
     (updated_proposal ''free'' (NewProposal 1000 100) [sample_info], Ret ())"
  by (simp add: sample_info_def NewProposal_def NewTxInfo_def UpdateProposal_def GetLaneLimits_def
      scaled_dec_def word_sless_alt Let_def updated_proposal_def)

lemma GetLaneLimits_correct_witness:
  "\<exists>lim. GetLaneLimits scaled_dec (NewProposal 1000 100) (Dec 250000000000000000) = Ret lim \<and>
     sint (LimMaxTxBytes lim) = 250 \<and> uint (LimMaxGasLimit lim) = 25"
  using GetLaneLimits_correct [OF scaled_dec_laws, of 250000000000000000 "NewProposal 1000 100"]
  by (auto simp: NewProposal_def)

definition unlimited_ctx :: value_context where
  "unlimited_ctx = \<lparr> VcBlock = Some \<lparr> ParamMaxBytes = - 1, ParamMaxGas = - 1 \<rparr>, VcHeight = 5,
     VcMode = ExecModeProcessProposal, VcPriority = 0, VcStore = (\<lambda>_. 0) \<rparr>"

end
