(* ===== verification/Base_Lane.thy ===== *)
theory Base_Lane
  imports Proposals
begin

text \<open>
  The base lane (\<open>block/base\<close>: \<open>config.go\<close>, \<open>lane.go\<close>, \<open>match.go\<close>, \<open>tx_info.go\<close>, \<open>types.go\<close>,
  \<open>proposals.go\<close>, \<open>abci.go\<close>) and the mempool interface it embeds (\<open>block/lane.go\<close>).
  \<^item> a mempool behind the interface \<open>LaneMempool\<close> is a state of type \<open>'mp\<close> and a record of
    methods; the states of all lanes are kept in a store indexed by the lanes' references,
    because the lanes are pointers shared by the handlers;
  \<^item> the handlers of the code are closures over the lane: here they are functions of the lane's
    core, so that they see its current fields, as the closures do;
  \<^item> a method may write to the store behind the context, so contexts are threaded;
  \<^item> log calls are left out.
\<close>

section \<open>The mempool interface\<close>

record ('mp, 'ctx) LaneMempool =
  mpInsert :: "'mp \<Rightarrow> 'ctx \<Rightarrow> tx \<Rightarrow> 'mp \<times> unit go"
  mpSelect :: "'mp \<Rightarrow> 'ctx \<Rightarrow> 'mp \<times> tx list go"
  mpCountTx :: "'mp \<Rightarrow> nat"
  mpRemove :: "'mp \<Rightarrow> tx \<Rightarrow> 'mp \<times> unit go"
  mpCompare :: "'mp \<Rightarrow> 'ctx \<Rightarrow> tx \<Rightarrow> tx \<Rightarrow> int go"
  mpContains :: "'mp \<Rightarrow> tx \<Rightarrow> bool go"
  mpPriority :: "'ctx \<Rightarrow> tx \<Rightarrow> any go"

text \<open>\<open>mpSelect\<close> returns the transactions in the order in which the iterator yields them.\<close>

text \<open>
  The priorities of transactions (\<open>TxPriority\<close> in \<open>priority_nonce.go\<close>): reading a priority may run
  code of the application, so it may panic; the comparison is -1, 0 or 1.
\<close>

record ('ctx, 'c) TxPriority =
  GetTxPriority :: "'ctx \<Rightarrow> tx \<Rightarrow> 'c go"
  PriorityCompare :: "'c \<Rightarrow> 'c \<Rightarrow> int"
  MinValue :: 'c

section \<open>Configuration\<close>

record 'ctx LaneConfig =
  cfgLogger :: "unit option"
  cfgTxEncoder :: "tx_encoder option"
  cfgTxDecoder :: "tx_decoder option"
  cfgAnteHandler :: "'ctx ante_handler option"
  cfgSignerExtractor :: "adapter option"
  cfgMaxBlockSpace :: LegacyDec
  cfgMaxTxs :: int

definition NewLaneConfig ::
    "unit option \<Rightarrow> tx_encoder option \<Rightarrow> tx_decoder option \<Rightarrow> 'ctx ante_handler option \<Rightarrow>
     adapter option \<Rightarrow> LegacyDec \<Rightarrow> 'ctx LaneConfig" where
  "NewLaneConfig logger txEncoder txDecoder anteHandler signerExtractor maxBlockSpace =
     \<lparr> cfgLogger = logger, cfgTxEncoder = txEncoder, cfgTxDecoder = txDecoder,
       cfgAnteHandler = anteHandler, cfgSignerExtractor = signerExtractor,
       cfgMaxBlockSpace = maxBlockSpace, cfgMaxTxs = 0 \<rparr>"

definition LaneConfig_ValidateBasic :: "dec_ops \<Rightarrow> 'ctx LaneConfig \<Rightarrow> unit go" where
  "LaneConfig_ValidateBasic D c =
     (if cfgLogger c = None then Err (Errorf ''logger cannot be nil'')
      else if Option.is_none (cfgTxEncoder c) then Err (Errorf ''tx encoder cannot be nil'')
      else if Option.is_none (cfgTxDecoder c) then Err (Errorf ''tx decoder cannot be nil'')
      else if Option.is_none (cfgSignerExtractor c) then Err (Errorf ''signer extractor cannot be nil'')
      else if decIsNil D (cfgMaxBlockSpace c) \<or> decIsNegative D (cfgMaxBlockSpace c) \<or>
              decGT D (cfgMaxBlockSpace c) (decOne D)
      then Err (Errorf ''max block space must be set to a value between 0 and 1'')
      else Ret ())"

section \<open>The lane\<close>

type_synonym 'ctx MatchHandler = "'ctx \<Rightarrow> tx \<Rightarrow> bool go"

type_synonym ('mp, 'ctx) PrepareLaneHandler =
  "'mp \<Rightarrow> 'ctx \<Rightarrow> Proposal \<Rightarrow> LaneLimits \<Rightarrow> 'mp \<times> 'ctx \<times> (tx list \<times> tx list) go"

type_synonym ('mp, 'ctx) ProcessLaneHandler =
  "'mp \<Rightarrow> 'ctx \<Rightarrow> tx list \<Rightarrow> 'ctx \<times> (tx list \<times> tx list) go"

text \<open>
  \<open>laneRef\<close> is the lane's address: the key of its mempool in the store. A Go function of type
  \<open>bool\<close> has no error to return, so a match handler ends in \<open>Ret\<close> or \<open>Panic\<close>.
\<close>

record ('mp, 'ctx) lane_core =
  laneRef :: nat
  cfg :: "'ctx LaneConfig"
  laneName :: string
  laneMempool :: "('mp, 'ctx) LaneMempool option"
  matchHandler :: "'ctx MatchHandler option"

record ('mp, 'ctx) BaseLane = "('mp, 'ctx) lane_core" +
  prepareLaneHandler :: "(('mp, 'ctx) lane_core \<Rightarrow> ('mp, 'ctx) PrepareLaneHandler) option"
  processLaneHandler :: "(('mp, 'ctx) lane_core \<Rightarrow> ('mp, 'ctx) ProcessLaneHandler) option"

definition BaseLane_ValidateBasic :: "dec_ops \<Rightarrow> ('mp, 'ctx) BaseLane \<Rightarrow> unit go" where
  "BaseLane_ValidateBasic D l =
     go_bind (LaneConfig_ValidateBasic D (cfg l)) (\<lambda>_.
       if laneName l = '''' then Err (Errorf ''lane name cannot be empty'')
       else if Option.is_none (laneMempool l) then Err (Errorf ''lane mempool cannot be nil'')
       else if Option.is_none (matchHandler l) then Err (Errorf ''match handler cannot be nil'')
       else if Option.is_none (prepareLaneHandler l)
       then Err (Errorf ''prepare lane handler cannot be nil'')
       else if Option.is_none (processLaneHandler l)
       then Err (Errorf ''process lane handler cannot be nil'')
       else Ret ())"

definition Match :: "('mp, 'ctx, 'z) lane_core_scheme \<Rightarrow> 'ctx \<Rightarrow> tx \<Rightarrow> bool go" where
  "Match l ctx t = (case matchHandler l of None \<Rightarrow> Panic | Some mh \<Rightarrow> mh ctx t)"

definition GetMaxBlockSpace :: "('mp, 'ctx, 'z) lane_core_scheme \<Rightarrow> LegacyDec" where
  "GetMaxBlockSpace l = cfgMaxBlockSpace (cfg l)"

definition SetMaxBlockSpace ::
    "LegacyDec \<Rightarrow> ('mp, 'ctx, 'z) lane_core_scheme \<Rightarrow> ('mp, 'ctx, 'z) lane_core_scheme" where
  "SetMaxBlockSpace space l = l\<lparr> cfg := (cfg l)\<lparr> cfgMaxBlockSpace := space \<rparr> \<rparr>"

definition DefaultMatchHandler :: "'ctx MatchHandler" where
  "DefaultMatchHandler ctx t = Ret True"

fun VerifyNoMatches :: "('mp, 'ctx, 'z) lane_core_scheme \<Rightarrow> 'ctx \<Rightarrow> tx list \<Rightarrow> unit go" where
  "VerifyNoMatches l ctx [] = Ret ()"
| "VerifyNoMatches l ctx (t # ts) =
     go_bind (Match l ctx t) (\<lambda>b.
       if b then Err (Errorf ''transaction belongs to lane when it should not'')
       else VerifyNoMatches l ctx ts)"

fun NewMatchHandler :: "'ctx MatchHandler \<Rightarrow> 'ctx MatchHandler list \<Rightarrow> 'ctx MatchHandler" where
  "NewMatchHandler mh [] ctx t = mh ctx t"
| "NewMatchHandler mh (ignoreMH # ignoreMHs) ctx t =
     go_bind (ignoreMH ctx t) (\<lambda>b. if b then Ret False else NewMatchHandler mh ignoreMHs ctx t)"

definition GetTxInfo ::
    "(bytes \<Rightarrow> bytes) \<Rightarrow> ('mp, 'ctx, 'z) lane_core_scheme \<Rightarrow> 'ctx \<Rightarrow> tx \<Rightarrow> TxWithInfo go" where
  "GetTxInfo H l ctx t =
     go_bind (wrap_err ''failed to encode transaction'' (call1 (cfgTxEncoder (cfg l)) t)) (\<lambda>txBytes.
     (case TxGas t of
        None \<Rightarrow> Err (Errorf ''failed to cast transaction to gas tx'')
      | Some gas \<Rightarrow>
          go_bind (call1 (cfgSignerExtractor (cfg l)) t) (\<lambda>signers.
          (case laneMempool l of
             None \<Rightarrow> Panic
           | Some m \<Rightarrow>
               go_bind (mpPriority m ctx t) (\<lambda>priority.
               Ret \<lparr> Hash = ToUpper (EncodeToString (H txBytes)), Size = of_nat (length txBytes),
                     TxGasLimit = gas, TxBytes = txBytes, TxPriorityValue = priority,
                     Signers = signers \<rparr>)))))"

text \<open>The ante handler runs on a branch of the store, which is written back only on success.\<close>

definition VerifyTx ::
    "'ctx ctx_ops \<Rightarrow> ('mp, 'ctx, 'z) lane_core_scheme \<Rightarrow> 'ctx \<Rightarrow> tx \<Rightarrow> bool \<Rightarrow> 'ctx \<times> unit go" where
  "VerifyTx C l ctx t simulate =
     (case cfgAnteHandler (cfg l) of
        None \<Rightarrow> (ctx, Ret ())
      | Some ante \<Rightarrow>
          (case ante (CacheContext C ctx) t simulate of
             (catchCtx, Err e) \<Rightarrow> (ctx, Err e)
           | (catchCtx, Panic) \<Rightarrow> (ctx, Panic)
           | (catchCtx, Ret _) \<Rightarrow> (WriteCache C ctx catchCtx, Ret ())))"

section \<open>The default handlers\<close>

text \<open>
  The loop of \<open>PrepareLaneHandler\<close> over the transactions that the mempool's iterator yields,
  one branch for each guard of the code; \<open>incl\<close> and \<open>rmv\<close> are \<open>txsToInclude\<close> and \<open>txsToRemove\<close>.
\<close>

fun default_prepare_loop ::
    "'ctx ctx_ops \<Rightarrow> (bytes \<Rightarrow> bytes) \<Rightarrow> ('mp, 'ctx, 'z) lane_core_scheme \<Rightarrow> Proposal \<Rightarrow> LaneLimits \<Rightarrow>
     tx list \<Rightarrow> 'ctx \<Rightarrow> i64 \<Rightarrow> u64 \<Rightarrow> tx list \<Rightarrow> tx list \<Rightarrow> 'ctx \<times> (tx list \<times> tx list) go" where
  "default_prepare_loop C H l p limit [] ctx totalSize totalGas incl rmv = (ctx, Ret (incl, rmv))"
| "default_prepare_loop C H l p limit (t # ts) ctx totalSize totalGas incl rmv =
     (case GetTxInfo H l ctx t of
        Panic \<Rightarrow> (ctx, Panic)
      | Err _ \<Rightarrow> default_prepare_loop C H l p limit ts ctx totalSize totalGas incl (rmv @ [t])
      | Ret txInfo \<Rightarrow>
          if LimMaxGasLimit limit < TxGasLimit txInfo
          then default_prepare_loop C H l p limit ts ctx totalSize totalGas incl (rmv @ [t])
          else if LimMaxTxBytes limit <s Size txInfo
          then default_prepare_loop C H l p limit ts ctx totalSize totalGas incl (rmv @ [t])
          else
            (case Match l ctx t of
               Panic \<Rightarrow> (ctx, Panic)
             | Err e \<Rightarrow> (ctx, Err e)
             | Ret False \<Rightarrow> default_prepare_loop C H l p limit ts ctx totalSize totalGas incl (rmv @ [t])
             | Ret True \<Rightarrow>
                 if Contains p (Hash txInfo)
                 then default_prepare_loop C H l p limit ts ctx totalSize totalGas incl rmv
                 else if LimMaxTxBytes limit <s totalSize + Size txInfo
                 then default_prepare_loop C H l p limit ts ctx totalSize totalGas incl rmv
                 else if LimMaxGasLimit limit < totalGas + TxGasLimit txInfo
                 then default_prepare_loop C H l p limit ts ctx totalSize totalGas incl rmv
                 else
                   (case VerifyTx C l ctx t False of
                      (ctx', Panic) \<Rightarrow> (ctx', Panic)
                    | (ctx', Err _) \<Rightarrow>
                        default_prepare_loop C H l p limit ts ctx' totalSize totalGas incl (rmv @ [t])
                    | (ctx', Ret _) \<Rightarrow>
                        default_prepare_loop C H l p limit ts ctx' (totalSize + Size txInfo)
                          (totalGas + TxGasLimit txInfo) (incl @ [t]) rmv)))"

definition Default_PrepareLaneHandler ::
    "'ctx ctx_ops \<Rightarrow> (bytes \<Rightarrow> bytes) \<Rightarrow> ('mp, 'ctx) lane_core \<Rightarrow> ('mp, 'ctx) PrepareLaneHandler" where
  "Default_PrepareLaneHandler C H l mp ctx p limit =
     (case laneMempool l of
        None \<Rightarrow> (mp, ctx, Panic)
      | Some m \<Rightarrow>
          (case mpSelect m mp ctx of
             (mp', Ret txs) \<Rightarrow> (mp', default_prepare_loop C H l p limit txs ctx 0 0 [] [])
           | (mp', Err e) \<Rightarrow> (mp', ctx, Err e)
           | (mp', Panic) \<Rightarrow> (mp', ctx, Panic)))"

text \<open>
  The loop of \<open>ProcessLaneHandler\<close>: \<open>done\<close> is \<open>partialProposal[:index]\<close> and the list argument
  \<open>partialProposal[index:]\<close>.
\<close>

definition lane_Compare ::
    "('mp, 'ctx, 'z) lane_core_scheme \<Rightarrow> 'mp \<Rightarrow> 'ctx \<Rightarrow> tx \<Rightarrow> tx \<Rightarrow> int go" where
  "lane_Compare l mp ctx this other =
     (case laneMempool l of None \<Rightarrow> Panic | Some m \<Rightarrow> mpCompare m mp ctx this other)"

fun default_process_loop ::
    "'ctx ctx_ops \<Rightarrow> ('mp, 'ctx, 'z) lane_core_scheme \<Rightarrow> 'mp \<Rightarrow>
     tx list \<Rightarrow> tx list \<Rightarrow> 'ctx \<Rightarrow> 'ctx \<times> (tx list \<times> tx list) go" where
  "default_process_loop C l mp seen [] ctx = (ctx, Ret (seen, []))"
| "default_process_loop C l mp seen (t # ts) ctx =
     (case Match l ctx t of
        Panic \<Rightarrow> (ctx, Panic)
      | Err e \<Rightarrow> (ctx, Err e)
      | Ret False \<Rightarrow>
          (case wrap_err ''failed to verify no matches'' (VerifyNoMatches l ctx ts) of
             Panic \<Rightarrow> (ctx, Panic)
           | Err e \<Rightarrow> (ctx, Err e)
           | Ret _ \<Rightarrow> (ctx, Ret (seen, t # ts)))
      | Ret True \<Rightarrow>
          (case (if seen = [] then Ret 0 else lane_Compare l mp ctx (last seen) t) of
             Panic \<Rightarrow> (ctx, Panic)
           | Err _ \<Rightarrow> (ctx, Err (Errorf ''transaction at index %d has a higher priority than %d''))
           | Ret v \<Rightarrow>
               if v = - 1
               then (ctx, Err (Errorf ''transaction at index %d has a higher priority than %d''))
               else
                 (case VerifyTx C l ctx t False of
                    (ctx', Panic) \<Rightarrow> (ctx', Panic)
                  | (ctx', Err e) \<Rightarrow> (ctx', Err (Wrapf ''failed to verify tx'' e))
                  | (ctx', Ret _) \<Rightarrow> default_process_loop C l mp (seen @ [t]) ts ctx')))"

definition Default_ProcessLaneHandler ::
    "'ctx ctx_ops \<Rightarrow> ('mp, 'ctx) lane_core \<Rightarrow> ('mp, 'ctx) ProcessLaneHandler" where
  "Default_ProcessLaneHandler C l mp ctx partialProposal =
     (if partialProposal = [] then (ctx, Ret ([], []))
      else default_process_loop C l mp [] partialProposal ctx)"

section \<open>PrepareLane and ProcessLane\<close>

text \<open>
  A \<open>Proposal\<close> is passed by value, but its two maps are shared by all copies. A call therefore
  also returns the state of the maps, and a caller that goes on with its own copy sees that
  state (\<open>with_maps\<close>).
\<close>

type_synonym shared_maps = "string set \<times> (string \<rightharpoonup> u64)"

definition maps_of :: "Proposal \<Rightarrow> shared_maps" where
  "maps_of p = (Cache p, TxsByLane (Info p))"

definition with_maps :: "shared_maps \<Rightarrow> Proposal \<Rightarrow> Proposal" where
  "with_maps m p = p\<lparr> Cache := fst m, Info := (Info p)\<lparr> TxsByLane := snd m \<rparr> \<rparr>"

type_synonym 'mp store = "nat \<Rightarrow> 'mp"

type_synonym ('mp, 'ctx) PrepareLanesHandler =
  "'mp store \<Rightarrow> 'ctx \<Rightarrow> Proposal \<Rightarrow> 'mp store \<times> 'ctx \<times> shared_maps \<times> Proposal go"

type_synonym ('mp, 'ctx) ProcessLanesHandler =
  "'mp store \<Rightarrow> 'ctx \<Rightarrow> Proposal \<Rightarrow> tx list \<Rightarrow> 'ctx \<times> Proposal go"

definition NoOpPrepareLanesHandler :: "('mp, 'ctx) PrepareLanesHandler" where
  "NoOpPrepareLanesHandler mps ctx p = (mps, ctx, maps_of p, Ret p)"

definition NoOpProcessLanesHandler :: "('mp, 'ctx) ProcessLanesHandler" where
  "NoOpProcessLanesHandler mps ctx p txs = (ctx, Ret p)"

text \<open>
  Removal of the invalid transactions from the lane's mempool: an error is logged and the lane
  goes on, a panic is not caught here.
\<close>

definition remove_invalid ::
    "('mp, 'ctx, 'z) lane_core_scheme \<Rightarrow> tx list \<Rightarrow> 'mp \<Rightarrow> 'mp \<times> unit go" where
  "remove_invalid l txs mp =
     RemoveTxsFromLane (\<lambda>m t. case laneMempool l of None \<Rightarrow> (m, Panic) | Some v \<Rightarrow> mpRemove v m t) txs mp"

definition BaseLane_PrepareLane ::
    "dec_ops \<Rightarrow> (bytes \<Rightarrow> bytes) \<Rightarrow> ('mp, 'ctx) BaseLane \<Rightarrow> ('mp, 'ctx) PrepareLanesHandler \<Rightarrow>
     ('mp, 'ctx) PrepareLanesHandler" where
  "BaseLane_PrepareLane D H l next mps ctx proposal =
     (case GetLaneLimits D proposal (GetMaxBlockSpace l) of
        Err e \<Rightarrow> (mps, ctx, maps_of proposal, Err e)
      | Panic \<Rightarrow> (mps, ctx, maps_of proposal, Panic)
      | Ret limit \<Rightarrow>
     (case prepareLaneHandler l of
        None \<Rightarrow> (mps, ctx, maps_of proposal, Panic)
      | Some handler \<Rightarrow>
     (case handler (lane_core.truncate l) (mps (laneRef l)) ctx proposal limit of
        (mp1, ctx1, Err e) \<Rightarrow> (mps(laneRef l := mp1), ctx1, maps_of proposal, Err e)
      | (mp1, ctx1, Panic) \<Rightarrow> (mps(laneRef l := mp1), ctx1, maps_of proposal, Panic)
      | (mp1, ctx1, Ret (txsToInclude, txsToRemove)) \<Rightarrow>
     (case remove_invalid l txsToRemove mp1 of
        (mp2, Panic) \<Rightarrow> (mps(laneRef l := mp2), ctx1, maps_of proposal, Panic)
      | (mp2, _) \<Rightarrow>
     (case go_map_list (GetTxInfo H l ctx1) txsToInclude of
        Err e \<Rightarrow> (mps(laneRef l := mp2), ctx1, maps_of proposal, Err e)
      | Panic \<Rightarrow> (mps(laneRef l := mp2), ctx1, maps_of proposal, Panic)
      | Ret txsWithInfo \<Rightarrow>
     (case UpdateProposal D (laneName l) (GetMaxBlockSpace l) proposal txsWithInfo of
        (proposal1, Err e) \<Rightarrow> (mps(laneRef l := mp2), ctx1, maps_of proposal1, Err e)
      | (proposal1, Panic) \<Rightarrow> (mps(laneRef l := mp2), ctx1, maps_of proposal1, Panic)
      | (proposal1, Ret _) \<Rightarrow> next (mps(laneRef l := mp2)) ctx1 proposal1))))))"

definition BaseLane_ProcessLane ::
    "dec_ops \<Rightarrow> (bytes \<Rightarrow> bytes) \<Rightarrow> ('mp, 'ctx) BaseLane \<Rightarrow> ('mp, 'ctx) ProcessLanesHandler \<Rightarrow>
     ('mp, 'ctx) ProcessLanesHandler" where
  "BaseLane_ProcessLane D H l next mps ctx proposal txs =
     (if txs = [] then next mps ctx proposal txs
      else
     (case processLaneHandler l of
        None \<Rightarrow> (ctx, Panic)
      | Some handler \<Rightarrow>
     (case handler (lane_core.truncate l) (mps (laneRef l)) ctx txs of
        (ctx1, Err e) \<Rightarrow> (ctx1, Err e)
      | (ctx1, Panic) \<Rightarrow> (ctx1, Panic)
      | (ctx1, Ret (txsFromLane, remainingTxs)) \<Rightarrow>
     (case go_map_list (GetTxInfo H l ctx1) txsFromLane of
        Err e \<Rightarrow> (ctx1, Err e)
      | Panic \<Rightarrow> (ctx1, Panic)
      | Ret txsWithInfo \<Rightarrow>
     (case UpdateProposal D (laneName l) (GetMaxBlockSpace l) proposal txsWithInfo of
        (proposal1, Err e) \<Rightarrow> (ctx1, Err e)
      | (proposal1, Panic) \<Rightarrow> (ctx1, Panic)
      | (proposal1, Ret _) \<Rightarrow> next mps ctx1 proposal1 remainingTxs)))))"

end
