(* ===== verification/Base_Lane_Lemmas.thy ===== *)
theory Base_Lane_Lemmas
  imports Base_Lane "HOL-Library.Sublist"
begin

text \<open>
  Lemmas on the base lane: the default handlers seen as runs. The loop of the prepare handler
  looks at each transaction once and takes, skips or drops it (\<open>verdict_of\<close>); only a take moves
  the context and the running totals, so the transactions taken form a run of their own
  (\<open>taken_run\<close>). The loop of the process handler accepts exactly a run of matching, ordered and
  verified transactions (\<open>processed_run\<close>). A taken run in the mempool's order is a processed
  run, which is why honest proposals are accepted.
\<close>

section \<open>Transaction info and verification\<close>

lemma GetTxInfo_RetD:
  assumes "GetTxInfo H l ctx t = Ret i"
  shows "call1 (cfgTxEncoder (cfg l)) t = Ret (TxBytes i)" "Hash i = TxHash H (TxBytes i)"
    "Size i = of_nat (length (TxBytes i))" "TxGas t = Some (TxGasLimit i)"
  using assms by (auto simp: GetTxInfo_def go_simps TxHash_def split: option.splits)

text \<open>Two infos of one transaction differ at most in the logged priority.\<close>

lemma GetTxInfo_agree:
  assumes "GetTxInfo H l ctx t = Ret i" and "GetTxInfo H l ctx' t = Ret j"
  shows "Hash i = Hash j \<and> Size i = Size j \<and> TxGasLimit i = TxGasLimit j \<and> TxBytes i = TxBytes j"
  using GetTxInfo_RetD [OF assms(1)] GetTxInfo_RetD [OF assms(2)] by simp

lemma VerifyTx_fail_frame:
  "VerifyTx C l ctx t s = (ctx', r) \<Longrightarrow> r \<noteq> Ret () \<Longrightarrow> ctx' = ctx"
  by (auto simp: VerifyTx_def split: option.splits prod.splits go.splits)

lemma VerifyNoMatches_Ret_iff:
  "VerifyNoMatches l ctx ts = Ret () \<longleftrightarrow> (\<forall>t \<in> set ts. Match l ctx t = Ret False)"
  by (induction ts) (auto simp: go_simps)

lemma NewMatchHandler_Ret_True_iff:
  "NewMatchHandler mh ign ctx t = Ret True \<longleftrightarrow>
     mh ctx t = Ret True \<and> (\<forall>m \<in> set ign. m ctx t = Ret False)"
  by (induction ign) (auto simp: go_simps)

section \<open>The prepare loop\<close>

datatype verdict = TakeTx TxWithInfo | SkipTx | DropTx

definition verdict_of ::
    "'ctx ctx_ops \<Rightarrow> (bytes \<Rightarrow> bytes) \<Rightarrow> ('mp, 'ctx, 'z) lane_core_scheme \<Rightarrow> Proposal \<Rightarrow> LaneLimits \<Rightarrow>
     tx \<Rightarrow> 'ctx \<Rightarrow> i64 \<Rightarrow> u64 \<Rightarrow> 'ctx \<times> verdict go" where
  "verdict_of C H l p limit t ctx sz gas =
     (case GetTxInfo H l ctx t of
        Panic \<Rightarrow> (ctx, Panic)
      | Err _ \<Rightarrow> (ctx, Ret DropTx)
      | Ret i \<Rightarrow>
          if LimMaxGasLimit limit < TxGasLimit i \<or> LimMaxTxBytes limit <s Size i then (ctx, Ret DropTx)
          else
            (case Match l ctx t of
               Panic \<Rightarrow> (ctx, Panic)
             | Err e \<Rightarrow> (ctx, Err e)
             | Ret b \<Rightarrow>
                 if \<not> b then (ctx, Ret DropTx)
                 else if Contains p (Hash i) \<or> LimMaxTxBytes limit <s sz + Size i \<or>
                         LimMaxGasLimit limit < gas + TxGasLimit i
                 then (ctx, Ret SkipTx)
                 else
                   (case VerifyTx C l ctx t False of
                      (ctx', Panic) \<Rightarrow> (ctx', Panic)
                    | (ctx', Err _) \<Rightarrow> (ctx', Ret DropTx)
                    | (ctx', Ret _) \<Rightarrow> (ctx', Ret (TakeTx i)))))"

lemma default_prepare_loop_Cons:
  "default_prepare_loop C H l p limit (t # ts) ctx sz gas incl rmv =
     (case verdict_of C H l p limit t ctx sz gas of
        (ctx', Err e) \<Rightarrow> (ctx', Err e)
      | (ctx', Panic) \<Rightarrow> (ctx', Panic)
      | (ctx', Ret DropTx) \<Rightarrow> default_prepare_loop C H l p limit ts ctx' sz gas incl (rmv @ [t])
      | (ctx', Ret SkipTx) \<Rightarrow> default_prepare_loop C H l p limit ts ctx' sz gas incl rmv
      | (ctx', Ret (TakeTx i)) \<Rightarrow>
          default_prepare_loop C H l p limit ts ctx' (sz + Size i) (gas + TxGasLimit i) (incl @ [t]) rmv)"
  by (auto simp: verdict_of_def split: go.splits prod.splits bool.splits)

lemma verdict_keep_ctx:
  "verdict_of C H l p limit t ctx sz gas = (ctx', Ret v) \<Longrightarrow> v = DropTx \<or> v = SkipTx \<Longrightarrow> ctx' = ctx"
  by (auto simp: verdict_of_def dest: VerifyTx_fail_frame split: go.splits prod.splits if_splits)

lemma verdict_take:
  assumes "verdict_of C H l p limit t ctx sz gas = (ctx', Ret (TakeTx i))"
  shows "GetTxInfo H l ctx t = Ret i" "Match l ctx t = Ret True" "\<not> Contains p (Hash i)"
    "\<not> LimMaxTxBytes limit <s Size i" "\<not> LimMaxGasLimit limit < TxGasLimit i"
    "\<not> LimMaxTxBytes limit <s sz + Size i" "\<not> LimMaxGasLimit limit < gas + TxGasLimit i"
    "VerifyTx C l ctx t False = (ctx', Ret ())"
  using assms by (auto simp: verdict_of_def split: go.splits prod.splits if_splits)

inductive taken_run ::
    "'ctx ctx_ops \<Rightarrow> (bytes \<Rightarrow> bytes) \<Rightarrow> ('mp, 'ctx, 'z) lane_core_scheme \<Rightarrow> Proposal \<Rightarrow> LaneLimits \<Rightarrow>
     'ctx \<Rightarrow> i64 \<Rightarrow> u64 \<Rightarrow> tx list \<Rightarrow> TxWithInfo list \<Rightarrow> 'ctx \<Rightarrow> bool"
  for C H l p limit where
  taken_Nil: "taken_run C H l p limit ctx sz gas [] [] ctx"
| taken_Cons: "GetTxInfo H l ctx t = Ret i \<Longrightarrow> Match l ctx t = Ret True \<Longrightarrow> \<not> Contains p (Hash i) \<Longrightarrow>
    \<not> LimMaxTxBytes limit <s Size i \<Longrightarrow> \<not> LimMaxGasLimit limit < TxGasLimit i \<Longrightarrow>
    \<not> LimMaxTxBytes limit <s sz + Size i \<Longrightarrow> \<not> LimMaxGasLimit limit < gas + TxGasLimit i \<Longrightarrow>
    VerifyTx C l ctx t False = (ctx1, Ret ()) \<Longrightarrow>
    taken_run C H l p limit ctx1 (sz + Size i) (gas + TxGasLimit i) ts infos ctx2 \<Longrightarrow>
    taken_run C H l p limit ctx sz gas (t # ts) (i # infos) ctx2"

inductive_cases taken_run_ConsE: "taken_run C H l p limit ctx sz gas (t # ts) infos ctx2"
inductive_simps taken_run_Nil_iff [simp]: "taken_run C H l p limit ctx sz gas [] infos ctx2"

text \<open>Every successful run of the loop consists of a taken run and a list of drops.\<close>

lemma default_prepare_loop_run:
  "default_prepare_loop C H l p limit txs ctx sz gas incl rmv = (ctx', Ret (incl', rmv')) \<Longrightarrow>
   \<exists>xs ys infos. incl' = incl @ xs \<and> rmv' = rmv @ ys \<and> subseq xs txs \<and> subseq ys txs \<and>
     taken_run C H l p limit ctx sz gas xs infos ctx'"
proof (induction txs arbitrary: ctx sz gas incl rmv)
  case Nil
  then show ?case by auto
next
  case (Cons t ts)
  obtain c v where v: "verdict_of C H l p limit t ctx sz gas = (c, v)" by fastforce
  then obtain w where w: "v = Ret w" using Cons.prems
    by (cases v) (auto simp: default_prepare_loop_Cons simp del: default_prepare_loop.simps)
  note prems = Cons.prems [unfolded default_prepare_loop_Cons v w, simplified]
  show ?case
  proof (cases w)
    case (TakeTx i)
    with prems have "default_prepare_loop C H l p limit ts c (sz + Size i) (gas + TxGasLimit i)
        (incl @ [t]) rmv = (ctx', Ret (incl', rmv'))" by simp
    from Cons.IH [OF this] obtain xs ys infos where
      *: "incl' = (incl @ [t]) @ xs" "rmv' = rmv @ ys" "subseq xs ts" "subseq ys ts"
      "taken_run C H l p limit c (sz + Size i) (gas + TxGasLimit i) xs infos ctx'" by blast
    note tk = verdict_take [OF v [unfolded w TakeTx]]
    have "taken_run C H l p limit ctx sz gas (t # xs) (i # infos) ctx'"
      by (rule taken_Cons) (use tk *(5) in auto)
    then show ?thesis using * by (intro exI [of _ "t # xs"] exI [of _ ys]) auto
  next
    case SkipTx
    have c: "c = ctx" using verdict_keep_ctx [OF v [unfolded w SkipTx]] by simp
    from SkipTx prems have "default_prepare_loop C H l p limit ts ctx sz gas incl rmv =
        (ctx', Ret (incl', rmv'))" by (simp add: c)
    from Cons.IH [OF this] show ?thesis by (metis list_emb_Cons)
  next
    case DropTx
    have c: "c = ctx" using verdict_keep_ctx [OF v [unfolded w DropTx]] by simp
    from DropTx prems have "default_prepare_loop C H l p limit ts ctx sz gas incl (rmv @ [t]) =
        (ctx', Ret (incl', rmv'))" by (simp add: c)
    from Cons.IH [OF this] obtain xs ys infos where
      *: "incl' = incl @ xs" "rmv' = (rmv @ [t]) @ ys" "subseq xs ts" "subseq ys ts"
      "taken_run C H l p limit ctx sz gas xs infos ctx'" by blast
    then show ?thesis by (intro exI [of _ xs] exI [of _ "t # ys"] exI [of _ infos]) auto
  qed
qed

lemma Default_PrepareLaneHandler_run:
  assumes "Default_PrepareLaneHandler C H l mp ctx p limit = (mp', ctx', Ret (incl, rmv))"
  obtains m txs infos where "laneMempool l = Some m" "mpSelect m mp ctx = (mp', Ret txs)"
    "subseq incl txs" "subseq rmv txs" "taken_run C H l p limit ctx 0 0 incl infos ctx'"
  using assms default_prepare_loop_run [of C H l p limit _ ctx 0 0 "[]" "[]" ctx' incl rmv]
  by (fastforce simp: Default_PrepareLaneHandler_def split: option.splits prod.splits go.splits)

section \<open>What a taken run guarantees\<close>

lemma taken_run_lengths: "taken_run C H l p limit ctx sz gas ts infos ctx' \<Longrightarrow> length infos = length ts"
  by (induction rule: taken_run.induct) auto

lemma taken_run_infos:
  "taken_run C H l p limit ctx sz gas ts infos ctx' \<Longrightarrow>
   list_all2 (\<lambda>t i. \<exists>c. GetTxInfo H l c t = Ret i \<and> Match l c t = Ret True) ts infos \<and>
   (\<forall>i \<in> set infos. \<not> Contains p (Hash i))"
  by (induction rule: taken_run.induct) auto

text \<open>
  The running size cannot wrap when the lane's byte limit is below \<open>2^62\<close> and transactions are
  shorter than \<open>2^63\<close> bytes: each addend and each earlier total is at most the limit.
\<close>

lemma taken_run_size:
  assumes "taken_run C H l p limit ctx sz gas ts infos ctx'"
    and "sint (LimMaxTxBytes limit) < 2 ^ 62" and "0 \<le> sint sz" and "sint sz \<le> sint (LimMaxTxBytes limit)"
    and "\<forall>i \<in> set infos. length (TxBytes i) < 2 ^ 63"
  shows "sint sz + total_size infos \<le> sint (LimMaxTxBytes limit) \<and> (\<forall>i \<in> set infos. 0 \<le> sint (Size i))"
  using assms
proof (induction rule: taken_run.induct)
  case (taken_Nil ctx sz gas)
  then show ?case by simp
next
  case (taken_Cons ctx t i sz gas ctx1 ts infos ctx2)
  have i: "sint (Size i) = int (length (TxBytes i))"
    using GetTxInfo_RetD(3) [OF taken_Cons.hyps(1)] taken_Cons.prems(4) by (simp add: sint_of_nat_64)
  have le: "sint (Size i) \<le> sint (LimMaxTxBytes limit)"
    using taken_Cons.hyps(4) by (simp add: word_sless_alt)
  have add: "sint (sz + Size i) = sint sz + sint (Size i)"
    unfolding add_sint_64 by (rule sint_word_of_int_64) (use taken_Cons.prems i le in auto)
  moreover have "sint (sz + Size i) \<le> sint (LimMaxTxBytes limit)"
    using taken_Cons.hyps(6) by (simp add: word_sless_alt)
  ultimately show ?case using taken_Cons.IH taken_Cons.prems i by auto
qed

lemma taken_run_gas:
  assumes "taken_run C H l p limit ctx sz gas ts infos ctx'"
    and "uint (LimMaxGasLimit limit) < 2 ^ 63" and "uint gas \<le> uint (LimMaxGasLimit limit)"
  shows "uint gas + total_gas infos \<le> uint (LimMaxGasLimit limit)"
  using assms
proof (induction rule: taken_run.induct)
  case (taken_Nil ctx sz gas)
  then show ?case by simp
next
  case (taken_Cons ctx t i sz gas ctx1 ts infos ctx2)
  have le: "uint (TxGasLimit i) \<le> uint (LimMaxGasLimit limit)"
    using taken_Cons.hyps(5) by (simp add: word_less_def)
  have add: "uint (gas + TxGasLimit i) = uint gas + uint (TxGasLimit i)"
    unfolding add_uint_64 by (rule uint_word_of_int_64) (use taken_Cons.prems le in auto)
  moreover have "uint (gas + TxGasLimit i) \<le> uint (LimMaxGasLimit limit)"
    using taken_Cons.hyps(7) by (simp add: word_less_def)
  ultimately show ?case using taken_Cons.IH taken_Cons.prems by auto
qed

text \<open>\<open>sizes_bounded\<close>: every encoding is shorter than \<open>2^63\<close> bytes, as slices in Go are.\<close>

definition sizes_bounded :: "('mp, 'ctx, 'z) lane_core_scheme \<Rightarrow> bool" where
  "sizes_bounded l \<longleftrightarrow> (\<forall>t bz. call1 (cfgTxEncoder (cfg l)) t = Ret bz \<longrightarrow> length bz < 2 ^ 63)"

lemma taken_run_bounded:
  assumes "taken_run C H l p limit ctx sz gas ts infos ctx'" and "sizes_bounded l"
  shows "\<forall>i \<in> set infos. length (TxBytes i) < 2 ^ 63"
  using assms(1)
proof (induction rule: taken_run.induct)
  case (taken_Cons ctx t i sz gas ctx1 ts infos ctx2)
  then show ?case using GetTxInfo_RetD(1) [OF taken_Cons.hyps(1)] assms(2)
    by (auto simp: sizes_bounded_def)
qed simp

text \<open>C11: The default prepare handler selects, in mempool order, only transactions that belong to
  the lane and are not yet in the proposal, with a total size within the lane's byte limit and,
  when the gas limit is below \<open>2^63\<close>, a total gas within the lane's gas limit.\<close>

theorem default_prepare_within_limits:
  assumes "Default_PrepareLaneHandler C H l mp ctx p limit = (mp', ctx', Ret (incl, rmv))"
    and "sizes_bounded l" and "0 \<le> sint (LimMaxTxBytes limit)" and "sint (LimMaxTxBytes limit) < 2 ^ 62"
  shows "\<exists>m txs infos. laneMempool l = Some m \<and> mpSelect m mp ctx = (mp', Ret txs) \<and>
    subseq incl txs \<and> subseq rmv txs \<and>
    list_all2 (\<lambda>t i. \<exists>c. GetTxInfo H l c t = Ret i \<and> Match l c t = Ret True) incl infos \<and>
    (\<forall>i \<in> set infos. Hash i \<notin> Cache p) \<and>
    total_size infos \<le> sint (LimMaxTxBytes limit) \<and>
    (uint (LimMaxGasLimit limit) < 2 ^ 63 \<longrightarrow> total_gas infos \<le> uint (LimMaxGasLimit limit))"
proof -
  from Default_PrepareLaneHandler_run [OF assms(1)] obtain m txs infos where
    *: "laneMempool l = Some m" "mpSelect m mp ctx = (mp', Ret txs)" "subseq incl txs" "subseq rmv txs"
    and run: "taken_run C H l p limit ctx 0 0 incl infos ctx'" by metis
  have "total_size infos \<le> sint (LimMaxTxBytes limit)"
    using taken_run_size [OF run assms(4) _ _ taken_run_bounded [OF run assms(2)]] assms(3) by simp
  moreover have "total_gas infos \<le> uint (LimMaxGasLimit limit)" if "uint (LimMaxGasLimit limit) < 2 ^ 63"
    using taken_run_gas [OF run that] uint_range_64 [of "LimMaxGasLimit limit"] by simp
  ultimately show ?thesis
    using * taken_run_infos [OF run] unfolding Contains_def by blast
qed

section \<open>The process loop\<close>

text \<open>
  A run of accepted transactions: each one matches, is not ordered before its predecessor, and
  passes verification in the context its predecessors left.
\<close>

definition in_order ::
    "('mp, 'ctx, 'z) lane_core_scheme \<Rightarrow> 'mp \<Rightarrow> 'ctx \<Rightarrow> tx \<Rightarrow> tx \<Rightarrow> bool" where
  "in_order l mp ctx a b \<longleftrightarrow> (\<exists>v. lane_Compare l mp ctx a b = Ret v \<and> v \<noteq> - 1)"

inductive processed_run ::
    "'ctx ctx_ops \<Rightarrow> ('mp, 'ctx, 'z) lane_core_scheme \<Rightarrow> 'mp \<Rightarrow> tx list \<Rightarrow> 'ctx \<Rightarrow> tx list \<Rightarrow> 'ctx \<Rightarrow> bool"
  for C l mp where
  processed_Nil: "processed_run C l mp seen ctx [] ctx"
| processed_Cons: "Match l ctx t = Ret True \<Longrightarrow> seen = [] \<or> in_order l mp ctx (last seen) t \<Longrightarrow>
    VerifyTx C l ctx t False = (ctx1, Ret ()) \<Longrightarrow> processed_run C l mp (seen @ [t]) ctx1 ts ctx2 \<Longrightarrow>
    processed_run C l mp seen ctx (t # ts) ctx2"

inductive_cases processed_run_ConsE: "processed_run C l mp seen ctx (t # ts) ctx2"
inductive_simps processed_run_Nil_iff [simp]: "processed_run C l mp seen ctx [] ctx2"

lemma processed_run_Cons_iff:
  "processed_run C l mp seen ctx (t # ts) ctx2 \<longleftrightarrow>
     Match l ctx t = Ret True \<and> (seen = [] \<or> in_order l mp ctx (last seen) t) \<and>
     (\<exists>ctx1. VerifyTx C l ctx t False = (ctx1, Ret ()) \<and> processed_run C l mp (seen @ [t]) ctx1 ts ctx2)"
  by (auto intro: processed_Cons elim: processed_run_ConsE)

lemma default_process_loop_sound:
  "default_process_loop C l mp seen txs ctx = (ctx', Ret (a, b)) \<Longrightarrow>
   \<exists>xs. a = seen @ xs \<and> txs = xs @ b \<and> processed_run C l mp seen ctx xs ctx' \<and>
     (\<forall>t \<in> set b. Match l ctx' t = Ret False)"
proof (induction txs arbitrary: seen ctx)
  case Nil
  then show ?case by auto
next
  case (Cons t ts)
  from Cons.prems consider
    (stop) "Match l ctx t = Ret False" "VerifyNoMatches l ctx ts = Ret ()" "ctx' = ctx" "a = seen" "b = t # ts"
  | (step) ctx1 where "Match l ctx t = Ret True" "seen = [] \<or> in_order l mp ctx (last seen) t"
      "VerifyTx C l ctx t False = (ctx1, Ret ())"
      "default_process_loop C l mp (seen @ [t]) ts ctx1 = (ctx', Ret (a, b))"
    by (auto simp: in_order_def split: go.splits bool.splits prod.splits if_splits)
  then show ?case
  proof cases
    case stop
    then show ?thesis by (auto simp: VerifyNoMatches_Ret_iff)
  next
    case step
    from Cons.IH [OF step(4)] obtain xs where "a = (seen @ [t]) @ xs" "ts = xs @ b"
      "processed_run C l mp (seen @ [t]) ctx1 xs ctx'" "\<forall>u \<in> set b. Match l ctx' u = Ret False" by blast
    then show ?thesis using step(1-3) by (intro exI [of _ "t # xs"]) (auto simp: processed_run_Cons_iff)
  qed
qed

lemma default_process_loop_complete:
  "processed_run C l mp seen ctx xs ctx' \<Longrightarrow> \<forall>t \<in> set b. Match l ctx' t = Ret False \<Longrightarrow>
   default_process_loop C l mp seen (xs @ b) ctx = (ctx', Ret (seen @ xs, b))"
proof (induction arbitrary: b rule: processed_run.induct)
  case (processed_Nil seen ctx)
  then show ?case by (cases b) (auto simp: VerifyNoMatches_Ret_iff [THEN iffD2])
next
  case (processed_Cons ctx t seen ctx1 ts ctx2)
  from processed_Cons.IH [OF processed_Cons.prems] processed_Cons.hyps(1-3)
  show ?case by (auto simp: in_order_def)
qed

lemma Default_ProcessLaneHandler_iff:
  "Default_ProcessLaneHandler C l mp ctx txs = (ctx', Ret (own, rest)) \<longleftrightarrow>
     txs = own @ rest \<and> processed_run C l mp [] ctx own ctx' \<and>
     (\<forall>t \<in> set rest. Match l ctx' t = Ret False)"
proof (cases "txs = []")
  case True
  then show ?thesis by (auto simp: Default_ProcessLaneHandler_def)
next
  case False
  then show ?thesis
    using default_process_loop_sound [of C l mp "[]" txs ctx ctx' own rest]
      default_process_loop_complete [of C l mp "[]" ctx own ctx' rest]
    by (auto simp: Default_ProcessLaneHandler_def)
qed

text \<open>C7: The default process handler accepts a list of transactions iff it splits into a run of
  the lane's own transactions, in the lane's order and verified one after the other, followed by
  transactions none of which belongs to the lane; it returns exactly this split.\<close>

theorem default_process_accepts_iff:
  "Default_ProcessLaneHandler C l mp ctx txs = (ctx', Ret (own, rest)) \<longleftrightarrow>
     txs = own @ rest \<and> processed_run C l mp [] ctx own ctx' \<and>
     (\<forall>t \<in> set rest. Match l ctx' t = Ret False)"
  by (rule Default_ProcessLaneHandler_iff)

section \<open>Prepared transactions are processed transactions\<close>

lemma taken_run_processed:
  assumes "taken_run C H l p limit ctx sz gas xs infos ctx'"
    and "\<forall>c. sorted_wrt (in_order l mp c) (seen @ xs)"
  shows "processed_run C l mp seen ctx xs ctx'"
  using assms
proof (induction arbitrary: seen rule: taken_run.induct)
  case (taken_Nil ctx sz gas)
  then show ?case by simp
next
  case (taken_Cons ctx t i sz gas ctx1 ts infos ctx2)
  have "\<forall>c. sorted_wrt (in_order l mp c) ((seen @ [t]) @ ts)" using taken_Cons.prems by simp
  moreover have "seen = [] \<or> in_order l mp ctx (last seen) t"
    using taken_Cons.prems by (cases "seen = []") (auto simp: sorted_wrt_append)
  ultimately show ?case
    using taken_Cons.IH taken_Cons.hyps by (auto simp: processed_run_Cons_iff)
qed

lemma sorted_wrt_subseq: "subseq xs ys \<Longrightarrow> sorted_wrt R ys \<Longrightarrow> sorted_wrt R xs"
proof (induction rule: list_emb.induct)
  case (list_emb_Cons2 x y xs ys)
  then show ?case by (auto dest: list_emb_set)
qed auto

text \<open>What the default prepare handler selects, the default process handler accepts: if the
  mempool's iterator respects the mempool's own comparison, then the selected transactions,
  followed by any transactions that do not belong to the lane, are accepted with exactly that
  split, and verification leaves the same context as preparation did.\<close>

lemma default_prepared_is_processed:
  assumes "Default_PrepareLaneHandler C H l mp ctx p limit = (mp', ctx', Ret (incl, rmv))"
    and "\<And>m txs. laneMempool l = Some m \<Longrightarrow> mpSelect m mp ctx = (mp', Ret txs) \<Longrightarrow>
      \<forall>c. sorted_wrt (in_order l mp2 c) txs"
    and "\<forall>t \<in> set rest. Match l ctx' t = Ret False"
  shows "Default_ProcessLaneHandler C l mp2 ctx (incl @ rest) = (ctx', Ret (incl, rest))"
proof -
  from Default_PrepareLaneHandler_run [OF assms(1)] obtain m txs infos where
    *: "laneMempool l = Some m" "mpSelect m mp ctx = (mp', Ret txs)" "subseq incl txs"
    and run: "taken_run C H l p limit ctx 0 0 incl infos ctx'" by metis
  have "\<forall>c. sorted_wrt (in_order l mp2 c) ([] @ incl)"
    using assms(2) [OF *(1,2)] sorted_wrt_subseq [OF *(3)] by auto
  from taken_run_processed [OF run this] assms(3) show ?thesis
    by (simp add: Default_ProcessLaneHandler_iff)
qed

section \<open>PrepareLane and ProcessLane in cases\<close>

lemma with_maps_of [simp]: "with_maps (maps_of p) p = p"
  by (simp add: with_maps_def maps_of_def)

lemma UpdateProposal_maps_frame:
  "UpdateProposal D n s p ts = (p1, r) \<Longrightarrow> r \<noteq> Ret () \<Longrightarrow> maps_of p1 = maps_of p"
  by (cases rule: UpdateProposal_cases [of ts D n s p]) auto

text \<open>
  A lane either fails, and then the shared maps are as before, or hands the updated proposal to
  the next lane. Only its own mempool changes in the store. \<open>lane_failed\<close> is the first outcome.
\<close>

definition lane_failed ::
    "nat \<Rightarrow> 'mp store \<Rightarrow> Proposal \<Rightarrow> 'mp store \<times> 'ctx \<times> shared_maps \<times> Proposal go \<Rightarrow> bool" where
  "lane_failed ref mps p out \<longleftrightarrow>
     (\<exists>mp1 ctx1 r. out = (mps(ref := mp1), ctx1, maps_of p, r) \<and> (\<forall>q. r \<noteq> Ret q))"

lemma lane_failedI:
  "\<forall>q. r \<noteq> Ret q \<Longrightarrow> lane_failed ref mps p (mps(ref := mp1), ctx1, maps_of p, r)"
  "\<forall>q. r \<noteq> Ret q \<Longrightarrow> lane_failed ref mps p (mps, ctx1, maps_of p, r)"
  unfolding lane_failed_def by (blast, metis fun_upd_triv)

lemma PrepareLane_after_select:
  assumes "GetLaneLimits D p (GetMaxBlockSpace l) = Ret limit" and "prepareLaneHandler l = Some handler"
    and "handler (lane_core.truncate l) (mps (laneRef l)) ctx p limit = (mp1, ctx1, Ret (incl, rmv))"
    and "\<not> lane_failed (laneRef l) mps p (BaseLane_PrepareLane D H l next mps ctx p)"
  obtains infos p1 where "go_map_list (GetTxInfo H l ctx1) incl = Ret infos"
    "UpdateProposal D (laneName l) (GetMaxBlockSpace l) p infos = (p1, Ret ())"
    "BaseLane_PrepareLane D H l next mps ctx p =
       next (mps(laneRef l := fst (remove_invalid l rmv mp1))) ctx1 p1"
proof -
  obtain mp2 rr where rr: "remove_invalid l rmv mp1 = (mp2, rr)" by (metis prod.collapse)
  note simps = BaseLane_PrepareLane_def assms(1-3) rr
  have "rr \<noteq> Panic" using assms(4) by (auto simp: simps intro: lane_failedI)
  moreover obtain infos where infos: "go_map_list (GetTxInfo H l ctx1) incl = Ret infos"
    using assms(4) \<open>rr \<noteq> Panic\<close>
    by (cases "go_map_list (GetTxInfo H l ctx1) incl"; cases rr) (auto simp: simps intro: lane_failedI)
  moreover obtain p1 ur where up: "UpdateProposal D (laneName l) (GetMaxBlockSpace l) p infos = (p1, ur)"
    by (metis prod.collapse)
  moreover have "ur = Ret ()"
  proof (rule ccontr)
    assume "ur \<noteq> Ret ()"
    with UpdateProposal_maps_frame [OF up] assms(4) \<open>rr \<noteq> Panic\<close> infos up show False
      by (cases ur; cases rr) (auto simp: simps intro: lane_failedI)
  qed
  ultimately show thesis
    by (intro that [of infos p1]; cases rr) (auto simp: simps)
qed

lemma PrepareLane_cases:
  obtains (fail) "lane_failed (laneRef l) mps p (BaseLane_PrepareLane D H l next mps ctx p)"
  | (go) limit handler mp1 ctx1 incl rmv infos p1 where
      "GetLaneLimits D p (GetMaxBlockSpace l) = Ret limit"
      "prepareLaneHandler l = Some handler"
      "handler (lane_core.truncate l) (mps (laneRef l)) ctx p limit = (mp1, ctx1, Ret (incl, rmv))"
      "go_map_list (GetTxInfo H l ctx1) incl = Ret infos"
      "UpdateProposal D (laneName l) (GetMaxBlockSpace l) p infos = (p1, Ret ())"
      "BaseLane_PrepareLane D H l next mps ctx p =
         next (mps(laneRef l := fst (remove_invalid l rmv mp1))) ctx1 p1"
proof (cases "lane_failed (laneRef l) mps p (BaseLane_PrepareLane D H l next mps ctx p)")
  case True
  then show thesis by (rule fail)
next
  case False
  obtain limit where lim: "GetLaneLimits D p (GetMaxBlockSpace l) = Ret limit"
    using False by (cases "GetLaneLimits D p (GetMaxBlockSpace l)")
      (auto simp: BaseLane_PrepareLane_def intro: lane_failedI)
  moreover obtain handler where h: "prepareLaneHandler l = Some handler"
    using False lim by (cases "prepareLaneHandler l")
      (auto simp: BaseLane_PrepareLane_def intro: lane_failedI)
  moreover obtain mp1 ctx1 r where r:
      "handler (lane_core.truncate l) (mps (laneRef l)) ctx p limit = (mp1, ctx1, r)"
    by (metis prod.collapse)
  moreover obtain incl rmv where "r = Ret (incl, rmv)"
    using False lim h r by (cases r) (auto simp: BaseLane_PrepareLane_def intro: lane_failedI)
  ultimately show thesis
    using PrepareLane_after_select [of D p l limit handler mps ctx mp1 ctx1 incl rmv H "next"] False go
    by metis
qed

lemma ProcessLane_Ret_cases:
  assumes "BaseLane_ProcessLane D H l next mps ctx p txs = (ctx', Ret q)"
  obtains (skip) "txs = []" "next mps ctx p txs = (ctx', Ret q)"
  | (go) handler ctx1 own rest infos p1 where "txs \<noteq> []" "processLaneHandler l = Some handler"
      "handler (lane_core.truncate l) (mps (laneRef l)) ctx txs = (ctx1, Ret (own, rest))"
      "go_map_list (GetTxInfo H l ctx1) own = Ret infos"
      "UpdateProposal D (laneName l) (GetMaxBlockSpace l) p infos = (p1, Ret ())"
      "next mps ctx1 p1 rest = (ctx', Ret q)"
proof (cases "txs = []")
  case True
  then show thesis using assms by (intro skip) (simp_all add: BaseLane_ProcessLane_def)
next
  case False
  from assms False obtain handler ctx1 own rest infos p1 where
    "processLaneHandler l = Some handler"
    "handler (lane_core.truncate l) (mps (laneRef l)) ctx txs = (ctx1, Ret (own, rest))"
    "go_map_list (GetTxInfo H l ctx1) own = Ret infos"
    "UpdateProposal D (laneName l) (GetMaxBlockSpace l) p infos = (p1, Ret ())"
    "next mps ctx1 p1 rest = (ctx', Ret q)"
    by (auto simp: BaseLane_ProcessLane_def split: option.splits prod.splits go.splits)
  with False show thesis by (rule go)
qed

section \<open>Concrete instances\<close>

text \<open>
  A mempool that is a list of transactions in arrival order, and a lane over it with the default
  handlers; transactions are encoded as their content.
\<close>

definition list_mempool :: "(tx list, 'ctx) LaneMempool" where
  "list_mempool = \<lparr> mpInsert = (\<lambda>mp _ t. (mp @ [t], Ret ())), mpSelect = (\<lambda>mp _. (mp, Ret mp)),
     mpCountTx = length, mpRemove = (\<lambda>mp t. (removeAll t mp, Ret ())),
     mpCompare = (\<lambda>_ _ _ _. Ret 0), mpContains = (\<lambda>mp t. Ret (t \<in> set mp)),
     mpPriority = (\<lambda>_ _. Ret (AnyInt 0)) \<rparr>"

definition sample_lane ::
    "nat \<Rightarrow> string \<Rightarrow> LegacyDec \<Rightarrow> value_context MatchHandler \<Rightarrow> (tx list, value_context) BaseLane" where
  "sample_lane ref name space mh =
     \<lparr> laneRef = ref,
       cfg = NewLaneConfig (Some ()) (Some sample_encode) (Some (\<lambda>bz. Ret (sample_tx bz))) None
         (Some DefaultAdapter_GetSigners) space,
       laneName = name, laneMempool = Some list_mempool, matchHandler = Some mh,
       prepareLaneHandler = Some (Default_PrepareLaneHandler value_ctx (\<lambda>bz. bz)),
       processLaneHandler = Some (Default_ProcessLaneHandler value_ctx) \<rparr>"

definition sample_ctx :: value_context where
  "sample_ctx = \<lparr> VcBlock = Some \<lparr> ParamMaxBytes = 100, ParamMaxGas = 100 \<rparr>, VcHeight = 5,
     VcMode = ExecModePrepareProposal, VcPriority = 0, VcStore = (\<lambda>_. 0) \<rparr>"

definition sample_limit :: LaneLimits where
  "sample_limit = \<lparr> LimMaxTxBytes = 3, LimMaxGasLimit = 100 \<rparr>"

lemma list_mempool_simps [simp]:
  "mpInsert list_mempool mp ctx t = (mp @ [t], Ret ())"
  "mpSelect list_mempool mp ctx = (mp, Ret mp)"
  "mpCountTx list_mempool mp = length mp"
  "mpRemove list_mempool mp t = (removeAll t mp, Ret ())"
  "mpCompare list_mempool mp ctx t u = Ret 0"
  "mpContains list_mempool mp t = Ret (t \<in> set mp)"
  "mpPriority list_mempool ctx t = Ret (AnyInt 0)"
  by (simp_all add: list_mempool_def)

lemma sample_lane_simps [simp]:
  "laneRef (sample_lane ref name space mh) = ref"
  "laneName (sample_lane ref name space mh) = name"
  "laneMempool (sample_lane ref name space mh) = Some list_mempool"
  "GetMaxBlockSpace (sample_lane ref name space mh) = space"
  "Match (sample_lane ref name space mh) ctx t = mh ctx t"
  "VerifyTx C (sample_lane ref name space mh) ctx t b = (ctx, Ret ())"
  "lane_Compare (sample_lane ref name space mh) mp ctx t u = Ret 0"
  "prepareLaneHandler (sample_lane ref name space mh) =
     Some (Default_PrepareLaneHandler value_ctx (\<lambda>bz. bz))"
  "processLaneHandler (sample_lane ref name space mh) = Some (Default_ProcessLaneHandler value_ctx)"
  "cfgTxEncoder (cfg (sample_lane ref name space mh)) = Some sample_encode"
  by (simp_all add: sample_lane_def NewLaneConfig_def GetMaxBlockSpace_def Match_def VerifyTx_def
      lane_Compare_def)

lemma truncate_simps [simp]:
  "laneRef (lane_core.truncate l) = laneRef l"
  "laneName (lane_core.truncate l) = laneName l"
  "laneMempool (lane_core.truncate l) = laneMempool l"
  "cfg (lane_core.truncate l) = cfg l"
  "matchHandler (lane_core.truncate l) = matchHandler l"
  "GetMaxBlockSpace (lane_core.truncate l) = GetMaxBlockSpace l"
  "Match (lane_core.truncate l) = Match l"
  "VerifyTx C (lane_core.truncate l) = VerifyTx C l"
  "lane_Compare (lane_core.truncate l) = lane_Compare l"
  "GetTxInfo H (lane_core.truncate l) = GetTxInfo H l"
  "sizes_bounded (lane_core.truncate l) = sizes_bounded l"
  by (simp_all add: lane_core.defs GetMaxBlockSpace_def Match_def VerifyTx_def lane_Compare_def
      GetTxInfo_def sizes_bounded_def fun_eq_iff cong: option.case_cong)

lemma sample_GetTxInfo [simp]:
  "length bz < 2 ^ 31 \<Longrightarrow> GetTxInfo (\<lambda>bz. bz) (sample_lane ref name space mh) ctx (sample_tx bz) =
     Ret \<lparr> Hash = TxHash (\<lambda>bz. bz) bz, Size = of_nat (length bz), TxGasLimit = 5, TxBytes = bz,
       TxPriorityValue = AnyInt 0, Signers = [\<lparr> Signer = [7], Sequence = 1 \<rparr>] \<rparr>"
  by (simp add: GetTxInfo_def TxHash_def sample_lane_def NewLaneConfig_def)

abbreviation sample_core :: "(tx list, value_context) lane_core" where
  "sample_core \<equiv> lane_core.truncate (sample_lane 0 ''default'' (Dec 0) DefaultMatchHandler)"

lemma sample_prepared:
  "Default_PrepareLaneHandler value_ctx (\<lambda>bz. bz) sample_core
     [sample_tx [1, 2], sample_tx [3, 4], sample_tx [5], sample_tx [6, 7, 8, 9]] sample_ctx
     (NewProposal 1000 100) sample_limit =
   ([sample_tx [1, 2], sample_tx [3, 4], sample_tx [5], sample_tx [6, 7, 8, 9]], sample_ctx,
    Ret ([sample_tx [1, 2], sample_tx [5]], [sample_tx [6, 7, 8, 9]]))"
  by (simp add: Default_PrepareLaneHandler_def Contains_def sample_limit_def NewProposal_def
      word_sless_alt DefaultMatchHandler_def)

lemma sample_sizes_bounded: "sizes_bounded (sample_lane ref name space mh)"
  by (auto simp: sizes_bounded_def sample_encode_def split: if_splits)

theorem default_prepare_within_limits_witness:
  "\<exists>infos. list_all2 (\<lambda>t i. \<exists>c. GetTxInfo (\<lambda>bz. bz) sample_core c t = Ret i \<and> Match sample_core c t = Ret True)
      [sample_tx [1, 2], sample_tx [5]] infos \<and> total_size infos \<le> 3 \<and> total_gas infos \<le> 100"
  using default_prepare_within_limits [OF sample_prepared]
  by (simp add: sample_limit_def sample_sizes_bounded) blast

theorem default_process_accepts_iff_witness:
  "Default_ProcessLaneHandler value_ctx sample_core [] sample_ctx ([sample_tx [1]] @ []) =
     (sample_ctx, Ret ([sample_tx [1]], []))"
  by (rule default_process_accepts_iff [THEN iffD2])
     (simp add: processed_run_Cons_iff DefaultMatchHandler_def)

end
