(* ===== verification/Lanes.thy ===== *)
theory Lanes
  imports Base_Lane_Lemmas
begin

text \<open>
  The lane interface (\<open>block/lane.go\<close>), its implementations \<open>Terminator\<close>
  (\<open>lanes/terminator/lane.go\<close>) and the base lane, \<open>FindLane\<close>, and the ante decorator that skips
  the transactions of given lanes (\<open>block/ante.go\<close>). A value of the interface is the terminator
  or a record of methods; the chain code tests for the terminator by comparing interface values.
\<close>

section \<open>The interface\<close>

record ('mp, 'ctx) LaneMethods =
  vtName :: string
  vtGetMaxBlockSpace :: LegacyDec
  vtMatch :: "'ctx \<Rightarrow> tx \<Rightarrow> bool go"
  vtPrepareLane :: "('mp, 'ctx) PrepareLanesHandler \<Rightarrow> ('mp, 'ctx) PrepareLanesHandler"
  vtProcessLane :: "('mp, 'ctx) ProcessLanesHandler \<Rightarrow> ('mp, 'ctx) ProcessLanesHandler"
  vtInsert :: "'mp store \<Rightarrow> 'ctx \<Rightarrow> tx \<Rightarrow> 'mp store \<times> unit go"
  vtRemove :: "'mp store \<Rightarrow> tx \<Rightarrow> 'mp store \<times> unit go"
  vtContains :: "'mp store \<Rightarrow> tx \<Rightarrow> bool go"
  vtCountTx :: "'mp store \<Rightarrow> nat go"

datatype ('mp, 'ctx) Lane = Terminator | LaneOf "('mp, 'ctx) LaneMethods"

section \<open>The terminator\<close>

definition Terminator_LaneName :: string where
  "Terminator_LaneName = ''Terminator''"

definition Terminator_PrepareLane :: "('mp, 'ctx) PrepareLanesHandler" where
  "Terminator_PrepareLane mps ctx proposal = (mps, ctx, maps_of proposal, Ret proposal)"

definition Terminator_ProcessLane :: "('mp, 'ctx) ProcessLanesHandler" where
  "Terminator_ProcessLane mps ctx p txs =
     (if txs \<noteq> [] then (ctx, Err (Errorf ''terminator lane should not have any transactions''))
      else (ctx, Ret p))"

text \<open>The remaining methods of the terminator: it holds and matches nothing.\<close>

definition Terminator_methods :: "dec_ops \<Rightarrow> ('mp, 'ctx) LaneMethods" where
  "Terminator_methods D =
     \<lparr> vtName = Terminator_LaneName, vtGetMaxBlockSpace = decZero D, vtMatch = (\<lambda>_ _. Ret False),
       vtPrepareLane = (\<lambda>_. Terminator_PrepareLane), vtProcessLane = (\<lambda>_. Terminator_ProcessLane),
       vtInsert = (\<lambda>mps _ _. (mps, Ret ())), vtRemove = (\<lambda>mps _. (mps, Ret ())),
       vtContains = (\<lambda>_ _. Ret False), vtCountTx = (\<lambda>_. Ret 0) \<rparr>"

section \<open>The base lane behind the interface\<close>

text \<open>The mempool methods are promoted from the embedded interface, which may be nil.\<close>

definition base_lane_methods ::
    "dec_ops \<Rightarrow> (bytes \<Rightarrow> bytes) \<Rightarrow> ('mp, 'ctx) BaseLane \<Rightarrow> ('mp, 'ctx) LaneMethods" where
  "base_lane_methods D H l =
     \<lparr> vtName = laneName l, vtGetMaxBlockSpace = GetMaxBlockSpace l, vtMatch = Match l,
       vtPrepareLane = BaseLane_PrepareLane D H l, vtProcessLane = BaseLane_ProcessLane D H l,
       vtInsert = (\<lambda>mps ctx t. case laneMempool l of None \<Rightarrow> (mps, Panic)
         | Some m \<Rightarrow> (case mpInsert m (mps (laneRef l)) ctx t of (mp, r) \<Rightarrow> (mps(laneRef l := mp), r))),
       vtRemove = (\<lambda>mps t. case laneMempool l of None \<Rightarrow> (mps, Panic)
         | Some m \<Rightarrow> (case mpRemove m (mps (laneRef l)) t of (mp, r) \<Rightarrow> (mps(laneRef l := mp), r))),
       vtContains = (\<lambda>mps t. case laneMempool l of None \<Rightarrow> Panic
         | Some m \<Rightarrow> mpContains m (mps (laneRef l)) t),
       vtCountTx = (\<lambda>mps. case laneMempool l of None \<Rightarrow> Panic
         | Some m \<Rightarrow> Ret (mpCountTx m (mps (laneRef l)))) \<rparr>"

fun methods :: "dec_ops \<Rightarrow> ('mp, 'ctx) Lane \<Rightarrow> ('mp, 'ctx) LaneMethods" where
  "methods D Terminator = Terminator_methods D"
| "methods D (LaneOf v) = v"

section \<open>Searching lanes\<close>

text \<open>\<open>FindLane\<close> returns the lane, its index and whether it was found.\<close>

fun FindLane_from ::
    "dec_ops \<Rightarrow> nat \<Rightarrow> ('mp, 'ctx) Lane list \<Rightarrow> string \<Rightarrow> ('mp, 'ctx) Lane option \<times> nat \<times> bool" where
  "FindLane_from D i [] name = (None, 0, False)"
| "FindLane_from D i (lane # lanes) name =
     (if vtName (methods D lane) = name then (Some lane, i, True)
      else FindLane_from D (Suc i) lanes name)"

definition FindLane ::
    "dec_ops \<Rightarrow> ('mp, 'ctx) Lane list \<Rightarrow> string \<Rightarrow> ('mp, 'ctx) Lane option \<times> nat \<times> bool" where
  "FindLane D lanes name = FindLane_from D 0 lanes name"

lemma FindLane_from_spec:
  "FindLane_from D i lanes name = (r, k, f) \<Longrightarrow>
   if f then \<exists>j < length lanes. k = i + j \<and> r = Some (lanes ! j) \<and>
          vtName (methods D (lanes ! j)) = name \<and> (\<forall>j' < j. vtName (methods D (lanes ! j')) \<noteq> name)
   else r = None \<and> k = 0 \<and> (\<forall>lane \<in> set lanes. vtName (methods D lane) \<noteq> name)"
proof (induction D i lanes name rule: FindLane_from.induct)
  case (1 D i name)
  then show ?case by auto
next
  case (2 D i lane lanes name)
  show ?case
  proof (cases "vtName (methods D lane) = name")
    case True
    with "2.prems" show ?thesis by auto
  next
    case False
    with "2.prems" have tail: "FindLane_from D (Suc i) lanes name = (r, k, f)" by simp
    show ?thesis
    proof (cases f)
      case True
      with "2.IH" [OF False tail] obtain j where j: "j < length lanes" "k = Suc i + j"
        "r = Some (lanes ! j)" "vtName (methods D (lanes ! j)) = name"
        "\<forall>j' < j. vtName (methods D (lanes ! j')) \<noteq> name" by auto
      have "\<forall>j' < Suc j. vtName (methods D ((lane # lanes) ! j')) \<noteq> name"
      proof (intro allI impI)
        fix j' assume "j' < Suc j"
        then show "vtName (methods D ((lane # lanes) ! j')) \<noteq> name"
          using False j(5) by (cases j') auto
      qed
      with j True show ?thesis by (auto intro!: exI [of _ "Suc j"])
    next
      case f: False
      with "2.IH" [OF False tail] False show ?thesis by simp
    qed
  qed
qed

text \<open>\<open>FindLane\<close> finds the first lane with the given name, with its index, and reports
  failure exactly when no lane has the name.\<close>

lemma FindLane_correct:
  assumes "FindLane D lanes name = (r, k, found)"
  shows "if found then k < length lanes \<and> r = Some (lanes ! k) \<and>
       vtName (methods D (lanes ! k)) = name \<and> (\<forall>j < k. vtName (methods D (lanes ! j)) \<noteq> name)
     else r = None \<and> k = 0 \<and> (\<forall>lane \<in> set lanes. vtName (methods D lane) \<noteq> name)"
  using FindLane_from_spec [of D 0 lanes name r k found] assms by (auto simp: FindLane_def)

section \<open>The ignore decorator\<close>

text \<open>
  The decorated ante decorator and the next handler are calls that may write to the store.
  \<open>AnteHandle\<close> asks the lanes in order; the first match goes straight to \<open>next\<close>.
\<close>

fun IgnoreDecorator_AnteHandle ::
    "dec_ops \<Rightarrow> ('mp, 'ctx) Lane list \<Rightarrow>
     ('ctx \<Rightarrow> tx \<Rightarrow> bool \<Rightarrow> 'ctx ante_handler \<Rightarrow> 'ctx \<times> 'ctx go) \<Rightarrow>
     'ctx \<Rightarrow> tx \<Rightarrow> bool \<Rightarrow> 'ctx ante_handler \<Rightarrow> 'ctx \<times> 'ctx go" where
  "IgnoreDecorator_AnteHandle D [] decorator ctx t simulate next = decorator ctx t simulate next"
| "IgnoreDecorator_AnteHandle D (lane # lanes) decorator ctx t simulate next =
     (case vtMatch (methods D lane) ctx t of
        Ret True \<Rightarrow> next ctx t simulate
      | Ret False \<Rightarrow> IgnoreDecorator_AnteHandle D lanes decorator ctx t simulate next
      | Err e \<Rightarrow> (ctx, Err e)
      | Panic \<Rightarrow> (ctx, Panic))"

lemma IgnoreDecorator_skips:
  assumes "\<forall>lane \<in> set lanes. \<exists>b. vtMatch (methods D lane) ctx t = Ret b"
  shows "IgnoreDecorator_AnteHandle D lanes decorator ctx t simulate next =
    (if \<exists>lane \<in> set lanes. vtMatch (methods D lane) ctx t = Ret True
     then next ctx t simulate else decorator ctx t simulate next)"
  using assms
proof (induction lanes)
  case (Cons lane lanes)
  then obtain b where "vtMatch (methods D lane) ctx t = Ret b" by auto
  with Cons show ?case by (cases b) auto
qed simp

end
