(* ===== verification/Laned_Mempool.thy ===== *)
theory Laned_Mempool
  imports Lanes
begin

text \<open>
  The laned mempool (\<open>block/mempool.go\<close>) and the query that reports it
  (\<open>block/service/service.go\<close>): a registry of lanes, searched in order. Insertion goes to the
  first lane that matches, removal to the first lane that contains the transaction; panics of the
  lanes are recovered. The contract that a lane's mempool offers to this component, the locale
  \<open>keyed_mempool\<close>, is stated and interpreted in \<open>Lane_Mempool\<close>. The lemmas here are about validation.
\<close>

section \<open>Operations\<close>

type_synonym ('mp, 'ctx) registry = "('mp, 'ctx) Lane list"

fun CountTx :: "dec_ops \<Rightarrow> ('mp, 'ctx) registry \<Rightarrow> 'mp store \<Rightarrow> nat go" where
  "CountTx D [] mps = Ret 0"
| "CountTx D (lane # lanes) mps =
     go_bind (vtCountTx (methods D lane) mps) (\<lambda>n. go_bind (CountTx D lanes mps) (\<lambda>m. Ret (n + m)))"

fun distribution_loop ::
    "dec_ops \<Rightarrow> ('mp, 'ctx) registry \<Rightarrow> 'mp store \<Rightarrow> (string \<rightharpoonup> u64) \<Rightarrow> (string \<rightharpoonup> u64) go" where
  "distribution_loop D [] mps counts = Ret counts"
| "distribution_loop D (lane # lanes) mps counts =
     go_bind (vtCountTx (methods D lane) mps) (\<lambda>n.
       distribution_loop D lanes mps (counts(vtName (methods D lane) \<mapsto> of_nat n)))"

definition GetTxDistribution ::
    "dec_ops \<Rightarrow> ('mp, 'ctx) registry \<Rightarrow> 'mp store \<Rightarrow> (string \<rightharpoonup> u64) go" where
  "GetTxDistribution D lanes mps = distribution_loop D lanes mps Map.empty"

fun insert_loop ::
    "dec_ops \<Rightarrow> ('mp, 'ctx) registry \<Rightarrow> 'mp store \<Rightarrow> 'ctx \<Rightarrow> tx \<Rightarrow> 'mp store \<times> unit go" where
  "insert_loop D [] mps ctx t = (mps, Ret ())"
| "insert_loop D (lane # lanes) mps ctx t =
     (case vtMatch (methods D lane) ctx t of
        Ret True \<Rightarrow> vtInsert (methods D lane) mps ctx t
      | Ret False \<Rightarrow> insert_loop D lanes mps ctx t
      | Err e \<Rightarrow> (mps, Err e)
      | Panic \<Rightarrow> (mps, Panic))"

definition Insert ::
    "dec_ops \<Rightarrow> ('mp, 'ctx) registry \<Rightarrow> 'mp store \<Rightarrow> 'ctx \<Rightarrow> tx \<Rightarrow> 'mp store \<times> unit go" where
  "Insert D lanes mps ctx t =
     (case insert_loop D lanes mps ctx t of
        (mps', r) \<Rightarrow> (mps', recover_as (Errorf ''panic in Insert: %v'') r))"

fun remove_loop ::
    "dec_ops \<Rightarrow> ('mp, 'ctx) registry \<Rightarrow> 'mp store \<Rightarrow> tx \<Rightarrow> 'mp store \<times> unit go" where
  "remove_loop D [] mps t = (mps, Ret ())"
| "remove_loop D (lane # lanes) mps t =
     (case vtContains (methods D lane) mps t of
        Ret True \<Rightarrow> vtRemove (methods D lane) mps t
      | Ret False \<Rightarrow> remove_loop D lanes mps t
      | Err e \<Rightarrow> (mps, Err e)
      | Panic \<Rightarrow> (mps, Panic))"

definition Remove ::
    "dec_ops \<Rightarrow> ('mp, 'ctx) registry \<Rightarrow> 'mp store \<Rightarrow> tx \<Rightarrow> 'mp store \<times> unit go" where
  "Remove D lanes mps t =
     (case remove_loop D lanes mps t of
        (mps', r) \<Rightarrow> (mps', recover_as (Errorf ''panic in Remove: %v'') r))"

fun contains_loop :: "dec_ops \<Rightarrow> ('mp, 'ctx) registry \<Rightarrow> 'mp store \<Rightarrow> tx \<Rightarrow> bool go" where
  "contains_loop D [] mps t = Ret False"
| "contains_loop D (lane # lanes) mps t =
     go_bind (vtContains (methods D lane) mps t) (\<lambda>b.
       if b then Ret True else contains_loop D lanes mps t)"

text \<open>The deferred function answers false after a panic.\<close>

definition Mempool_Contains :: "dec_ops \<Rightarrow> ('mp, 'ctx) registry \<Rightarrow> 'mp store \<Rightarrow> tx \<Rightarrow> bool" where
  "Mempool_Contains D lanes mps t = (case contains_loop D lanes mps t of Ret b \<Rightarrow> b | _ \<Rightarrow> False)"

text \<open>
  The loop of \<open>ValidateBasic\<close>: the names seen, the running sum of the block spaces and whether an
  unlimited lane has been seen.
\<close>

fun validate_loop ::
    "dec_ops \<Rightarrow> ('mp, 'ctx) registry \<Rightarrow> LegacyDec \<Rightarrow> bool \<Rightarrow> string set \<Rightarrow> (LegacyDec \<times> bool) go" where
  "validate_loop D [] sm seenZero seenLanes = Ret (sm, seenZero)"
| "validate_loop D (lane # lanes) sm seenZero seenLanes =
     (let name = vtName (methods D lane); space = vtGetMaxBlockSpace (methods D lane) in
      if name \<in> seenLanes then Err (Errorf ''duplicate lane name %s'')
      else if seenZero \<and> decIsZero D space
      then Err (Errorf ''only one lane can have unlimited max block space'')
      else go_bind (decAdd D sm space) (\<lambda>sm'.
             validate_loop D lanes sm' (seenZero \<or> decIsZero D space) (insert name seenLanes)))"

definition Mempool_ValidateBasic :: "dec_ops \<Rightarrow> ('mp, 'ctx) registry \<Rightarrow> unit go" where
  "Mempool_ValidateBasic D lanes =
     (if lanes = [] then Err (Errorf ''registry cannot be nil; must configure at least one lane'')
      else go_bind (validate_loop D lanes (decZero D) False {}) (\<lambda>(sm, seenZero).
        if decGT D sm (decOne D)
        then Err (Errorf ''sum of lane max block space percentages must be less than or equal to 1, got %s'')
        else if decLT D sm (decOne D) \<and> \<not> seenZero
        then Err (Errorf ''sum of total block space percentages will be less than 1'')
        else Ret ()))"

definition NewLanedMempool :: "dec_ops \<Rightarrow> ('mp, 'ctx) registry \<Rightarrow> ('mp, 'ctx) registry go" where
  "NewLanedMempool D lanes = go_bind (Mempool_ValidateBasic D lanes) (\<lambda>_. Ret lanes)"

text \<open>The gRPC query.\<close>

record GetTxDistributionResponse =
  Distribution :: "string \<rightharpoonup> u64"

definition QueryService_GetTxDistribution ::
    "dec_ops \<Rightarrow> ('mp, 'ctx) registry \<Rightarrow> 'mp store \<Rightarrow> GetTxDistributionResponse go" where
  "QueryService_GetTxDistribution D lanes mps =
     go_bind (GetTxDistribution D lanes mps) (\<lambda>distribution. Ret \<lparr> Distribution = distribution \<rparr>)"

section \<open>Validation\<close>

definition lane_space :: "dec_ops \<Rightarrow> ('mp, 'ctx) Lane \<Rightarrow> LegacyDec" where
  "lane_space D lane = vtGetMaxBlockSpace (methods D lane)"

definition lane_name :: "dec_ops \<Rightarrow> ('mp, 'ctx) Lane \<Rightarrow> string" where
  "lane_name D lane = vtName (methods D lane)"

lemma validate_loop_iff:
  assumes "dec_laws D" and "0 \<le> a" and "a + sum_list xs < 2 ^ 255"
    and "map (lane_space D) lanes = map Dec xs" and "\<forall>x \<in> set xs. 0 \<le> x"
  shows "validate_loop D lanes (Dec a) z seen = Ret (sm, z') \<longleftrightarrow>
    sm = Dec (a + sum_list xs) \<and> distinct (map (lane_name D) lanes) \<and>
    seen \<inter> lane_name D ` set lanes = {} \<and> (z' \<longleftrightarrow> z \<or> 0 \<in> set xs) \<and>
    (if z then 0 \<notin> set xs else count_list xs 0 \<le> 1)"
  using assms(2-)
proof (induction lanes arbitrary: a xs z seen)
  case Nil
  then show ?case by auto
next
  case (Cons lane lanes)
  then obtain x ys where xs: "xs = x # ys" "lane_space D lane = Dec x"
    "map (lane_space D) lanes = map Dec ys" by (cases xs) auto
  have bnd: "0 \<le> a + x" "a + x + sum_list ys < 2 ^ 255" "0 \<le> sum_list ys" "\<forall>x \<in> set ys. 0 \<le> x"
    using Cons.prems(1,2,4) xs(1) by (auto intro: sum_list_nonneg)
  then have add: "decAdd D (Dec a) (Dec x) = Ret (Dec (a + x))"
    using assms(1) by (simp add: dec_laws_def)
  have zero: "decIsZero D (Dec x) \<longleftrightarrow> x = 0" using assms(1) by (simp add: dec_laws_def)
  have "validate_loop D (lane # lanes) (Dec a) z seen = Ret (sm, z') \<longleftrightarrow>
      lane_name D lane \<notin> seen \<and> \<not> (z \<and> x = 0) \<and>
      validate_loop D lanes (Dec (a + x)) (z \<or> x = 0) (insert (lane_name D lane) seen) = Ret (sm, z')"
    using xs(2) add zero by (simp add: Let_def lane_space_def lane_name_def)
  then show ?case
    using Cons.IH [OF bnd(1,2) xs(3) bnd(4), of "z \<or> x = 0" "insert (lane_name D lane) seen"] xs(1)
    by (auto simp: add.assoc count_list_0_iff split: if_splits)
qed

lemma NewLanedMempool_Ret_iff:
  assumes "dec_laws D" and "map (lane_space D) lanes = map Dec xs" and "\<forall>x \<in> set xs. 0 \<le> x"
    and "sum_list xs < 2 ^ 255"
  shows "NewLanedMempool D lanes = Ret reg \<longleftrightarrow> reg = lanes \<and> lanes \<noteq> [] \<and> distinct (map (lane_name D) lanes) \<and>
    sum_list xs \<le> dec_unit \<and> (0 \<notin> set xs \<longrightarrow> sum_list xs = dec_unit) \<and> count_list xs 0 \<le> 1"
proof -
  have loop: "validate_loop D lanes (Dec 0) False {} = Ret (sm, z) \<longleftrightarrow>
      sm = Dec (sum_list xs) \<and> distinct (map (lane_name D) lanes) \<and> (z \<longleftrightarrow> 0 \<in> set xs) \<and> count_list xs 0 \<le> 1" for sm z
    using validate_loop_iff [OF assms(1) _ _ assms(2,3), of 0 False "{}" sm z] assms(4) by simp
  have "NewLanedMempool D lanes = Ret reg \<longleftrightarrow> reg = lanes \<and> lanes \<noteq> [] \<and>
      (\<exists>sm z. validate_loop D lanes (Dec 0) False {} = Ret (sm, z) \<and>
        \<not> decGT D sm (Dec dec_unit) \<and> \<not> (decLT D sm (Dec dec_unit) \<and> \<not> z))"
    using assms(1) by (auto simp: NewLanedMempool_def Mempool_ValidateBasic_def go_simps dec_laws_def)
  then show ?thesis using assms(1) unfolding loop by (auto simp: dec_laws_def)
qed

text \<open>C18: A registry becomes a laned mempool exactly when it has lanes, their names are distinct, their
  block spaces add up to at most one, to exactly one unless some lane is unlimited, and at most one
  lane is unlimited. In any proposal the lanes with a positive block space can then all fill their
  share: the limits computed for these lanes add up to no more than the block. An unlimited lane is
  not part of this sum: its limit is all that the proposal has left.\<close>

theorem NewLanedMempool_validated:
  assumes "dec_laws D" and "map (lane_space D) lanes = map Dec xs" and "\<forall>x \<in> set xs. 0 \<le> x"
    and "sum_list xs < 2 ^ 255" and "0 \<le> sint (MaxBlockSize (Info p))"
  shows "(NewLanedMempool D lanes = Ret reg \<longleftrightarrow> reg = lanes \<and> lanes \<noteq> [] \<and> distinct (map (lane_name D) lanes) \<and>
      sum_list xs \<le> dec_unit \<and> (0 \<notin> set xs \<longrightarrow> sum_list xs = dec_unit) \<and> count_list xs 0 \<le> 1) \<and>
    (NewLanedMempool D lanes = Ret reg \<longrightarrow>
     (\<exists>lims. go_map_list (\<lambda>x. GetLaneLimits D p (Dec x)) (filter (\<lambda>x. x \<noteq> 0) xs) = Ret lims \<and>
      (\<Sum>l \<leftarrow> lims. sint (LimMaxTxBytes l)) \<le> sint (MaxBlockSize (Info p)) \<and>
      (\<Sum>l \<leftarrow> lims. uint (LimMaxGasLimit l)) \<le> uint (MaxGasLimit (Info p))))"
proof -
  note valid = NewLanedMempool_Ret_iff [OF assms(1-4), of reg]
  have "\<forall>x \<in> set (filter (\<lambda>x. x \<noteq> 0) xs). 0 < x" using assms(3) by fastforce
  moreover have "sum_list (filter (\<lambda>x. x \<noteq> 0) xs) = sum_list xs" by (induction xs) auto
  ultimately show ?thesis
    using lane_shares_fit_block [OF assms(1) _ _ assms(5), of "filter (\<lambda>x. x \<noteq> 0) xs"] valid by simp
qed

section \<open>Concrete instances\<close>

abbreviation sample_free_match :: "value_context MatchHandler" where
  "sample_free_match \<equiv> \<lambda>ctx t. Ret (TxRest t = [9])"

definition sample_lanes :: "(tx list, value_context) BaseLane list" where
  "sample_lanes =
     [sample_lane 0 ''free'' (Dec 250000000000000000) sample_free_match,
      sample_lane 1 ''default'' (Dec 750000000000000000)
        (NewMatchHandler DefaultMatchHandler [sample_free_match, \<lambda>ctx t. Ret (TxRest t = [7])])]"

definition sample_registry :: "(tx list, value_context) registry" where
  "sample_registry = map (\<lambda>l. LaneOf (base_lane_methods scaled_dec (\<lambda>bz. bz) l)) sample_lanes"

lemma sample_registry_spaces:
  "map (lane_space scaled_dec) sample_registry = map Dec [250000000000000000, 750000000000000000]"
  by (simp add: sample_registry_def sample_lanes_def lane_space_def base_lane_methods_def)

lemma sample_registry_valid: "NewLanedMempool scaled_dec sample_registry = Ret sample_registry"
  by (simp add: NewLanedMempool_def Mempool_ValidateBasic_def sample_registry_def sample_lanes_def base_lane_methods_def
      scaled_dec_def Let_def)

theorem NewLanedMempool_validated_witness:
  "distinct (map (lane_name scaled_dec) sample_registry) \<and>
   (\<exists>lims. go_map_list (\<lambda>x. GetLaneLimits scaled_dec (NewProposal 1000 100) (Dec x))
       [250000000000000000, 750000000000000000] = Ret lims \<and>
    (\<Sum>l \<leftarrow> lims. sint (LimMaxTxBytes l)) \<le> 1000)"
  using NewLanedMempool_validated [OF scaled_dec_laws sample_registry_spaces, of "NewProposal 1000 100" sample_registry]
    sample_registry_valid
  by (auto simp: NewProposal_def)

end
