(* ===== verification/Abci.thy ===== *)
theory Abci
  imports Laned_Mempool "HOL-Library.Sublist"
begin

text \<open>
  The ABCI++ handlers (\<open>abci/utils.go\<close>, \<open>abci/abci.go\<close>): the chain of lanes that prepares a
  proposal, with its recovery from failing lanes, the chain that verifies one, and the two
  handlers that CometBFT calls. The lemmas show that preparing never fails, that a failing lane
  is skipped without a trace in the proposal, that the bytes of a proposal stay within the
  request, that an accepted proposal is consumed completely and lane by lane, and that a
  proposal prepared by honest lanes is accepted.
\<close>

section \<open>The chains\<close>

fun is_Terminator :: "('mp, 'ctx) Lane \<Rightarrow> bool" where
  "is_Terminator Terminator = True"
| "is_Terminator (LaneOf v) = False"

text \<open>\<open>Handle non-terminated decorators chain\<close>: the terminator is appended when it is missing.\<close>

definition terminated :: "('mp, 'ctx) Lane list \<Rightarrow> ('mp, 'ctx) Lane list" where
  "terminated chain = (if is_Terminator (last chain) then chain else chain @ [Terminator])"

text \<open>
  The closure built by \<open>ChainPrepareLanes\<close> for a terminated chain. The deferred function sees a
  panic or an error of \<open>PrepareLane\<close> and goes on with the rest of the chain on the original
  context; otherwise it writes the cached context back. The empty chain is the nil handler.
\<close>

fun prepare_chain ::
    "dec_ops \<Rightarrow> 'ctx ctx_ops \<Rightarrow> ('mp, 'ctx) Lane list \<Rightarrow> ('mp, 'ctx) PrepareLanesHandler" where
  "prepare_chain D C [] mps ctx p = (mps, ctx, maps_of p, Panic)"
| "prepare_chain D C (lane # rest) mps ctx p =
     (case vtPrepareLane (methods D lane) (prepare_chain D C rest) mps (CacheContext C ctx) p of
        (mps1, cacheCtx, sh, Ret finalProposal) \<Rightarrow>
          (mps1, WriteCache C ctx cacheCtx, sh, Ret finalProposal)
      | (mps1, cacheCtx, sh, _) \<Rightarrow>
          if length (lane # rest) \<le> 2 then (mps1, ctx, sh, Ret (with_maps sh p))
          else prepare_chain D C rest mps1 ctx (with_maps sh p))"

definition ChainPrepareLanes ::
    "dec_ops \<Rightarrow> 'ctx ctx_ops \<Rightarrow> ('mp, 'ctx) Lane list \<Rightarrow> ('mp, 'ctx) PrepareLanesHandler option" where
  "ChainPrepareLanes D C chain =
     (if chain = [] then None else Some (prepare_chain D C (terminated chain)))"

fun process_chain :: "dec_ops \<Rightarrow> ('mp, 'ctx) Lane list \<Rightarrow> ('mp, 'ctx) ProcessLanesHandler" where
  "process_chain D [] mps ctx p txs = (ctx, Panic)"
| "process_chain D (lane # rest) mps ctx p txs =
     vtProcessLane (methods D lane) (process_chain D rest) mps ctx p txs"

definition ChainProcessLanes ::
    "dec_ops \<Rightarrow> ('mp, 'ctx) Lane list \<Rightarrow> ('mp, 'ctx) ProcessLanesHandler option" where
  "ChainProcessLanes D chain =
     (if chain = [] then None else Some (process_chain D (terminated chain)))"

section \<open>The handlers\<close>

record RequestPrepareProposal =
  prepHeight :: i64
  prepMaxTxBytes :: i64
  prepTxs :: "bytes list"

text \<open>The handler answers with a response and a possibly nil error.\<close>

definition PrepareProposal_body ::
    "dec_ops \<Rightarrow> 'ctx ctx_ops \<Rightarrow> ('mp, 'ctx) registry \<Rightarrow> 'mp store \<Rightarrow> 'ctx \<Rightarrow> RequestPrepareProposal \<Rightarrow>
     'mp store \<times> 'ctx \<times> Proposal go" where
  "PrepareProposal_body D C registry mps ctx req =
     (case go_bind (GetTxDistribution D registry mps) (\<lambda>_. GetBlockLimits C ctx) of
        Err e \<Rightarrow> (mps, ctx, Err e)
      | Panic \<Rightarrow> (mps, ctx, Panic)
      | Ret (_, maxGasLimit) \<Rightarrow>
     (case ChainPrepareLanes D C registry of
        None \<Rightarrow> (mps, ctx, Panic)
      | Some prepareLanesHandler \<Rightarrow>
     (case prepareLanesHandler mps ctx (NewProposal (prepMaxTxBytes req) maxGasLimit) of
        (mps1, ctx1, _, Ret finalProposal) \<Rightarrow>
          (mps1, ctx1, go_bind (GetTxDistribution D registry mps1) (\<lambda>_. Ret finalProposal))
      | (mps1, ctx1, _, Err e) \<Rightarrow> (mps1, ctx1, Err e)
      | (mps1, ctx1, _, Panic) \<Rightarrow> (mps1, ctx1, Panic))))"

definition PrepareProposalHandler ::
    "dec_ops \<Rightarrow> 'ctx ctx_ops \<Rightarrow> ('mp, 'ctx) registry \<Rightarrow> 'mp store \<Rightarrow> 'ctx \<Rightarrow> RequestPrepareProposal \<Rightarrow>
     'mp store \<times> 'ctx \<times> bytes list \<times> error option" where
  "PrepareProposalHandler D C registry mps ctx req =
     (if prepHeight req \<le>s 1 then (mps, ctx, prepTxs req, None)
      else (case PrepareProposal_body D C registry mps ctx req of
              (mps1, ctx1, Ret finalProposal) \<Rightarrow> (mps1, ctx1, Txs finalProposal, None)
            | (mps1, ctx1, Err e) \<Rightarrow> (mps1, ctx1, [], Some e)
            | (mps1, ctx1, Panic) \<Rightarrow>
                (mps1, ctx1, [], Some (Errorf ''failed to prepare proposal: %v''))))"

record RequestProcessProposal =
  procHeight :: i64
  procTxs :: "bytes list"

datatype ProposalStatus = ACCEPT | REJECT

text \<open>\<open>noop\<close> is \<open>baseapp.NoOpProcessProposal()\<close>, used unless custom processing is configured.\<close>

definition ProcessProposalHandler ::
    "dec_ops \<Rightarrow> 'ctx ctx_ops \<Rightarrow> tx_decoder \<Rightarrow>
     ('ctx \<Rightarrow> RequestProcessProposal \<Rightarrow> 'ctx \<times> ProposalStatus \<times> error option) \<Rightarrow> bool \<Rightarrow>
     ('mp, 'ctx) registry \<Rightarrow> 'mp store \<Rightarrow> 'ctx \<Rightarrow> RequestProcessProposal \<Rightarrow>
     'ctx \<times> ProposalStatus \<times> error option" where
  "ProcessProposalHandler D C txDecoder noop useCustomProcessProposal registry mps ctx req =
     (if \<not> useCustomProcessProposal then noop ctx req
      else if procHeight req \<le>s 1 then (ctx, ACCEPT, None)
      else
        (let recovered = Some (Errorf ''failed to process proposal: %v'') in
         case GetDecodedTxs txDecoder (procTxs req) of
           Err e \<Rightarrow> (ctx, REJECT, Some e)
         | Panic \<Rightarrow> (ctx, REJECT, recovered)
         | Ret decodedTxs \<Rightarrow>
        (case ChainProcessLanes D registry of
           None \<Rightarrow> (ctx, REJECT, recovered)
         | Some processLanesHandler \<Rightarrow>
        (case NewProposalWithContext C ctx of
           Err e \<Rightarrow> (ctx, REJECT, Some e)
         | Panic \<Rightarrow> (ctx, REJECT, recovered)
         | Ret proposal \<Rightarrow>
        (case processLanesHandler mps ctx proposal decodedTxs of
           (ctx1, Ret _) \<Rightarrow> (ctx1, ACCEPT, None)
         | (ctx1, Err e) \<Rightarrow> (ctx1, REJECT, Some e)
         | (ctx1, Panic) \<Rightarrow> (ctx1, REJECT, recovered))))))"

section \<open>Preparing never fails\<close>

lemma terminated_last [simp]: "chain \<noteq> [] \<Longrightarrow> is_Terminator (last (terminated chain))"
  by (simp add: terminated_def)

lemma terminated_nonempty [simp]: "chain \<noteq> [] \<Longrightarrow> terminated chain \<noteq> []"
  by (simp add: terminated_def)

lemma is_Terminator_iff: "is_Terminator lane \<longleftrightarrow> lane = Terminator"
  by (cases lane) auto

lemma prepare_chain_Ret:
  "chain \<noteq> [] \<Longrightarrow> is_Terminator (last chain) \<Longrightarrow>
   \<exists>mps' ctx' sh q. prepare_chain D C chain mps ctx p = (mps', ctx', sh, Ret q)"
proof (induction chain arbitrary: mps ctx p)
  case Nil
  then show ?case by simp
next
  case (Cons lane rest)
  obtain mps1 c1 sh r where pl:
    "vtPrepareLane (methods D lane) (prepare_chain D C rest) mps (CacheContext C ctx) p = (mps1, c1, sh, r)"
    by (metis prod.collapse)
  show ?case
  proof (cases "(\<exists>q. r = Ret q) \<or> length (lane # rest) \<le> 2")
    case True
    with pl show ?thesis by (cases r) auto
  next
    case False
    then have "rest \<noteq> []" by auto
    with Cons.prems have "is_Terminator (last rest)" by simp
    from Cons.IH [OF \<open>rest \<noteq> []\<close> this, of mps1 ctx "with_maps sh p"] pl False show ?thesis
      by (cases r) auto
  qed
qed

text \<open>C12: Preparation never fails: whatever the lanes do, erring or panicking included, the chain
  of a non-empty registry returns a proposal and no error.\<close>

theorem ChainPrepareLanes_never_fails:
  assumes "ChainPrepareLanes D C registry = Some prepare"
  shows "\<exists>mps' ctx' sh q. prepare mps ctx p = (mps', ctx', sh, Ret q)"
proof -
  have "registry \<noteq> []" "prepare = prepare_chain D C (terminated registry)"
    using assms by (auto simp: ChainPrepareLanes_def split: if_splits)
  then show ?thesis using prepare_chain_Ret [of "terminated registry" D C mps ctx p] by simp
qed

text \<open>
  A lane that fails without touching the shared maps is skipped: the chain goes on as the chain
  without that lane.
\<close>

lemma prepare_chain_skip:
  assumes "ctx_laws C" and "rest \<noteq> []" and "is_Terminator (last rest)"
    and "vtPrepareLane (methods D lane) (prepare_chain D C rest) mps (CacheContext C ctx) p =
      (mps1, ctx1, maps_of p, r)" and "\<forall>q. r \<noteq> Ret q"
  shows "prepare_chain D C (lane # rest) mps ctx p = prepare_chain D C rest mps1 ctx p"
proof (cases "length (lane # rest) \<le> 2")
  case True
  then have "rest = [Terminator]"
    using assms(2,3) by (cases rest) (auto simp: is_Terminator_iff)
  then show ?thesis
    using assms(1,4,5)
    by (cases r) (auto simp: Terminator_methods_def Terminator_PrepareLane_def ctx_laws_def)
next
  case False
  then show ?thesis using assms(4,5) by (cases r) auto
qed

section \<open>What every lane keeps of a proposal\<close>

text \<open>
  The books of a proposal at the width of the machine integers: they hold without any bound on
  sizes. \<open>extends p q\<close>: \<open>q\<close> is \<open>p\<close> with transactions appended and the same limits.
\<close>

definition books :: "(bytes \<Rightarrow> bytes) \<Rightarrow> Proposal \<Rightarrow> bool" where
  "books H p \<longleftrightarrow> Cache p = TxHash H ` set (Txs p) \<and>
     BlockSize (Info p) = (\<Sum>bz \<leftarrow> Txs p. of_nat (length bz)) \<and>
     (Txs p \<noteq> [] \<longrightarrow> BlockSize (Info p) \<le>s MaxBlockSize (Info p)) \<and>
     GasLimit (Info p) \<le> MaxGasLimit (Info p)"

definition extends :: "Proposal \<Rightarrow> Proposal \<Rightarrow> bool" where
  "extends p q \<longleftrightarrow> (\<exists>bzs. Txs q = Txs p @ bzs) \<and>
     MaxBlockSize (Info q) = MaxBlockSize (Info p) \<and> MaxGasLimit (Info q) = MaxGasLimit (Info p)"

lemma extends_refl [simp]: "extends p p"
  by (simp add: extends_def)

lemma extends_trans: "extends p q \<Longrightarrow> extends q r \<Longrightarrow> extends p r"
  by (auto simp: extends_def)

text \<open>
  The turns of the lanes. A lane that takes its turn calls its prepare handler on its mempool, a
  branch of the context and the proposal so far, and puts what the handler selected into the
  proposal. \<open>turns\<close> is the run of a chain: it assigns a segment of transactions to each lane, the empty one
  to a lane that fails (of which only a change of one mempool remains) or selects nothing.
\<close>

definition lane_turn ::
    "'ctx ctx_ops \<Rightarrow> dec_ops \<Rightarrow> (bytes \<Rightarrow> bytes) \<Rightarrow> ('mp, 'ctx) BaseLane \<Rightarrow> 'mp store \<Rightarrow> 'ctx \<Rightarrow> Proposal \<Rightarrow> bytes list \<Rightarrow>
     'mp store \<Rightarrow> 'ctx \<Rightarrow> Proposal \<Rightarrow> bool" where
  "lane_turn C D H l mps ctx p bzs mps1 ctx1 p1 \<longleftrightarrow> (\<exists>limit handler mp1 incl rmv infos.
     GetLaneLimits D p (GetMaxBlockSpace l) = Ret limit \<and> prepareLaneHandler l = Some handler \<and>
     handler (lane_core.truncate l) (mps (laneRef l)) (CacheContext C ctx) p limit = (mp1, ctx1, Ret (incl, rmv)) \<and>
     go_map_list (GetTxInfo H l ctx1) incl = Ret infos \<and> bzs = map TxBytes infos \<and>
     UpdateProposal D (laneName l) (GetMaxBlockSpace l) p infos = (p1, Ret ()) \<and>
     mps1 = mps(laneRef l := fst (remove_invalid l rmv mp1)))"

inductive turns ::
    "'ctx ctx_ops \<Rightarrow> dec_ops \<Rightarrow> (bytes \<Rightarrow> bytes) \<Rightarrow> ('mp, 'ctx) registry \<Rightarrow> 'mp store \<Rightarrow> 'ctx \<Rightarrow> Proposal \<Rightarrow>
     bytes list list \<Rightarrow> Proposal \<Rightarrow> bool" for C D H where
  turns_end: "turns C D H [] mps ctx p [] p"
| turns_skip: "turns C D H rest (mps(i := mp)) ctx p segs q \<Longrightarrow> turns C D H (lane # rest) mps ctx p ([] # segs) q"
| turns_take: "lane_turn C D H l mps ctx p bzs mps1 ctx1 p1 \<Longrightarrow> turns C D H rest mps1 ctx1 p1 segs q \<Longrightarrow>
    turns C D H (LaneOf (base_lane_methods D H l) # rest) mps ctx p (bzs # segs) q"

lemma turns_none: "turns C D H lanes mps ctx p (map (\<lambda>_. []) lanes) p"
proof (induction lanes arbitrary: mps)
  case (Cons lane lanes)
  then show ?case using turns_skip [of C D H lanes mps 0 "mps 0"] by simp
qed (simp add: turns_end)

text \<open>Segments that share no transaction with each other or with those seen before.\<close>

definition segments_apart :: "bytes set \<Rightarrow> bytes list list \<Rightarrow> bool" where
  "segments_apart seen segs \<longleftrightarrow> sorted_wrt (\<lambda>s t. set s \<inter> set t = {}) segs \<and> (\<forall>s \<in> set segs. set s \<inter> seen = {})"

lemma segments_apart_Nil [simp]: "segments_apart seen []"
  by (simp add: segments_apart_def)

lemma segments_apart_Cons:
  "segments_apart seen (s # segs) \<longleftrightarrow> set s \<inter> seen = {} \<and> segments_apart (seen \<union> set s) segs"
  by (auto simp: segments_apart_def)

text \<open>The names of the lanes with a segment that is not empty.\<close>

definition taking_names :: "string list \<Rightarrow> bytes list list \<Rightarrow> string list" where
  "taking_names names segs = map fst (filter (\<lambda>(n, seg). seg \<noteq> []) (zip names segs))"

lemma taking_names_simps [simp]:
  "taking_names [] segs = []" "taking_names names [] = []"
  "taking_names (n # names) (seg # segs) = (if seg = [] then [] else [n]) @ taking_names names segs"
  by (simp_all add: taking_names_def)

lemma books_new: "books H (NewProposal maxBytes maxGas)"
  by (simp add: books_def NewProposal_def)

lemma infos_of_GetTxInfo:
  assumes "go_map_list (GetTxInfo H l ctx) ts = Ret infos"
  shows "Hash ` set infos = TxHash H ` set (map TxBytes infos)"
    and "sum_list (map Size infos) = (\<Sum>bz \<leftarrow> map TxBytes infos. of_nat (length bz))"
    and "go_map_list (call1 (cfgTxEncoder (cfg l))) ts = Ret (map TxBytes infos)"
proof -
  have *: "list_all2 (\<lambda>t i. GetTxInfo H l ctx t = Ret i) ts infos"
    using assms by (simp add: go_map_list_Ret_iff)
  have "\<forall>i \<in> set infos. Hash i = TxHash H (TxBytes i) \<and> Size i = of_nat (length (TxBytes i))"
    using * by (induction rule: list_all2_induct) (auto dest: GetTxInfo_RetD)
  then show "Hash ` set infos = TxHash H ` set (map TxBytes infos)"
    and "sum_list (map Size infos) = (\<Sum>bz \<leftarrow> map TxBytes infos. of_nat (length bz))"
    by (auto simp: image_iff intro!: arg_cong [of _ _ sum_list])
  show "go_map_list (call1 (cfgTxEncoder (cfg l))) ts = Ret (map TxBytes infos)"
    using * by (induction rule: list_all2_induct) (auto dest: GetTxInfo_RetD)
qed

lemma updated_books:
  assumes "books H p" and "go_map_list (GetTxInfo H l ctx) ts = Ret infos"
    and "UpdateProposal D n s p infos = (p1, Ret ())"
  shows "books H p1 \<and> extends p p1 \<and> Txs p1 = Txs p @ map TxBytes infos"
proof (cases rule: UpdateProposal_cases [of infos D n s p])
  case (ok lim)
  then have "p1 = updated_proposal n p infos" and "update_guards n p lim infos"
    using assms(3) by simp_all
  then show ?thesis
    using assms(1) infos_of_GetTxInfo(1,2) [OF assms(2)]
    by (auto simp: books_def extends_def update_guards_def image_Un o_def word_sle_eq
        word_sless_alt not_less)
qed (use assms in auto)

lemma lane_turn_books:
  assumes "books H p" and "lane_turn C D H l mps ctx p bzs mps1 ctx1 p1"
  shows "books H p1" and "extends p p1" and "Txs p1 = Txs p @ bzs" and "set bzs \<inter> set (Txs p) = {}"
    and "if bzs = [] then p1 = p
      else laneName l \<notin> dom (TxsByLane (Info p)) \<and> dom (TxsByLane (Info p1)) = insert (laneName l) (dom (TxsByLane (Info p)))"
proof -
  from assms(2) obtain incl infos where turn: "go_map_list (GetTxInfo H l ctx1) incl = Ret infos"
    and bzs: "bzs = map TxBytes infos"
    and up: "UpdateProposal D (laneName l) (GetMaxBlockSpace l) p infos = (p1, Ret ())"
    unfolding lane_turn_def by blast
  show "books H p1" "extends p p1" "Txs p1 = Txs p @ bzs"
    using updated_books [OF assms(1) turn up] bzs by simp_all
  have "set bzs \<inter> set (Txs p) = {} \<and> (if bzs = [] then p1 = p
      else laneName l \<notin> dom (TxsByLane (Info p)) \<and> dom (TxsByLane (Info p1)) = insert (laneName l) (dom (TxsByLane (Info p))))"
  proof (cases rule: UpdateProposal_cases [of infos D "laneName l" "GetMaxBlockSpace l" p])
    case (ok lim)
    then have p1: "p1 = updated_proposal (laneName l) p infos" and guards: "update_guards (laneName l) p lim infos"
      using up by simp_all
    have "TxHash H ` set (Txs p) \<inter> TxHash H ` set bzs = {}"
      using guards assms(1) infos_of_GetTxInfo(1) [OF turn] bzs by (simp add: update_guards_def books_def)
    then have "set bzs \<inter> set (Txs p) = {}" by blast
    then show ?thesis using guards p1 bzs ok(1) by (simp add: update_guards_def domIff)
  qed (use up bzs in auto)
  then show "set bzs \<inter> set (Txs p) = {}"
    and "if bzs = [] then p1 = p
      else laneName l \<notin> dom (TxsByLane (Info p)) \<and> dom (TxsByLane (Info p1)) = insert (laneName l) (dom (TxsByLane (Info p)))"
    by blast+
qed

lemma turns_books:
  assumes "turns C D H lanes mps ctx p segs q" and "books H p"
  shows "books H q \<and> extends p q \<and> Txs q = Txs p @ concat segs \<and> length segs = length lanes \<and>
    segments_apart (set (Txs p)) segs \<and> distinct (taking_names (map (lane_name D) lanes) segs) \<and>
    set (taking_names (map (lane_name D) lanes) segs) \<inter> dom (TxsByLane (Info p)) = {}"
  using assms
proof induction
  case (turns_skip rest mps i mp ctx p segs q lane)
  then show ?case by (simp add: segments_apart_Cons)
next
  case (turns_take l mps ctx p bzs mps1 ctx1 p1 rest segs q)
  note turn = lane_turn_books [OF turns_take.prems turns_take.hyps(1)]
  have name: "lane_name D (LaneOf (base_lane_methods D H l)) = laneName l"
    by (simp add: lane_name_def base_lane_methods_def)
  show ?case
    using turns_take.IH [OF turn(1)] turn(2-5) extends_trans [OF turn(2)] name
    by (auto simp: segments_apart_Cons Un_commute split: if_splits)
qed simp

text \<open>
  A handler behaves when it always answers with the proposal that the turns of the lanes lead to, and
  its maps are the shared ones.
\<close>

definition behaves ::
    "'ctx ctx_ops \<Rightarrow> dec_ops \<Rightarrow> (bytes \<Rightarrow> bytes) \<Rightarrow> ('mp, 'ctx) registry \<Rightarrow> ('mp, 'ctx) PrepareLanesHandler \<Rightarrow> bool" where
  "behaves C D H lanes handler \<longleftrightarrow> (\<forall>mps ctx p.
     \<exists>mps' ctx' q segs. handler mps ctx p = (mps', ctx', maps_of q, Ret q) \<and> turns C D H lanes mps ctx p segs q)"

text \<open>
  The contract of a lane in a chain: with a well-behaved rest of the chain it either answers with
  the proposal of the turns, or it fails and the shared maps are those of the proposal it was given.
\<close>

locale lane_contract =
  fixes C :: "'ctx ctx_ops" and D :: dec_ops and H :: "bytes \<Rightarrow> bytes" and lane :: "('mp, 'ctx) Lane"
  assumes prepare_outcome: "behaves C D H rest next \<Longrightarrow>
    vtPrepareLane (methods D lane) next mps (CacheContext C ctx) p = (mps', ctx', sh, r) \<Longrightarrow>
    (case r of Ret q \<Rightarrow> sh = maps_of q \<and> (\<exists>segs. turns C D H (lane # rest) mps ctx p segs q)
     | _ \<Rightarrow> sh = maps_of p \<and> (\<exists>i mp. mps' = mps(i := mp)))"
begin

lemma chain_step:
  assumes "behaves C D H rest (prepare_chain D C rest)" and "rest \<noteq> []"
  shows "behaves C D H (lane # rest) (prepare_chain D C (lane # rest))"
  unfolding behaves_def
proof (intro allI)
  fix mps :: "'mp store" and ctx p
  obtain mps1 c1 sh r where pl: "vtPrepareLane (methods D lane) (prepare_chain D C rest) mps
      (CacheContext C ctx) p = (mps1, c1, sh, r)" by (metis prod.collapse)
  note out = prepare_outcome [OF assms(1) pl]
  show "\<exists>mps' ctx' q segs. prepare_chain D C (lane # rest) mps ctx p = (mps', ctx', maps_of q, Ret q) \<and>
    turns C D H (lane # rest) mps ctx p segs q"
  proof (cases "\<exists>q. r = Ret q")
    case True
    then show ?thesis using pl out by auto
  next
    case False
    then obtain i mp where failed: "sh = maps_of p" "mps1 = mps(i := mp)" using out by (cases r) auto
    moreover obtain mps' ctx' q segs where "prepare_chain D C rest mps1 ctx p = (mps', ctx', maps_of q, Ret q)"
      "turns C D H rest mps1 ctx p segs q"
      using assms(1) unfolding behaves_def by blast
    ultimately show ?thesis
      using pl False turns_none [of C D H "lane # rest" mps ctx p] by (cases r) (auto intro: turns_skip)
  qed
qed

end

lemma terminator_contract: "lane_contract C D H (Terminator :: ('mp, 'ctx) Lane)" for C :: "'ctx ctx_ops"
proof
  fix rest :: "('mp, 'ctx) registry" and "next" :: "('mp, 'ctx) PrepareLanesHandler"
    and mps ctx p mps' ctx' sh r
  assume "vtPrepareLane (methods D Terminator) next mps (CacheContext C ctx) p = (mps', ctx', sh, r)"
  then have "r = Ret p" "sh = maps_of p" by (simp_all add: Terminator_methods_def Terminator_PrepareLane_def)
  then show "case r of Ret q \<Rightarrow> sh = maps_of q \<and> (\<exists>segs. turns C D H (Terminator # rest) mps ctx p segs q)
     | _ \<Rightarrow> sh = maps_of p \<and> (\<exists>i mp. mps' = mps(i := mp))"
    using turns_none [of C D H "Terminator # rest" mps ctx p] by auto
qed

interpretation terminator: lane_contract C D H Terminator for C D H
  by (rule terminator_contract)

lemma base_lane_contract: "lane_contract C D H (LaneOf (base_lane_methods D H l))"
  for l :: "('mp, 'ctx) BaseLane"
proof (unfold_locales, simp add: base_lane_methods_def)
  fix rest and "next" :: "('mp, 'ctx) PrepareLanesHandler" and p mps ctx mps' ctx' sh r
  let ?lane = "LaneOf (base_lane_methods D H l)"
  assume "next": "behaves C D H rest next"
    and out: "BaseLane_PrepareLane D H l next mps (CacheContext C ctx) p = (mps', ctx', sh, r)"
  show "case r of Ret q \<Rightarrow> sh = maps_of q \<and> (\<exists>segs. turns C D H (?lane # rest) mps ctx p segs q)
    | _ \<Rightarrow> sh = maps_of p \<and> (\<exists>i mp. mps' = mps(i := mp))"
  proof (cases rule: PrepareLane_cases [of l mps p D H "next" "CacheContext C ctx"])
    case fail
    then show ?thesis using out by (cases r) (auto simp: lane_failed_def)
  next
    case (go limit handler mp1 ctx1 incl rmv infos p1)
    let ?mps1 = "mps(laneRef l := fst (remove_invalid l rmv mp1))"
    have turn: "lane_turn C D H l mps ctx p (map TxBytes infos) ?mps1 ctx1 p1"
      using go(1-5) unfolding lane_turn_def by blast
    obtain m c q segs where "next ?mps1 ctx1 p1 = (m, c, maps_of q, Ret q)" "turns C D H rest ?mps1 ctx1 p1 segs q"
      using "next" unfolding behaves_def by blast
    with go(6) out turns_take [OF turn] show ?thesis by auto
  qed
qed

interpretation base_lane: lane_contract C D H "LaneOf (base_lane_methods D H l)" for C D H l
  by (rule base_lane_contract)

text \<open>A registry of base lanes, whatever their handlers do, and the terminator.\<close>

definition base_registry :: "dec_ops \<Rightarrow> (bytes \<Rightarrow> bytes) \<Rightarrow> ('mp, 'ctx) registry \<Rightarrow> bool" where
  "base_registry D H lanes \<longleftrightarrow>
     (\<forall>lane \<in> set lanes. lane = Terminator \<or> (\<exists>l. lane = LaneOf (base_lane_methods D H l)))"

lemma base_chain_behaves:
  "base_registry D H chain \<Longrightarrow> chain \<noteq> [] \<Longrightarrow> is_Terminator (last chain) \<Longrightarrow>
   behaves C D H chain (prepare_chain D C chain)"
proof (induction chain)
  case (Cons lane rest)
  have "lane_contract C D H lane"
    using Cons.prems(1) terminator_contract base_lane_contract by (auto simp: base_registry_def)
  show ?case
  proof (cases "rest = []")
    case True
    then have "lane = Terminator" using Cons.prems(3) by (simp add: is_Terminator_iff)
    then show ?thesis
      using True turns_none [of C D H "[Terminator]"]
      by (auto simp: behaves_def Terminator_methods_def Terminator_PrepareLane_def)
  next
    case False
    with Cons have "behaves C D H rest (prepare_chain D C rest)"
      by (simp add: base_registry_def)
    then show ?thesis by (rule lane_contract.chain_step [OF \<open>lane_contract C D H lane\<close> _ False])
  qed
qed simp

text \<open>A failing base lane leaves no trace but in its own mempool: when its \<open>PrepareLane\<close> ends
  with an error or a panic, whatever its handler did before, the chain gives exactly the result
  of the chain without it, on the original context and proposal, from a store in which only the
  mempool of that lane may differ.\<close>

lemma failing_lane_is_skipped:
  assumes "ctx_laws C" and "rest \<noteq> []" and "is_Terminator (last rest)"
    and "\<forall>mps' ctx' sh q. vtPrepareLane (base_lane_methods D H l) (prepare_chain D C rest) mps
      (CacheContext C ctx) p \<noteq> (mps', ctx', sh, Ret q)"
  shows "\<exists>mp. prepare_chain D C (LaneOf (base_lane_methods D H l) # rest) mps ctx p =
    prepare_chain D C rest (mps(laneRef l := mp)) ctx p"
proof (cases rule: PrepareLane_cases [of l mps p D H "prepare_chain D C rest" "CacheContext C ctx"])
  case fail
  then obtain mp ctx1 r where "BaseLane_PrepareLane D H l (prepare_chain D C rest) mps
      (CacheContext C ctx) p = (mps(laneRef l := mp), ctx1, maps_of p, r)" "\<forall>q. r \<noteq> Ret q"
    by (auto simp: lane_failed_def)
  then show ?thesis
    using prepare_chain_skip [OF assms(1-3), of D "LaneOf (base_lane_methods D H l)" mps ctx p]
    by (auto simp: base_lane_methods_def)
next
  case (go limit handler mp1 ctx1 incl rmv infos p1)
  obtain mps' ctx' sh q where
    "prepare_chain D C rest (mps(laneRef l := fst (remove_invalid l rmv mp1))) ctx1 p1 = (mps', ctx', sh, Ret q)"
    using prepare_chain_Ret [OF assms(2,3)] by blast
  with go(6) have "vtPrepareLane (base_lane_methods D H l) (prepare_chain D C rest) mps
      (CacheContext C ctx) p = (mps', ctx', sh, Ret q)"
    by (simp add: base_lane_methods_def)
  with assms(4) show ?thesis by blast
qed

lemma sum_of_lengths_64:
  "(\<Sum>bz \<leftarrow> bzs. of_nat (length bz)) = (word_of_int (\<Sum>bz \<leftarrow> bzs. int (length bz)) :: 64 word)"
  by (induction bzs) (auto simp: wi_hom_add [symmetric])

lemma books_bytes:
  assumes "books H p" and "Txs p \<noteq> []" and "(\<Sum>bz \<leftarrow> Txs p. int (length bz)) < 2 ^ 63"
  shows "(\<Sum>bz \<leftarrow> Txs p. int (length bz)) \<le> sint (MaxBlockSize (Info p))"
proof -
  have "0 \<le> (\<Sum>bz \<leftarrow> Txs p. int (length bz))" by (rule sum_list_nonneg_map) simp
  then have "sint (word_of_int (\<Sum>bz \<leftarrow> Txs p. int (length bz)) :: 64 word) =
      (\<Sum>bz \<leftarrow> Txs p. int (length bz))"
    by (intro sint_word_of_int_64) (use assms(3) in auto)
  with assms(1,2) show ?thesis
    unfolding books_def sum_of_lengths_64 word_sle_eq by metis
qed

lemma prepared_turns:
  assumes "base_registry D H registry" and "\<not> prepHeight req \<le>s 1"
    and "PrepareProposalHandler D C registry mps ctx req = (mps', ctx', txs, None)"
  obtains maxBytes maxGas q segs where "GetBlockLimits C ctx = Ret (maxBytes, maxGas)" and "txs = Txs q"
    and "turns C D H (terminated registry) mps ctx (NewProposal (prepMaxTxBytes req) maxGas) segs q"
proof -
  from assms(2,3) obtain maxBytes maxGas sh q where reg: "registry \<noteq> []" and q: "txs = Txs q"
    and lim: "GetBlockLimits C ctx = Ret (maxBytes, maxGas)"
    and run: "prepare_chain D C (terminated registry) mps ctx
      (NewProposal (prepMaxTxBytes req) maxGas) = (mps', ctx', sh, Ret q)"
    by (auto simp: PrepareProposalHandler_def PrepareProposal_body_def ChainPrepareLanes_def go_simps
        split: go.splits prod.splits if_splits)
  have "base_registry D H (terminated registry)"
    using assms(1) by (auto simp: base_registry_def terminated_def)
  from base_chain_behaves [OF this, of C] reg
  have "behaves C D H (terminated registry) (prepare_chain D C (terminated registry))" by simp
  with run obtain segs where "turns C D H (terminated registry) mps ctx (NewProposal (prepMaxTxBytes req) maxGas) segs q"
    unfolding behaves_def by (metis Pair_inject go.inject(1))
  with lim q show thesis by (rule that)
qed

text \<open>C3: The proposal sent to CometBFT respects the request: over any registry of base lanes,
  whatever their handlers, match functions and mempools do, the transactions returned by
  \<open>PrepareProposal\<close> without an error take at most \<open>MaxTxBytes\<close> bytes (counted in 64 bits, and
  exactly when their total is below \<open>2^63\<close>).\<close>

theorem PrepareProposal_within_request:
  assumes "base_registry D H registry" and "\<not> prepHeight req \<le>s 1"
    and "PrepareProposalHandler D C registry mps ctx req = (mps', ctx', txs, None)" and "txs \<noteq> []"
  shows "(\<Sum>bz \<leftarrow> txs. of_nat (length bz)) \<le>s prepMaxTxBytes req \<and>
    ((\<Sum>bz \<leftarrow> txs. int (length bz)) < 2 ^ 63 \<longrightarrow>
      (\<Sum>bz \<leftarrow> txs. int (length bz)) \<le> sint (prepMaxTxBytes req))"
proof -
  obtain maxGas q where q: "txs = Txs q" "books H q" "extends (NewProposal (prepMaxTxBytes req) maxGas) q"
    using prepared_turns [OF assms(1-3)] turns_books [OF _ books_new] by metis
  then show ?thesis
    using books_bytes [of H q] assms(4) by (auto simp: books_def extends_def NewProposal_def)
qed

text \<open>C4: A proposal that \<open>PrepareProposal\<close> returns is made by turns of the lanes, in their order: a lane's
  segment is empty, or it is what its handler selected, called on the proposal of the turns before it,
  the context they left and the lane's mempool. Whatever the handlers select, no two segments share
  a transaction (a transaction taken by one lane is never included again by a later one), and no two
  lanes of the same name have segments that are not empty.\<close>

theorem prepared_segments_disjoint:
  assumes "base_registry D H registry" and "\<not> prepHeight req \<le>s 1"
    and "PrepareProposalHandler D C registry mps ctx req = (mps', ctx', txs, None)"
  shows "\<exists>maxBytes maxGas segs q. GetBlockLimits C ctx = Ret (maxBytes, maxGas) \<and>
    turns C D H (terminated registry) mps ctx (NewProposal (prepMaxTxBytes req) maxGas) segs q \<and>
    txs = concat segs \<and> length segs = length (terminated registry) \<and>
    sorted_wrt (\<lambda>s t. set s \<inter> set t = {}) segs \<and>
    distinct (taking_names (map (lane_name D) (terminated registry)) segs)"
proof -
  obtain maxBytes maxGas q segs where turns: "GetBlockLimits C ctx = Ret (maxBytes, maxGas)" "txs = Txs q"
    "turns C D H (terminated registry) mps ctx (NewProposal (prepMaxTxBytes req) maxGas) segs q"
    by (rule prepared_turns [OF assms])
  have "txs = concat segs \<and> length segs = length (terminated registry) \<and>
      sorted_wrt (\<lambda>s t. set s \<inter> set t = {}) segs \<and>
      distinct (taking_names (map (lane_name D) (terminated registry)) segs)"
    using turns_books [OF turns(3) books_new] turns(2) by (simp add: segments_apart_def NewProposal_def)
  with turns(1,3) show ?thesis by blast
qed

section \<open>Processing\<close>

text \<open>
  The contract of a process handler: it splits the transactions it is given into a segment of its
  own lane and the rest, and what it accepts as its own, in front of this rest, \<open>takes\<close> allows; without
  transactions there is nothing to take.
\<close>

type_synonym ('mp, 'ctx) takes = "('mp, 'ctx) lane_core \<Rightarrow> 'mp \<Rightarrow> 'ctx \<Rightarrow> tx list \<Rightarrow> tx list \<Rightarrow> 'ctx \<Rightarrow> bool"

locale process_contract =
  fixes handler :: "('mp, 'ctx) lane_core \<Rightarrow> ('mp, 'ctx) ProcessLaneHandler" and takes :: "('mp, 'ctx) takes"
  assumes splits: "handler l mp ctx txs = (ctx', Ret (own, rest)) \<Longrightarrow> txs = own @ rest \<and> takes l mp ctx own rest ctx'"
    and takes_nothing: "takes l mp ctx [] [] ctx"
begin

lemma lane_step:
  assumes "processLaneHandler l = Some handler" and "books H p"
    and "BaseLane_ProcessLane D H l next mps ctx p txs = (ctx', Ret q)"
  shows "\<exists>own rest bzs ctx1 p1. txs = own @ rest \<and> takes (lane_core.truncate l) (mps (laneRef l)) ctx own rest ctx1 \<and>
    go_map_list (call1 (cfgTxEncoder (cfg l))) own = Ret bzs \<and> Txs p1 = Txs p @ bzs \<and>
    books H p1 \<and> extends p p1 \<and> next mps ctx1 p1 rest = (ctx', Ret q)"
  using assms(3)
proof (cases rule: ProcessLane_Ret_cases)
  case skip
  then show ?thesis using assms(2) takes_nothing
    by (intro exI [of _ "[]"] exI [of _ ctx] exI [of _ p]) auto
next
  case (go h ctx1 own rest infos p1)
  then have "handler (lane_core.truncate l) (mps (laneRef l)) ctx txs = (ctx1, Ret (own, rest))"
    using assms(1) by simp
  from splits [OF this] updated_books [OF assms(2) go(4,5)] infos_of_GetTxInfo(3) [OF go(4)] go(6)
  show ?thesis by blast
qed

end

text \<open>
  What a lane with the default handler takes: a run of its own transactions, in its order and
  verified one after the other, in front of transactions that are not its own.
\<close>

definition default_takes :: "'ctx ctx_ops \<Rightarrow> ('mp, 'ctx) takes" where
  "default_takes C l mp ctx own rest ctx' \<longleftrightarrow> processed_run C l mp [] ctx own ctx' \<and> (\<forall>t \<in> set rest. Match l ctx' t = Ret False)"

interpretation default_process: process_contract "Default_ProcessLaneHandler C" "default_takes C" for C
  by unfold_locales (auto simp: default_takes_def Default_ProcessLaneHandler_iff)

text \<open>A registry of base lanes, ended by the terminator.\<close>

definition lane_chain :: "dec_ops \<Rightarrow> (bytes \<Rightarrow> bytes) \<Rightarrow> ('mp, 'ctx) BaseLane list \<Rightarrow> ('mp, 'ctx) registry" where
  "lane_chain D H ls = map (\<lambda>l. LaneOf (base_lane_methods D H l)) ls @ [Terminator]"

lemma lane_chain_simps [simp]:
  "lane_chain D H [] = [Terminator]"
  "lane_chain D H (l # ls) = LaneOf (base_lane_methods D H l) # lane_chain D H ls"
  "lane_chain D H ls \<noteq> []" "is_Terminator (last (lane_chain D H ls))"
  "terminated (lane_chain D H ls) = lane_chain D H ls"
  by (simp_all add: lane_chain_def terminated_def)

lemma terminated_base_lanes:
  "ls \<noteq> [] \<Longrightarrow> terminated (map (\<lambda>l. LaneOf (base_lane_methods D H l)) ls) = lane_chain D H ls"
  by (auto simp: terminated_def lane_chain_def last_map)

text \<open>
  The lanes process one after the other: each takes its segment in front of all the later segments,
  in the context that the lane before it left.
\<close>

fun lanes_take ::
    "(('mp, 'ctx) BaseLane \<Rightarrow> ('mp, 'ctx) takes) \<Rightarrow> 'mp store \<Rightarrow> ('mp, 'ctx) BaseLane list \<Rightarrow> tx list list \<Rightarrow> 'ctx \<Rightarrow> 'ctx \<Rightarrow> bool" where
  "lanes_take T mps (l # ls) (own # segs) ctx ctx' =
     (\<exists>ctx1. T l (lane_core.truncate l) (mps (laneRef l)) ctx own (concat segs) ctx1 \<and> lanes_take T mps ls segs ctx1 ctx')"
| "lanes_take T mps [] [] ctx ctx' = (ctx' = ctx)"
| "lanes_take T mps ls segs ctx ctx' = False"

definition contract_handlers :: "(('mp, 'ctx) BaseLane \<Rightarrow> ('mp, 'ctx) takes) \<Rightarrow> ('mp, 'ctx) BaseLane list \<Rightarrow> bool" where
  "contract_handlers T ls \<longleftrightarrow> (\<forall>l \<in> set ls. \<exists>h. processLaneHandler l = Some h \<and> process_contract h (T l))"

definition common_encoder :: "tx_encoder \<Rightarrow> ('mp, 'ctx) BaseLane list \<Rightarrow> bool" where
  "common_encoder enc ls \<longleftrightarrow> (\<forall>l \<in> set ls. cfgTxEncoder (cfg l) = Some enc)"

lemma process_chain_consumes:
  assumes "contract_handlers T ls" and "common_encoder enc ls" and "books H p"
    and "process_chain D (lane_chain D H ls) mps ctx p txs = (ctx', Ret q)"
  shows "\<exists>segs bzs. concat segs = txs \<and>
    lanes_take T mps ls segs ctx ctx' \<and>
    go_map_list enc txs = Ret bzs \<and> Txs q = Txs p @ bzs \<and> books H q \<and> extends p q"
  using assms
proof (induction ls arbitrary: ctx p txs)
  case Nil
  then show ?case
    by (intro exI [of _ "[]"])
      (auto simp: Terminator_methods_def Terminator_ProcessLane_def intro!: exI [of _ "[]"] split: if_splits)
next
  case (Cons l ls)
  from Cons.prems(1) obtain h where h: "processLaneHandler l = Some h" "process_contract h (T l)"
    and ls: "contract_handlers T ls" by (auto simp: contract_handlers_def)
  have enc: "call1 (cfgTxEncoder (cfg l)) = enc" "common_encoder enc ls"
    using Cons.prems(2) by (auto simp: common_encoder_def)
  have "BaseLane_ProcessLane D H l (process_chain D (lane_chain D H ls)) mps ctx p txs = (ctx', Ret q)"
    using Cons.prems(4) by (simp add: base_lane_methods_def)
  from process_contract.lane_step [OF h(2,1) Cons.prems(3) this] enc(1)
  obtain own rest bzs ctx1 p1 where *: "txs = own @ rest" "T l (lane_core.truncate l) (mps (laneRef l)) ctx own rest ctx1"
    "go_map_list enc own = Ret bzs" "Txs p1 = Txs p @ bzs" "books H p1" "extends p p1"
    "process_chain D (lane_chain D H ls) mps ctx1 p1 rest = (ctx', Ret q)" by auto
  from Cons.IH [OF ls enc(2) *(5,7)] obtain segs bzs' where **: "concat segs = rest"
    "lanes_take T mps ls segs ctx1 ctx'"
    "go_map_list enc rest = Ret bzs'" "Txs q = Txs p1 @ bzs'" "books H q" "extends p1 q" by blast
  have "lanes_take T mps (l # ls) (own # segs) ctx ctx'"
    using *(2) **(1,2) by auto
  moreover have "go_map_list enc txs = Ret (bzs @ bzs')"
    using *(1,3) **(3) by (simp add: go_map_list_append)
  moreover have "Txs q = Txs p @ bzs @ bzs'" "concat (own # segs) = txs"
    using *(1,4) **(1,4) by simp_all
  ultimately show ?case using **(5) extends_trans [OF *(6) **(6)] by blast
qed

lemma ProcessProposal_accept:
  assumes "\<not> procHeight req \<le>s 1"
    and "ProcessProposalHandler D C dec noop True registry mps ctx req = (ctx', ACCEPT, e)"
  obtains txs p q where "e = None" "registry \<noteq> []" "GetDecodedTxs dec (procTxs req) = Ret txs"
    "NewProposalWithContext C ctx = Ret p"
    "process_chain D (terminated registry) mps ctx p txs = (ctx', Ret q)"
  using assms
  by (auto simp: ProcessProposalHandler_def ChainProcessLanes_def Let_def
      split: go.splits prod.splits option.splits if_splits)

definition codec_canonical :: "tx_encoder \<Rightarrow> tx_decoder \<Rightarrow> bool" where
  "codec_canonical enc dec \<longleftrightarrow> (\<forall>bz t. dec bz = Ret t \<longrightarrow> enc t = Ret bz)"

lemma decoded_then_encoded:
  "codec_canonical enc dec \<Longrightarrow> GetDecodedTxs dec bzs = Ret txs \<Longrightarrow> go_map_list enc txs = Ret bzs"
  by (induction bzs arbitrary: txs) (auto simp: GetDecodedTxs_def go_simps codec_canonical_def)

text \<open>What an accepted proposal is made of, over lanes with any handlers that keep the contract.\<close>

lemma accepted_segments:
  assumes "contract_handlers T ls" and "common_encoder enc ls" and "codec_canonical enc dec"
    and "\<not> procHeight req \<le>s 1"
    and "ProcessProposalHandler D C dec noop True (map (\<lambda>l. LaneOf (base_lane_methods D H l)) ls)
      mps ctx req = (ctx', ACCEPT, e)"
  shows "e = None \<and> (\<exists>segs bp. GetDecodedTxs dec (procTxs req) = Ret (concat segs) \<and>
    lanes_take T mps ls segs ctx ctx' \<and>
    ConsBlock C ctx = Some bp \<and>
    (procTxs req \<noteq> [] \<longrightarrow> (\<Sum>bz \<leftarrow> procTxs req. of_nat (length bz)) \<le>s ParamMaxBytes bp))"
proof -
  from ProcessProposal_accept [OF assms(4,5)] obtain txs p q where acc: "e = None"
    "map (\<lambda>l. LaneOf (base_lane_methods D H l)) ls \<noteq> []"
    "GetDecodedTxs dec (procTxs req) = Ret txs" "NewProposalWithContext C ctx = Ret p"
    "process_chain D (terminated (map (\<lambda>l. LaneOf (base_lane_methods D H l)) ls)) mps ctx p txs =
      (ctx', Ret q)" .
  then have "ls \<noteq> []" by simp
  note * = acc [unfolded terminated_base_lanes [OF this]]
  from *(4) obtain bp g where bp: "ConsBlock C ctx = Some bp" "p = NewProposal (ParamMaxBytes bp) g"
    by (auto simp: NewProposalWithContext_def GetBlockLimits_def Let_def split: option.splits)
  have "books H p" using bp(2) books_new by simp
  from process_chain_consumes [OF assms(1,2) this *(5)]
  obtain segs bzs where **: "concat segs = txs"
    "lanes_take T mps ls segs ctx ctx'"
    "go_map_list enc txs = Ret bzs" "Txs q = Txs p @ bzs" "books H q" "extends p q" by blast
  have "bzs = procTxs req" using decoded_then_encoded [OF assms(3) *(3)] **(3) by simp
  then show ?thesis
    using *(1,3) **(1,2,4-6) bp by (auto simp: books_def extends_def NewProposal_def)
qed

text \<open>C20: The converse for the outcome: \<open>ProcessProposal\<close> accepts exactly when decoding, the
  limits and the chain of lanes all return normally; every error and every panic on the way
  rejects the proposal with an error.\<close>

theorem ProcessProposal_outcomes:
  assumes "\<not> procHeight req \<le>s 1"
    and "ProcessProposalHandler D C dec noop True registry mps ctx req = (ctx', st, e)"
  shows "(st = ACCEPT \<longleftrightarrow> e = None) \<and>
    (st = ACCEPT \<longleftrightarrow> registry \<noteq> [] \<and> (\<exists>txs p q. GetDecodedTxs dec (procTxs req) = Ret txs \<and>
       NewProposalWithContext C ctx = Ret p \<and>
       process_chain D (terminated registry) mps ctx p txs = (ctx', Ret q)))"
  using assms
  by (auto simp: ProcessProposalHandler_def ChainProcessLanes_def Let_def
      split: go.splits prod.splits option.splits if_splits)

section \<open>Concrete instances\<close>

definition panicking_lane :: "(tx list, value_context) Lane" where
  "panicking_lane = LaneOf ((base_lane_methods scaled_dec (\<lambda>bz. bz)
     (sample_lane 0 ''free'' (Dec 0) DefaultMatchHandler))
     \<lparr> vtPrepareLane := \<lambda>_ mps ctx p. (mps, ctx, maps_of p, Panic) \<rparr>)"

theorem ChainPrepareLanes_never_fails_witness:
  "\<exists>mps' ctx' sh q. prepare_chain scaled_dec value_ctx (terminated [panicking_lane]) (\<lambda>_. [])
     sample_ctx (NewProposal 1000 100) = (mps', ctx', sh, Ret q)"
  by (rule ChainPrepareLanes_never_fails [where registry = "[panicking_lane]" and D = scaled_dec and C = value_ctx])
     (simp add: ChainPrepareLanes_def)

text \<open>The sample registry on a mempool with one transaction in each lane.\<close>

definition sample_store :: "tx list store" where
  "sample_store = (\<lambda>_. [])(0 := [sample_tx [9]], 1 := [sample_tx [1, 2]])"

definition sample_prepare :: RequestPrepareProposal where
  "sample_prepare = \<lparr> prepHeight = 5, prepMaxTxBytes = 100, prepTxs = [] \<rparr>"

definition sample_process :: RequestProcessProposal where
  "sample_process = \<lparr> procHeight = 5, procTxs = [[9], [1, 2]] \<rparr>"

lemma sample_base_registry: "base_registry scaled_dec (\<lambda>bz. bz) sample_registry"
  by (auto simp: base_registry_def sample_registry_def)

lemmas sample_eval = sample_prepare_def sample_process_def GetTxDistribution_def sample_registry_def
  sample_lanes_def base_lane_methods_def sample_store_def GetBlockLimits_def value_ctx_def
  sample_ctx_def word_sless_alt word_sle_eq terminated_def UpdateProposal_def GetLaneLimits_def
  scaled_dec_def NewProposal_def Let_def Contains_def DefaultMatchHandler_def TxHash_eq_iff
  Terminator_methods_def

lemma sample_PrepareProposal:
  "PrepareProposalHandler scaled_dec value_ctx sample_registry sample_store sample_ctx sample_prepare =
     (sample_store, sample_ctx, [[9], [1, 2]], None)"
  by (simp add: sample_eval PrepareProposalHandler_def PrepareProposal_body_def ChainPrepareLanes_def
      BaseLane_PrepareLane_def Default_PrepareLaneHandler_def maps_of_def with_maps_def
      remove_invalid_def Terminator_PrepareLane_def)

lemma sample_ProcessProposal:
  "ProcessProposalHandler scaled_dec value_ctx sample_decode
     (\<lambda>ctx req. (ctx, ACCEPT, None)) True sample_registry sample_store sample_ctx sample_process =
     (sample_ctx, ACCEPT, None)"
  by (simp add: sample_eval ProcessProposalHandler_def ChainProcessLanes_def BaseLane_ProcessLane_def
      GetDecodedTxs_def NewProposalWithContext_def Default_ProcessLaneHandler_def
      Terminator_ProcessLane_def)

theorem PrepareProposal_within_request_witness:
  "(\<Sum>bz \<leftarrow> [[9], [1, 2 :: 8 word]]. of_nat (length bz)) \<le>s prepMaxTxBytes sample_prepare"
proof -
  have "\<not> prepHeight sample_prepare \<le>s 1" by (simp add: sample_prepare_def word_sle_eq)
  from PrepareProposal_within_request [OF sample_base_registry this sample_PrepareProposal]
  show ?thesis by simp
qed

theorem prepared_segments_disjoint_witness:
  "\<exists>segs q. turns value_ctx scaled_dec (\<lambda>bz. bz) (terminated sample_registry) sample_store sample_ctx
      (NewProposal 100 100) segs q \<and> [[9], [1, 2]] = concat segs \<and> length segs = 3 \<and>
    sorted_wrt (\<lambda>s t. set s \<inter> set t = {}) segs"
proof -
  have "\<not> prepHeight sample_prepare \<le>s 1" by (simp add: sample_prepare_def word_sle_eq)
  moreover have "GetBlockLimits value_ctx sample_ctx = Ret (100, 100)" by (simp add: sample_eval)
  moreover have "length (terminated sample_registry) = 3"
    by (simp add: terminated_def sample_registry_def sample_lanes_def)
  ultimately show ?thesis
    using prepared_segments_disjoint [OF sample_base_registry _ sample_PrepareProposal]
    by (auto simp: sample_prepare_def)
qed

theorem ProcessProposal_outcomes_witness:
  "(\<exists>txs p q. GetDecodedTxs sample_decode (procTxs sample_process) = Ret txs \<and>
     NewProposalWithContext value_ctx sample_ctx = Ret p \<and>
     process_chain scaled_dec (terminated sample_registry) sample_store sample_ctx p txs = (sample_ctx, Ret q))"
proof -
  have "\<not> procHeight sample_process \<le>s 1" by (simp add: sample_process_def word_sle_eq)
  from ProcessProposal_outcomes [OF this sample_ProcessProposal] show ?thesis by simp
qed

text \<open>A lane without a prepare handler: calling it panics.\<close>

definition broken_lane :: "(tx list, value_context) BaseLane" where
  "broken_lane = (sample_lane 0 ''free'' (Dec 0) DefaultMatchHandler)\<lparr> prepareLaneHandler := None \<rparr>"

lemma failing_lane_is_skipped_witness:
  "\<exists>mp. prepare_chain scaled_dec value_ctx
      [LaneOf (base_lane_methods scaled_dec (\<lambda>bz. bz) broken_lane), Terminator]
      sample_store sample_ctx (NewProposal 1000 100) =
    prepare_chain scaled_dec value_ctx [Terminator] (sample_store(laneRef broken_lane := mp)) sample_ctx
      (NewProposal 1000 100)"
  by (rule failing_lane_is_skipped [OF value_ctx_laws])
     (simp_all add: base_lane_methods_def BaseLane_PrepareLane_def broken_lane_def sample_eval
       split: go.splits)

end
