(* ===== verification/Mev_Lane.thy ===== *)
theory Mev_Lane
  imports Abci
begin

text \<open>
  The MEV lane (\<open>lanes/mev\<close>: \<open>factory.go\<close>, \<open>utils.go\<close>, \<open>mempool.go\<close>, \<open>abci.go\<close>; \<open>BidInfo\<close> of
  \<open>x/auction/types/bid_info.go\<close>): bid transactions carry a bundle of other transactions. The
  factory extracts the bid, the prepare handler selects the first valid bid with its bundle, the
  process handler checks that a bid is followed by exactly its bundle. The lemmas characterise
  what the handlers accept and show that a prepared bundle is accepted.
\<close>

section \<open>Bids\<close>

text \<open>The signers of a bundled transaction are a map to empty structs: a set of strings.\<close>

record BidInfo =
  Bidder :: bytes
  Bid :: Coin
  Transactions :: "bytes list"
  Timeout :: u64
  BidSigners :: "string set list"
  TransactionTimeouts :: "u64 list"

text \<open>The interface \<open>Factory\<close>; a nil \<open>*BidInfo\<close> is \<open>None\<close>.\<close>

record 'ctx Factory =
  WrapBundleTransaction :: tx_decoder
  GetAuctionBidInfo :: "tx \<Rightarrow> BidInfo option go"
  FactoryMatchHandler :: "'ctx MatchHandler"

fun auction_bid_msgs :: "msg list \<Rightarrow> MsgAuctionBidData list" where
  "auction_bid_msgs [] = []"
| "auction_bid_msgs (MsgAuctionBid m # ms) = m # auction_bid_msgs ms"
| "auction_bid_msgs (_ # ms) = auction_bid_msgs ms"

definition GetMsgAuctionBidFromTx :: "tx \<Rightarrow> MsgAuctionBidData option go" where
  "GetMsgAuctionBidFromTx t =
     (let auctionBidMsgs = auction_bid_msgs (TxMsgs t) in
      if length auctionBidMsgs = 0 then Ret None
      else if length auctionBidMsgs = 1 \<and> length (TxMsgs t) = 1 then Ret (Some (auctionBidMsgs ! 0))
      else Err (Errorf ''invalid MsgAuctionBid transaction''))"

section \<open>The default factory\<close>

definition GetTimeoutHeight :: "tx \<Rightarrow> u64 go" where
  "GetTimeoutHeight t =
     (case TxTimeoutHeight t of
        None \<Rightarrow> Err (Errorf ''cannot extract timeout; transaction does not implement TxWithTimeoutHeight'')
      | Some h \<Rightarrow> Ret h)"

definition bundled_tx_info ::
    "addr_ops \<Rightarrow> tx_decoder option \<Rightarrow> adapter option \<Rightarrow> bytes \<Rightarrow> (string set \<times> u64) go" where
  "bundled_tx_info A txDecoder signerExtractor bz =
     go_bind (call1 txDecoder bz) (\<lambda>sdkTx.
     go_bind (call1 signerExtractor sdkTx) (\<lambda>signers.
     go_bind (GetTimeoutHeight sdkTx) (\<lambda>timeout.
       Ret ((\<lambda>s. addrString A (Signer s)) ` set signers, timeout))))"

definition getBundleInfo ::
    "addr_ops \<Rightarrow> tx_decoder option \<Rightarrow> adapter option \<Rightarrow> bytes list \<Rightarrow> (string set list \<times> u64 list) go" where
  "getBundleInfo A txDecoder signerExtractor bundle =
     go_bind (go_map_list (bundled_tx_info A txDecoder signerExtractor) bundle) (\<lambda>infos.
       Ret (map fst infos, map snd infos))"

definition Default_GetAuctionBidInfo ::
    "addr_ops \<Rightarrow> tx_decoder option \<Rightarrow> adapter option \<Rightarrow> tx \<Rightarrow> BidInfo option go" where
  "Default_GetAuctionBidInfo A txDecoder signerExtractor t =
     go_bind (GetMsgAuctionBidFromTx t) (\<lambda>m.
     (case m of
        None \<Rightarrow> Ret None
      | Some msg \<Rightarrow>
          go_bind (wrap_err ''invalid bidder address (%s)'' (addrFromBech32 A (MsgBidder msg))) (\<lambda>bidder.
          go_bind (GetTimeoutHeight t) (\<lambda>height.
          go_bind (getBundleInfo A txDecoder signerExtractor (MsgTransactions msg)) (\<lambda>(signers, timeouts).
            Ret (Some \<lparr> Bidder = bidder, Bid = MsgBid msg, Transactions = MsgTransactions msg,
                        Timeout = height, BidSigners = signers, TransactionTimeouts = timeouts \<rparr>))))))"

definition Default_MatchHandler :: "(tx \<Rightarrow> BidInfo option go) \<Rightarrow> 'ctx MatchHandler" where
  "Default_MatchHandler getInfo ctx t =
     (case getInfo t of
        Ret (Some _) \<Rightarrow> Ret True | Ret None \<Rightarrow> Ret False | Err _ \<Rightarrow> Ret False | Panic \<Rightarrow> Panic)"

definition NewDefaultAuctionFactory ::
    "addr_ops \<Rightarrow> tx_decoder option \<Rightarrow> adapter option \<Rightarrow> 'ctx Factory" where
  "NewDefaultAuctionFactory A txDecoder extractor =
     \<lparr> WrapBundleTransaction = call1 txDecoder,
       GetAuctionBidInfo = Default_GetAuctionBidInfo A txDecoder extractor,
       FactoryMatchHandler = Default_MatchHandler (Default_GetAuctionBidInfo A txDecoder extractor) \<rparr>"

section \<open>Priorities\<close>

definition bid_priority :: "coin_ops \<Rightarrow> 'ctx Factory \<Rightarrow> tx \<Rightarrow> string go" where
  "bid_priority K F t =
     (case GetAuctionBidInfo F t of
        Panic \<Rightarrow> Panic
      | Err _ \<Rightarrow> Ret ''''
      | Ret None \<Rightarrow> Ret ''''
      | Ret (Some bidInfo) \<Rightarrow> if coinIsNil K (Bid bidInfo) then Ret '''' else Ret (coinString K (Bid bidInfo)))"

definition bid_compare :: "coin_ops \<Rightarrow> string \<Rightarrow> string \<Rightarrow> int" where
  "bid_compare K a b =
     (case (parseCoinsNormalized K a, parseCoinsNormalized K b) of
        (None, None) \<Rightarrow> 0
      | (None, Some _) \<Rightarrow> - 1
      | (Some _, None) \<Rightarrow> 1
      | (Some aCoins, Some bCoins) \<Rightarrow>
          if coinsIsAllGT K aCoins bCoins then 1 else if coinsIsAllLT K aCoins bCoins then - 1 else 0)"

definition Mev_TxPriority :: "coin_ops \<Rightarrow> 'ctx Factory \<Rightarrow> ('ctx, string) TxPriority" where
  "Mev_TxPriority K F =
     \<lparr> GetTxPriority = (\<lambda>_. bid_priority K F), PriorityCompare = bid_compare K, MinValue = '''' \<rparr>"

section \<open>The handlers\<close>

text \<open>The loop over the bundle: the bundled transactions, the total size and the total gas.\<close>

fun bundle_loop ::
    "(bytes \<Rightarrow> bytes) \<Rightarrow> 'ctx Factory \<Rightarrow> ('mp, 'ctx, 'z) lane_core_scheme \<Rightarrow> 'ctx \<Rightarrow> Proposal \<Rightarrow>
     bytes list \<Rightarrow> i64 \<Rightarrow> u64 \<Rightarrow> tx list \<Rightarrow> (tx list \<times> i64 \<times> u64) go" where
  "bundle_loop H F l ctx p [] totalSize totalGas bundle = Ret (bundle, totalSize, totalGas)"
| "bundle_loop H F l ctx p (bz # bzs) totalSize totalGas bundle =
     go_bind (wrap_err ''invalid bid tx; failed to decode bundled tx'' (WrapBundleTransaction F bz)) (\<lambda>bundledTx.
     (case GetTxInfo H l ctx bundledTx of
        Panic \<Rightarrow> Panic
      | Err _ \<Rightarrow> Err (Errorf ''err retrieving transaction info: %s'')
      | Ret info \<Rightarrow>
          if Contains p (Hash info)
          then Err (Errorf ''invalid bid tx; bundled tx is already in the proposal'')
          else bundle_loop H F l ctx p bzs (totalSize + Size info) (totalGas + TxGasLimit info)
                 (bundle @ [bundledTx])))"

definition VerifyBidBasic ::
    "(bytes \<Rightarrow> bytes) \<Rightarrow> 'ctx Factory \<Rightarrow> ('mp, 'ctx, 'z) lane_core_scheme \<Rightarrow> 'ctx \<Rightarrow> tx \<Rightarrow> Proposal \<Rightarrow>
     LaneLimits \<Rightarrow> tx list go" where
  "VerifyBidBasic H F l ctx bidTx p limit =
     go_bind (wrap_err ''failed to get bid info from auction bid tx for lane %s'' (GetAuctionBidInfo F bidTx))
       (\<lambda>bidInfo.
     (case bidInfo of
        None \<Rightarrow> Err (Errorf ''bid info is nil'')
      | Some bid \<Rightarrow>
     (case GetTxInfo H l ctx bidTx of
        Panic \<Rightarrow> Panic
      | Err _ \<Rightarrow> Err (Errorf ''err retrieving transaction info: %s'')
      | Ret txInfo \<Rightarrow>
          if Contains p (Hash txInfo)
          then Err (Errorf ''invalid bid tx; bid tx is already in the proposal'')
          else
            go_bind (bundle_loop H F l ctx p (Transactions bid) (Size txInfo) (TxGasLimit txInfo) [])
              (\<lambda>(bundle, totalSize, totalGasLimit).
               if LimMaxTxBytes limit <s totalSize
               then Err (Errorf ''partial proposal is too large: %d > %d'')
               else if LimMaxGasLimit limit < totalGasLimit
               then Err (Errorf ''partial proposal consumes too much gas: %d > %d'')
               else Ret bundle))))"

fun verify_bundle ::
    "'ctx ctx_ops \<Rightarrow> ('mp, 'ctx, 'z) lane_core_scheme \<Rightarrow> 'ctx \<Rightarrow> tx list \<Rightarrow> 'ctx \<times> unit go" where
  "verify_bundle C l ctx [] = (ctx, Ret ())"
| "verify_bundle C l ctx (t # ts) =
     (case Match l ctx t of
        Panic \<Rightarrow> (ctx, Panic)
      | Err e \<Rightarrow> (ctx, Err e)
      | Ret True \<Rightarrow> (ctx, Err (Errorf ''invalid bid tx; bundled tx is another bid transaction''))
      | Ret False \<Rightarrow>
          (case VerifyTx C l ctx t False of
             (ctx', Panic) \<Rightarrow> (ctx', Panic)
           | (ctx', Err e) \<Rightarrow>
               (ctx', Err (Wrapf ''invalid bid tx; failed to execute bundled transaction'' e))
           | (ctx', Ret _) \<Rightarrow> verify_bundle C l ctx' ts))"

definition VerifyBidTx ::
    "'ctx ctx_ops \<Rightarrow> 'ctx Factory \<Rightarrow> ('mp, 'ctx, 'z) lane_core_scheme \<Rightarrow> 'ctx \<Rightarrow> tx \<Rightarrow> tx list \<Rightarrow>
     'ctx \<times> unit go" where
  "VerifyBidTx C F l ctx bidTx bundle =
     (case wrap_err ''failed to get bid info from auction bid tx for lane %s'' (GetAuctionBidInfo F bidTx) of
        Panic \<Rightarrow> (ctx, Panic)
      | Err e \<Rightarrow> (ctx, Err e)
      | Ret None \<Rightarrow> (ctx, Err (Errorf ''bid info is nil''))
      | Ret (Some _) \<Rightarrow>
          (case VerifyTx C l ctx bidTx False of
             (ctx', Panic) \<Rightarrow> (ctx', Panic)
           | (ctx', Err e) \<Rightarrow> (ctx', Err (Wrapf ''invalid bid tx; failed to execute ante handler'' e))
           | (ctx', Ret _) \<Rightarrow> verify_bundle C l ctx' bundle))"

fun mev_prepare_loop ::
    "'ctx ctx_ops \<Rightarrow> (bytes \<Rightarrow> bytes) \<Rightarrow> 'ctx Factory \<Rightarrow> ('mp, 'ctx, 'z) lane_core_scheme \<Rightarrow> Proposal \<Rightarrow>
     LaneLimits \<Rightarrow> tx list \<Rightarrow> 'ctx \<Rightarrow> tx list \<Rightarrow> 'ctx \<times> (tx list \<times> tx list) go" where
  "mev_prepare_loop C H F l p limit [] ctx rmv = (ctx, Ret ([], rmv))"
| "mev_prepare_loop C H F l p limit (bidTx # txs) ctx rmv =
     (case Match l ctx bidTx of
        Panic \<Rightarrow> (ctx, Panic)
      | Err e \<Rightarrow> (ctx, Err e)
      | Ret False \<Rightarrow> mev_prepare_loop C H F l p limit txs ctx (rmv @ [bidTx])
      | Ret True \<Rightarrow>
          (case VerifyBidBasic H F l (CacheContext C ctx) bidTx p limit of
             Panic \<Rightarrow> (ctx, Panic)
           | Err _ \<Rightarrow> mev_prepare_loop C H F l p limit txs ctx (rmv @ [bidTx])
           | Ret bundle \<Rightarrow>
               (case VerifyBidTx C F l (CacheContext C ctx) bidTx bundle of
                  (cacheCtx, Panic) \<Rightarrow> (ctx, Panic)
                | (cacheCtx, Err _) \<Rightarrow> mev_prepare_loop C H F l p limit txs ctx (rmv @ [bidTx])
                | (cacheCtx, Ret _) \<Rightarrow> (WriteCache C ctx cacheCtx, Ret (bidTx # bundle, rmv)))))"

definition Mev_PrepareLaneHandler ::
    "'ctx ctx_ops \<Rightarrow> (bytes \<Rightarrow> bytes) \<Rightarrow> 'ctx Factory \<Rightarrow> ('mp, 'ctx) lane_core \<Rightarrow> ('mp, 'ctx) PrepareLaneHandler" where
  "Mev_PrepareLaneHandler C H F l mp ctx p limit =
     (case laneMempool l of
        None \<Rightarrow> (mp, ctx, Panic)
      | Some m \<Rightarrow>
          (case mpSelect m mp ctx of
             (mp', Ret txs) \<Rightarrow> (mp', mev_prepare_loop C H F l p limit txs ctx [])
           | (mp', Err e) \<Rightarrow> (mp', ctx, Err e)
           | (mp', Panic) \<Rightarrow> (mp', ctx, Panic)))"

text \<open>The loop of the process handler compares the bundle of the bid with the proposal.\<close>

fun check_bundle ::
    "'ctx Factory \<Rightarrow> ('mp, 'ctx, 'z) lane_core_scheme \<Rightarrow> bytes list \<Rightarrow> tx list \<Rightarrow> unit go" where
  "check_bundle F l [] bundle = Ret ()"
| "check_bundle F l (bz # bzs) [] = Panic"
| "check_bundle F l (bz # bzs) (t # ts) =
     go_bind (wrap_err ''invalid bid tx; failed to decode bundled tx'' (WrapBundleTransaction F bz)) (\<lambda>bundledTx.
     go_bind (wrap_err ''invalid bid tx; failed to encode bundled tx''
       (call1 (cfgTxEncoder (cfg l)) bundledTx)) (\<lambda>expectedTxBz.
     go_bind (wrap_err ''invalid bid tx; failed to encode tx'' (call1 (cfgTxEncoder (cfg l)) t)) (\<lambda>actualTxBz.
       if actualTxBz \<noteq> expectedTxBz
       then Err (Errorf ''invalid bid tx; bundled tx does not match tx in block proposal'')
       else check_bundle F l bzs ts)))"

definition Mev_ProcessLaneHandler ::
    "'ctx ctx_ops \<Rightarrow> 'ctx Factory \<Rightarrow> ('mp, 'ctx) lane_core \<Rightarrow> ('mp, 'ctx) ProcessLaneHandler" where
  "Mev_ProcessLaneHandler C F l mp ctx partialProposal =
     (case partialProposal of
        [] \<Rightarrow> (ctx, Ret ([], []))
      | bidTx # others \<Rightarrow>
     (case Match l ctx bidTx of
        Panic \<Rightarrow> (ctx, Panic)
      | Err e \<Rightarrow> (ctx, Err e)
      | Ret False \<Rightarrow>
          (case (if length partialProposal > 1
                 then wrap_err ''failed to verify no matches'' (VerifyNoMatches l ctx others) else Ret ()) of
             Panic \<Rightarrow> (ctx, Panic)
           | Err e \<Rightarrow> (ctx, Err e)
           | Ret _ \<Rightarrow> (ctx, Ret ([], partialProposal)))
      | Ret True \<Rightarrow>
     (case wrap_err ''failed to get bid info from auction bid tx for lane %s'' (GetAuctionBidInfo F bidTx) of
        Panic \<Rightarrow> (ctx, Panic)
      | Err e \<Rightarrow> (ctx, Err e)
      | Ret None \<Rightarrow> (ctx, Err (Errorf ''bid info is nil''))
      | Ret (Some bidInfo) \<Rightarrow>
          (let bundleSize = length (Transactions bidInfo) + 1;
               bundle = take (length (Transactions bidInfo)) others in
           if length partialProposal < bundleSize
           then (ctx, Err (Errorf ''expected %d transactions in lane %s but got %d''))
           else
             (case check_bundle F l (Transactions bidInfo) bundle of
                Panic \<Rightarrow> (ctx, Panic)
              | Err e \<Rightarrow> (ctx, Err e)
              | Ret _ \<Rightarrow>
                  (case VerifyBidTx C F l ctx bidTx bundle of
                     (ctx', Panic) \<Rightarrow> (ctx', Panic)
                   | (ctx', Err e) \<Rightarrow> (ctx', Err (Wrapf ''invalid bid tx; failed to verify bid tx'' e))
                   | (ctx', Ret _) \<Rightarrow>
                       (ctx', Ret (take bundleSize partialProposal, drop bundleSize partialProposal))))))))"

text \<open>\<open>GetTopAuctionTx\<close>: the first transaction of the iterator; a nil iterator gives nil.\<close>

definition GetTopAuctionTx :: "('mp, 'ctx, 'z) lane_core_scheme \<Rightarrow> 'mp \<Rightarrow> 'ctx \<Rightarrow> 'mp \<times> tx option go" where
  "GetTopAuctionTx l mp ctx =
     (case laneMempool l of
        None \<Rightarrow> (mp, Panic)
      | Some m \<Rightarrow>
          (case mpSelect m mp ctx of
             (mp', Ret txs) \<Rightarrow> (mp', Ret (case txs of [] \<Rightarrow> None | t # _ \<Rightarrow> Some t))
           | (mp', Err e) \<Rightarrow> (mp', Err e)
           | (mp', Panic) \<Rightarrow> (mp', Panic)))"

section \<open>The bundle of a bid\<close>

lemma bundle_loop_Ret:
  "bundle_loop H F l ctx p bzs sz gas bundle = Ret (bundle', sz', gas') \<Longrightarrow>
   \<exists>ts infos. bundle' = bundle @ ts \<and> go_map_list (WrapBundleTransaction F) bzs = Ret ts \<and>
     go_map_list (GetTxInfo H l ctx) ts = Ret infos \<and> (\<forall>i \<in> set infos. \<not> Contains p (Hash i)) \<and>
     sz' = sz + sum_list (map Size infos) \<and> gas' = gas + sum_list (map TxGasLimit infos)"
proof (induction bzs arbitrary: sz gas "bundle")
  case Nil
  then show ?case by simp
next
  case (Cons bz bzs)
  from Cons.prems obtain t i where t: "WrapBundleTransaction F bz = Ret t" "GetTxInfo H l ctx t = Ret i"
    "\<not> Contains p (Hash i)"
    "bundle_loop H F l ctx p bzs (sz + Size i) (gas + TxGasLimit i) (bundle @ [t]) = Ret (bundle', sz', gas')"
    by (auto simp: go_simps split: if_splits)
  from Cons.IH [OF t(4)] obtain ts infos where *: "bundle' = (bundle @ [t]) @ ts"
    "go_map_list (WrapBundleTransaction F) bzs = Ret ts" "go_map_list (GetTxInfo H l ctx) ts = Ret infos"
    "\<forall>i \<in> set infos. \<not> Contains p (Hash i)" "sz' = sz + Size i + sum_list (map Size infos)"
    "gas' = gas + TxGasLimit i + sum_list (map TxGasLimit infos)" by blast
  show ?case
    by (rule exI [of _ "t # ts"], rule exI [of _ "i # infos"]) (use t * in auto)
qed

text \<open>What the basic checks of a bid establish.\<close>

lemma VerifyBidBasic_Ret:
  assumes "VerifyBidBasic H F l ctx bidTx p limit = Ret bundle"
  obtains b infos where "GetAuctionBidInfo F bidTx = Ret (Some b)"
    "go_map_list (WrapBundleTransaction F) (Transactions b) = Ret bundle"
    "go_map_list (GetTxInfo H l ctx) (bidTx # bundle) = Ret infos"
    "\<forall>i \<in> set infos. \<not> Contains p (Hash i)"
    "\<not> LimMaxTxBytes limit <s sum_list (map Size infos)"
    "\<not> LimMaxGasLimit limit < sum_list (map TxGasLimit infos)"
proof -
  from assms obtain b i sz gas where b: "GetAuctionBidInfo F bidTx = Ret (Some b)"
    "GetTxInfo H l ctx bidTx = Ret i" "\<not> Contains p (Hash i)"
    "bundle_loop H F l ctx p (Transactions b) (Size i) (TxGasLimit i) [] = Ret (bundle, sz, gas)"
    "\<not> LimMaxTxBytes limit <s sz" "\<not> LimMaxGasLimit limit < gas"
    by (auto simp: VerifyBidBasic_def go_simps split: if_splits)
  from bundle_loop_Ret [OF b(4)] obtain infos where
    "go_map_list (WrapBundleTransaction F) (Transactions b) = Ret bundle"
    "go_map_list (GetTxInfo H l ctx) bundle = Ret infos" "\<forall>i \<in> set infos. \<not> Contains p (Hash i)"
    "sz = Size i + sum_list (map Size infos)" "gas = TxGasLimit i + sum_list (map TxGasLimit infos)" by auto
  with b show thesis by (intro that [of b "i # infos"]) auto
qed

lemma verify_bundle_no_match:
  "verify_bundle C l ctx ts = (ctx', Ret ()) \<Longrightarrow> \<forall>t \<in> set ts. \<exists>c. Match l c t = Ret False"
  by (induction ts arbitrary: ctx) (auto split: go.splits bool.splits prod.splits)

lemma VerifyBidTx_Ret:
  "VerifyBidTx C F l ctx t bundle = (ctx', Ret ()) \<longleftrightarrow> (\<exists>b ctx1. GetAuctionBidInfo F t = Ret (Some b) \<and>
     VerifyTx C l ctx t False = (ctx1, Ret ()) \<and> verify_bundle C l ctx1 bundle = (ctx', Ret ()))"
  by (cases "GetAuctionBidInfo F t") (auto simp: VerifyBidTx_def split: option.splits prod.splits go.splits)

text \<open>The bundle in a proposal agrees with the bid: the encodings are equal one by one.\<close>

definition bundle_agrees ::
    "'ctx Factory \<Rightarrow> ('mp, 'ctx, 'z) lane_core_scheme \<Rightarrow> bytes list \<Rightarrow> tx list \<Rightarrow> bool" where
  "bundle_agrees F l bzs ts \<longleftrightarrow> list_all2 (\<lambda>bz t. \<exists>u e. WrapBundleTransaction F bz = Ret u \<and>
     call1 (cfgTxEncoder (cfg l)) u = Ret e \<and> call1 (cfgTxEncoder (cfg l)) t = Ret e) bzs ts"

lemma check_bundle_Ret_iff:
  "length bzs = length ts \<Longrightarrow> check_bundle F l bzs ts = Ret () \<longleftrightarrow> bundle_agrees F l bzs ts"
  unfolding bundle_agrees_def
  by (induction bzs ts rule: list_induct2) (auto simp: go_simps)

lemma bundle_agrees_length: "bundle_agrees F l bzs ts \<Longrightarrow> length bzs = length ts"
  by (auto simp: bundle_agrees_def dest: list_all2_lengthD)

lemma wrapped_bundle_agrees:
  assumes "go_map_list (WrapBundleTransaction F) bzs = Ret ts"
    and "go_map_list (GetTxInfo H l ctx) ts = Ret infos"
  shows "bundle_agrees F l bzs ts"
proof -
  have "\<forall>t \<in> set ts. \<exists>e. call1 (cfgTxEncoder (cfg l)) t = Ret e"
    using assms(2) GetTxInfo_RetD(1)
    by (fastforce simp: go_map_list_Ret_iff list_all2_conv_all_nth in_set_conv_nth)
  with assms(1) show ?thesis
    by (auto simp: go_map_list_Ret_iff bundle_agrees_def list_all2_conv_all_nth)
qed

section \<open>The process handler\<close>

lemma Mev_ProcessLaneHandler_iff:
  "Mev_ProcessLaneHandler C F l mp ctx txs = (ctx', Ret (own, rest)) \<longleftrightarrow> txs = own @ rest \<and>
     (own = [] \<and> ctx' = ctx \<and> (\<forall>t \<in> set rest. Match l ctx t = Ret False) \<or>
      (\<exists>bid bundle b. own = bid # bundle \<and> Match l ctx bid = Ret True \<and>
        GetAuctionBidInfo F bid = Ret (Some b) \<and> bundle_agrees F l (Transactions b) bundle \<and>
        VerifyBidTx C F l ctx bid bundle = (ctx', Ret ())))"
proof (cases txs)
  case Nil
  then show ?thesis by (auto simp: Mev_ProcessLaneHandler_def)
next
  case (Cons bid others)
  consider (no) "Match l ctx bid = Ret False" | (other) "\<forall>b. Match l ctx bid \<noteq> Ret b"
    | (yes) "Match l ctx bid = Ret True" by (metis (full_types))
  then show ?thesis
  proof cases
    case no
    then show ?thesis
      using VerifyNoMatches_Ret_iff [of l ctx others]
      by (auto simp: Mev_ProcessLaneHandler_def Cons Cons_eq_append_conv split: go.splits)
  next
    case other
    then show ?thesis
      by (auto simp: Mev_ProcessLaneHandler_def Cons Cons_eq_append_conv split: go.splits)
  next
    case yes
    show ?thesis
    proof (cases "\<exists>b. GetAuctionBidInfo F bid = Ret (Some b)")
      case False
      with yes show ?thesis
        by (auto simp: Mev_ProcessLaneHandler_def Cons Cons_eq_append_conv split: go.splits option.splits)
    next
      case True
      then obtain b where b: "GetAuctionBidInfo F bid = Ret (Some b)" ..
      let ?n = "length (Transactions b)"
      have "Mev_ProcessLaneHandler C F l mp ctx txs = (ctx', Ret (own, rest)) \<longleftrightarrow>
          ?n \<le> length others \<and> check_bundle F l (Transactions b) (take ?n others) = Ret () \<and>
          VerifyBidTx C F l ctx bid (take ?n others) = (ctx', Ret ()) \<and>
          own = bid # take ?n others \<and> rest = drop ?n others"
        using yes b
        by (auto simp: Mev_ProcessLaneHandler_def Cons Let_def split: go.splits prod.splits if_splits)
      also have "\<dots> \<longleftrightarrow> bundle_agrees F l (Transactions b) (take ?n others) \<and>
          VerifyBidTx C F l ctx bid (take ?n others) = (ctx', Ret ()) \<and>
          own = bid # take ?n others \<and> rest = drop ?n others"
        using check_bundle_Ret_iff [of "Transactions b" "take ?n others" F l]
          bundle_agrees_length [of F l "Transactions b" "take ?n others"] by auto
      also have "\<dots> \<longleftrightarrow> (\<exists>bundle. txs = own @ rest \<and> own = bid # bundle \<and>
          bundle_agrees F l (Transactions b) bundle \<and> VerifyBidTx C F l ctx bid bundle = (ctx', Ret ()))"
        (is "?L \<longleftrightarrow> ?R")
      proof
        assume ?L
        then show ?R by (intro exI [of _ "take ?n others"]) (simp add: Cons)
      next
        assume ?R
        then obtain "bundle" where *: "txs = own @ rest" "own = bid # bundle"
          "bundle_agrees F l (Transactions b) bundle" "VerifyBidTx C F l ctx bid bundle = (ctx', Ret ())"
          by blast
        from bundle_agrees_length [OF *(3)] * show ?L by (simp add: Cons)
      qed
      finally show ?thesis using yes b by (auto simp: Cons)
    qed
  qed
qed

text \<open>
  What the MEV lane takes: nothing, in front of transactions of other lanes only, or a bid and its
  bundle, verified one after the other, in front of anything.
\<close>

definition mev_takes :: "'ctx ctx_ops \<Rightarrow> 'ctx Factory \<Rightarrow> ('mp, 'ctx) takes" where
  "mev_takes C F l mp ctx own rest ctx' \<longleftrightarrow>
     own = [] \<and> ctx' = ctx \<and> (\<forall>t \<in> set rest. Match l ctx t = Ret False) \<or>
     (\<exists>bid bundle b. own = bid # bundle \<and> Match l ctx bid = Ret True \<and>
       GetAuctionBidInfo F bid = Ret (Some b) \<and> bundle_agrees F l (Transactions b) bundle \<and>
       VerifyBidTx C F l ctx bid bundle = (ctx', Ret ()))"

interpretation mev_process: process_contract "Mev_ProcessLaneHandler C F" "mev_takes C F" for C F
  by unfold_locales (auto simp: mev_takes_def Mev_ProcessLaneHandler_iff)

text \<open>The lanes of the repository have the default handler or, with some factory, that of the MEV lane.\<close>

definition repository_takes :: "'ctx ctx_ops \<Rightarrow> ('mp, 'ctx) BaseLane \<Rightarrow> ('mp, 'ctx) takes" where
  "repository_takes C bl l mp ctx own rest ctx' \<longleftrightarrow>
     processLaneHandler bl = Some (Default_ProcessLaneHandler C) \<and> default_takes C l mp ctx own rest ctx' \<or>
     (\<exists>F. processLaneHandler bl = Some (Mev_ProcessLaneHandler C F) \<and> mev_takes C F l mp ctx own rest ctx')"

definition repository_lanes :: "'ctx ctx_ops \<Rightarrow> ('mp, 'ctx) BaseLane list \<Rightarrow> bool" where
  "repository_lanes C ls \<longleftrightarrow> (\<forall>l \<in> set ls. processLaneHandler l = Some (Default_ProcessLaneHandler C) \<or>
     (\<exists>F. processLaneHandler l = Some (Mev_ProcessLaneHandler C F)))"

lemma repository_contract: "repository_lanes C ls \<Longrightarrow> contract_handlers (repository_takes C) ls"
  unfolding contract_handlers_def
proof
  fix l
  assume "repository_lanes C ls" and "l \<in> set ls"
  then consider "processLaneHandler l = Some (Default_ProcessLaneHandler C)"
    | F where "processLaneHandler l = Some (Mev_ProcessLaneHandler C F)" by (auto simp: repository_lanes_def)
  then show "\<exists>h. processLaneHandler l = Some h \<and> process_contract h (repository_takes C l)"
  proof cases
    case 1
    have "process_contract (Default_ProcessLaneHandler C) (repository_takes C l)"
      by unfold_locales
        (use 1 in \<open>auto simp: repository_takes_def default_process.takes_nothing dest: default_process.splits\<close>)
    with 1 show ?thesis by blast
  next
    case (2 F)
    have "process_contract (Mev_ProcessLaneHandler C F) (repository_takes C l)"
      by unfold_locales
        (use 2 in \<open>auto simp: repository_takes_def mev_process.takes_nothing dest: mev_process.splits\<close>)
    with 2 show ?thesis by blast
  qed
qed

text \<open>C5: An accepted proposal is consumed completely, lane by lane: its transactions decode to a list that
  splits into one contiguous segment per lane, in the order of the lanes, and each lane takes its
  segment in the context that the lane before it left. A lane with the default handler takes a run of
  transactions that all match it, in its order and verified one after the other, and none of the
  transactions after its segment matches it. The MEV lane takes nothing, and then no transaction
  matches it, or exactly one bid that matches it, followed by the bid's bundle, verified one after the
  other. The bytes of the proposal are within the consensus parameters.\<close>

theorem ProcessProposal_accept_sound:
  assumes "repository_lanes C ls" and "common_encoder enc ls" and "codec_canonical enc dec"
    and "\<not> procHeight req \<le>s 1"
    and "ProcessProposalHandler D C dec noop True (map (\<lambda>l. LaneOf (base_lane_methods D H l)) ls)
      mps ctx req = (ctx', ACCEPT, e)"
  shows "e = None \<and> (\<exists>segs bp. GetDecodedTxs dec (procTxs req) = Ret (concat segs) \<and>
    lanes_take (repository_takes C) mps ls segs ctx ctx' \<and>
    ConsBlock C ctx = Some bp \<and>
    (procTxs req \<noteq> [] \<longrightarrow> (\<Sum>bz \<leftarrow> procTxs req. of_nat (length bz)) \<le>s ParamMaxBytes bp))"
  by (rule accepted_segments [OF repository_contract [OF assms(1)] assms(2-5)])

text \<open>C8: The MEV lane accepts a proposal in exactly two cases: no transaction matches the lane,
  and everything is left to the other lanes; or the first transaction is a bid, it is followed by
  exactly its bundle (transaction by transaction the same encoding, none of them a bid), and the
  bid and the bundle pass verification one after the other.\<close>

theorem mev_process_accepts_iff:
  "Mev_ProcessLaneHandler C F l mp ctx txs = (ctx', Ret (own, rest)) \<longleftrightarrow> txs = own @ rest \<and>
     (own = [] \<and> ctx' = ctx \<and> (\<forall>t \<in> set rest. Match l ctx t = Ret False) \<or>
      (\<exists>bid bundle b. own = bid # bundle \<and> Match l ctx bid = Ret True \<and>
        GetAuctionBidInfo F bid = Ret (Some b) \<and> bundle_agrees F l (Transactions b) bundle \<and>
        VerifyBidTx C F l ctx bid bundle = (ctx', Ret ())))"
  by (rule Mev_ProcessLaneHandler_iff)

section \<open>The prepare handler\<close>

text \<open>A bid is selectable when it matches, passes the basic checks and is verified with its bundle.\<close>

definition bid_selectable ::
    "'ctx ctx_ops \<Rightarrow> (bytes \<Rightarrow> bytes) \<Rightarrow> 'ctx Factory \<Rightarrow> ('mp, 'ctx, 'z) lane_core_scheme \<Rightarrow> Proposal \<Rightarrow>
     LaneLimits \<Rightarrow> 'ctx \<Rightarrow> tx \<Rightarrow> tx list \<Rightarrow> 'ctx \<Rightarrow> bool" where
  "bid_selectable C H F l p limit ctx bid bundle ctx' \<longleftrightarrow> Match l ctx bid = Ret True \<and>
     VerifyBidBasic H F l (CacheContext C ctx) bid p limit = Ret bundle \<and>
     (\<exists>c. VerifyBidTx C F l (CacheContext C ctx) bid bundle = (c, Ret ()) \<and> ctx' = WriteCache C ctx c)"

lemma mev_prepare_loop_Ret:
  "mev_prepare_loop C H F l p limit txs ctx rmv = (ctx', Ret (incl, rmv')) \<Longrightarrow>
   \<exists>pre post. txs = pre @ post \<and> rmv' = rmv @ pre \<and>
     (\<forall>t \<in> set pre. \<forall>bundle c. \<not> bid_selectable C H F l p limit ctx t bundle c) \<and>
     (incl = [] \<and> post = [] \<and> ctx' = ctx \<or>
      (\<exists>bid bundle ts. incl = bid # bundle \<and> post = bid # ts \<and> bid_selectable C H F l p limit ctx bid bundle ctx'))"
proof (induction txs arbitrary: rmv)
  case Nil
  then show ?case by auto
next
  case (Cons t txs)
  from Cons.prems consider
    (take) bun where "incl = t # bun" "rmv' = rmv" "bid_selectable C H F l p limit ctx t bun ctx'"
  | (drop) "\<forall>bundle c. \<not> bid_selectable C H F l p limit ctx t bundle c"
      "mev_prepare_loop C H F l p limit txs ctx (rmv @ [t]) = (ctx', Ret (incl, rmv'))"
    by (auto simp: bid_selectable_def split: go.splits bool.splits prod.splits)
  then show ?case
  proof cases
    case take
    then show ?thesis by (intro exI [of _ "[]"] exI [of _ "t # txs"]) auto
  next
    case drop
    from Cons.IH [OF drop(2)] obtain pre post where *: "txs = pre @ post" "rmv' = (rmv @ [t]) @ pre"
      "\<forall>t \<in> set pre. \<forall>bundle c. \<not> bid_selectable C H F l p limit ctx t bundle c"
      "incl = [] \<and> post = [] \<and> ctx' = ctx \<or> (\<exists>bid bundle ts. incl = bid # bundle \<and> post = bid # ts \<and>
         bid_selectable C H F l p limit ctx bid bundle ctx')" by blast
    show ?thesis by (rule exI [of _ "t # pre"], rule exI [of _ post]) (use * drop(1) in auto)
  qed
qed

text \<open>C9: The MEV lane selects the first selectable bid of its mempool with its bundle and nothing
  else: the bids before it are returned for removal, no bid is selected only when none is
  selectable, and the context is the one the verified bid and bundle leave.\<close>

theorem mev_prepare_selects_first:
  assumes "Mev_PrepareLaneHandler C H F l mp ctx p limit = (mp', ctx', Ret (incl, rmv))"
  shows "\<exists>m post. laneMempool l = Some m \<and> mpSelect m mp ctx = (mp', Ret (rmv @ post)) \<and>
    (\<forall>t \<in> set rmv. \<forall>bundle c. \<not> bid_selectable C H F l p limit ctx t bundle c) \<and>
    (incl = [] \<and> post = [] \<and> ctx' = ctx \<or>
     (\<exists>bid bundle ts. incl = bid # bundle \<and> post = bid # ts \<and>
        bid_selectable C H F l p limit ctx bid bundle ctx'))"
proof -
  from assms obtain m txs where "laneMempool l = Some m" "mpSelect m mp ctx = (mp', Ret txs)"
    "mev_prepare_loop C H F l p limit txs ctx [] = (ctx', Ret (incl, rmv))"
    by (auto simp: Mev_PrepareLaneHandler_def split: option.splits prod.splits go.splits)
  with mev_prepare_loop_Ret [OF this(3)] show ?thesis by auto
qed

lemma Mev_PrepareLaneHandler_cases:
  assumes "Mev_PrepareLaneHandler C H F l mp ctx p limit = (mp', ctx', Ret (incl, rmv))"
  obtains (none) "incl = []" "ctx' = ctx"
  | (bid) bid "bundle" where "incl = bid # bundle" "bid_selectable C H F l p limit ctx bid bundle ctx'"
proof -
  from assms obtain txs where "mev_prepare_loop C H F l p limit txs ctx [] = (ctx', Ret (incl, rmv))"
    by (auto simp: Mev_PrepareLaneHandler_def split: option.splits prod.splits go.splits)
  from mev_prepare_loop_Ret [OF this] none bid show thesis by blast
qed

text \<open>What the MEV lane prepares, it accepts.\<close>

lemma mev_prepared_is_processed:
  assumes "ctx_laws C"
    and "Mev_PrepareLaneHandler C H F l mp ctx p limit = (mp', ctx', Ret (incl, rmv))"
    and "\<forall>t \<in> set rest. Match l ctx' t = Ret False"
  shows "Mev_ProcessLaneHandler C F l mp2 ctx (incl @ rest) = (ctx', Ret (incl, rest))"
  using assms(2)
proof (cases rule: Mev_PrepareLaneHandler_cases)
  case none
  then show ?thesis using assms(3) by (simp add: Mev_ProcessLaneHandler_iff)
next
  case (bid bid "bundle")
  from bid(2) assms(1) have sel: "Match l ctx bid = Ret True"
    "VerifyBidBasic H F l ctx bid p limit = Ret bundle" "VerifyBidTx C F l ctx bid bundle = (ctx', Ret ())"
    by (auto simp: bid_selectable_def ctx_laws_def)
  from sel(2) obtain b infos where "GetAuctionBidInfo F bid = Ret (Some b)"
    "go_map_list (WrapBundleTransaction F) (Transactions b) = Ret bundle"
    "go_map_list (GetTxInfo H l ctx) (bid # bundle) = Ret infos"
    by (rule VerifyBidBasic_Ret)
  moreover from this(3) obtain infos' where "go_map_list (GetTxInfo H l ctx) bundle = Ret infos'"
    by (auto simp: go_simps)
  ultimately show ?thesis
    using sel bid(1) by (auto simp: Mev_ProcessLaneHandler_iff intro: wrapped_bundle_agrees)
qed

section \<open>The order of bids\<close>

text \<open>C10: The mempool of the MEV lane orders bids of one denomination by their amounts: the
  comparison of the priorities of two bid transactions with valid, positive bids is 1, 0 or -1
  as the first amount is greater than, equal to or less than the second; a transaction without
  a bid is below all of them.\<close>

theorem bid_priority_order:
  assumes "coin_laws K" and "GetAuctionBidInfo F t = Ret (Some a)" and "GetAuctionBidInfo F u = Ret (Some b)"
    and "Bid a = coin_of d x" and "Bid b = coin_of d y" and "0 < x" and "0 < y"
    and "coinValidate K (Bid a) = Ret ()" and "coinValidate K (Bid b) = Ret ()"
    and "GetAuctionBidInfo F v = Ret None"
  shows "\<exists>s r e. GetTxPriority (Mev_TxPriority K F) ctx t = Ret s \<and> GetTxPriority (Mev_TxPriority K F) ctx u = Ret r \<and>
    GetTxPriority (Mev_TxPriority K F) ctx v = Ret e \<and>
    PriorityCompare (Mev_TxPriority K F) s r = sgn (x - y) \<and>
    PriorityCompare (Mev_TxPriority K F) e s = - 1 \<and> PriorityCompare (Mev_TxPriority K F) s e = 1"
proof -
  have v: "coinValidate K (coin_of d x) = Ret ()" "coinValidate K (coin_of d y) = Ret ()"
    using assms(4,5,8,9) by simp_all
  note facts = coin_laws_bids(1) [OF assms(1,6) v(1)] coin_laws_bids(1) [OF assms(1,7) v(2)]
    coin_laws_bids(2,3) [OF assms(1,6,7)] coin_lawsD(1,8) [OF assms(1)]
  have prio: "GetTxPriority (Mev_TxPriority K F) ctx t = Ret (coinString K (coin_of d x))"
    "GetTxPriority (Mev_TxPriority K F) ctx u = Ret (coinString K (coin_of d y))"
    "GetTxPriority (Mev_TxPriority K F) ctx v = Ret []"
    using assms(2-5,10) facts by (simp_all add: Mev_TxPriority_def bid_priority_def)
  have cmp: "bid_compare K (coinString K (coin_of d x)) (coinString K (coin_of d y)) =
      (if x > y then 1 else if x < y then - 1 else 0)"
    by (simp add: bid_compare_def facts)
  have "PriorityCompare (Mev_TxPriority K F) (coinString K (coin_of d x)) (coinString K (coin_of d y)) = sgn (x - y)"
    "PriorityCompare (Mev_TxPriority K F) [] (coinString K (coin_of d x)) = - 1"
    "PriorityCompare (Mev_TxPriority K F) (coinString K (coin_of d x)) [] = 1"
    using cmp unfolding Mev_TxPriority_def by (auto simp: bid_compare_def facts(1,2,6) sgn_if)
  with prio show ?thesis by blast
qed

section \<open>Concrete instances\<close>

text \<open>A factory for which the transaction \<open>[7]\<close> is a bid of 5 stake with the bundle \<open>[[1], [2]]\<close>.\<close>

definition sample_bid :: BidInfo where
  "sample_bid = \<lparr> Bidder = [7], Bid = coin_of ''stake'' 5, Transactions = [[1], [2]], Timeout = 6,
     BidSigners = [{''a''}, {''b''}], TransactionTimeouts = [6, 6] \<rparr>"

definition sample_factory :: "value_context Factory" where
  "sample_factory = \<lparr> WrapBundleTransaction = sample_decode,
     GetAuctionBidInfo = (\<lambda>t. Ret (if TxRest t = [7] then Some sample_bid
       else if TxRest t = [8] then Some (sample_bid\<lparr> Bid := coin_of ''stake'' 3 \<rparr>) else None)),
     FactoryMatchHandler = (\<lambda>_ t. Ret (TxRest t = [7])) \<rparr>"

definition sample_mev_lane :: "nat \<Rightarrow> LegacyDec \<Rightarrow> (tx list, value_context) BaseLane" where
  "sample_mev_lane ref space = (sample_lane ref ''mev'' space (FactoryMatchHandler sample_factory))
     \<lparr> prepareLaneHandler := Some (Mev_PrepareLaneHandler value_ctx (\<lambda>bz. bz) sample_factory),
       processLaneHandler := Some (Mev_ProcessLaneHandler value_ctx sample_factory) \<rparr>"

lemma sample_factory_simps [simp]:
  "WrapBundleTransaction sample_factory = sample_decode"
  "GetAuctionBidInfo sample_factory t = Ret (if TxRest t = [7] then Some sample_bid
     else if TxRest t = [8] then Some (sample_bid\<lparr> Bid := coin_of ''stake'' 3 \<rparr>) else None)"
  "FactoryMatchHandler sample_factory ctx t = Ret (TxRest t = [7])"
  "Transactions sample_bid = [[1], [2]]"
  by (simp_all add: sample_factory_def sample_bid_def)

lemma sample_mev_lane_simps [simp]:
  "laneRef (sample_mev_lane ref space) = ref"
  "laneName (sample_mev_lane ref space) = ''mev''"
  "laneMempool (sample_mev_lane ref space) = Some list_mempool"
  "GetMaxBlockSpace (sample_mev_lane ref space) = space"
  "Match (sample_mev_lane ref space) ctx t = Ret (TxRest t = [7])"
  "VerifyTx C (sample_mev_lane ref space) ctx t b = (ctx, Ret ())"
  "prepareLaneHandler (sample_mev_lane ref space) =
     Some (Mev_PrepareLaneHandler value_ctx (\<lambda>bz. bz) sample_factory)"
  "processLaneHandler (sample_mev_lane ref space) = Some (Mev_ProcessLaneHandler value_ctx sample_factory)"
  "cfgTxEncoder (cfg (sample_mev_lane ref space)) = Some sample_encode"
  "length bz < 2 ^ 31 \<Longrightarrow> GetTxInfo (\<lambda>bz. bz) (sample_mev_lane ref space) ctx (sample_tx bz) =
     Ret \<lparr> Hash = TxHash (\<lambda>bz. bz) bz, Size = of_nat (length bz), TxGasLimit = 5, TxBytes = bz,
       TxPriorityValue = AnyInt 0, Signers = [\<lparr> Signer = [7], Sequence = 1 \<rparr>] \<rparr>"
  by (simp_all add: sample_mev_lane_def sample_lane_def NewLaneConfig_def GetMaxBlockSpace_def Match_def
      VerifyTx_def GetTxInfo_def TxHash_def)

abbreviation sample_mev_core :: "(tx list, value_context) lane_core" where
  "sample_mev_core \<equiv> lane_core.truncate (sample_mev_lane 0 (Dec 0))"

lemma sample_mev_prepared:
  "Mev_PrepareLaneHandler value_ctx (\<lambda>bz. bz) sample_factory sample_mev_core
     [sample_tx [9], sample_tx [7]] sample_ctx (NewProposal 1000 100) sample_limit =
   ([sample_tx [9], sample_tx [7]], sample_ctx,
    Ret ([sample_tx [7], sample_tx [1], sample_tx [2]], [sample_tx [9]]))"
  by (simp add: Mev_PrepareLaneHandler_def VerifyBidBasic_def VerifyBidTx_def Contains_def
      sample_limit_def NewProposal_def word_sless_alt value_ctx_def)

theorem mev_prepare_selects_first_witness:
  "\<exists>m post. laneMempool sample_mev_core = Some m \<and>
     mpSelect m [sample_tx [9], sample_tx [7]] sample_ctx =
       ([sample_tx [9], sample_tx [7]], Ret ([sample_tx [9]] @ post)) \<and>
     (\<forall>bundle c. \<not> bid_selectable value_ctx (\<lambda>bz. bz) sample_factory sample_mev_core
       (NewProposal 1000 100) sample_limit sample_ctx (sample_tx [9]) bundle c)"
  using mev_prepare_selects_first [OF sample_mev_prepared] by auto

theorem mev_process_accepts_iff_witness:
  "Mev_ProcessLaneHandler value_ctx sample_factory sample_mev_core [] sample_ctx
     ([sample_tx [7], sample_tx [1], sample_tx [2]] @ [sample_tx [3]]) =
     (sample_ctx, Ret ([sample_tx [7], sample_tx [1], sample_tx [2]], [sample_tx [3]]))"
  by (rule mev_process_accepts_iff [THEN iffD2])
     (simp add: bundle_agrees_def VerifyBidTx_def)

theorem bid_priority_order_witness:
  "\<exists>s r. GetTxPriority (Mev_TxPriority plain_coins sample_factory) sample_ctx (sample_tx [7]) = Ret s \<and>
    GetTxPriority (Mev_TxPriority plain_coins sample_factory) sample_ctx (sample_tx [8]) = Ret r \<and>
    PriorityCompare (Mev_TxPriority plain_coins sample_factory) s r = 1"
  using bid_priority_order [OF plain_coins_laws, of sample_factory "sample_tx [7]" sample_bid
    "sample_tx [8]" "sample_bid\<lparr> Bid := coin_of ''stake'' 3 \<rparr>" "''stake''" 5 3 "sample_tx [9]" sample_ctx]
  by (auto simp: sample_bid_def plain_coins_def plain_valid_def)

theorem ProcessProposal_accept_sound_witness:
  "\<exists>segs. map sample_tx [[9], [1, 2]] = concat segs \<and>
     lanes_take (repository_takes value_ctx) sample_store sample_lanes segs sample_ctx sample_ctx"
proof -
  have "repository_lanes value_ctx sample_lanes"
    by (auto simp: repository_lanes_def sample_lanes_def)
  moreover have "common_encoder sample_encode sample_lanes"
    by (auto simp: common_encoder_def sample_lanes_def)
  moreover have "codec_canonical sample_encode sample_decode"
    by (auto simp: codec_canonical_def sample_decode_def split: if_splits)
  moreover have "\<not> procHeight sample_process \<le>s 1" by (simp add: sample_process_def word_sle_eq)
  ultimately show ?thesis
    using ProcessProposal_accept_sound [of value_ctx sample_lanes sample_encode sample_decode sample_process]
      sample_ProcessProposal
    by (fastforce simp: sample_registry_def sample_process_def GetDecodedTxs_def)
qed

end
