(* ===== verification/Round_Trip.thy ===== *)
theory Round_Trip
  imports Mev_Lane
begin

text \<open>
  The agreement of the two handlers across the whole chain of lanes: a proposal prepared by a MEV
  lane and lanes with the default handlers is accepted by the same lanes when it is processed
  from the same state, lane by lane, with the same context at the end. What the chain needs of a
  lane's two handlers is the locale \<open>handler_pair\<close>, interpreted by the default handlers and by
  the handlers of the MEV lane. The proposer and the verifier may
  use different byte limits, as CometBFT's \<open>MaxTxBytes\<close> and the consensus parameter \<open>MaxBytes\<close>
  do: \<open>widen m p\<close> is \<open>p\<close> with the larger limit.
\<close>

section \<open>A larger block accepts what a smaller one accepts\<close>

definition widen :: "i64 \<Rightarrow> Proposal \<Rightarrow> Proposal" where
  "widen m p = p\<lparr> Info := (Info p)\<lparr> MaxBlockSize := m \<rparr> \<rparr>"

lemma widen_simps [simp]:
  "Txs (widen m p) = Txs p" "Cache (widen m p) = Cache p"
  "MaxBlockSize (Info (widen m p)) = m" "MaxGasLimit (Info (widen m p)) = MaxGasLimit (Info p)"
  "BlockSize (Info (widen m p)) = BlockSize (Info p)" "GasLimit (Info (widen m p)) = GasLimit (Info p)"
  "TxsByLane (Info (widen m p)) = TxsByLane (Info p)"
  by (simp_all add: widen_def)

lemma widen_updated: "updated_proposal n (widen m p) ts = widen m (updated_proposal n p ts)"
  by (simp add: updated_proposal_def widen_def)

lemma widen_new: "widen m (NewProposal maxBytes maxGas) = NewProposal m maxGas"
  by (simp add: widen_def NewProposal_def)

text \<open>The size of a block under construction: recorded sizes are sane and below \<open>2^62\<close>.\<close>

definition sane_size :: "Proposal \<Rightarrow> bool" where
  "sane_size p \<longleftrightarrow> 0 \<le> sint (BlockSize (Info p)) \<and>
     sint (BlockSize (Info p)) \<le> sint (MaxBlockSize (Info p)) \<and> sint (MaxBlockSize (Info p)) < 2 ^ 62"

lemma GetLaneLimits_widen:
  assumes "dec_laws D" and "0 \<le> x" and "x \<le> dec_unit" and "sane_size p"
    and "sint (MaxBlockSize (Info p)) \<le> sint m"
  obtains lim lim' where "GetLaneLimits D p (Dec x) = Ret lim"
    "GetLaneLimits D (widen m p) (Dec x) = Ret lim'"
    "0 \<le> sint (LimMaxTxBytes lim)" "sint (LimMaxTxBytes lim) \<le> sint (MaxBlockSize (Info p))"
    "sint (LimMaxTxBytes lim) \<le> sint (LimMaxTxBytes lim')" "LimMaxGasLimit lim = LimMaxGasLimit lim'"
proof -
  have nn: "0 \<le> sint (MaxBlockSize (Info p))" "0 \<le> sint (BlockSize (Info p))" "0 \<le> sint m"
    using assms(4,5) by (auto simp: sane_size_def)
  from GetLaneLimits_value [OF assms(1-3) nn(1,2)] obtain lim where lim:
    "GetLaneLimits D p (Dec x) = Ret lim"
    "sint (LimMaxTxBytes lim) =
      (if x = 0 then max 0 (sint (MaxBlockSize (Info p)) - sint (BlockSize (Info p)))
       else x * sint (MaxBlockSize (Info p)) div dec_unit)"
    "uint (LimMaxGasLimit lim) =
      (if x = 0 then max 0 (uint (MaxGasLimit (Info p)) - uint (GasLimit (Info p)))
       else x * uint (MaxGasLimit (Info p)) div dec_unit)" .
  have nn': "0 \<le> sint (MaxBlockSize (Info (widen m p)))" "0 \<le> sint (BlockSize (Info (widen m p)))"
    using nn by simp_all
  from GetLaneLimits_value [OF assms(1-3) nn', unfolded widen_simps] obtain lim' where lim':
    "GetLaneLimits D (widen m p) (Dec x) = Ret lim'"
    "sint (LimMaxTxBytes lim') =
      (if x = 0 then max 0 (sint m - sint (BlockSize (Info p))) else x * sint m div dec_unit)"
    "uint (LimMaxGasLimit lim') =
      (if x = 0 then max 0 (uint (MaxGasLimit (Info p)) - uint (GasLimit (Info p)))
       else x * uint (MaxGasLimit (Info p)) div dec_unit)" .
  have "x * sint (MaxBlockSize (Info p)) div dec_unit \<le> x * sint m div dec_unit"
    using assms(2,5) by (intro zdiv_mono1 mult_left_mono) auto
  then have "sint (LimMaxTxBytes lim) \<le> sint (LimMaxTxBytes lim')"
    using lim(2) lim'(2) assms(5) by auto
  moreover have "LimMaxGasLimit lim = LimMaxGasLimit lim'"
    using lim(3) lim'(3) by (simp add: word_uint_eq_iff)
  moreover have "0 \<le> sint (LimMaxTxBytes lim)"
    "sint (LimMaxTxBytes lim) \<le> sint (MaxBlockSize (Info p))"
    using lim(2) nn share_bounds [OF assms(2,3) nn(1)] by auto
  ultimately show thesis using that lim(1) lim'(1) by blast
qed

text \<open>What a lane could add, it can add under the larger limit, and the size stays sane.\<close>

lemma UpdateProposal_widen:
  assumes "dec_laws D" and "0 \<le> x" and "x \<le> dec_unit" and "sane_size p"
    and "sint (MaxBlockSize (Info p)) \<le> sint m"
    and "UpdateProposal D n (Dec x) p ts = (p1, Ret ())"
    and "0 \<le> total_size ts" and "total_size ts \<le> sint (MaxBlockSize (Info p))"
    and "sint (sum_list (map Size ts)) = total_size ts"
  shows "UpdateProposal D n (Dec x) (widen m p) ts = (widen m p1, Ret ()) \<and> sane_size p1 \<and>
    MaxBlockSize (Info p1) = MaxBlockSize (Info p)"
proof (cases "ts = []")
  case True
  then show ?thesis using assms(4,6) by simp
next
  case False
  obtain lim lim' where lim: "GetLaneLimits D p (Dec x) = Ret lim"
    "GetLaneLimits D (widen m p) (Dec x) = Ret lim'"
    "sint (LimMaxTxBytes lim) \<le> sint (LimMaxTxBytes lim')" "LimMaxGasLimit lim = LimMaxGasLimit lim'"
    by (rule GetLaneLimits_widen [OF assms(1-5)])
  have g: "update_guards n p lim ts" and p1: "p1 = updated_proposal n p ts"
    using assms(6) lim(1) UpdateProposal_Ret_iff [OF False] by auto
  have sum: "sint (BlockSize (Info p) + sum_list (map Size ts)) =
      sint (BlockSize (Info p)) + total_size ts"
    unfolding add_sint_64 [of "BlockSize (Info p)"] assms(9)
    by (rule sint_word_of_int_64) (use assms(4,7,8) in \<open>auto simp: sane_size_def\<close>)
  from g have "update_guards n (widen m p) lim' ts"
    using lim(3,4) assms(5) by (auto simp: update_guards_def word_sless_alt)
  then have "UpdateProposal D n (Dec x) (widen m p) ts = (widen m p1, Ret ())"
    using lim(2) by (simp add: UpdateProposal_Ret_iff [OF False] p1 widen_updated)
  moreover have "sane_size p1"
    using g assms(4,7) sum by (auto simp: sane_size_def p1 update_guards_def word_sless_alt)
  ultimately show ?thesis by (simp add: p1)
qed
section \<open>Pairs of handlers\<close>

definition valid_space :: "('mp, 'ctx, 'z) lane_core_scheme \<Rightarrow> bool" where
  "valid_space l \<longleftrightarrow> (\<exists>x. GetMaxBlockSpace l = Dec x \<and> 0 \<le> x \<and> x \<le> dec_unit)"

text \<open>
  The contract of two handlers that agree, on the lanes that are \<open>good\<close> for them with the mempool
  states of the proposer (\<open>mp\<close>) and of the verifier (\<open>mp2\<close>): \<open>carries l mp\<close> says which transactions the
  lane may then put into a proposal. What the prepare handler selects fits into the limit without wrap-around,
  and the process handler accepts it in front of any transactions that do not match the lane;
  transactions that do not match are left alone.
\<close>

locale handler_pair =
  fixes H :: "bytes \<Rightarrow> bytes" and enc :: tx_encoder
    and prep :: "('mp, 'ctx) lane_core \<Rightarrow> ('mp, 'ctx) PrepareLaneHandler"
    and proc :: "('mp, 'ctx) lane_core \<Rightarrow> ('mp, 'ctx) ProcessLaneHandler"
    and good :: "('mp, 'ctx) BaseLane \<Rightarrow> 'mp \<Rightarrow> 'mp \<Rightarrow> bool"
    and carries :: "('mp, 'ctx) BaseLane \<Rightarrow> 'mp \<Rightarrow> tx \<Rightarrow> bool"
  assumes space: "good l mp mp2 \<Longrightarrow> valid_space l"
    and encoder: "good l mp mp2 \<Longrightarrow> cfgTxEncoder (cfg l) = Some enc"
    and prepared: "good l mp mp2 \<Longrightarrow> prep (lane_core.truncate l) mp ctx p limit = (mp', ctx', Ret (incl, rmv)) \<Longrightarrow>
      0 \<le> sint (LimMaxTxBytes limit) \<Longrightarrow> sint (LimMaxTxBytes limit) < 2 ^ 62 \<Longrightarrow>
      go_map_list (GetTxInfo H l ctx') incl = Ret infos \<Longrightarrow>
      0 \<le> total_size infos \<and> total_size infos \<le> sint (LimMaxTxBytes limit) \<and>
      sint (sum_list (map Size infos)) = total_size infos \<and>
      (\<forall>t \<in> set incl. carries l mp t) \<and> (incl = [] \<longrightarrow> ctx' = ctx)"
    and accepted: "good l mp mp2 \<Longrightarrow> prep (lane_core.truncate l) mp ctx p limit = (mp', ctx', Ret (incl, rmv)) \<Longrightarrow>
      \<forall>t \<in> set rest. Match l ctx' t = Ret False \<Longrightarrow>
      proc (lane_core.truncate l) mp2 ctx (incl @ rest) = (ctx', Ret (incl, rest))"
    and aside: "good l mp mp2 \<Longrightarrow> \<forall>t \<in> set rest. Match l ctx t = Ret False \<Longrightarrow>
      proc (lane_core.truncate l) mp2 ctx rest = (ctx, Ret ([], rest))"
begin

text \<open>
  The step of a lane that prepared successfully: the same lane accepts its transactions followed
  by any transactions it does not match, and reaches the same, widened proposal.
\<close>

lemma lane_round_trip:
  assumes "dec_laws D" and "sane_size p" and "sint (MaxBlockSize (Info p)) \<le> sint m"
    and "GetLaneLimits D p (GetMaxBlockSpace l) = Ret limit"
    and "good l mp (mps2 (laneRef l))" and "processLaneHandler l = Some proc"
    and "prep (lane_core.truncate l) mp ctx p limit = (mp1, ctx1, Ret (incl, rmv))"
    and "go_map_list (GetTxInfo H l ctx1) incl = Ret infos"
    and "UpdateProposal D (laneName l) (GetMaxBlockSpace l) p infos = (p1, Ret ())"
    and "\<forall>t \<in> set rest. Match l ctx1 t = Ret False"
  shows "BaseLane_ProcessLane D H l next mps2 ctx (widen m p) (incl @ rest) =
      next mps2 ctx1 (widen m p1) rest"
    and "sane_size p1" and "MaxBlockSize (Info p1) = MaxBlockSize (Info p)"
    and "Txs p1 = Txs p @ map TxBytes infos"
    and "go_map_list enc incl = Ret (map TxBytes infos)"
    and "\<forall>t \<in> set incl. carries l mp t"
proof -
  obtain x where x: "GetMaxBlockSpace l = Dec x" "0 \<le> x" "x \<le> dec_unit"
    using space [OF assms(5)] by (auto simp: valid_space_def)
  obtain lim lim' where "GetLaneLimits D p (Dec x) = Ret lim"
    "0 \<le> sint (LimMaxTxBytes lim)" "sint (LimMaxTxBytes lim) \<le> sint (MaxBlockSize (Info p))"
    by (rule GetLaneLimits_widen [OF assms(1) x(2,3) assms(2,3)])
  then have lim: "0 \<le> sint (LimMaxTxBytes limit)" "sint (LimMaxTxBytes limit) \<le> sint (MaxBlockSize (Info p))"
    "sint (LimMaxTxBytes limit) < 2 ^ 62"
    using assms(2,4) x(1) by (auto simp: sane_size_def)
  from prepared [OF assms(5,7) lim(1,3) assms(8)] have sizes: "0 \<le> total_size infos"
    "total_size infos \<le> sint (LimMaxTxBytes limit)" "sint (sum_list (map Size infos)) = total_size infos"
    and carried: "\<forall>t \<in> set incl. carries l mp t" and none: "incl = [] \<Longrightarrow> ctx1 = ctx" by blast+
  from UpdateProposal_widen [OF assms(1) x(2,3) assms(2,3) assms(9) [unfolded x(1)] sizes(1) _ sizes(3)]
    sizes(2) lim(2) x(1)
  have up: "UpdateProposal D (laneName l) (GetMaxBlockSpace l) (widen m p) infos = (widen m p1, Ret ())"
    and sane: "sane_size p1" "MaxBlockSize (Info p1) = MaxBlockSize (Info p)" by simp_all
  have "proc (lane_core.truncate l) (mps2 (laneRef l)) ctx (incl @ rest) = (ctx1, Ret (incl, rest))"
    by (rule accepted [OF assms(5,7,10)])
  moreover have "incl = [] \<Longrightarrow> ctx1 = ctx \<and> infos = []" using none assms(8) by auto
  ultimately show "BaseLane_ProcessLane D H l next mps2 ctx (widen m p) (incl @ rest) =
      next mps2 ctx1 (widen m p1) rest"
    using assms(6,8) up by (auto simp: BaseLane_ProcessLane_def)
  show "sane_size p1" "MaxBlockSize (Info p1) = MaxBlockSize (Info p)" by fact+
  show "Txs p1 = Txs p @ map TxBytes infos"
    using assms(9) by (cases rule: UpdateProposal_cases [of infos D "laneName l" "GetMaxBlockSpace l" p]) auto
  show "go_map_list enc incl = Ret (map TxBytes infos)"
    using infos_of_GetTxInfo(3) [OF assms(8)] encoder [OF assms(5)] by (metis call1.simps(2) ext)
  show "\<forall>t \<in> set incl. carries l mp t" by fact
qed

text \<open>A lane none of whose transactions is present steps aside.\<close>

lemma lane_steps_aside:
  assumes "good l mp (mps (laneRef l))" and "processLaneHandler l = Some proc"
    and "\<forall>t \<in> set txs. Match l ctx t = Ret False"
  shows "BaseLane_ProcessLane D H l next mps ctx p txs = next mps ctx p txs"
proof (cases "txs = []")
  case False
  with aside [OF assms(1,3)] assms(2) show ?thesis by (simp add: BaseLane_ProcessLane_def)
qed (simp add: BaseLane_ProcessLane_def)

end

section \<open>The default handlers are a pair\<close>

text \<open>
  They are good for lanes with a valid block space, a codec with bounded encodings and a mempool
  from which a selection comes in the order of the verifier's comparison.
\<close>

definition ordered_mempool :: "('mp, 'ctx, 'z) lane_core_scheme \<Rightarrow> 'mp \<Rightarrow> 'mp \<Rightarrow> bool" where
  "ordered_mempool l mp mp2 \<longleftrightarrow> (\<forall>m ctx mp' txs c. laneMempool l = Some m \<longrightarrow>
     mpSelect m mp ctx = (mp', Ret txs) \<longrightarrow> sorted_wrt (in_order l mp2 c) txs)"

definition default_good :: "tx_encoder \<Rightarrow> ('mp, 'ctx) BaseLane \<Rightarrow> 'mp \<Rightarrow> 'mp \<Rightarrow> bool" where
  "default_good enc l mp mp2 \<longleftrightarrow>
     valid_space l \<and> cfgTxEncoder (cfg l) = Some enc \<and> sizes_bounded l \<and> ordered_mempool l mp mp2"

lemma in_order_truncate [simp]: "in_order (lane_core.truncate l) = in_order l"
  by (simp add: in_order_def fun_eq_iff)

lemma ordered_mempool_truncate [simp]: "ordered_mempool (lane_core.truncate l) = ordered_mempool l"
  by (simp add: ordered_mempool_def fun_eq_iff)

text \<open>Sizes do not depend on the context in which the infos are read.\<close>

lemma infos_sizes_agree:
  assumes "list_all2 (\<lambda>t i. \<exists>c. GetTxInfo H l c t = Ret i) ts infos"
    and "list_all2 (\<lambda>t i. \<exists>c. GetTxInfo H l c t = Ret i) ts infos'"
  shows "map Size infos = map Size infos'"
  using assms
proof (induction ts arbitrary: infos infos')
  case (Cons t ts)
  then obtain c i is1 c' j js where *: "infos = i # is1" "GetTxInfo H l c t = Ret i"
    "list_all2 (\<lambda>t i. \<exists>c. GetTxInfo H l c t = Ret i) ts is1" "infos' = j # js"
    "GetTxInfo H l c' t = Ret j" "list_all2 (\<lambda>t i. \<exists>c. GetTxInfo H l c t = Ret i) ts js"
    by (auto simp: list_all2_Cons1)
  from Cons.IH [OF *(3,6)] GetTxInfo_agree [OF *(2,5)] show ?case by (simp add: *(1,4))
qed simp

lemma map_list_infos:
  "go_map_list (GetTxInfo H l ctx) ts = Ret infos \<Longrightarrow> list_all2 (\<lambda>t i. \<exists>c. GetTxInfo H l c t = Ret i) ts infos"
  by (auto simp: go_map_list_Ret_iff elim: list_all2_mono)

lemma total_size_cong: "map Size infos = map Size infos' \<Longrightarrow> total_size infos = total_size infos'"
proof -
  assume "map Size infos = map Size infos'"
  then have "map sint (map Size infos) = map sint (map Size infos')" by (rule arg_cong)
  then show ?thesis by (simp add: o_def)
qed

lemma selected_sizes:
  assumes "taken_run C H l p limit ctx 0 0 incl infos0 ctx1" and "sizes_bounded l"
    and "0 \<le> sint (LimMaxTxBytes limit)" and "sint (LimMaxTxBytes limit) < 2 ^ 62"
    and "go_map_list (GetTxInfo H l ctx1) incl = Ret infos"
  shows "0 \<le> total_size infos \<and> total_size infos \<le> sint (LimMaxTxBytes limit) \<and>
    sint (sum_list (map Size infos)) = total_size infos"
proof -
  have "list_all2 (\<lambda>t i. \<exists>c. GetTxInfo H l c t = Ret i) incl infos0"
    using taken_run_infos [OF assms(1)] by (auto elim: list_all2_mono)
  from total_size_cong [OF infos_sizes_agree [OF map_list_infos [OF assms(5)] this]]
  have eq: "total_size infos = total_size infos0" .
  have bound: "\<forall>i \<in> set infos0. length (TxBytes i) < 2 ^ 63"
    by (rule taken_run_bounded [OF assms(1,2)])
  from taken_run_size [OF assms(1,4) _ _ bound] assms(3)
  have sz: "total_size infos0 \<le> sint (LimMaxTxBytes limit)" "\<forall>i \<in> set infos0. 0 \<le> sint (Size i)"
    by simp_all
  then have "0 \<le> total_size infos0" by (auto intro: sum_list_nonneg_map)
  with sz(1) eq have *: "0 \<le> total_size infos" "total_size infos \<le> sint (LimMaxTxBytes limit)"
    by simp_all
  then have "sint (sum_list (map Size infos)) = total_size infos"
    unfolding sum_list_sint_64 map_map o_def
    by (intro sint_word_of_int_64) (use assms(4) in auto)
  with * show ?thesis by simp
qed

text \<open>What a lane with the default handlers may select: what matches and is in its mempool.\<close>

definition supplies :: "('mp, 'ctx, 'z) lane_core_scheme \<Rightarrow> 'mp \<Rightarrow> tx \<Rightarrow> bool" where
  "supplies l mp t \<longleftrightarrow> (\<exists>c. Match l c t = Ret True) \<and>
     (\<exists>m c mp' txs. laneMempool l = Some m \<and> mpSelect m mp c = (mp', Ret txs) \<and> t \<in> set txs)"

interpretation default_pair: handler_pair H enc "Default_PrepareLaneHandler C H"
  "Default_ProcessLaneHandler C" "default_good enc" supplies for C H enc
proof (unfold_locales)
  fix l :: "('mp, 'ctx) BaseLane" and C H enc mp ctx p limit mp' ctx' incl rmv infos rest mp2
  assume l: "default_good enc l mp mp2"
  then show "valid_space l" "cfgTxEncoder (cfg l) = Some enc" by (simp_all add: default_good_def)
  {
    assume "\<forall>t \<in> set rest. Match l ctx t = Ret False"
    then show "Default_ProcessLaneHandler C (lane_core.truncate l) mp2 ctx rest = (ctx, Ret ([], rest))"
      by (auto simp: Default_ProcessLaneHandler_iff)
  }
  assume pre: "Default_PrepareLaneHandler C H (lane_core.truncate l) mp ctx p limit =
      (mp', ctx', Ret (incl, rmv))"
  {
    assume "\<forall>t \<in> set rest. Match l ctx' t = Ret False"
    then show "Default_ProcessLaneHandler C (lane_core.truncate l) mp2 ctx (incl @ rest) =
        (ctx', Ret (incl, rest))"
      using default_prepared_is_processed [OF pre, of mp2 rest] l
      by (auto simp: default_good_def ordered_mempool_def)
  }
  from Default_PrepareLaneHandler_run [OF pre] obtain m txs infos0 where
    run: "taken_run C H (lane_core.truncate l) p limit ctx 0 0 incl infos0 ctx'"
    and sel: "laneMempool (lane_core.truncate l) = Some m" "mpSelect m mp ctx = (mp', Ret txs)" "subseq incl txs"
    by metis
  assume lim: "0 \<le> sint (LimMaxTxBytes limit)" "sint (LimMaxTxBytes limit) < 2 ^ 62"
    and infos: "go_map_list (GetTxInfo H l ctx') incl = Ret infos"
  have "\<forall>t \<in> set incl. \<exists>c. Match l c t = Ret True"
    using taken_run_infos [OF run] by (fastforce simp: list_all2_conv_all_nth in_set_conv_nth)
  moreover have "set incl \<subseteq> set txs" using sel(3) by (auto elim: list_emb_set)
  ultimately have "\<forall>t \<in> set incl. supplies l mp t"
    using sel(1,2) unfolding supplies_def truncate_simps by blast
  moreover have "incl = [] \<longrightarrow> ctx' = ctx" using run by auto
  moreover have "sizes_bounded l" using l by (simp add: default_good_def)
  ultimately show "0 \<le> total_size infos \<and> total_size infos \<le> sint (LimMaxTxBytes limit) \<and>
      sint (sum_list (map Size infos)) = total_size infos \<and> (\<forall>t \<in> set incl. supplies l mp t) \<and>
      (incl = [] \<longrightarrow> ctx' = ctx)"
    using selected_sizes [OF run _ lim, of infos] infos by simp
qed

section \<open>The handlers of the MEV lane are a pair\<close>

text \<open>
  They are good for lanes with a valid block space and an encoder that writes fewer than \<open>2^31\<close> bytes
  and bundles of fewer than \<open>2^31\<close> transactions, the limits of the length of a protobuf field.
\<close>

definition bid_encoder :: "'ctx Factory \<Rightarrow> tx_encoder \<Rightarrow> bool" where
  "bid_encoder F enc \<longleftrightarrow> (\<forall>t bz. enc t = Ret bz \<longrightarrow> length bz < 2 ^ 31 \<and>
     (\<forall>b. GetAuctionBidInfo F t = Ret (Some b) \<longrightarrow> length (Transactions b) < 2 ^ 31))"

definition mev_good ::
    "'ctx ctx_ops \<Rightarrow> 'ctx Factory \<Rightarrow> tx_encoder \<Rightarrow> ('mp, 'ctx) BaseLane \<Rightarrow> bool" where
  "mev_good C F enc l \<longleftrightarrow> ctx_laws C \<and>
     valid_space l \<and> cfgTxEncoder (cfg l) = Some enc \<and> bid_encoder F enc"

lemma small_sizes:
  assumes "\<forall>i \<in> set infos. Size i = of_nat (length (TxBytes i)) \<and> length (TxBytes i) < 2 ^ 31"
    and "length infos \<le> 2 ^ 31"
  shows "0 \<le> total_size infos" and "sint (sum_list (map Size infos)) = total_size infos"
proof -
  have sz: "sint (Size i) = int (length (TxBytes i))" "length (TxBytes i) < 2 ^ 31" if "i \<in> set infos" for i
    using assms(1) that sint_of_nat_64 [of "length (TxBytes i)"] by fastforce+
  have "sum_list (map (\<lambda>i. sint (Size i)) js) \<le> int (length js) * 2 ^ 31" if "set js \<subseteq> set infos" for js
    using that
  proof (induction js)
    case (Cons j js)
    have "sint (Size j) \<le> 2 ^ 31" using sz [of j] Cons.prems by auto
    with Cons show ?case by (simp add: algebra_simps)
  qed simp
  then have "total_size infos \<le> int (length infos) * 2 ^ 31" by blast
  also have "\<dots> \<le> 2 ^ 31 * 2 ^ 31"
  proof (rule mult_right_mono)
    show "int (length infos) \<le> 2 ^ 31" using assms(2) by (metis of_nat_le_iff of_nat_numeral of_nat_power)
  qed simp
  finally have le: "total_size infos \<le> 2 ^ 62" by simp
  show nn: "0 \<le> total_size infos" using sz(1) by (intro sum_list_nonneg_map) simp
  show "sint (sum_list (map Size infos)) = total_size infos"
    unfolding sum_list_sint_64 map_map o_def by (rule sint_word_of_int_64) (use nn le in auto)
qed

interpretation mev_pair: handler_pair H enc "Mev_PrepareLaneHandler C H F"
  "Mev_ProcessLaneHandler C F" "\<lambda>l _ _. mev_good C F enc l" "\<lambda>_ _ _. True" for C H F enc
proof (unfold_locales)
  fix l :: "('mp, 'ctx) BaseLane" and C H F enc mp ctx p limit mp' ctx' incl rmv infos rest mp2
  assume good: "mev_good C F enc l"
  note l = good [unfolded mev_good_def]
  show "valid_space l" "cfgTxEncoder (cfg l) = Some enc" using l by simp_all
  {
    assume "\<forall>t \<in> set rest. Match l ctx t = Ret False"
    then show "Mev_ProcessLaneHandler C F (lane_core.truncate l) mp2 ctx rest = (ctx, Ret ([], rest))"
      by (auto simp: Mev_ProcessLaneHandler_iff)
  }
  assume pre: "Mev_PrepareLaneHandler C H F (lane_core.truncate l) mp ctx p limit =
      (mp', ctx', Ret (incl, rmv))"
  {
    assume "\<forall>t \<in> set rest. Match l ctx' t = Ret False"
    then show "Mev_ProcessLaneHandler C F (lane_core.truncate l) mp2 ctx (incl @ rest) =
        (ctx', Ret (incl, rest))"
      using mev_prepared_is_processed [OF _ pre, of rest mp2] l by auto
  }
  assume lim: "0 \<le> sint (LimMaxTxBytes limit)"
    and infos: "go_map_list (GetTxInfo H l ctx') incl = Ret infos"
  have "0 \<le> total_size infos \<and> total_size infos \<le> sint (LimMaxTxBytes limit) \<and>
      sint (sum_list (map Size infos)) = total_size infos \<and> (incl = [] \<longrightarrow> ctx' = ctx)"
    using pre
  proof (cases rule: Mev_PrepareLaneHandler_cases)
    case none
    then show ?thesis using infos lim by simp
  next
    case (bid bid bun)
    then have "VerifyBidBasic H F (lane_core.truncate l) (CacheContext C ctx) bid p limit = Ret bun"
      by (simp add: bid_selectable_def)
    then obtain b infos0 where b: "GetAuctionBidInfo F bid = Ret (Some b)"
      "go_map_list (WrapBundleTransaction F) (Transactions b) = Ret bun"
      "go_map_list (GetTxInfo H l (CacheContext C ctx)) (bid # bun) = Ret infos0"
      "\<not> LimMaxTxBytes limit <s sum_list (map Size infos0)"
      by (rule VerifyBidBasic_Ret, unfold truncate_simps, blast)
    have agree: "map Size infos = map Size infos0"
      using infos_sizes_agree [OF map_list_infos [OF infos]] map_list_infos [OF b(3)] bid(1) by blast
    obtain i where "GetTxInfo H l (CacheContext C ctx) bid = Ret i"
      using b(3) by (auto simp: go_simps)
    from GetTxInfo_RetD(1) [OF this] have "length bun < 2 ^ 31"
      using go_map_list_length [OF b(2)] b(1) l by (fastforce simp: bid_encoder_def)
    moreover have "length infos0 = Suc (length bun)" using go_map_list_length [OF b(3)] by simp
    moreover have "\<forall>i \<in> set infos0. Size i = of_nat (length (TxBytes i)) \<and> length (TxBytes i) < 2 ^ 31"
    proof
      fix i assume "i \<in> set infos0"
      then obtain t where "GetTxInfo H l (CacheContext C ctx) t = Ret i"
        using go_map_list_in [OF b(3)] by blast
      from GetTxInfo_RetD(1,3) [OF this] l show "Size i = of_nat (length (TxBytes i)) \<and> length (TxBytes i) < 2 ^ 31"
        by (auto simp: bid_encoder_def)
    qed
    ultimately have "0 \<le> total_size infos0" "sint (sum_list (map Size infos0)) = total_size infos0"
      using small_sizes [of infos0] by simp_all
    then show ?thesis
      using b(4) bid(1) total_size_cong [OF agree] agree by (simp add: word_sless_alt)
  qed
  then show "0 \<le> total_size infos \<and> total_size infos \<le> sint (LimMaxTxBytes limit) \<and>
      sint (sum_list (map Size infos)) = total_size infos \<and> (\<forall>t \<in> set incl. True) \<and>
      (incl = [] \<longrightarrow> ctx' = ctx)" by simp
qed

section \<open>The chain\<close>

text \<open>\<open>K l\<close> says what the lane \<open>l\<close> carries; no earlier lane matches it.\<close>

definition disjoint_lanes :: "(('mp, 'ctx) BaseLane \<Rightarrow> tx \<Rightarrow> bool) \<Rightarrow> ('mp, 'ctx) BaseLane list \<Rightarrow> bool" where
  "disjoint_lanes K ls \<longleftrightarrow> sorted_wrt (\<lambda>l k. \<forall>t c. K k t \<longrightarrow> Match l c t = Ret False) ls"

text \<open>A lane whose handlers are a pair that is good for it, with the two stores of mempools.\<close>

definition paired_lane ::
    "(bytes \<Rightarrow> bytes) \<Rightarrow> tx_encoder \<Rightarrow> (('mp, 'ctx) BaseLane \<Rightarrow> tx \<Rightarrow> bool) \<Rightarrow> 'mp store \<Rightarrow> 'mp store \<Rightarrow>
     ('mp, 'ctx) BaseLane \<Rightarrow> bool" where
  "paired_lane H enc K mps mps2 l \<longleftrightarrow> (\<exists>prep proc good carries. handler_pair H enc prep proc good carries \<and>
     prepareLaneHandler l = Some prep \<and> processLaneHandler l = Some proc \<and>
     good l (mps (laneRef l)) (mps2 (laneRef l)) \<and> (\<forall>t. carries l (mps (laneRef l)) t \<longrightarrow> K l t))"

lemma paired_lane_update:
  "laneRef l \<noteq> ref \<Longrightarrow> paired_lane H enc K (mps(ref := mp)) mps2 l \<longleftrightarrow> paired_lane H enc K mps mps2 l"
  by (simp add: paired_lane_def)

lemma chain_round_trip:
  assumes "dec_laws D" and "ctx_laws C" and "\<forall>l \<in> set ls. paired_lane H enc K mps mps2 l"
    and "distinct (map laneRef ls)" and "disjoint_lanes K ls" and "sane_size p" and "sint (MaxBlockSize (Info p)) \<le> sint m"
    and "prepare_chain D C (lane_chain D H ls) mps ctx p = (mps', ctx', sh, Ret q)"
  shows "\<exists>txs bzs. go_map_list enc txs = Ret bzs \<and> Txs q = Txs p @ bzs \<and>
    (\<forall>t \<in> set txs. \<exists>l \<in> set ls. K l t) \<and>
    process_chain D (lane_chain D H ls) mps2 ctx (widen m p) txs = (ctx', Ret (widen m q))"
  using assms(3-)
proof (induction ls arbitrary: mps ctx p)
  case Nil
  then have "q = p" "ctx' = ctx"
    using assms(2) by (auto simp: Terminator_methods_def Terminator_PrepareLane_def ctx_laws_def)
  then show ?case
    by (intro exI [of _ "[]"]) (auto simp: Terminator_methods_def Terminator_ProcessLane_def)
next
  case (Cons l ls)
  have ls: "disjoint_lanes K ls" "paired_lane H enc K mps mps2 l" "distinct (map laneRef ls)"
    using Cons.prems(1-3) by (auto simp: disjoint_lanes_def)
  have rest: "\<forall>k \<in> set ls. paired_lane H enc K (mps(laneRef l := mp)) mps2 k" for mp
    using Cons.prems(1,2) paired_lane_update by (metis distinct.simps(2) image_eqI list.set_intros(2) list.simps(9) set_map)
  have other: "Match l c t = Ret False" if "\<exists>k \<in> set ls. K k t" for t c
    using that Cons.prems(3) by (auto simp: disjoint_lanes_def)
  have cache: "CacheContext C ctx = ctx" "WriteCache C ctx c = c" for c
    using assms(2) by (simp_all add: ctx_laws_def)
  from ls(2) obtain prep proc good carries where pair: "handler_pair H enc prep proc good carries"
    and l: "good l (mps (laneRef l)) (mps2 (laneRef l))" "processLaneHandler l = Some proc" "prepareLaneHandler l = Some prep"
    and carries: "\<And>t. carries l (mps (laneRef l)) t \<Longrightarrow> K l t" unfolding paired_lane_def by blast
  let ?next = "prepare_chain D C (lane_chain D H ls)"
  show ?case
  proof (cases rule: PrepareLane_cases [of l mps p D H ?next ctx])
    case fail
    then obtain mp ctx1 r where failed: "BaseLane_PrepareLane D H l ?next mps ctx p =
        (mps(laneRef l := mp), ctx1, maps_of p, r)" "\<forall>q. r \<noteq> Ret q" by (auto simp: lane_failed_def)
    then have "prepare_chain D C (lane_chain D H (l # ls)) mps ctx p = ?next (mps(laneRef l := mp)) ctx p"
      using prepare_chain_skip [OF assms(2), of "lane_chain D H ls" D "LaneOf (base_lane_methods D H l)" mps ctx p]
        cache by (simp add: base_lane_methods_def)
    with Cons.prems(6) have "?next (mps(laneRef l := mp)) ctx p = (mps', ctx', sh, Ret q)" by simp
    from Cons.IH [OF rest ls(3,1) Cons.prems(4,5) this] obtain txs bzs where
      *: "go_map_list enc txs = Ret bzs" "Txs q = Txs p @ bzs" "\<forall>t \<in> set txs. \<exists>l \<in> set ls. K l t"
      "process_chain D (lane_chain D H ls) mps2 ctx (widen m p) txs = (ctx', Ret (widen m q))" by blast
    have "BaseLane_ProcessLane D H l (process_chain D (lane_chain D H ls)) mps2 ctx (widen m p) txs =
        (ctx', Ret (widen m q))"
      using handler_pair.lane_steps_aside [OF pair, of l "mps (laneRef l)" mps2 txs ctx D] l(1,2) *(3,4) other by simp
    then show ?thesis using * by (auto simp: base_lane_methods_def)
  next
    case (go limit handler mp1 ctx1 incl rmv infos p1)
    have "handler = prep" using go(2) l(3) by simp
    note trip = handler_pair.lane_round_trip [where ?mps2.0 = mps2, OF pair assms(1) Cons.prems(4,5) go(1) l(1,2)
        go(3) [unfolded this] go(4,5)]
    let ?mps = "mps(laneRef l := fst (remove_invalid l rmv mp1))"
    obtain mps1 c1 sh1 q1 where run: "?next ?mps ctx1 p1 = (mps1, c1, sh1, Ret q1)"
      using prepare_chain_Ret [of "lane_chain D H ls" D C ?mps ctx1 p1] by auto
    with go(6) Cons.prems(6) cache have eq: "q1 = q" "c1 = ctx'" "mps1 = mps'" "sh1 = sh"
      by (auto simp: base_lane_methods_def)
    have "sint (MaxBlockSize (Info p1)) \<le> sint m"
      using trip(3) [of "[]"] Cons.prems(5) by simp
    from Cons.IH [OF rest ls(3,1) trip(2) [of "[]", simplified] this run [unfolded eq]] obtain txs bzs where
      *: "go_map_list enc txs = Ret bzs" "Txs q = Txs p1 @ bzs" "\<forall>t \<in> set txs. \<exists>l \<in> set ls. K l t"
      "process_chain D (lane_chain D H ls) mps2 ctx1 (widen m p1) txs = (ctx', Ret (widen m q))" by auto
    have "go_map_list enc (incl @ txs) = Ret (map TxBytes infos @ bzs)"
      using *(1) trip(5) [of "[]"] by (simp add: go_map_list_append)
    moreover have "Txs q = Txs p @ map TxBytes infos @ bzs" using *(2) trip(4) [of "[]"] by simp
    moreover have "\<forall>t \<in> set (incl @ txs). \<exists>k \<in> set (l # ls). K k t"
      using *(3) trip(6) [of "[]"] carries by auto
    moreover have "BaseLane_ProcessLane D H l (process_chain D (lane_chain D H ls)) mps2 ctx (widen m p)
        (incl @ txs) = (ctx', Ret (widen m q))"
      using trip(1) [of txs] *(3,4) other by simp
    ultimately show ?thesis
      by (intro exI [of _ "incl @ txs"] exI [of _ "map TxBytes infos @ bzs"])
         (simp add: base_lane_methods_def)
  qed
qed

section \<open>The handlers\<close>

lemma encodings_decode:
  assumes "codec_faithful enc dec" and "go_map_list enc txs = Ret bzs"
  shows "GetDecodedTxs dec bzs = Ret txs"
proof -
  have "GetEncodedTxs enc txs = Ret bzs"
    using assms(2) by (simp add: GetEncodedTxs_def go_map_list_Ret_iff)
  with assms(1) show ?thesis by (rule encoded_then_decoded)
qed

lemma PrepareProposal_run:
  assumes "\<not> prepHeight req \<le>s 1"
    and "PrepareProposalHandler D C registry mps ctx req = (mps', ctx', txs, None)"
  obtains maxBytes maxGas sh q where "registry \<noteq> []" "GetBlockLimits C ctx = Ret (maxBytes, maxGas)"
    "prepare_chain D C (terminated registry) mps ctx (NewProposal (prepMaxTxBytes req) maxGas) =
      (mps', ctx', sh, Ret q)" "txs = Txs q"
  using assms
  by (auto simp: PrepareProposalHandler_def PrepareProposal_body_def ChainPrepareLanes_def go_simps
      split: go.splits prod.splits if_splits)

text \<open>
  The lanes of an application: possibly a MEV lane \<open>ms\<close>, which comes first, then lanes \<open>ls\<close> with the
  default handlers; the lanes are distinct objects, and no lane matches what a later lane matches and
  holds in its mempool. The stores are those of the proposer and of the verifier.
\<close>

definition app_lanes ::
    "'ctx ctx_ops \<Rightarrow> (bytes \<Rightarrow> bytes) \<Rightarrow> 'ctx Factory \<Rightarrow> tx_encoder \<Rightarrow> 'mp store \<Rightarrow> 'mp store \<Rightarrow>
     ('mp, 'ctx) BaseLane list \<Rightarrow> ('mp, 'ctx) BaseLane list \<Rightarrow> bool" where
  "app_lanes C H F enc mps mps2 ms ls \<longleftrightarrow> length ms \<le> 1 \<and> distinct (map laneRef (ms @ ls)) \<and>
     (\<forall>l \<in> set ms. prepareLaneHandler l = Some (Mev_PrepareLaneHandler C H F) \<and>
        processLaneHandler l = Some (Mev_ProcessLaneHandler C F) \<and> mev_good C F enc l) \<and>
     (\<forall>l \<in> set ls. prepareLaneHandler l = Some (Default_PrepareLaneHandler C H) \<and>
        processLaneHandler l = Some (Default_ProcessLaneHandler C) \<and>
        default_good enc l (mps (laneRef l)) (mps2 (laneRef l))) \<and>
     sorted_wrt (\<lambda>l k. \<forall>t c. supplies k (mps (laneRef k)) t \<longrightarrow> Match l c t = Ret False) (ms @ ls)"

lemma app_lanes_chain:
  assumes "app_lanes C H F enc mps mps2 ms ls"
  obtains K where "\<forall>l \<in> set (ms @ ls). paired_lane H enc K mps mps2 l" "disjoint_lanes K (ms @ ls)"
proof
  let ?K = "\<lambda>l t. l \<in> set ms \<or> supplies l (mps (laneRef l)) t"
  have "paired_lane H enc ?K mps mps2 l" if "l \<in> set ls" for l
    using that assms default_pair.handler_pair_axioms [of H enc C] unfolding paired_lane_def app_lanes_def
    by blast
  moreover have "paired_lane H enc ?K mps mps2 l" if "l \<in> set ms" for l
    using that assms mev_pair.handler_pair_axioms [of H enc C F] unfolding paired_lane_def app_lanes_def
    by blast
  ultimately show "\<forall>l \<in> set (ms @ ls). paired_lane H enc ?K mps mps2 l" by auto
  have apart: "set ms \<inter> set ls = {}"
    using assms by (auto simp: app_lanes_def)
  have "sorted_wrt (\<lambda>l k. \<forall>t c. supplies k (mps (laneRef k)) t \<longrightarrow> Match l c t = Ret False) (ms @ ls)"
    using assms by (simp add: app_lanes_def)
  moreover have "ms = [] \<or> (\<exists>m. ms = [m])"
    using assms by (cases ms) (auto simp: app_lanes_def)
  ultimately show "disjoint_lanes ?K (ms @ ls)"
  proof (elim disjE exE)
    assume "ms = []" and "sorted_wrt (\<lambda>l k. \<forall>t c. supplies k (mps (laneRef k)) t \<longrightarrow> Match l c t = Ret False) (ms @ ls)"
    then show ?thesis by (simp add: disjoint_lanes_def)
  next
    fix m assume m: "ms = [m]"
      and dis: "sorted_wrt (\<lambda>l k. \<forall>t c. supplies k (mps (laneRef k)) t \<longrightarrow> Match l c t = Ret False) (ms @ ls)"
    then have first: "\<And>k t c. k \<in> set ls \<Longrightarrow> supplies k (mps (laneRef k)) t \<Longrightarrow> Match m c t = Ret False"
      and tail: "sorted_wrt (\<lambda>l k. \<forall>t c. supplies k (mps (laneRef k)) t \<longrightarrow> Match l c t = Ret False) ls" by simp_all
    have "sorted_wrt (\<lambda>l k. \<forall>t c. ?K k t \<longrightarrow> Match l c t = Ret False) ls"
    proof (rule sorted_wrt_mono_rel [OF _ tail])
      fix l k assume "k \<in> set ls" and *: "\<forall>t c. supplies k (mps (laneRef k)) t \<longrightarrow> Match l c t = Ret False"
      with apart have "k \<notin> set ms" by blast
      with * show "\<forall>t c. ?K k t \<longrightarrow> Match l c t = Ret False" by blast
    qed
    moreover have "\<forall>t c. ?K k t \<longrightarrow> Match m c t = Ret False" if "k \<in> set ls" for k
      using first [OF that] apart that by blast
    ultimately show ?thesis by (simp add: disjoint_lanes_def m)
  qed
qed

text \<open>Lanes with handlers that agree and match none of each other's transactions accept what they prepared.\<close>

lemma paired_lanes_accept:
  assumes "dec_laws D" and "ctx_laws C" and "codec_faithful enc dec"
    and K: "\<forall>l \<in> set ls. paired_lane H enc K mps mps2 l" "disjoint_lanes K ls" and refs: "distinct (map laneRef ls)"
    and "\<not> prepHeight req \<le>s 1" and "\<not> procHeight req' \<le>s 1" and "procTxs req' = txs"
    and "PrepareProposalHandler D C (map (\<lambda>l. LaneOf (base_lane_methods D H l)) ls) mps ctx req =
      (mps', ctx', txs, None)"
    and "ConsBlock C ctx = Some bp" and "0 \<le> sint (prepMaxTxBytes req)"
    and "sint (prepMaxTxBytes req) < 2 ^ 62" and "sint (prepMaxTxBytes req) \<le> sint (ParamMaxBytes bp)"
  shows "ProcessProposalHandler D C dec noop True (map (\<lambda>l. LaneOf (base_lane_methods D H l)) ls)
    mps2 ctx req' = (ctx', ACCEPT, None)"
proof -
  let ?ls = ls let ?reg = "map (\<lambda>l. LaneOf (base_lane_methods D H l)) ?ls"
  from PrepareProposal_run [OF assms(7,10)] obtain maxBytes maxGas sh q where run: "?reg \<noteq> []"
    "GetBlockLimits C ctx = Ret (maxBytes, maxGas)"
    "prepare_chain D C (terminated ?reg) mps ctx (NewProposal (prepMaxTxBytes req) maxGas) =
      (mps', ctx', sh, Ret q)" "txs = Txs q" .
  then have chain: "terminated ?reg = lane_chain D H ?ls"
    by (intro terminated_base_lanes) auto
  let ?p = "NewProposal (prepMaxTxBytes req) maxGas" and ?m = "ParamMaxBytes bp"
  have "sane_size ?p" "sint (MaxBlockSize (Info ?p)) \<le> sint ?m"
    using assms(12-14) by (simp_all add: sane_size_def NewProposal_def)
  from chain_round_trip [OF assms(1,2) K(1) refs K(2) \<open>sane_size ?p\<close>
      \<open>sint (MaxBlockSize (Info ?p)) \<le> sint ?m\<close> run(3) [unfolded chain]]
  obtain ts bzs where *: "go_map_list enc ts = Ret bzs" "Txs q = Txs ?p @ bzs"
    "process_chain D (lane_chain D H ?ls) mps2 ctx (widen ?m ?p) ts = (ctx', Ret (widen ?m q))" by blast
  have "bzs = txs" using *(2) run(4) by (simp add: NewProposal_def)
  then have dec: "GetDecodedTxs dec (procTxs req') = Ret ts"
    using encodings_decode [OF assms(3) *(1)] assms(9) by simp
  have "NewProposalWithContext C ctx = Ret (widen ?m ?p)"
    using run(2) assms(11)
    by (auto simp: NewProposalWithContext_def widen_new GetBlockLimits_def Let_def)
  then show ?thesis
    using run(1) assms(8) dec *(3) chain
    by (simp add: ProcessProposalHandler_def ChainProcessLanes_def del: map_append)
qed

text \<open>C1: An honest proposal is accepted. Take a MEV lane in front of lanes with the default handlers
  (or only the latter), where no lane matches what a later one holds, and mempools whose selections
  are in the order of their comparison: whatever proposal \<open>PrepareProposal\<close> returns from a state
  (lanes that fail, invalid transactions, bids and full blocks included), \<open>ProcessProposal\<close> accepts it
  from the same state, whatever else the verifier's mempools hold and for any byte limit at least that
  of the request, and ends in the same state.\<close>

theorem prepared_proposal_is_accepted:
  assumes "dec_laws D" and "ctx_laws C" and "codec_faithful enc dec" and "app_lanes C H F enc mps mps2 ms ls"
    and "\<not> prepHeight req \<le>s 1" and "\<not> procHeight req' \<le>s 1" and "procTxs req' = txs"
    and "PrepareProposalHandler D C (map (\<lambda>l. LaneOf (base_lane_methods D H l)) (ms @ ls)) mps ctx req =
      (mps', ctx', txs, None)"
    and "ConsBlock C ctx = Some bp" and "0 \<le> sint (prepMaxTxBytes req)"
    and "sint (prepMaxTxBytes req) < 2 ^ 62" and "sint (prepMaxTxBytes req) \<le> sint (ParamMaxBytes bp)"
  shows "ProcessProposalHandler D C dec noop True (map (\<lambda>l. LaneOf (base_lane_methods D H l)) (ms @ ls))
    mps2 ctx req' = (ctx', ACCEPT, None)"
proof -
  obtain K where "\<forall>l \<in> set (ms @ ls). paired_lane H enc K mps mps2 l" "disjoint_lanes K (ms @ ls)"
    using app_lanes_chain [OF assms(4)] .
  moreover have "distinct (map laneRef (ms @ ls))" using assms(4) by (simp add: app_lanes_def)
  ultimately show ?thesis by (rule paired_lanes_accept [OF assms(1-3) _ _ _ assms(5-12)])
qed

text \<open>A block with a bid and its bundle and a free transaction.\<close>

definition mev_store :: "tx list store" where
  "mev_store = sample_store(2 := [sample_tx [7]])"

abbreviation mev_registry :: "(tx list, value_context) registry" where
  "mev_registry \<equiv> map (\<lambda>l. LaneOf (base_lane_methods scaled_dec (\<lambda>bz. bz) l))
     ([sample_mev_lane 2 (Dec 0)] @ [hd sample_lanes])"

lemma sample_app_lanes:
  "app_lanes value_ctx (\<lambda>bz. bz) sample_factory sample_encode mps mps2
     [sample_mev_lane 2 (Dec 0)] [hd sample_lanes]"
proof -
  have "mev_good value_ctx sample_factory sample_encode (sample_mev_lane 2 (Dec 0))"
    by (auto simp: mev_good_def bid_encoder_def value_ctx_laws valid_space_def sample_encode_def sample_bid_def split: if_splits)
  moreover have "default_good sample_encode (hd sample_lanes) mp mp2" for mp mp2
    by (auto simp: sample_lanes_def default_good_def valid_space_def sample_sizes_bounded
        ordered_mempool_def in_order_def sorted_wrt_iff_nth_less)
  ultimately show ?thesis
    by (auto simp: app_lanes_def sample_lanes_def DefaultMatchHandler_def supplies_def)
qed

lemma mev_PrepareProposal:
  "PrepareProposalHandler scaled_dec value_ctx mev_registry mev_store sample_ctx sample_prepare =
     (mev_store, sample_ctx, [[7], [1], [2], [9]], None)"
  by (simp add: mev_store_def sample_eval PrepareProposalHandler_def PrepareProposal_body_def ChainPrepareLanes_def
      BaseLane_PrepareLane_def Default_PrepareLaneHandler_def maps_of_def with_maps_def
      remove_invalid_def Terminator_PrepareLane_def Mev_PrepareLaneHandler_def VerifyBidBasic_def VerifyBidTx_def)
     (simp add: fun_eq_iff)

theorem prepared_proposal_is_accepted_witness:
  "ProcessProposalHandler scaled_dec value_ctx sample_decode (\<lambda>ctx req. (ctx, REJECT, None)) True
     mev_registry (\<lambda>_. []) sample_ctx \<lparr> procHeight = 5, procTxs = [[7], [1], [2], [9]] \<rparr> =
     (sample_ctx, ACCEPT, None)"
proof (rule prepared_proposal_is_accepted [OF scaled_dec_laws value_ctx_laws sample_codec_faithful
        sample_app_lanes _ _ _ mev_PrepareProposal])
  show "ConsBlock value_ctx sample_ctx = Some \<lparr> ParamMaxBytes = 100, ParamMaxGas = 100 \<rparr>"
    by (simp add: value_ctx_def sample_ctx_def)
qed (simp_all add: sample_prepare_def word_sle_eq)

end
