(* ===== verification/Priority_Mempool.thy ===== *)
theory Priority_Mempool
  imports Base_Lane
begin

text \<open>
  The priority nonce mempool (\<open>block/base/priority_nonce.go\<close>), the base of the lane mempool
  (\<open>block/base/mempool.go\<close>). Transactions are identified by sender and nonce. One skip list orders
  all of them by priority, one skip list per sender orders that sender's by nonce, and \<open>scores\<close>
  remembers under which priority and weight a transaction stands in the first. The skip list is
  third-party code and a parameter with its documented laws; this theory holds the data and the
  operations, \<open>Priority_Mempool_Lemmas\<close> and \<open>Mempool_Reach\<close> what is shown of them.
\<close>

section \<open>Skip lists\<close>

text \<open>
  The meta data of a transaction. \<open>senderElement\<close> points into the index of the sender, whose
  elements are told apart by their nonce: the pointer is that nonce.
\<close>

record 'c txMeta =
  nonce :: u64
  priority :: 'c
  sender :: string
  weight :: 'c
  senderElement :: "u64 option"

type_synonym 'c elem = "'c txMeta \<times> tx"

text \<open>
  What the code uses of the skip list package, for keys \<open>'c txMeta\<close> and transactions: a list made
  with \<open>LessThanFunc(f)\<close>, its comparison function, its elements from \<open>Front()\<close> on by \<open>Next()\<close>, and
  the package's comparisons of strings and integers.
\<close>

record ('sl, 'c) skiplist_ops =
  slNew :: "('c txMeta \<Rightarrow> 'c txMeta \<Rightarrow> int) \<Rightarrow> 'sl"
  slCompare :: "'sl \<Rightarrow> 'c txMeta \<Rightarrow> 'c txMeta \<Rightarrow> int"
  slElems :: "'sl \<Rightarrow> 'c elem list"
  slLen :: "'sl \<Rightarrow> nat"
  slGet :: "'sl \<Rightarrow> 'c txMeta \<Rightarrow> tx option"
  slSet :: "'sl \<Rightarrow> 'c txMeta \<Rightarrow> tx \<Rightarrow> 'sl"
  slRemove :: "'sl \<Rightarrow> 'c txMeta \<Rightarrow> 'sl"
  slString :: "string \<Rightarrow> string \<Rightarrow> int"
  slUint64 :: "u64 \<Rightarrow> u64 \<Rightarrow> int"
  slInt64 :: "i64 \<Rightarrow> i64 \<Rightarrow> int"

text \<open>A comparison that orders its values totally, up to equality in the order.\<close>

definition ordering_cmp :: "('a \<Rightarrow> 'a \<Rightarrow> int) \<Rightarrow> bool" where
  "ordering_cmp f \<longleftrightarrow> (\<forall>a. f a a = 0) \<and> (\<forall>a b. f a b > 0 \<longleftrightarrow> f b a < 0) \<and>
     (\<forall>a b c. f a b \<le> 0 \<and> f b c \<le> 0 \<longrightarrow> f a c \<le> 0)"

definition descending :: "('c txMeta \<Rightarrow> 'c txMeta \<Rightarrow> int) \<Rightarrow> 'c elem list \<Rightarrow> bool" where
  "descending f xs \<longleftrightarrow> sorted_wrt (\<lambda>x y. f (fst x) (fst y) > 0) xs"

text \<open>
  The documented behaviour of \<open>Set\<close> on the elements: a new key is inserted in its place; if the key
  exists, the value of its element is updated. \<open>Remove\<close> removes the element with an equal key.
\<close>

fun set_elem :: "('c txMeta \<Rightarrow> 'c txMeta \<Rightarrow> int) \<Rightarrow> 'c txMeta \<Rightarrow> tx \<Rightarrow> 'c elem list \<Rightarrow> 'c elem list" where
  "set_elem f k t [] = [(k, t)]"
| "set_elem f k t ((k', t') # xs) =
     (if f k k' = 0 then (k', t) # xs
      else if f k k' > 0 then (k, t) # (k', t') # xs
      else (k', t') # set_elem f k t xs)"

definition remove_elem :: "('c txMeta \<Rightarrow> 'c txMeta \<Rightarrow> int) \<Rightarrow> 'c txMeta \<Rightarrow> 'c elem list \<Rightarrow> 'c elem list" where
  "remove_elem f k xs = filter (\<lambda>x. f k (fst x) \<noteq> 0) xs"

definition skiplist_laws :: "('sl, 'c) skiplist_ops \<Rightarrow> bool" where
  "skiplist_laws SL \<longleftrightarrow>
     (\<forall>f. slElems SL (slNew SL f) = [] \<and> slCompare SL (slNew SL f) = f) \<and>
     (\<forall>l. slLen SL l = length (slElems SL l)) \<and>
     (\<forall>l k t. slCompare SL (slSet SL l k t) = slCompare SL l \<and> slCompare SL (slRemove SL l k) = slCompare SL l) \<and>
     (\<forall>l k t. ordering_cmp (slCompare SL l) \<and> descending (slCompare SL l) (slElems SL l) \<longrightarrow>
        slElems SL (slSet SL l k t) = set_elem (slCompare SL l) k t (slElems SL l) \<and>
        slElems SL (slRemove SL l k) = remove_elem (slCompare SL l) k (slElems SL l) \<and>
        slGet SL l k = map_option snd (find (\<lambda>x. slCompare SL l k (fst x) = 0) (slElems SL l))) \<and>
     ordering_cmp (slString SL) \<and> (\<forall>a b. slString SL a b = 0 \<longrightarrow> a = b) \<and>
     (\<forall>a b. slUint64 SL a b = (if a < b then - 1 else if a = b then 0 else 1)) \<and>
     (\<forall>a b. slInt64 SL a b = (if a <s b then - 1 else if a = b then 0 else 1))"

section \<open>The mempool\<close>

text \<open>
  The configuration; \<open>cfgZero\<close> is the zero value of the type of priorities. The callback \<open>OnRead\<close> is
  never called by the code.
\<close>

record ('ctx, 'c) mempool_config =
  cfgTxPriority :: "('ctx, 'c) TxPriority"
  cfgTxReplacement :: "('c \<Rightarrow> 'c \<Rightarrow> tx \<Rightarrow> tx \<Rightarrow> bool) option"
  cfgMaxTx :: int
  cfgZero :: 'c

text \<open>
  \<open>scores\<close> is a map keyed by \<open>txMeta\<close> values of which only nonce and sender are set: the key is that
  pair. A missing count reads as zero.
\<close>

record ('sl, 'ctx, 'c) PriorityNonceMempool =
  priorityIndex :: 'sl
  priorityCounts :: "'c \<Rightarrow> int"
  senderIndices :: "string \<rightharpoonup> 'sl"
  scores :: "u64 \<times> string \<rightharpoonup> 'c txMeta"
  pnCfg :: "('ctx, 'c) mempool_config"
  pnExtractor :: adapter

definition NewDefaultTxPriority :: "('sl, 'c) skiplist_ops \<Rightarrow> 'ctx ctx_ops \<Rightarrow> ('ctx, i64) TxPriority" where
  "NewDefaultTxPriority SL C =
     \<lparr> GetTxPriority = (\<lambda>ctx _. Ret (CtxPriority C ctx)), PriorityCompare = slInt64 SL, MinValue = word_of_int (- (2 ^ 63)) \<rparr>"

definition DefaultTxPriority :: "('ctx, int) TxPriority" where
  "DefaultTxPriority = \<lparr> GetTxPriority = (\<lambda>_ _. Ret 0), PriorityCompare = (\<lambda>_ _. 0), MinValue = 0 \<rparr>"

definition DefaultPriorityNonceMempoolConfig ::
    "('sl, 'c) skiplist_ops \<Rightarrow> 'ctx ctx_ops \<Rightarrow> ('ctx, i64) mempool_config" where
  "DefaultPriorityNonceMempoolConfig SL C =
     \<lparr> cfgTxPriority = NewDefaultTxPriority SL C, cfgTxReplacement = None, cfgMaxTx = 0, cfgZero = 0 \<rparr>"

definition skiplistComparable ::
    "('sl, 'c) skiplist_ops \<Rightarrow> ('ctx, 'c) TxPriority \<Rightarrow> 'c txMeta \<Rightarrow> 'c txMeta \<Rightarrow> int" where
  "skiplistComparable SL txPriority keyA keyB =
     (let res = PriorityCompare txPriority (priority keyA) (priority keyB) in
      if res \<noteq> 0 then res
      else let res = PriorityCompare txPriority (weight keyA) (weight keyB) in
      if res \<noteq> 0 then res
      else let res = slString SL (sender keyA) (sender keyB) in
      if res \<noteq> 0 then res
      else slUint64 SL (nonce keyA) (nonce keyB))"

definition nonceComparable :: "('sl, 'c) skiplist_ops \<Rightarrow> 'c txMeta \<Rightarrow> 'c txMeta \<Rightarrow> int" where
  "nonceComparable SL a b = slUint64 SL (nonce b) (nonce a)"

definition NewPriorityMempool ::
    "('sl, 'c) skiplist_ops \<Rightarrow> ('ctx, 'c) mempool_config \<Rightarrow> adapter \<Rightarrow> ('sl, 'ctx, 'c) PriorityNonceMempool" where
  "NewPriorityMempool SL c extractor =
     \<lparr> priorityIndex = slNew SL (skiplistComparable SL (cfgTxPriority c)), priorityCounts = (\<lambda>_. 0),
       senderIndices = Map.empty, scores = Map.empty, pnCfg = c, pnExtractor = extractor \<rparr>"

definition DefaultPriorityMempool ::
    "('sl, i64) skiplist_ops \<Rightarrow> 'ctx ctx_ops \<Rightarrow> adapter \<Rightarrow> ('sl, 'ctx, i64) PriorityNonceMempool" where
  "DefaultPriorityMempool SL C extractor = NewPriorityMempool SL (DefaultPriorityNonceMempoolConfig SL C) extractor"

definition PN_CountTx :: "('sl, 'c) skiplist_ops \<Rightarrow> ('sl, 'ctx, 'c) PriorityNonceMempool \<Rightarrow> nat" where
  "PN_CountTx SL mp = slLen SL (priorityIndex mp)"

text \<open>The front of an empty list is nil, whose value cannot be read.\<close>

definition NextSenderTx ::
    "('sl, 'c) skiplist_ops \<Rightarrow> ('sl, 'ctx, 'c) PriorityNonceMempool \<Rightarrow> string \<Rightarrow> tx option go" where
  "NextSenderTx SL mp s =
     (case senderIndices mp s of
        None \<Rightarrow> Ret None
      | Some idx \<Rightarrow> (case slElems SL idx of [] \<Rightarrow> Panic | c # _ \<Rightarrow> Ret (Some (snd c))))"

section \<open>Insert\<close>

text \<open>The last part of \<open>Insert\<close>: the counts, the sender's index, the score and the priority index.\<close>

definition store_tx ::
    "('sl, 'c) skiplist_ops \<Rightarrow> ('sl, 'ctx, 'c) PriorityNonceMempool \<Rightarrow> 'sl \<Rightarrow> 'c txMeta \<Rightarrow> tx \<Rightarrow>
     ('sl, 'ctx, 'c) PriorityNonceMempool" where
  "store_tx SL mp senderIndex key t = mp
     \<lparr> priorityCounts := (priorityCounts mp)(priority key := priorityCounts mp (priority key) + 1),
       senderIndices := (senderIndices mp)(sender key \<mapsto> slSet SL senderIndex key t),
       scores := (scores mp)((nonce key, sender key) \<mapsto>
         \<lparr> nonce = 0, priority = priority key, sender = '''', weight = cfgZero (pnCfg mp), senderElement = None \<rparr>),
       priorityIndex := slSet SL (priorityIndex mp) (key\<lparr>senderElement := Some (nonce key)\<rparr>) t \<rparr>"

text \<open>The replacement rule; without one every replacement is allowed.\<close>

definition replacement_allowed ::
    "('sl, 'c) skiplist_ops \<Rightarrow> ('ctx, 'c) mempool_config \<Rightarrow> 'sl \<Rightarrow> 'c txMeta \<Rightarrow> 'c txMeta \<Rightarrow> tx \<Rightarrow> bool go" where
  "replacement_allowed SL c senderIndex oldScore key t =
     (case cfgTxReplacement c of
        None \<Rightarrow> Ret True
      | Some rule \<Rightarrow> (case slGet SL senderIndex key of
          None \<Rightarrow> Panic
        | Some oldTx \<Rightarrow> Ret (rule (priority oldScore) (priority key) oldTx t)))"

definition remove_score ::
    "('sl, 'c) skiplist_ops \<Rightarrow> ('sl, 'ctx, 'c) PriorityNonceMempool \<Rightarrow> 'c txMeta \<Rightarrow> 'c txMeta \<Rightarrow>
     ('sl, 'ctx, 'c) PriorityNonceMempool" where
  "remove_score SL mp oldScore key = mp
     \<lparr> priorityIndex := slRemove SL (priorityIndex mp)
         \<lparr> nonce = nonce key, priority = priority oldScore, sender = sender key, weight = weight oldScore,
           senderElement = None \<rparr>,
       priorityCounts := (priorityCounts mp)(priority oldScore := priorityCounts mp (priority oldScore) - 1) \<rparr>"

definition insert_keyed ::
    "('sl, 'c) skiplist_ops \<Rightarrow> ('sl, 'ctx, 'c) PriorityNonceMempool \<Rightarrow> 'c txMeta \<Rightarrow> tx \<Rightarrow>
     ('sl, 'ctx, 'c) PriorityNonceMempool \<times> unit go" where
  "insert_keyed SL mp key t =
     (let senderIndex = (case senderIndices mp (sender key) of
            Some idx \<Rightarrow> idx | None \<Rightarrow> slNew SL (nonceComparable SL));
          mp = mp\<lparr>senderIndices := (senderIndices mp)(sender key \<mapsto> senderIndex)\<rparr> in
      case scores mp (nonce key, sender key) of
        None \<Rightarrow> (store_tx SL mp senderIndex key t, Ret ())
      | Some oldScore \<Rightarrow>
          (case replacement_allowed SL (pnCfg mp) senderIndex oldScore key t of
             Panic \<Rightarrow> (mp, Panic)
           | Err e \<Rightarrow> (mp, Err e)
           | Ret False \<Rightarrow> (mp, Err (Errorf ''tx doesn't fit the replacement rule, oldPriority: %v, newPriority: %v, oldTx: %v, newTx: %v''))
           | Ret True \<Rightarrow> (store_tx SL (remove_score SL mp oldScore key) senderIndex key t, Ret ())))"

definition PN_Insert ::
    "('sl, 'c) skiplist_ops \<Rightarrow> addr_ops \<Rightarrow> ('sl, 'ctx, 'c) PriorityNonceMempool \<Rightarrow> 'ctx \<Rightarrow> tx \<Rightarrow>
     ('sl, 'ctx, 'c) PriorityNonceMempool \<times> unit go" where
  "PN_Insert SL A mp ctx t =
     (if cfgMaxTx (pnCfg mp) > 0 \<and> int (PN_CountTx SL mp) \<ge> cfgMaxTx (pnCfg mp)
      then (mp, Err ErrMempoolTxMaxCapacity)
      else if cfgMaxTx (pnCfg mp) < 0 then (mp, Ret ())
      else
        (case pnExtractor mp t of
           Panic \<Rightarrow> (mp, Panic)
         | Err e \<Rightarrow> (mp, Err e)
         | Ret [] \<Rightarrow> (mp, Err (Errorf ''tx must have at least one signer''))
         | Ret (signer # _) \<Rightarrow>
             (case GetTxPriority (cfgTxPriority (pnCfg mp)) ctx t of
                Panic \<Rightarrow> (mp, Panic)
              | Err e \<Rightarrow> (mp, Err e)
              | Ret p \<Rightarrow> insert_keyed SL mp \<lparr> nonce = Sequence signer, priority = p, sender = addrString A (Signer signer),
                  weight = cfgZero (pnCfg mp), senderElement = None \<rparr> t)))"

section \<open>Remove and Contains\<close>

definition PN_Remove ::
    "('sl, 'c) skiplist_ops \<Rightarrow> addr_ops \<Rightarrow> ('sl, 'ctx, 'c) PriorityNonceMempool \<Rightarrow> tx \<Rightarrow>
     ('sl, 'ctx, 'c) PriorityNonceMempool \<times> unit go" where
  "PN_Remove SL A mp t =
     (case pnExtractor mp t of
        Panic \<Rightarrow> (mp, Panic)
      | Err e \<Rightarrow> (mp, Err e)
      | Ret [] \<Rightarrow> (mp, Err (Errorf ''attempted to remove a tx with no signatures''))
      | Ret (sig # _) \<Rightarrow>
          (let s = addrString A (Signer sig); n = Sequence sig in
           case scores mp (n, s) of
             None \<Rightarrow> (mp, Err ErrTxNotFound)
           | Some score \<Rightarrow>
               (let tk = \<lparr> nonce = n, priority = priority score, sender = s, weight = weight score, senderElement = None \<rparr> in
                case senderIndices mp s of
                  None \<Rightarrow> (mp, Err (Errorf ''sender %s not found''))
                | Some senderTxs \<Rightarrow>
                    (mp\<lparr> priorityIndex := slRemove SL (priorityIndex mp) tk,
                         senderIndices := (senderIndices mp)(s \<mapsto> slRemove SL senderTxs tk),
                         scores := (scores mp)((n, s) := None),
                         priorityCounts := (priorityCounts mp)(priority score := priorityCounts mp (priority score) - 1) \<rparr>,
                     Ret ()))))"

definition PN_Contains :: "addr_ops \<Rightarrow> ('sl, 'ctx, 'c) PriorityNonceMempool \<Rightarrow> tx \<Rightarrow> bool go" where
  "PN_Contains A mp t =
     (case pnExtractor mp t of
        Panic \<Rightarrow> Panic
      | Err e \<Rightarrow> Ret False
      | Ret [] \<Rightarrow> Ret False
      | Ret (sig # _) \<Rightarrow> Ret (scores mp (Sequence sig, addrString A (Signer sig)) \<noteq> None))"

section \<open>Select\<close>

fun weight_loop :: "('ctx, 'c) TxPriority \<Rightarrow> 'c \<Rightarrow> 'c elem list \<Rightarrow> 'c" where
  "weight_loop P w [] = w"
| "weight_loop P w (e # es) =
     weight_loop P (if PriorityCompare P (priority (fst e)) w \<noteq> 0 then priority (fst e) else w) es"

text \<open>The cursor is the part of the sender's index from the element on; a nil cursor is the empty list.\<close>

fun senderWeight :: "('ctx, 'c) TxPriority \<Rightarrow> 'c elem list \<Rightarrow> 'c" where
  "senderWeight P [] = MinValue P"
| "senderWeight P (e # es) = weight_loop P (priority (fst e)) es"

definition sender_cursor ::
    "('sl, 'c) skiplist_ops \<Rightarrow> ('sl, 'ctx, 'c) PriorityNonceMempool \<Rightarrow> 'c txMeta \<Rightarrow> 'c elem list" where
  "sender_cursor SL mp key =
     (case (senderElement key, senderIndices mp (sender key)) of
        (Some n, Some idx) \<Rightarrow> dropWhile (\<lambda>e. nonce (fst e) \<noteq> n) (slElems SL idx)
      | _ \<Rightarrow> [])"

definition reorder_one ::
    "('sl, 'c) skiplist_ops \<Rightarrow> 'c txMeta \<times> 'c txMeta \<times> tx \<Rightarrow> ('sl, 'ctx, 'c) PriorityNonceMempool \<Rightarrow>
     ('sl, 'ctx, 'c) PriorityNonceMempool" where
  "reorder_one SL = (\<lambda>(deleteKey, insertKey, t) mp. mp
     \<lparr> priorityIndex := slSet SL (slRemove SL (priorityIndex mp) deleteKey) insertKey t,
       scores := ((scores mp)((nonce deleteKey, sender deleteKey) := None))
         ((nonce insertKey, sender insertKey) \<mapsto> insertKey) \<rparr>)"

definition reorderings ::
    "('sl, 'c) skiplist_ops \<Rightarrow> ('sl, 'ctx, 'c) PriorityNonceMempool \<Rightarrow> ('c txMeta \<times> 'c txMeta \<times> tx) list" where
  "reorderings SL mp = map (\<lambda>(key, t).
       (key, key\<lparr>weight := senderWeight (cfgTxPriority (pnCfg mp)) (sender_cursor SL mp key)\<rparr>, t))
     (filter (\<lambda>(key, t). priorityCounts mp (priority key) > 1) (slElems SL (priorityIndex mp)))"

definition reorderPriorityTies ::
    "('sl, 'c) skiplist_ops \<Rightarrow> ('sl, 'ctx, 'c) PriorityNonceMempool \<Rightarrow> ('sl, 'ctx, 'c) PriorityNonceMempool" where
  "reorderPriorityTies SL mp = fold (reorder_one SL) (reorderings SL mp) mp"

text \<open>
  The iterator. \<open>priorityNode\<close> is the rest of the priority index from that node on; a cursor of
  \<open>senderCursors\<close> is the rest of the sender's index from the last transaction yielded.
\<close>

definition next_elems ::
    "('sl, 'c) skiplist_ops \<Rightarrow> ('sl, 'ctx, 'c) PriorityNonceMempool \<Rightarrow> (string \<rightharpoonup> 'c elem list) \<Rightarrow> string \<Rightarrow>
     'c elem list option" where
  "next_elems SL mp senderCursors s =
     (case senderCursors s of
        None \<Rightarrow> map_option (slElems SL) (senderIndices mp s)
      | Some cursor \<Rightarrow> Some (tl cursor))"

text \<open>A score that is missing reads as the zero value.\<close>

definition below_next :: "('sl, 'ctx, 'c) PriorityNonceMempool \<Rightarrow> 'c txMeta \<Rightarrow> 'c elem list \<Rightarrow> bool" where
  "below_next mp key nextNodes =
     (case nextNodes of
        [] \<Rightarrow> False
      | m # _ \<Rightarrow>
          (let P = cfgTxPriority (pnCfg mp);
               w = (case scores mp (nonce key, sender key) of None \<Rightarrow> cfgZero (pnCfg mp) | Some sc \<Rightarrow> weight sc) in
           PriorityCompare P (priority key) (priority (fst m)) < 0 \<or>
           PriorityCompare P (priority key) (priority (fst m)) = 0 \<and> PriorityCompare P w (weight (fst m)) < 0))"

text \<open>
  Iterating until the end: \<open>Next\<close> yields the sender's next transaction unless its sender has none or
  it stands below the next node; then \<open>iteratePriority\<close> moves to the next node and tries again.
\<close>

function iterate ::
    "('sl, 'c) skiplist_ops \<Rightarrow> ('sl, 'ctx, 'c) PriorityNonceMempool \<Rightarrow> 'c elem list \<Rightarrow> (string \<rightharpoonup> 'c elem list) \<Rightarrow>
     'c elem list go" where
  "iterate SL mp [] senderCursors = Ret []"
| "iterate SL mp (node # nodes) senderCursors =
     (case next_elems SL mp senderCursors (sender (fst node)) of
        None \<Rightarrow> Panic
      | Some [] \<Rightarrow> iterate SL mp nodes senderCursors
      | Some (c # cs) \<Rightarrow>
          if below_next mp (fst c) nodes then iterate SL mp nodes senderCursors
          else go_bind (iterate SL mp (node # nodes) (senderCursors(sender (fst node) \<mapsto> c # cs))) (\<lambda>out.
            Ret (c # out)))"
  by pat_completeness auto
termination
  by (relation "measures [\<lambda>(SL, mp, nodes, cur). length nodes,
      \<lambda>(SL, mp, nodes, cur). case nodes of [] \<Rightarrow> 0
        | node # _ \<Rightarrow> (case next_elems SL mp cur (sender (fst node)) of None \<Rightarrow> 0 | Some es \<Rightarrow> length es)]")
     (auto simp: next_elems_def)

text \<open>
  An empty mempool has a nil iterator, which the callers read as no transactions. The iterator of the
  code computes one transaction at a time; here the whole iteration is run at once, so that a panic of
  a later step (of which there is none in a reachable state) would surface at the first.
\<close>

definition PN_Select ::
    "('sl, 'c) skiplist_ops \<Rightarrow> ('sl, 'ctx, 'c) PriorityNonceMempool \<Rightarrow>
     ('sl, 'ctx, 'c) PriorityNonceMempool \<times> tx list go" where
  "PN_Select SL mp =
     (if slLen SL (priorityIndex mp) = 0 then (mp, Ret [])
      else let mp' = reorderPriorityTies SL mp in
        (mp', go_bind (iterate SL mp' (slElems SL (priorityIndex mp')) Map.empty) (\<lambda>es. Ret (map snd es))))"

end
