(* ===== verification/Priority_Mempool_Lemmas.thy ===== *)
theory Priority_Mempool_Lemmas
  imports Priority_Mempool "HOL-Library.Multiset"
begin

text \<open>
  The invariant of the priority nonce mempool and its preservation. The first part is about sorted
  lists of elements, the second about the indices of the mempool.
\<close>

section \<open>Orders and sorted element lists\<close>

lemma ordering_cmpD:
  assumes "ordering_cmp f"
  shows "f a a = 0" and "f a b > 0 \<longleftrightarrow> f b a < 0" and "f a b \<le> 0 \<Longrightarrow> f b c \<le> 0 \<Longrightarrow> f a c \<le> 0"
  using assms unfolding ordering_cmp_def by blast+

lemma ordering_cmp_eq_sym: "ordering_cmp f \<Longrightarrow> f a b = 0 \<longleftrightarrow> f b a = 0"
  using ordering_cmpD(2) [of f a b] ordering_cmpD(2) [of f b a] by linarith

lemma ordering_cmp_trans:
  assumes "ordering_cmp f"
  shows "f a b > 0 \<Longrightarrow> f b c \<ge> 0 \<Longrightarrow> f a c > 0" and "f a b \<ge> 0 \<Longrightarrow> f b c > 0 \<Longrightarrow> f a c > 0"
proof -
  note swap = ordering_cmpD(2) [OF assms]
  show "f a c > 0" if "f a b > 0" "f b c \<ge> 0"
  proof (rule ccontr)
    assume "\<not> f a c > 0"
    moreover have "f c b \<le> 0" using that(2) swap [of c b] by linarith
    ultimately have "f a b \<le> 0" using ordering_cmpD(3) [OF assms, of a c b] by linarith
    with that(1) show False by simp
  qed
  show "f a c > 0" if "f a b \<ge> 0" "f b c > 0"
  proof (rule ccontr)
    assume "\<not> f a c > 0"
    moreover have "f b a \<le> 0" using that(1) swap [of b a] by linarith
    ultimately have "f b c \<le> 0" using ordering_cmpD(3) [OF assms, of b a c] by linarith
    with that(2) show False by simp
  qed
qed

lemma ordering_cmp_on: "ordering_cmp f \<Longrightarrow> ordering_cmp (\<lambda>a b. f (p a) (p b))"
  unfolding ordering_cmp_def by blast

lemma ordering_cmp_lex:
  assumes f: "ordering_cmp f" and g: "ordering_cmp g"
  shows "ordering_cmp (\<lambda>a b. if f a b \<noteq> 0 then f a b else g a b)"
  unfolding ordering_cmp_def
proof (intro conjI allI impI)
  note sym = ordering_cmp_eq_sym [OF f]
  fix a b c
  show "(if f a a \<noteq> 0 then f a a else g a a) = 0" using f g by (simp add: ordering_cmpD(1))
  show "((if f a b \<noteq> 0 then f a b else g a b) > 0) = ((if f b a \<noteq> 0 then f b a else g b a) < 0)"
    using ordering_cmpD(2) [OF f, of a b] ordering_cmpD(2) [OF g, of a b] sym [of a b] by auto
  assume *: "(if f a b \<noteq> 0 then f a b else g a b) \<le> 0 \<and> (if f b c \<noteq> 0 then f b c else g b c) \<le> 0"
  then have le: "f a b \<le> 0" "f b c \<le> 0" by (auto split: if_splits)
  then have ac: "f a c \<le> 0" by (rule ordering_cmpD(3) [OF f])
  show "(if f a c \<noteq> 0 then f a c else g a c) \<le> 0"
  proof (cases "f a c = 0")
    case True
    have "f a b = 0"
      using ordering_cmp_trans(2) [OF f, of c b a] True le sym [of a c] ordering_cmpD(2) [OF f, of c b]
        ordering_cmpD(2) [OF f, of b a] ordering_cmpD(2) [OF f, of a b] ordering_cmpD(2) [OF f, of b c] by linarith
    moreover have "f b c = 0"
      using ordering_cmp_trans(1) [OF f, of c b a] True le sym [of a c] ordering_cmpD(2) [OF f, of c b]
        ordering_cmpD(2) [OF f, of b a] ordering_cmpD(2) [OF f, of a b] ordering_cmpD(2) [OF f, of b c] by linarith
    ultimately show ?thesis using * True ordering_cmpD(3) [OF g, of a b c] by simp
  next
    case False
    with ac show ?thesis by simp
  qed
qed

text \<open>In a descending list no two keys are equal in the order.\<close>

lemma descending_Cons: "descending f (x # xs) \<longleftrightarrow> (\<forall>y \<in> set xs. f (fst x) (fst y) > 0) \<and> descending f xs"
  by (simp add: descending_def)

lemma descending_filter: "descending f xs \<Longrightarrow> descending f (filter p xs)"
  by (simp add: descending_def sorted_wrt_filter)

lemma descending_eq:
  assumes "ordering_cmp f" and "descending f xs" and "x \<in> set xs" and "y \<in> set xs" and "f (fst x) (fst y) = 0"
  shows "x = y"
  using assms(2-)
proof (induction xs)
  case Nil
  then show ?case by simp
next
  case (Cons z xs)
  then show ?case
    using ordering_cmp_eq_sym [OF assms(1), of "fst x" "fst y"] by (auto simp: descending_Cons)
qed

lemma in_set_elem: "x \<in> set (set_elem f k t xs) \<Longrightarrow> fst x = k \<or> (\<exists>y \<in> set xs. fst y = fst x)"
  by (induction f k t xs rule: set_elem.induct) (auto split: if_splits)

lemma descending_set_elem:
  assumes f: "ordering_cmp f" and "descending f xs"
  shows "descending f (set_elem f k t xs)"
  using assms(2)
proof (induction xs)
  case Nil
  then show ?case by (simp add: descending_def)
next
  case (Cons x xs)
  obtain k' t' where x: "x = (k', t')" by (cases x)
  consider "f k k' = 0" | "f k k' > 0" | "f k k' < 0" by linarith
  then show ?case
  proof cases
    case 1
    with Cons.prems x show ?thesis by (simp add: descending_Cons)
  next
    case 2
    then have "\<forall>y \<in> set xs. f k (fst y) > 0"
      using Cons.prems x ordering_cmp_trans(1) [OF f, of k k'] by (fastforce simp: descending_Cons)
    with 2 Cons.prems x show ?thesis by (simp add: descending_Cons)
  next
    case 3
    then have "f k' k > 0" using ordering_cmpD(2) [OF f, of k' k] by simp
    moreover have "\<forall>y \<in> set xs. f k' (fst y) > 0" using Cons.prems x by (simp add: descending_Cons)
    ultimately have "\<forall>y \<in> set (set_elem f k t xs). f k' (fst y) > 0"
      using \<open>f k' k > 0\<close> by (metis in_set_elem)
    with 3 Cons x show ?thesis by (simp add: descending_Cons)
  qed
qed

text \<open>Setting a key that is not in the list adds one element.\<close>

lemma mset_set_elem_new:
  "\<forall>x \<in> set xs. f k (fst x) \<noteq> 0 \<Longrightarrow> mset (set_elem f k t xs) = add_mset (k, t) (mset xs)"
  by (induction xs) auto

lemma set_set_elem_new:
  "\<forall>x \<in> set xs. f k (fst x) \<noteq> 0 \<Longrightarrow> set (set_elem f k t xs) = insert (k, t) (set xs)"
  using mset_set_elem_new [of xs f k t] by (metis set_mset_add_mset_insert set_mset_mset)

text \<open>Setting a key that is in the list changes the value of its element only.\<close>

lemma set_set_elem_old:
  assumes f: "ordering_cmp f" and "descending f xs" and "(k', t') \<in> set xs" and "f k k' = 0"
  shows "set (set_elem f k t xs) = insert (k', t) (set xs - {(k', t')})"
  using assms(2,3)
proof (induction xs)
  case Nil
  then show ?case by simp
next
  case (Cons x xs)
  obtain l u where x: "x = (l, u)" by (cases x)
  have eq: "f k' k = 0" using assms(4) ordering_cmp_eq_sym [OF f] by blast
  show ?case
  proof (cases "x = (k', t')")
    case True
    moreover have "(k', t') \<notin> set xs"
      using Cons.prems(1) True ordering_cmpD(1) [OF f, of k'] by (auto simp: descending_Cons)
    ultimately show ?thesis using assms(4) by auto
  next
    case False
    then have k': "(k', t') \<in> set xs" using Cons.prems(2) by auto
    then have "f l k' > 0" using Cons.prems(1) x by (auto simp: descending_Cons)
    then have "f l k > 0" using ordering_cmp_trans(1) [OF f, of l k' k] eq by simp
    then have "f k l < 0" using ordering_cmpD(2) [OF f, of l k] by simp
    then show ?thesis using Cons k' x False by (auto simp: descending_Cons)
  qed
qed

lemma set_remove_elem: "set (remove_elem f k xs) = {x \<in> set xs. f k (fst x) \<noteq> 0}"
  by (auto simp: remove_elem_def)

lemma remove_elem_absent: "\<forall>x \<in> set xs. f k (fst x) \<noteq> 0 \<Longrightarrow> remove_elem f k xs = xs"
  by (simp add: remove_elem_def)

lemma remove_elem_found:
  assumes f: "ordering_cmp f" and "descending f xs" and "x \<in> set xs" and "f k (fst x) = 0"
  shows "set (remove_elem f k xs) = set xs - {x}" and "mset (remove_elem f k xs) = mset xs - {#x#}"
proof -
  have only: "y = x" if "y \<in> set xs" "f k (fst y) = 0" for y
  proof -
    have "f (fst y) k = 0" using that(2) ordering_cmp_eq_sym [OF f] by blast
    then have "f (fst y) (fst x) \<le> 0" using ordering_cmpD(3) [OF f, of "fst y" k "fst x"] assms(4) by simp
    moreover have "f (fst x) (fst y) \<le> 0"
      using ordering_cmpD(3) [OF f, of "fst x" k "fst y"] that(2) assms(4) ordering_cmp_eq_sym [OF f, of k "fst x"] by simp
    ultimately have "f (fst y) (fst x) = 0" using ordering_cmpD(2) [OF f, of "fst x" "fst y"] by linarith
    then show ?thesis using descending_eq [OF f assms(2) that(1) assms(3)] by simp
  qed
  then show "set (remove_elem f k xs) = set xs - {x}" using assms(4) by (auto simp: set_remove_elem)
  have d: "distinct xs"
    using assms(2) ordering_cmpD(1) [OF f] by (induction xs) (auto simp: descending_Cons)
  then have "distinct (remove_elem f k xs)" by (simp add: remove_elem_def)
  then show "mset (remove_elem f k xs) = mset xs - {#x#}"
    using d \<open>set (remove_elem f k xs) = set xs - {x}\<close> assms(3)
    by (metis mset_remove1 set_eq_iff_mset_eq_distinct distinct_remove1 set_remove1_eq)
qed

lemma descending_distinct: "ordering_cmp f \<Longrightarrow> descending f xs \<Longrightarrow> distinct xs"
  by (induction xs) (auto simp: descending_Cons ordering_cmpD(1))

section \<open>The comparisons of the mempool\<close>

lemma skiplist_lawsD:
  assumes "skiplist_laws SL"
  shows "slElems SL (slNew SL f) = []" and "slCompare SL (slNew SL f) = f"
    and "slLen SL l = length (slElems SL l)"
    and "slCompare SL (slSet SL l k t) = slCompare SL l" and "slCompare SL (slRemove SL l k) = slCompare SL l"
    and "ordering_cmp (slString SL)" and "slString SL a b = 0 \<Longrightarrow> a = b"
    and "slUint64 SL m n = (if m < n then - 1 else if m = n then 0 else 1)"
proof -
  note l = assms [unfolded skiplist_laws_def]
  have new: "\<forall>f. slElems SL (slNew SL f) = [] \<and> slCompare SL (slNew SL f) = f"
    using l by - (elim conjE, assumption)
  have len: "\<forall>l. slLen SL l = length (slElems SL l)"
    using l by - (elim conjE, assumption)
  have cmp: "\<forall>l k t. slCompare SL (slSet SL l k t) = slCompare SL l \<and> slCompare SL (slRemove SL l k) = slCompare SL l"
    using l by - (elim conjE, assumption)
  have str: "ordering_cmp (slString SL)"
    using l by - (elim conjE, assumption)
  have str_eq: "\<forall>a b. slString SL a b = 0 \<longrightarrow> a = b"
    using l by - (elim conjE, assumption)
  have u64: "\<forall>a b. slUint64 SL a b = (if a < b then - 1 else if a = b then 0 else 1)"
    using l by - (elim conjE, assumption)
  show "slElems SL (slNew SL f) = []" "slCompare SL (slNew SL f) = f" using new by simp_all
  show "slLen SL l = length (slElems SL l)" using len by simp
  show "slCompare SL (slSet SL l k t) = slCompare SL l" "slCompare SL (slRemove SL l k) = slCompare SL l"
    using cmp by simp_all
  show "ordering_cmp (slString SL)" by (rule str)
  show "a = b" if "slString SL a b = 0" using str_eq that by blast
  show "slUint64 SL m n = (if m < n then - 1 else if m = n then 0 else 1)" using u64 by simp
qed

lemma skiplist_update:
  assumes "skiplist_laws SL" and "slCompare SL l = f" and "ordering_cmp f" and "descending f (slElems SL l)"
  shows "slElems SL (slSet SL l k t) = set_elem f k t (slElems SL l)"
    and "slElems SL (slRemove SL l k) = remove_elem f k (slElems SL l)"
    and "slGet SL l k = map_option snd (find (\<lambda>x. f k (fst x) = 0) (slElems SL l))"
proof -
  have "\<forall>l k t. ordering_cmp (slCompare SL l) \<and> descending (slCompare SL l) (slElems SL l) \<longrightarrow>
        slElems SL (slSet SL l k t) = set_elem (slCompare SL l) k t (slElems SL l) \<and>
        slElems SL (slRemove SL l k) = remove_elem (slCompare SL l) k (slElems SL l) \<and>
        slGet SL l k = map_option snd (find (\<lambda>x. slCompare SL l k (fst x) = 0) (slElems SL l))"
    using assms(1) [unfolded skiplist_laws_def] by - (elim conjE, assumption)
  note r = this [rule_format, of l k t, unfolded assms(2), OF conjI [OF assms(3,4)]]
  show "slElems SL (slSet SL l k t) = set_elem f k t (slElems SL l)" by (rule r [THEN conjunct1])
  show "slElems SL (slRemove SL l k) = remove_elem f k (slElems SL l)"
    by (rule r [THEN conjunct2, THEN conjunct1])
  show "slGet SL l k = map_option snd (find (\<lambda>x. f k (fst x) = 0) (slElems SL l))"
    by (rule r [THEN conjunct2, THEN conjunct2])
qed

lemma ordering_cmp_slUint64: "skiplist_laws SL \<Longrightarrow> ordering_cmp (slUint64 SL)"
  by (auto simp: ordering_cmp_def skiplist_lawsD(8))

lemma ordering_cmp_comparable:
  assumes "skiplist_laws SL" and "ordering_cmp (PriorityCompare P)"
  shows "ordering_cmp (skiplistComparable SL P)"
proof -
  have eq: "skiplistComparable SL P = (\<lambda>a b. if PriorityCompare P (priority a) (priority b) \<noteq> 0
      then PriorityCompare P (priority a) (priority b)
      else if PriorityCompare P (weight a) (weight b) \<noteq> 0 then PriorityCompare P (weight a) (weight b)
      else if slString SL (sender a) (sender b) \<noteq> 0 then slString SL (sender a) (sender b)
      else slUint64 SL (nonce a) (nonce b))"
    by (simp add: fun_eq_iff skiplistComparable_def Let_def)
  note prio = ordering_cmp_on [OF assms(2), of priority] and wght = ordering_cmp_on [OF assms(2), of weight]
    and sndr = ordering_cmp_on [OF skiplist_lawsD(6) [OF assms(1)], of sender]
    and nnc = ordering_cmp_on [OF ordering_cmp_slUint64 [OF assms(1)], of nonce]
  show ?thesis
    unfolding eq by (rule ordering_cmp_lex [OF prio ordering_cmp_lex [OF wght ordering_cmp_lex [OF sndr nnc]]])
qed

lemma ordering_cmp_nonce:
  assumes "skiplist_laws SL"
  shows "ordering_cmp (nonceComparable SL)"
  by (auto simp: ordering_cmp_def nonceComparable_def skiplist_lawsD(8) [OF assms])

lemma nonceComparable_0 [simp]: "skiplist_laws SL \<Longrightarrow> nonceComparable SL a b = 0 \<longleftrightarrow> nonce a = nonce b"
  by (auto simp: nonceComparable_def skiplist_lawsD(8))

lemma comparable_0_iff:
  assumes "skiplist_laws SL"
  shows "skiplistComparable SL P a b = 0 \<longleftrightarrow> PriorityCompare P (priority a) (priority b) = 0 \<and>
    PriorityCompare P (weight a) (weight b) = 0 \<and> sender a = sender b \<and> nonce a = nonce b"
proof -
  have "slString SL x y = 0 \<longleftrightarrow> x = y" for x y
    using skiplist_lawsD(6,7) [OF assms] ordering_cmpD(1) by metis
  then show ?thesis by (simp add: skiplistComparable_def Let_def skiplist_lawsD(8) [OF assms])
qed

section \<open>The invariant\<close>

definition elem_id :: "'c elem \<Rightarrow> u64 \<times> string" where
  "elem_id e = (nonce (fst e), sender (fst e))"

abbreviation pelems :: "('sl, 'c) skiplist_ops \<Rightarrow> ('sl, 'ctx, 'c) PriorityNonceMempool \<Rightarrow> 'c elem list" where
  "pelems SL mp \<equiv> slElems SL (priorityIndex mp)"

definition mempool_laws :: "('sl, 'c) skiplist_ops \<Rightarrow> ('sl, 'ctx, 'c) PriorityNonceMempool \<Rightarrow> bool" where
  "mempool_laws SL mp \<longleftrightarrow> skiplist_laws SL \<and> ordering_cmp (PriorityCompare (cfgTxPriority (pnCfg mp)))"

text \<open>The priority index: sorted, one element per sender and nonce.\<close>

definition index_ok :: "('sl, 'c) skiplist_ops \<Rightarrow> ('sl, 'ctx, 'c) PriorityNonceMempool \<Rightarrow> bool" where
  "index_ok SL mp \<longleftrightarrow>
     slCompare SL (priorityIndex mp) = skiplistComparable SL (cfgTxPriority (pnCfg mp)) \<and>
     descending (skiplistComparable SL (cfgTxPriority (pnCfg mp))) (pelems SL mp) \<and>
     inj_on elem_id (set (pelems SL mp)) \<and>
     (\<forall>e \<in> set (pelems SL mp). senderElement (fst e) = Some (nonce (fst e)))"

definition counts_ok :: "('sl, 'c) skiplist_ops \<Rightarrow> ('sl, 'ctx, 'c) PriorityNonceMempool \<Rightarrow> bool" where
  "counts_ok SL mp \<longleftrightarrow>
     (\<forall>p. priorityCounts mp p = int (count (image_mset (\<lambda>e. priority (fst e)) (mset (pelems SL mp))) p))"

text \<open>The scores: exactly for the transactions of the index, with their priority and weight there.\<close>

definition scores_ok :: "('sl, 'c) skiplist_ops \<Rightarrow> ('sl, 'ctx, 'c) PriorityNonceMempool \<Rightarrow> bool" where
  "scores_ok SL mp \<longleftrightarrow> dom (scores mp) = elem_id ` set (pelems SL mp) \<and>
     (\<forall>e \<in> set (pelems SL mp). \<forall>sc. scores mp (elem_id e) = Some sc \<longrightarrow>
        priority sc = priority (fst e) \<and> weight sc = weight (fst e))"

text \<open>The index of a sender: sorted by nonce, the sender's transactions of the priority index.\<close>

definition sender_list_ok :: "('sl, 'c) skiplist_ops \<Rightarrow> string \<Rightarrow> 'sl \<Rightarrow> bool" where
  "sender_list_ok SL s idx \<longleftrightarrow> slCompare SL idx = nonceComparable SL \<and>
     descending (nonceComparable SL) (slElems SL idx) \<and> (\<forall>e \<in> set (slElems SL idx). sender (fst e) = s)"

definition senders_ok :: "('sl, 'c) skiplist_ops \<Rightarrow> ('sl, 'ctx, 'c) PriorityNonceMempool \<Rightarrow> bool" where
  "senders_ok SL mp \<longleftrightarrow>
     (\<forall>s idx. senderIndices mp s = Some idx \<longrightarrow> sender_list_ok SL s idx \<and>
        (\<lambda>e. (elem_id e, snd e)) ` set (slElems SL idx) =
        (\<lambda>e. (elem_id e, snd e)) ` {e \<in> set (pelems SL mp). sender (fst e) = s}) \<and>
     (\<forall>e \<in> set (pelems SL mp). senderIndices mp (sender (fst e)) \<noteq> None)"

definition mempool_ok :: "('sl, 'c) skiplist_ops \<Rightarrow> ('sl, 'ctx, 'c) PriorityNonceMempool \<Rightarrow> bool" where
  "mempool_ok SL mp \<longleftrightarrow> mempool_laws SL mp \<and> index_ok SL mp \<and> counts_ok SL mp \<and> scores_ok SL mp \<and> senders_ok SL mp"

lemma mempool_lawsD:
  assumes "mempool_laws SL mp"
  shows "skiplist_laws SL" and "ordering_cmp (skiplistComparable SL (cfgTxPriority (pnCfg mp)))"
    and "ordering_cmp (nonceComparable SL)" and "PriorityCompare (cfgTxPriority (pnCfg mp)) p p = 0"
  using assms by (auto simp: mempool_laws_def ordering_cmp_comparable ordering_cmp_nonce ordering_cmpD(1))

lemma new_mempool_ok:
  assumes "skiplist_laws SL" and "ordering_cmp (PriorityCompare (cfgTxPriority c))"
  shows "mempool_ok SL (NewPriorityMempool SL c E)"
  using assms skiplist_lawsD(1,2) [OF assms(1)]
  by (simp add: mempool_ok_def mempool_laws_def index_ok_def counts_ok_def scores_ok_def senders_ok_def
      NewPriorityMempool_def descending_def)

section \<open>Removing a transaction from the priority index\<close>

lemma remove_score_index:
  assumes laws: "mempool_laws SL mp" and "index_ok SL mp" and "counts_ok SL mp" and "scores_ok SL mp"
    and old: "scores mp (nonce key, sender key) = Some old"
  shows "index_ok SL (remove_score SL mp old key)" and "counts_ok SL (remove_score SL mp old key)"
    and "set (pelems SL (remove_score SL mp old key)) = {e \<in> set (pelems SL mp). elem_id e \<noteq> (nonce key, sender key)}"
proof -
  let ?f = "skiplistComparable SL (cfgTxPriority (pnCfg mp))"
  let ?k = "\<lparr> nonce = nonce key, priority = priority old, sender = sender key, weight = weight old, senderElement = None \<rparr>"
  let ?mp = "remove_score SL mp old key"
  note SL = mempool_lawsD(1,2) [OF laws]
  have idx: "slCompare SL (priorityIndex mp) = ?f" "descending ?f (pelems SL mp)" "inj_on elem_id (set (pelems SL mp))"
    "\<forall>e \<in> set (pelems SL mp). senderElement (fst e) = Some (nonce (fst e))"
    using assms(2) by (auto simp: index_ok_def)
  from old have "(nonce key, sender key) \<in> dom (scores mp)" by (rule domI)
  then have "(nonce key, sender key) \<in> elem_id ` set (pelems SL mp)" using assms(4) by (simp add: scores_ok_def)
  then obtain e where e: "e \<in> set (pelems SL mp)" "elem_id e = (nonce key, sender key)" by force
  then have pw: "priority old = priority (fst e)" "weight old = weight (fst e)"
    using assms(4) old by (auto simp: scores_ok_def)
  have k: "?f ?k (fst e) = 0"
    using e(2) pw mempool_lawsD(4) [OF laws] by (simp add: comparable_0_iff [OF SL(1)] elem_id_def)
  have P: "pelems SL ?mp = remove_elem ?f ?k (pelems SL mp)"
    using skiplist_update(2) [OF SL(1) idx(1) SL(2) idx(2)] by (simp add: remove_score_def)
  note rm = remove_elem_found [OF SL(2) idx(2) e(1) k]
  have only: "e' = e" if "e' \<in> set (pelems SL mp)" "elem_id e' = (nonce key, sender key)" for e'
    using inj_onD [OF idx(3)] that e by metis
  show set: "set (pelems SL ?mp) = {e \<in> set (pelems SL mp). elem_id e \<noteq> (nonce key, sender key)}"
    unfolding P rm(1) using e(2) only by blast
  have "slCompare SL (priorityIndex ?mp) = ?f" "cfgTxPriority (pnCfg ?mp) = cfgTxPriority (pnCfg mp)"
    using skiplist_lawsD(5) [OF SL(1)] idx(1) by (simp_all add: remove_score_def)
  moreover have "descending ?f (pelems SL ?mp)"
    unfolding P remove_elem_def by (rule descending_filter [OF idx(2)])
  moreover have "inj_on elem_id (set (pelems SL ?mp))"
    by (rule inj_on_subset [OF idx(3)]) (auto simp: set)
  ultimately show "index_ok SL ?mp" using idx(4) set by (simp add: index_ok_def)
  have "image_mset (\<lambda>e. priority (fst e)) (mset (pelems SL ?mp)) =
      image_mset (\<lambda>e. priority (fst e)) (mset (pelems SL mp)) - {#priority old#}"
    using rm(2) P e(1) pw(1) by (simp add: image_mset_Diff)
  moreover have "priority old \<in># image_mset (\<lambda>e. priority (fst e)) (mset (pelems SL mp))"
    using e(1) pw(1) by auto
  then have "0 < count (image_mset (\<lambda>e. priority (fst e)) (mset (pelems SL mp))) (priority old)"
    by (simp only: count_greater_zero_iff)
  ultimately show "counts_ok SL ?mp"
    using assms(3) by (auto simp: counts_ok_def remove_score_def of_nat_diff)
qed

section \<open>Adding a transaction to the priority index\<close>

text \<open>
  \<open>add_elem\<close>: the mempool after a key that is not in the index has been set, with whatever scores and
  sender indices.
\<close>

lemma slSet_index:
  assumes laws: "mempool_laws SL mp" and "index_ok SL mp"
    and new: "\<forall>e \<in> set (pelems SL mp). elem_id e \<noteq> (nonce key, sender key)"
    and el: "senderElement key = Some (nonce key)"
    and mp': "priorityIndex mp' = slSet SL (priorityIndex mp) key t" "pnCfg mp' = pnCfg mp"
  shows "index_ok SL mp'" and "mset (pelems SL mp') = add_mset (key, t) (mset (pelems SL mp))"
    and "set (pelems SL mp') = insert (key, t) (set (pelems SL mp))"
proof -
  let ?f = "skiplistComparable SL (cfgTxPriority (pnCfg mp))"
  note SL = mempool_lawsD(1,2) [OF laws]
  have idx: "slCompare SL (priorityIndex mp) = ?f" "descending ?f (pelems SL mp)" "inj_on elem_id (set (pelems SL mp))"
    "\<forall>e \<in> set (pelems SL mp). senderElement (fst e) = Some (nonce (fst e))"
    using assms(2) by (auto simp: index_ok_def)
  have P: "pelems SL mp' = set_elem ?f key t (pelems SL mp)"
    using skiplist_update(1) [OF SL(1) idx(1) SL(2) idx(2)] mp' by simp
  have absent: "\<forall>x \<in> set (pelems SL mp). ?f key (fst x) \<noteq> 0"
    using new by (auto simp: elem_id_def comparable_0_iff [OF SL(1)])
  show m: "mset (pelems SL mp') = add_mset (key, t) (mset (pelems SL mp))"
    unfolding P by (rule mset_set_elem_new [where f = ?f, OF absent])
  show set: "set (pelems SL mp') = insert (key, t) (set (pelems SL mp))"
    unfolding P by (rule set_set_elem_new [where f = ?f, OF absent])
  have "slCompare SL (priorityIndex mp') = ?f" using skiplist_lawsD(4) [OF SL(1)] idx(1) mp' by simp
  moreover have "descending ?f (pelems SL mp')"
    unfolding P by (rule descending_set_elem [OF SL(2) idx(2)])
  moreover have "elem_id (key, t) \<notin> elem_id ` set (pelems SL mp)" using new by (auto simp: elem_id_def)
  then have "inj_on elem_id (set (pelems SL mp'))" using idx(3) unfolding set by (auto simp: inj_on_insert)
  ultimately show "index_ok SL mp'" using idx(4) set el mp'(2) by (simp add: index_ok_def)
qed

text \<open>The sender's index after \<open>Set\<close>: the element of the nonce is replaced or added.\<close>

lemma slSet_sender:
  assumes SL: "skiplist_laws SL" and ok: "sender_list_ok SL s idx" and key: "sender key = s"
  obtains k where "nonce k = nonce key" and "sender k = s"
    and "k = key \<or> (\<exists>u. (k, u) \<in> set (slElems SL idx))"
    and "set (slElems SL (slSet SL idx key t)) = insert (k, t) {e \<in> set (slElems SL idx). nonce (fst e) \<noteq> nonce key}"
    and "sender_list_ok SL s (slSet SL idx key t)"
proof -
  let ?f = "nonceComparable SL"
  have o: "ordering_cmp ?f" using SL by (rule ordering_cmp_nonce)
  from ok have idx: "slCompare SL idx = ?f" "descending ?f (slElems SL idx)" "\<forall>e \<in> set (slElems SL idx). sender (fst e) = s"
    by (auto simp: sender_list_ok_def)
  note S = skiplist_update(1) [OF SL idx(1) o idx(2), of key t]
  have d: "descending ?f (slElems SL (slSet SL idx key t))"
    unfolding S by (rule descending_set_elem [OF o idx(2)])
  have c: "slCompare SL (slSet SL idx key t) = ?f" using skiplist_lawsD(4) [OF SL] idx(1) by simp
  show thesis
  proof (cases "\<exists>k u. (k, u) \<in> set (slElems SL idx) \<and> nonce k = nonce key")
    case True
    then obtain k u where k: "(k, u) \<in> set (slElems SL idx)" "nonce k = nonce key" by blast
    have "set (slElems SL (slSet SL idx key t)) = insert (k, t) (set (slElems SL idx) - {(k, u)})"
      unfolding S by (rule set_set_elem_old [OF o idx(2) k(1)]) (simp add: SL k(2))
    moreover have only: "e = (k, u)" if "e \<in> set (slElems SL idx)" "nonce (fst e) = nonce key" for e
      by (rule descending_eq [OF o idx(2) that(1) k(1)]) (simp add: SL that(2) k(2))
    have "set (slElems SL idx) - {(k, u)} = {e \<in> set (slElems SL idx). nonce (fst e) \<noteq> nonce key}"
    proof (intro equalityI subsetI)
      fix e assume "e \<in> set (slElems SL idx) - {(k, u)}"
      then show "e \<in> {e \<in> set (slElems SL idx). nonce (fst e) \<noteq> nonce key}" using only by blast
    next
      fix e assume "e \<in> {e \<in> set (slElems SL idx). nonce (fst e) \<noteq> nonce key}"
      then show "e \<in> set (slElems SL idx) - {(k, u)}" using k(2) by auto
    qed
    ultimately have set: "set (slElems SL (slSet SL idx key t)) =
        insert (k, t) {e \<in> set (slElems SL idx). nonce (fst e) \<noteq> nonce key}" by simp
    have "sender k = s" using idx(3) k(1) by fastforce
    moreover from this have "sender_list_ok SL s (slSet SL idx key t)"
      using c d idx(3) set by (auto simp: sender_list_ok_def)
    ultimately show thesis using that k set by blast
  next
    case False
    then have "\<forall>x \<in> set (slElems SL idx). ?f key (fst x) \<noteq> 0" by (fastforce simp: SL)
    then have "set (slElems SL (slSet SL idx key t)) = insert (key, t) (set (slElems SL idx))"
      unfolding S by (rule set_set_elem_new)
    moreover have "{e \<in> set (slElems SL idx). nonce (fst e) \<noteq> nonce key} = set (slElems SL idx)" using False by force
    ultimately have set: "set (slElems SL (slSet SL idx key t)) =
        insert (key, t) {e \<in> set (slElems SL idx). nonce (fst e) \<noteq> nonce key}" by simp
    then have "sender_list_ok SL s (slSet SL idx key t)"
      using c d idx(3) key by (auto simp: sender_list_ok_def)
    with that [of key] set key show thesis by blast
  qed
qed

section \<open>Insert keeps the invariant\<close>

text \<open>
  \<open>almost_ok\<close>: the mempool after the old entry of a key has been taken out of the priority index, or
  when there is none; scores and sender indices may still know the key.
\<close>

definition almost_ok :: "('sl, 'c) skiplist_ops \<Rightarrow> ('sl, 'ctx, 'c) PriorityNonceMempool \<Rightarrow> 'c txMeta \<Rightarrow> bool" where
  "almost_ok SL mp key \<longleftrightarrow> mempool_laws SL mp \<and> index_ok SL mp \<and> counts_ok SL mp \<and>
     (\<forall>e \<in> set (pelems SL mp). elem_id e \<noteq> (nonce key, sender key)) \<and>
     dom (scores mp) - {(nonce key, sender key)} = elem_id ` set (pelems SL mp) \<and>
     (\<forall>e \<in> set (pelems SL mp). \<forall>sc. scores mp (elem_id e) = Some sc \<longrightarrow>
        priority sc = priority (fst e) \<and> weight sc = weight (fst e)) \<and>
     (\<forall>s idx. senderIndices mp s = Some idx \<longrightarrow> sender_list_ok SL s idx \<and>
        (\<lambda>e. (elem_id e, snd e)) ` {e \<in> set (slElems SL idx). elem_id e \<noteq> (nonce key, sender key)} =
        (\<lambda>e. (elem_id e, snd e)) ` {e \<in> set (pelems SL mp). sender (fst e) = s}) \<and>
     (\<forall>e \<in> set (pelems SL mp). senderIndices mp (sender (fst e)) \<noteq> None)"

lemma store_tx_ok:
  assumes ok: "almost_ok SL mp key" and idx: "senderIndices mp (sender key) = Some idx"
    and w: "weight key = cfgZero (pnCfg mp)"
  shows "mempool_ok SL (store_tx SL mp idx key t)"
    and "dom (scores (store_tx SL mp idx key t)) = insert (nonce key, sender key) (dom (scores mp))"
    and "set (pelems SL (store_tx SL mp idx key t)) =
      insert (key\<lparr>senderElement := Some (nonce key)\<rparr>, t) (set (pelems SL mp))"
proof -
  let ?mp = "store_tx SL mp idx key t" and ?key = "key\<lparr>senderElement := Some (nonce key)\<rparr>"
  let ?view = "\<lambda>e. (elem_id e, snd e)"
  have laws: "mempool_laws SL mp" and index: "index_ok SL mp"
    and new: "\<forall>e \<in> set (pelems SL mp). elem_id e \<noteq> (nonce ?key, sender ?key)"
    using ok by (auto simp: almost_ok_def)
  note SL = mempool_lawsD(1) [OF laws]
  note set_facts = slSet_index [OF laws index new, of ?mp t]
  have mp': "priorityIndex ?mp = slSet SL (priorityIndex mp) ?key t" "pnCfg ?mp = pnCfg mp"
    by (simp_all add: store_tx_def)
  have index': "index_ok SL ?mp" and m: "mset (pelems SL ?mp) = add_mset (?key, t) (mset (pelems SL mp))"
    and set: "set (pelems SL ?mp) = insert (?key, t) (set (pelems SL mp))"
    using set_facts mp' by simp_all
  show "set (pelems SL ?mp) = insert (?key, t) (set (pelems SL mp))" by (rule set)
  show dom: "dom (scores ?mp) = insert (nonce key, sender key) (dom (scores mp))"
    by (simp add: store_tx_def)
  have counts: "counts_ok SL ?mp"
    using ok m by (auto simp: almost_ok_def counts_ok_def store_tx_def)
  have id: "elem_id (?key, t) = (nonce key, sender key)" by (simp add: elem_id_def)
  have "dom (scores ?mp) = elem_id ` set (pelems SL ?mp)"
    using ok unfolding dom set image_insert id by (auto simp: almost_ok_def)
  moreover have "priority sc = priority (fst e) \<and> weight sc = weight (fst e)"
    if "e \<in> set (pelems SL ?mp)" "scores ?mp (elem_id e) = Some sc" for e sc
    using that new w ok unfolding set by (auto simp: almost_ok_def store_tx_def id)
  ultimately have scores: "scores_ok SL ?mp" by (auto simp: scores_ok_def)
  have sidx: "sender_list_ok SL (sender key) idx" and others:
    "?view ` {e \<in> set (slElems SL idx). elem_id e \<noteq> (nonce key, sender key)} =
     ?view ` {e \<in> set (pelems SL mp). sender (fst e) = sender key}"
    using ok idx by (auto simp: almost_ok_def)
  obtain k where k: "nonce k = nonce key" "sender k = sender key"
    "set (slElems SL (slSet SL idx key t)) = insert (k, t) {e \<in> set (slElems SL idx). nonce (fst e) \<noteq> nonce key}"
    "sender_list_ok SL (sender key) (slSet SL idx key t)"
    by (rule slSet_sender [OF SL sidx refl])
  have view_k: "?view (k, t) = ?view (?key, t)" using k by (simp add: elem_id_def)
  have same: "{e \<in> set (slElems SL idx). nonce (fst e) \<noteq> nonce key} =
      {e \<in> set (slElems SL idx). elem_id e \<noteq> (nonce key, sender key)}"
    using sidx by (auto simp: sender_list_ok_def elem_id_def)
  have "sender_list_ok SL s i \<and> ?view ` set (slElems SL i) = ?view ` {e \<in> set (pelems SL ?mp). sender (fst e) = s}"
    if i: "senderIndices ?mp s = Some i" for s i
  proof (cases "s = sender key")
    case True
    then have i': "i = slSet SL idx key t" using i by (simp add: store_tx_def)
    have "{e \<in> set (pelems SL ?mp). sender (fst e) = s} = insert (?key, t) {e \<in> set (pelems SL mp). sender (fst e) = s}"
      unfolding set using True by auto
    then show ?thesis
      unfolding i' k(3) same image_insert view_k True using k(4) others by simp
  next
    case False
    then have i': "senderIndices mp s = Some i" using i by (simp add: store_tx_def)
    have i_ok: "sender_list_ok SL s i \<and> ?view ` {e \<in> set (slElems SL i). elem_id e \<noteq> (nonce key, sender key)} =
        ?view ` {e \<in> set (pelems SL mp). sender (fst e) = s}"
      using ok i' unfolding almost_ok_def by blast
    then have "{e \<in> set (slElems SL i). elem_id e \<noteq> (nonce key, sender key)} = set (slElems SL i)"
      using False by (auto simp: sender_list_ok_def elem_id_def)
    moreover have "{e \<in> set (pelems SL ?mp). sender (fst e) = s} = {e \<in> set (pelems SL mp). sender (fst e) = s}"
      unfolding set using False by auto
    ultimately show ?thesis using i_ok by simp
  qed
  moreover have "senderIndices ?mp (sender (fst e)) \<noteq> None" if "e \<in> set (pelems SL ?mp)" for e
    using that ok unfolding set by (auto simp: almost_ok_def store_tx_def)
  ultimately have "senders_ok SL ?mp" by (auto simp: senders_ok_def)
  then show "mempool_ok SL ?mp"
    using laws index' counts scores mp'(2) by (simp add: mempool_ok_def mempool_laws_def)
qed

lemma view_filter:
  "(\<lambda>e. (elem_id e, snd e)) ` {e \<in> A. elem_id e \<noteq> x} = {v \<in> (\<lambda>e. (elem_id e, snd e)) ` A. fst v \<noteq> x}"
  by auto

lemma almost_ok_absent:
  assumes ok: "mempool_ok SL mp" and none: "scores mp (nonce key, sender key) = None"
  shows "almost_ok SL mp key"
proof -
  have dom: "dom (scores mp) = elem_id ` set (pelems SL mp)" using ok by (simp add: mempool_ok_def scores_ok_def)
  have "(nonce key, sender key) \<notin> dom (scores mp)" using none by blast
  then have new: "\<forall>e \<in> set (pelems SL mp). elem_id e \<noteq> (nonce key, sender key)"
    using dom by (metis imageI)
  have "(\<lambda>e. (elem_id e, snd e)) ` {e \<in> set (slElems SL idx). elem_id e \<noteq> (nonce key, sender key)} =
      (\<lambda>e. (elem_id e, snd e)) ` {e \<in> set (pelems SL mp). sender (fst e) = s}"
    if "senderIndices mp s = Some idx" for s idx
  proof -
    have "(\<lambda>e. (elem_id e, snd e)) ` set (slElems SL idx) =
        (\<lambda>e. (elem_id e, snd e)) ` {e \<in> set (pelems SL mp). sender (fst e) = s}"
      using ok that by (simp add: mempool_ok_def senders_ok_def)
    then show ?thesis using new by (auto simp: view_filter)
  qed
  moreover have "dom (scores mp) - {(nonce key, sender key)} = elem_id ` set (pelems SL mp)"
    using dom new by auto
  ultimately show ?thesis
    using ok new by (simp add: almost_ok_def mempool_ok_def scores_ok_def senders_ok_def)
qed

lemma almost_ok_removed:
  assumes ok: "mempool_ok SL mp" and old: "scores mp (nonce key, sender key) = Some old"
  shows "almost_ok SL (remove_score SL mp old key) key"
proof -
  let ?mp = "remove_score SL mp old key" and ?id = "(nonce key, sender key)"
  have parts: "mempool_laws SL mp" "index_ok SL mp" "counts_ok SL mp" "scores_ok SL mp"
    using ok by (simp_all add: mempool_ok_def)
  note rm = remove_score_index [OF parts old]
  have same: "scores ?mp = scores mp" "senderIndices ?mp = senderIndices mp" "pnCfg ?mp = pnCfg mp"
    by (simp_all add: remove_score_def)
  have dom: "dom (scores mp) = elem_id ` set (pelems SL mp)" using parts(4) by (simp add: scores_ok_def)
  have "(\<lambda>e. (elem_id e, snd e)) ` {e \<in> set (slElems SL idx). elem_id e \<noteq> ?id} =
      (\<lambda>e. (elem_id e, snd e)) ` {e \<in> set (pelems SL ?mp). sender (fst e) = s}"
    if "senderIndices mp s = Some idx" for s idx
  proof -
    have "(\<lambda>e. (elem_id e, snd e)) ` set (slElems SL idx) =
        (\<lambda>e. (elem_id e, snd e)) ` {e \<in> set (pelems SL mp). sender (fst e) = s}"
      using ok that by (simp add: mempool_ok_def senders_ok_def)
    moreover have "{e \<in> set (pelems SL ?mp). sender (fst e) = s} =
        {e \<in> {e \<in> set (pelems SL mp). sender (fst e) = s}. elem_id e \<noteq> ?id}"
      unfolding rm(3) by auto
    ultimately show ?thesis by (simp only: view_filter)
  qed
  moreover have "dom (scores mp) - {?id} = elem_id ` set (pelems SL ?mp)"
    unfolding dom rm(3) by auto
  moreover have "mempool_laws SL ?mp" using parts(1) same(3) by (simp add: mempool_laws_def)
  ultimately show ?thesis
    using ok rm by (simp add: almost_ok_def same mempool_ok_def scores_ok_def senders_ok_def)
qed

text \<open>Making sure that the sender has an index changes nothing of the above.\<close>

lemma with_sender_ok:
  assumes ok: "mempool_ok SL mp"
  shows "mempool_ok SL (mp\<lparr>senderIndices := (senderIndices mp)(s \<mapsto>
    (case senderIndices mp s of Some idx \<Rightarrow> idx | None \<Rightarrow> slNew SL (nonceComparable SL)))\<rparr>)"
proof (cases "senderIndices mp s")
  case (Some idx)
  then have "(senderIndices mp)(s \<mapsto> idx) = senderIndices mp" by auto
  with Some ok show ?thesis by simp
next
  case None
  have SL: "skiplist_laws SL" using ok by (simp add: mempool_ok_def mempool_laws_def)
  have empty: "{e \<in> set (pelems SL mp). sender (fst e) = s} = {}"
    using ok None by (auto simp: mempool_ok_def senders_ok_def)
  have "sender_list_ok SL s (slNew SL (nonceComparable SL))"
    by (simp add: sender_list_ok_def skiplist_lawsD(1,2) [OF SL] descending_def)
  then show ?thesis
    using ok None empty
    by (auto simp: mempool_ok_def mempool_laws_def index_ok_def counts_ok_def scores_ok_def senders_ok_def
        skiplist_lawsD(1) [OF SL])
qed

lemma store_tx_frame:
  "pnCfg (store_tx SL mp idx key t) = pnCfg mp" "pnExtractor (store_tx SL mp idx key t) = pnExtractor mp"
  by (simp_all add: store_tx_def)

lemma insert_keyed_ok:
  assumes ok: "mempool_ok SL mp" and w: "weight key = cfgZero (pnCfg mp)"
    and run: "insert_keyed SL mp key t = (mp', r)"
  shows "mempool_ok SL mp' \<and> pnCfg mp' = pnCfg mp \<and> pnExtractor mp' = pnExtractor mp \<and>
    (if r = Ret () then dom (scores mp') = insert (nonce key, sender key) (dom (scores mp)) \<and>
        set (pelems SL mp') = insert (key\<lparr>senderElement := Some (nonce key)\<rparr>, t)
          {e \<in> set (pelems SL mp). elem_id e \<noteq> (nonce key, sender key)}
     else dom (scores mp') = dom (scores mp) \<and> set (pelems SL mp') = set (pelems SL mp))"
proof -
  define idx where "idx = (case senderIndices mp (sender key) of
    Some idx \<Rightarrow> idx | None \<Rightarrow> slNew SL (nonceComparable SL))"
  define mp0 where "mp0 = mp\<lparr>senderIndices := (senderIndices mp)(sender key \<mapsto> idx)\<rparr>"
  have ok0: "mempool_ok SL mp0" unfolding mp0_def idx_def by (rule with_sender_ok [OF ok])
  have same: "scores mp0 = scores mp" "pelems SL mp0 = pelems SL mp" "pnCfg mp0 = pnCfg mp"
    "pnExtractor mp0 = pnExtractor mp" "senderIndices mp0 (sender key) = Some idx"
    by (simp_all add: mp0_def)
  have run0: "insert_keyed SL mp key t =
      (case scores mp0 (nonce key, sender key) of
        None \<Rightarrow> (store_tx SL mp0 idx key t, Ret ())
      | Some oldScore \<Rightarrow>
          (case replacement_allowed SL (pnCfg mp0) idx oldScore key t of
             Panic \<Rightarrow> (mp0, Panic)
           | Err e \<Rightarrow> (mp0, Err e)
           | Ret False \<Rightarrow> (mp0, Err (Errorf ''tx doesn't fit the replacement rule, oldPriority: %v, newPriority: %v, oldTx: %v, newTx: %v''))
           | Ret True \<Rightarrow> (store_tx SL (remove_score SL mp0 oldScore key) idx key t, Ret ())))"
    by (simp only: insert_keyed_def Let_def idx_def [symmetric] mp0_def [symmetric])
  show ?thesis
  proof (cases "scores mp (nonce key, sender key)")
    case None
    then have "almost_ok SL mp0 key" using almost_ok_absent [OF ok0] same by simp
    note st = store_tx_ok [OF this same(5), of t]
    have res: "mp' = store_tx SL mp0 idx key t" "r = Ret ()" using run run0 None same by simp_all
    have "{e \<in> set (pelems SL mp). elem_id e \<noteq> (nonce key, sender key)} = set (pelems SL mp)"
      using None ok by (force simp: mempool_ok_def scores_ok_def)
    then show ?thesis using st w res same by (simp add: store_tx_frame)
  next
    case (Some old)
    let ?mp1 = "remove_score SL mp0 old key"
    have al: "almost_ok SL ?mp1 key" using almost_ok_removed [OF ok0] Some same by simp
    have same1: "senderIndices ?mp1 (sender key) = Some idx" "pnCfg ?mp1 = pnCfg mp" "scores ?mp1 = scores mp"
      "pnExtractor ?mp1 = pnExtractor mp"
      using same by (simp_all add: remove_score_def)
    note st = store_tx_ok [OF al same1(1), of t]
    have parts: "mempool_laws SL mp0" "index_ok SL mp0" "counts_ok SL mp0" "scores_ok SL mp0"
      using ok0 by (simp_all add: mempool_ok_def)
    have rest: "set (pelems SL ?mp1) = {e \<in> set (pelems SL mp). elem_id e \<noteq> (nonce key, sender key)}"
      using remove_score_index(3) [OF parts, of key old] Some same by simp
    consider "mp' = store_tx SL ?mp1 idx key t" "r = Ret ()" | "mp' = mp0" "r \<noteq> Ret ()"
      using run run0 Some same by (auto split: go.splits bool.splits)
    then show ?thesis
    proof cases
      case 1
      then show ?thesis using st w rest same1 by (simp add: store_tx_frame)
    next
      case 2
      then show ?thesis using ok0 same by simp
    qed
  qed
qed

section \<open>Remove keeps the invariant\<close>

text \<open>The key of a transaction: nonce and sender of its first signer.\<close>

definition tx_key :: "addr_ops \<Rightarrow> adapter \<Rightarrow> tx \<Rightarrow> (u64 \<times> string) option" where
  "tx_key A E t = (case E t of Ret (sig # _) \<Rightarrow> Some (Sequence sig, addrString A (Signer sig)) | _ \<Rightarrow> None)"

lemma slRemove_sender:
  assumes SL: "skiplist_laws SL" and ok: "sender_list_ok SL s idx"
  shows "set (slElems SL (slRemove SL idx k)) = {e \<in> set (slElems SL idx). nonce (fst e) \<noteq> nonce k}"
    and "sender_list_ok SL s (slRemove SL idx k)"
proof -
  have o: "ordering_cmp (nonceComparable SL)" using SL by (rule ordering_cmp_nonce)
  from ok have idx: "slCompare SL idx = nonceComparable SL" "descending (nonceComparable SL) (slElems SL idx)"
    by (auto simp: sender_list_ok_def)
  note R = skiplist_update(2) [OF SL idx(1) o idx(2), of k]
  show set: "set (slElems SL (slRemove SL idx k)) = {e \<in> set (slElems SL idx). nonce (fst e) \<noteq> nonce k}"
    unfolding R set_remove_elem by (auto simp: SL)
  have "descending (nonceComparable SL) (slElems SL (slRemove SL idx k))"
    unfolding R remove_elem_def by (rule descending_filter [OF idx(2)])
  then show "sender_list_ok SL s (slRemove SL idx k)"
    using ok skiplist_lawsD(5) [OF SL] set by (auto simp: sender_list_ok_def)
qed

lemma remove_entry_ok:
  assumes ok: "mempool_ok SL mp" and sc: "scores mp (nonce key, sender key) = Some sc"
    and idx: "senderIndices mp (sender key) = Some idx"
  defines "mp' \<equiv> (remove_score SL mp sc key)
    \<lparr> senderIndices := (senderIndices mp)(sender key \<mapsto> slRemove SL idx key),
      scores := (scores mp)((nonce key, sender key) := None) \<rparr>"
  shows "mempool_ok SL mp'"
proof -
  let ?mp1 = "remove_score SL mp sc key" and ?id = "(nonce key, sender key)"
  let ?view = "\<lambda>e. (elem_id e, snd e)"
  have al: "almost_ok SL ?mp1 key" by (rule almost_ok_removed [OF ok sc])
  have SL: "skiplist_laws SL" using ok by (simp add: mempool_ok_def mempool_laws_def)
  have same: "pelems SL mp' = pelems SL ?mp1" "pnCfg mp' = pnCfg ?mp1" "priorityCounts mp' = priorityCounts ?mp1"
    "priorityIndex mp' = priorityIndex ?mp1" "scores ?mp1 = scores mp" "senderIndices ?mp1 = senderIndices mp"
    by (simp_all add: mp'_def remove_score_def)
  have sidx: "sender_list_ok SL (sender key) idx" and view: "?view ` {e \<in> set (slElems SL idx). elem_id e \<noteq> ?id} =
      ?view ` {e \<in> set (pelems SL ?mp1). sender (fst e) = sender key}"
    using al idx same by (auto simp: almost_ok_def)
  note rm = slRemove_sender [OF SL sidx, of key]
  have nonces: "{e \<in> set (slElems SL idx). nonce (fst e) \<noteq> nonce key} = {e \<in> set (slElems SL idx). elem_id e \<noteq> ?id}"
    using sidx by (auto simp: sender_list_ok_def elem_id_def)
  have "sender_list_ok SL s i \<and> ?view ` set (slElems SL i) = ?view ` {e \<in> set (pelems SL mp'). sender (fst e) = s}"
    if i: "senderIndices mp' s = Some i" for s i
  proof (cases "s = sender key")
    case True
    then have "i = slRemove SL idx key" using i by (simp add: mp'_def)
    then show ?thesis using rm view nonces True same by simp
  next
    case False
    then have i': "senderIndices ?mp1 s = Some i" using i same(6) by (simp add: mp'_def)
    have i_ok: "sender_list_ok SL s i \<and> ?view ` {e \<in> set (slElems SL i). elem_id e \<noteq> ?id} =
        ?view ` {e \<in> set (pelems SL ?mp1). sender (fst e) = s}"
      using al i' unfolding almost_ok_def by blast
    then have "{e \<in> set (slElems SL i). elem_id e \<noteq> ?id} = set (slElems SL i)"
      using False by (auto simp: sender_list_ok_def elem_id_def)
    with i_ok same show ?thesis by simp
  qed
  moreover have "senderIndices mp' (sender (fst e)) \<noteq> None" if "e \<in> set (pelems SL mp')" for e
    using that al same by (auto simp: almost_ok_def mp'_def)
  ultimately have senders: "senders_ok SL mp'" by (auto simp: senders_ok_def)
  have "dom (scores mp') = dom (scores mp) - {?id}" by (simp add: mp'_def)
  then have scores: "scores_ok SL mp'"
    using al same by (auto simp: almost_ok_def scores_ok_def mp'_def split: if_splits)
  have "mempool_laws SL mp'" "index_ok SL mp'" "counts_ok SL mp'"
    using al same by (auto simp: almost_ok_def mempool_laws_def index_ok_def counts_ok_def)
  with senders scores show ?thesis by (simp add: mempool_ok_def)
qed

lemma PN_Remove_ok:
  assumes ok: "mempool_ok SL mp" and run: "PN_Remove SL A mp t = (mp', r)"
  shows "mempool_ok SL mp' \<and> pnCfg mp' = pnCfg mp \<and> pnExtractor mp' = pnExtractor mp \<and>
    dom (scores mp') = dom (scores mp) - set_option (tx_key A (pnExtractor mp) t) \<and>
    (r = Ret () \<longleftrightarrow> (\<exists>k. tx_key A (pnExtractor mp) t = Some k \<and> k \<in> dom (scores mp)))"
proof (cases "\<exists>sig sigs. pnExtractor mp t = Ret (sig # sigs)")
  case False
  then have "tx_key A (pnExtractor mp) t = None" by (auto simp: tx_key_def split: go.splits list.splits)
  moreover have "mp' = mp \<and> r \<noteq> Ret ()"
    using run False by (auto simp: PN_Remove_def split: go.splits list.splits)
  ultimately show ?thesis using ok by simp
next
  case True
  then obtain sig sigs where sig: "pnExtractor mp t = Ret (sig # sigs)" by blast
  define n where "n = Sequence sig"
  define s where "s = addrString A (Signer sig)"
  have key: "tx_key A (pnExtractor mp) t = Some (n, s)" using sig by (simp add: tx_key_def n_def s_def)
  show ?thesis
  proof (cases "scores mp (n, s)")
    case None
    then have "mp' = mp \<and> r \<noteq> Ret ()" using run sig by (auto simp: PN_Remove_def n_def s_def Let_def)
    then show ?thesis using ok key None by auto
  next
    case (Some sc)
    have "(n, s) \<in> elem_id ` set (pelems SL mp)"
      using Some ok unfolding mempool_ok_def scores_ok_def by blast
    then obtain e where e: "e \<in> set (pelems SL mp)" "elem_id e = (n, s)" by force
    then have "senderIndices mp s \<noteq> None" using ok by (auto simp: mempool_ok_def senders_ok_def elem_id_def)
    then obtain idx where idx: "senderIndices mp s = Some idx" by blast
    let ?k = "\<lparr> nonce = n, priority = priority sc, sender = s, weight = weight sc, senderElement = None \<rparr>"
    have mp': "mp' = (remove_score SL mp sc ?k)
      \<lparr> senderIndices := (senderIndices mp)(sender ?k \<mapsto> slRemove SL idx ?k),
        scores := (scores mp)((nonce ?k, sender ?k) := None) \<rparr>" and r: "r = Ret ()"
      using run sig Some idx by (auto simp: PN_Remove_def n_def s_def Let_def remove_score_def)
    have "mempool_ok SL mp'"
      unfolding mp' by (rule remove_entry_ok [OF ok]) (use Some idx in simp_all)
    then show ?thesis using key r Some by (auto simp: mp' remove_score_def)
  qed
qed

section \<open>Reordering keeps the invariant\<close>

abbreviation view :: "('sl, 'c) skiplist_ops \<Rightarrow> ('sl, 'ctx, 'c) PriorityNonceMempool \<Rightarrow> ((u64 \<times> string) \<times> tx) set" where
  "view SL mp \<equiv> (\<lambda>e. (elem_id e, snd e)) ` set (pelems SL mp)"

lemma reorder_one_ok:
  fixes mp :: "('sl, 'ctx, 'c) PriorityNonceMempool" and w :: 'c
  assumes ok: "mempool_ok SL mp" and e: "(key, t) \<in> set (pelems SL mp)"
  defines "mp' \<equiv> reorder_one SL (key, key\<lparr>weight := w\<rparr>, t) mp"
  shows "mempool_ok SL mp'" and "set (pelems SL mp') = insert (key\<lparr>weight := w\<rparr>, t) (set (pelems SL mp) - {(key, t)})"
    and "dom (scores mp') = dom (scores mp)" and "view SL mp' = view SL mp"
proof -
  let ?f = "skiplistComparable SL (cfgTxPriority (pnCfg mp))" and ?new = "key\<lparr>weight := w\<rparr>"
  define mp1 where "mp1 = mp\<lparr>priorityIndex := slRemove SL (priorityIndex mp) key\<rparr>"
  have laws: "mempool_laws SL mp" and laws1: "mempool_laws SL mp1"
    using ok by (simp_all add: mempool_ok_def mp1_def mempool_laws_def)
  note SL = mempool_lawsD(1,2) [OF laws]
  have idx: "slCompare SL (priorityIndex mp) = ?f" "descending ?f (pelems SL mp)" "inj_on elem_id (set (pelems SL mp))"
    "\<forall>e \<in> set (pelems SL mp). senderElement (fst e) = Some (nonce (fst e))"
    using ok by (auto simp: mempool_ok_def index_ok_def)
  have P1: "pelems SL mp1 = remove_elem ?f key (pelems SL mp)"
    using skiplist_update(2) [OF SL(1) idx(1) SL(2) idx(2)] by (simp add: mp1_def)
  have "?f key (fst (key, t)) = 0" using ordering_cmpD(1) [OF SL(2)] by simp
  note rm = remove_elem_found [OF SL(2) idx(2) e this, folded P1]
  have index1: "index_ok SL mp1"
    unfolding index_ok_def
  proof (intro conjI)
    show "slCompare SL (priorityIndex mp1) = skiplistComparable SL (cfgTxPriority (pnCfg mp1))"
      using skiplist_lawsD(5) [OF SL(1)] idx(1) by (simp add: mp1_def)
    show "descending (skiplistComparable SL (cfgTxPriority (pnCfg mp1))) (pelems SL mp1)"
      unfolding P1 remove_elem_def using descending_filter [OF idx(2)] by (simp add: mp1_def)
    show "inj_on elem_id (set (pelems SL mp1))"
      unfolding rm(1) by (rule inj_on_subset [OF idx(3)]) auto
    show "\<forall>e \<in> set (pelems SL mp1). senderElement (fst e) = Some (nonce (fst e))"
      unfolding rm(1) using idx(4) by auto
  qed
  have id: "elem_id (?new, t) = elem_id (key, t)" "elem_id (key, t) = (nonce ?new, sender ?new)"
    by (simp_all add: elem_id_def)
  have absent: "\<forall>e \<in> set (pelems SL mp1). elem_id e \<noteq> (nonce ?new, sender ?new)"
    using inj_onD [OF idx(3)] e unfolding rm(1) id(2) [symmetric] by blast
  have el: "senderElement ?new = Some (nonce ?new)" using idx(4) e by fastforce
  have mp': "priorityIndex mp' = slSet SL (priorityIndex mp1) ?new t" "pnCfg mp' = pnCfg mp1"
    by (simp_all add: mp'_def reorder_one_def mp1_def)
  note st = slSet_index [OF laws1 index1 absent el mp']
  show set: "set (pelems SL mp') = insert (?new, t) (set (pelems SL mp) - {(key, t)})"
    using st(3) rm(1) by simp
  have keep: "priorityCounts mp' = priorityCounts mp" "senderIndices mp' = senderIndices mp" "pnCfg mp' = pnCfg mp"
    "scores mp' = (scores mp)((nonce key, sender key) \<mapsto> ?new)"
    by (simp_all add: mp'_def reorder_one_def mp1_def)
  have in_dom: "(nonce key, sender key) \<in> dom (scores mp)"
    using ok e by (force simp: mempool_ok_def scores_ok_def elem_id_def)
  then show dom: "dom (scores mp') = dom (scores mp)" unfolding keep by auto
  obtain M where "mset (pelems SL mp) = add_mset (key, t) M"
    using e by (metis in_multiset_in_set insert_DiffM)
  then have "image_mset (\<lambda>e. priority (fst e)) (mset (pelems SL mp')) = image_mset (\<lambda>e. priority (fst e)) (mset (pelems SL mp))"
    using st(2) rm(2) by simp
  then have counts: "counts_ok SL mp'" using ok keep by (simp add: mempool_ok_def counts_ok_def)
  have ids: "elem_id ` set (pelems SL mp') = elem_id ` set (pelems SL mp)"
    unfolding set image_insert id(1) using e by (auto intro: rev_image_eqI)
  have "priority sc = priority (fst x) \<and> weight sc = weight (fst x)"
    if x: "x \<in> set (pelems SL mp')" "scores mp' (elem_id x) = Some sc" for x sc
  proof (cases "x = (?new, t)")
    case True
    then show ?thesis using x(2) by (simp add: keep elem_id_def)
  next
    case False
    then have "x \<in> set (pelems SL mp) - {(key, t)}" using x(1) set by blast
    moreover from this have "elem_id x \<noteq> (nonce key, sender key)"
      using absent rm(1) by auto
    ultimately show ?thesis using ok x(2) by (simp add: keep mempool_ok_def scores_ok_def)
  qed
  then have scores: "scores_ok SL mp'" using dom ids ok by (simp add: scores_ok_def mempool_ok_def)
  let ?v = "\<lambda>e :: 'c elem. (elem_id e, snd e)"
  have "?v (?new, t) = ?v (key, t)" using id(1) by simp
  then have "view SL mp' = ?v ` insert (key, t) (set (pelems SL mp) - {(key, t)})"
    unfolding set image_insert by simp
  also have "insert (key, t) (set (pelems SL mp) - {(key, t)}) = set (pelems SL mp)" by (rule insert_Diff [OF e])
  finally show view: "view SL mp' = view SL mp" .
  have restrict: "?v ` {e \<in> A. sender (fst e) = s} = {v \<in> ?v ` A. snd (fst v) = s}" for A :: "'c elem set" and s
    by (auto simp: elem_id_def)
  have "?v ` {e \<in> set (pelems SL mp'). sender (fst e) = s} = ?v ` {e \<in> set (pelems SL mp). sender (fst e) = s}" for s
    unfolding restrict using view by simp
  moreover have "senderIndices mp (sender (fst x)) \<noteq> None" if "x \<in> set (pelems SL mp')" for x
    using that ok e unfolding set by (auto simp: mempool_ok_def senders_ok_def)
  ultimately have senders: "senders_ok SL mp'" using ok by (simp add: mempool_ok_def senders_ok_def keep)
  show "mempool_ok SL mp'"
    using st(1) counts scores senders laws keep by (simp add: mempool_ok_def mempool_laws_def)
qed

lemma reorder_one_frame:
  "pnCfg (reorder_one SL x mp) = pnCfg mp" "pnExtractor (reorder_one SL x mp) = pnExtractor mp"
  "senderIndices (reorder_one SL x mp) = senderIndices mp"
  by (cases x, simp add: reorder_one_def)+

lemma reorder_fold_ok:
  fixes mp :: "('sl, 'ctx, 'c) PriorityNonceMempool" and W :: "'c txMeta \<Rightarrow> 'c"
  assumes "mempool_ok SL mp" and "distinct ks" and "set ks \<subseteq> set (pelems SL mp)"
  defines "mp' \<equiv> fold (reorder_one SL) (map (\<lambda>(key, t). (key, key\<lparr>weight := W key\<rparr>, t)) ks) mp"
  shows "mempool_ok SL mp' \<and> dom (scores mp') = dom (scores mp) \<and> view SL mp' = view SL mp \<and>
    pnCfg mp' = pnCfg mp \<and> pnExtractor mp' = pnExtractor mp \<and> senderIndices mp' = senderIndices mp"
  using assms(1-3) unfolding mp'_def
proof (induction ks arbitrary: mp)
  case Nil
  then show ?case by simp
next
  case (Cons k ks)
  obtain key t where k: "k = (key, t)" by (cases k)
  then have e: "(key, t) \<in> set (pelems SL mp)" using Cons.prems(3) by simp
  let ?mp1 = "reorder_one SL (key, key\<lparr>weight := W key\<rparr>, t) mp"
  note st = reorder_one_ok [OF Cons.prems(1) e, of "W key"]
  have "set ks \<subseteq> set (pelems SL ?mp1)" using Cons.prems(2,3) k unfolding st(2) by auto
  from Cons.IH [OF st(1) _ this] Cons.prems(2) st(3,4) k
  show ?case by (simp add: reorder_one_frame)
qed

lemma reorderPriorityTies_ok:
  assumes "mempool_ok SL mp"
  shows "mempool_ok SL (reorderPriorityTies SL mp)"
    and "dom (scores (reorderPriorityTies SL mp)) = dom (scores mp)"
    and "view SL (reorderPriorityTies SL mp) = view SL mp"
    and "pnCfg (reorderPriorityTies SL mp) = pnCfg mp"
    and "pnExtractor (reorderPriorityTies SL mp) = pnExtractor mp"
    and "senderIndices (reorderPriorityTies SL mp) = senderIndices mp"
proof -
  have "mempool_laws SL mp" and "index_ok SL mp" using assms by (simp_all add: mempool_ok_def)
  then have "distinct (pelems SL mp)"
    using descending_distinct [OF mempool_lawsD(2)] by (auto simp: index_ok_def)
  then have "distinct (filter (\<lambda>(key, t). priorityCounts mp (priority key) > 1) (pelems SL mp))" by simp
  from reorder_fold_ok [OF assms this, of "\<lambda>key. senderWeight (cfgTxPriority (pnCfg mp)) (sender_cursor SL mp key)"]
  show "mempool_ok SL (reorderPriorityTies SL mp)"
    and "dom (scores (reorderPriorityTies SL mp)) = dom (scores mp)"
    and "view SL (reorderPriorityTies SL mp) = view SL mp"
    and "pnCfg (reorderPriorityTies SL mp) = pnCfg mp"
    and "pnExtractor (reorderPriorityTies SL mp) = pnExtractor mp"
    and "senderIndices (reorderPriorityTies SL mp) = senderIndices mp"
    unfolding reorderPriorityTies_def reorderings_def by simp_all
qed

section \<open>A selection yields everything\<close>

text \<open>
  \<open>fresh\<close>: the keys in the senders' indices carry the priorities of the priority index. Replacing a
  transaction by one of another priority is the only operation that breaks it.
\<close>

definition fresh :: "('sl, 'c) skiplist_ops \<Rightarrow> ('sl, 'ctx, 'c) PriorityNonceMempool \<Rightarrow> bool" where
  "fresh SL mp \<longleftrightarrow> (\<forall>s idx. senderIndices mp s = Some idx \<longrightarrow> (\<forall>e \<in> set (slElems SL idx).
     \<forall>e' \<in> set (pelems SL mp). elem_id e' = elem_id e \<longrightarrow> priority (fst e') = priority (fst e)))"

definition rest :: "('sl, 'c) skiplist_ops \<Rightarrow> ('sl, 'ctx, 'c) PriorityNonceMempool \<Rightarrow> (string \<rightharpoonup> 'c elem list) \<Rightarrow>
    string \<Rightarrow> 'c elem list" where
  "rest SL mp cur s = (case next_elems SL mp cur s of None \<Rightarrow> [] | Some es \<Rightarrow> es)"

lemma rest_update [simp]: "rest SL mp (cur(s \<mapsto> c # cs)) s' = (if s' = s then cs else rest SL mp cur s')"
  by (simp add: rest_def next_elems_def)

text \<open>A transaction whose node is before the next node is not below it.\<close>

lemma not_below_next:
  assumes ok: "mempool_ok SL mp" and f: "fresh SL mp" and idx: "senderIndices mp s = Some idx" "c \<in> set (slElems SL idx)"
    and n: "n \<in> set (pelems SL mp)" "elem_id n = elem_id c"
    and nodes: "\<And>m ms. nodes = m # ms \<Longrightarrow> skiplistComparable SL (cfgTxPriority (pnCfg mp)) (fst n) (fst m) > 0"
  shows "\<not> below_next mp (fst c) nodes"
proof (cases nodes)
  case Nil
  then show ?thesis by (simp add: below_next_def)
next
  case (Cons m ms)
  let ?P = "cfgTxPriority (pnCfg mp)"
  have p: "priority (fst c) = priority (fst n)" using f idx n by (auto simp: fresh_def)
  have "elem_id n \<in> dom (scores mp)" using ok n(1) by (simp add: mempool_ok_def scores_ok_def)
  then obtain sc where sc: "scores mp (elem_id n) = Some sc" by blast
  have w: "weight sc = weight (fst n)" using ok n(1) sc by (simp add: mempool_ok_def scores_ok_def)
  have "scores mp (nonce (fst c), sender (fst c)) = Some sc" using sc n(2) by (simp add: elem_id_def)
  moreover have "PriorityCompare ?P (priority (fst n)) (priority (fst m)) > 0 \<or>
      PriorityCompare ?P (priority (fst n)) (priority (fst m)) = 0 \<and> PriorityCompare ?P (weight (fst n)) (weight (fst m)) \<ge> 0"
    using nodes [OF Cons] by (auto simp: skiplistComparable_def Let_def split: if_splits)
  ultimately show ?thesis using Cons p w by (auto simp: below_next_def Let_def)
qed

lemma sorted_before:
  assumes "mempool_ok SL mp" and "pelems SL mp = xs @ ys" and "x \<in> set xs" and "y \<in> set ys"
  shows "skiplistComparable SL (cfgTxPriority (pnCfg mp)) (fst x) (fst y) > 0"
proof -
  have "descending (skiplistComparable SL (cfgTxPriority (pnCfg mp))) (pelems SL mp)"
    using assms(1) unfolding mempool_ok_def index_ok_def by (elim conjE)
  then show ?thesis using assms(2-) by (simp add: descending_def sorted_wrt_append)
qed

lemma iterate_complete:
  assumes ok: "mempool_ok SL mp" and f: "fresh SL mp" and "pelems SL mp = passed @ nodes"
    and "\<And>s. set (rest SL mp cur s) \<subseteq> (case senderIndices mp s of None \<Rightarrow> {} | Some idx \<Rightarrow> set (slElems SL idx))"
    and "\<And>s. rest SL mp cur s = [] \<or> (\<exists>n \<in> set nodes. elem_id n = elem_id (hd (rest SL mp cur s))) \<or>
      (nodes \<noteq> [] \<and> sender (fst (hd nodes)) = s)"
  shows "\<exists>es. iterate SL mp nodes cur = Ret es \<and> (\<forall>s. filter (\<lambda>e. sender (fst e) = s) es = rest SL mp cur s)"
  using assms
proof (induction SL mp nodes cur arbitrary: passed rule: iterate.induct)
  case (1 SL mp cur)
  then show ?case by simp
next
  case (2 SL mp node nodes cur)
  note ok = "2.prems"(1) and f = "2.prems"(2) and split = "2.prems"(3) and sub = "2.prems"(4) and J = "2.prems"(5)
  let ?s = "sender (fst node)"
  have split': "pelems SL mp = (passed @ [node]) @ nodes" using split by simp
  have sub_idx: "c \<in> set (rest SL mp cur s) \<Longrightarrow> \<exists>idx. senderIndices mp s = Some idx \<and> c \<in> set (slElems SL idx)" for c s
    using sub [of s] by (auto split: option.splits)
  have sender_rest: "c \<in> set (rest SL mp cur s) \<Longrightarrow> sender (fst c) = s" for c s
    using sub_idx [of c s] ok unfolding mempool_ok_def senders_ok_def sender_list_ok_def by blast
  have "node \<in> set (pelems SL mp)" using split by simp
  then have "senderIndices mp ?s \<noteq> None" using ok by (simp add: mempool_ok_def senders_ok_def)
  then obtain l where l: "next_elems SL mp cur ?s = Some l" by (cases "cur ?s") (auto simp: next_elems_def)
  then have rest_s: "rest SL mp cur ?s = l" by (simp add: rest_def)
  have J_others: "rest SL mp cur s = [] \<or> (\<exists>n \<in> set nodes. elem_id n = elem_id (hd (rest SL mp cur s)))"
    if "s \<noteq> ?s" for s
  proof (rule ccontr)
    assume *: "\<not> ?thesis"
    then have ne: "rest SL mp cur s \<noteq> []" by blast
    with J [of s] that * have "elem_id node = elem_id (hd (rest SL mp cur s))" by auto
    then have "?s = sender (fst (hd (rest SL mp cur s)))" by (simp add: elem_id_def)
    also have "\<dots> = s" using sender_rest [OF hd_in_set [OF ne]] .
    finally show False using that by simp
  qed
  show ?case
  proof (cases l)
    case Nil
    have "rest SL mp cur s = [] \<or> (\<exists>n \<in> set nodes. elem_id n = elem_id (hd (rest SL mp cur s))) \<or>
        (nodes \<noteq> [] \<and> sender (fst (hd nodes)) = s)" for s
      using J_others [of s] rest_s Nil by (cases "s = ?s") auto
    from "2.IH"(1) [OF l Nil ok f split' sub this] l Nil show ?thesis by simp
  next
    case (Cons c cs)
    have c: "c \<in> set (rest SL mp cur ?s)" using rest_s Cons by simp
    from sub_idx [OF c] obtain idx where idx: "senderIndices mp ?s = Some idx" "c \<in> set (slElems SL idx)" by blast
    have "(elem_id c, snd c) \<in> (\<lambda>e. (elem_id e, snd e)) ` {e \<in> set (pelems SL mp). sender (fst e) = ?s}"
      using ok idx unfolding mempool_ok_def senders_ok_def by blast
    then obtain n where n: "n \<in> set (pelems SL mp)" "elem_id n = elem_id c" by auto
    show ?thesis
    proof (cases "below_next mp (fst c) nodes")
      case True
      have "n \<in> set nodes"
      proof (rule ccontr)
        assume "n \<notin> set nodes"
        then have n_in: "n \<in> set (passed @ [node])" using n(1) split' by simp
        have "skiplistComparable SL (cfgTxPriority (pnCfg mp)) (fst n) (fst m) > 0" if "nodes = m # ms" for m ms
          by (rule sorted_before [OF ok split' n_in]) (simp add: that)
        then have "\<not> below_next mp (fst c) nodes" by (rule not_below_next [OF ok f idx n])
        then show False using True by (rule notE)
      qed
      then have "rest SL mp cur s = [] \<or> (\<exists>n \<in> set nodes. elem_id n = elem_id (hd (rest SL mp cur s))) \<or>
          (nodes \<noteq> [] \<and> sender (fst (hd nodes)) = s)" for s
        using J_others [of s] rest_s Cons n(2) by (cases "s = ?s") auto
      from "2.IH"(2) [OF l Cons True ok f split' sub this] l Cons True show ?thesis by simp
    next
      case False
      let ?cur = "cur(?s \<mapsto> c # cs)"
      have sub': "set (rest SL mp ?cur s) \<subseteq> (case senderIndices mp s of None \<Rightarrow> {} | Some idx \<Rightarrow> set (slElems SL idx))" for s
        using sub [of s] rest_s Cons by (cases "s = ?s") auto
      have J': "rest SL mp ?cur s = [] \<or> (\<exists>n \<in> set (node # nodes). elem_id n = elem_id (hd (rest SL mp ?cur s))) \<or>
          (node # nodes \<noteq> [] \<and> sender (fst (hd (node # nodes))) = s)" for s
        using J [of s] by (cases "s = ?s") auto
      from "2.IH"(3) [OF l Cons False ok f split sub' J']
      obtain es where es: "iterate SL mp (node # nodes) ?cur = Ret es"
        "\<forall>s. filter (\<lambda>e. sender (fst e) = s) es = rest SL mp ?cur s" by blast
      have "iterate SL mp (node # nodes) cur = Ret (c # es)" using l Cons False es(1) by simp
      moreover have "filter (\<lambda>e. sender (fst e) = s) (c # es) = rest SL mp cur s" for s
        using es(2) sender_rest [OF c] rest_s Cons by (cases "s = ?s") auto
      ultimately show ?thesis by blast
    qed
  qed
qed

end
