(* ===== verification/Mempool_Reach.thy ===== *)
theory Mempool_Reach
  imports Priority_Mempool_Lemmas Base_Lane_Lemmas
begin

text \<open>
  The states a priority nonce mempool can reach. \<open>pn_step\<close> is one call of \<open>Insert\<close>, \<open>Remove\<close> or
  \<open>Select\<close>; the invariant of \<open>Priority_Mempool_Lemmas\<close> holds in every reachable state, and if the
  priority of a transaction is a function of its sender and nonce, a selection is complete. The last
  part has a concrete skip list, and the two states in which the code goes wrong. A transaction that
  replaces another can be passed by: when, is stated for every reachable mempool.
\<close>

section \<open>Insert\<close>

lemma PN_Insert_cases:
  assumes run: "PN_Insert SL A mp ctx t = (mp', r)"
  obtains (unchanged) "mp' = mp" and "r = Ret () \<longrightarrow> cfgMaxTx (pnCfg mp) < 0"
  | (keyed) n s p where "tx_key A (pnExtractor mp) t = Some (n, s)" and "0 \<le> cfgMaxTx (pnCfg mp)"
      and "GetTxPriority (cfgTxPriority (pnCfg mp)) ctx t = Ret p"
      and "insert_keyed SL mp \<lparr> nonce = n, priority = p, sender = s, weight = cfgZero (pnCfg mp),
        senderElement = None \<rparr> t = (mp', r)"
proof (cases "\<exists>sig sigs p. pnExtractor mp t = Ret (sig # sigs) \<and>
    GetTxPriority (cfgTxPriority (pnCfg mp)) ctx t = Ret p \<and> \<not> cfgMaxTx (pnCfg mp) < 0 \<and>
    \<not> (cfgMaxTx (pnCfg mp) > 0 \<and> int (PN_CountTx SL mp) \<ge> cfgMaxTx (pnCfg mp))")
  case True
  then obtain sig sigs p where "pnExtractor mp t = Ret (sig # sigs)"
    "GetTxPriority (cfgTxPriority (pnCfg mp)) ctx t = Ret p" "\<not> cfgMaxTx (pnCfg mp) < 0"
    "\<not> (cfgMaxTx (pnCfg mp) > 0 \<and> int (PN_CountTx SL mp) \<ge> cfgMaxTx (pnCfg mp))" by blast
  with run keyed show thesis by (auto simp: PN_Insert_def tx_key_def)
next
  case False
  then have "mp' = mp \<and> (r = Ret () \<longrightarrow> cfgMaxTx (pnCfg mp) < 0)"
    using run by (auto simp: PN_Insert_def split: if_splits go.splits list.splits)
  with unchanged show thesis by blast
qed

lemma PN_Insert_ok:
  assumes ok: "mempool_ok SL mp" and run: "PN_Insert SL A mp ctx t = (mp', r)"
  shows "mempool_ok SL mp'" and "pnCfg mp' = pnCfg mp" and "pnExtractor mp' = pnExtractor mp"
    and "r \<noteq> Ret () \<Longrightarrow> dom (scores mp') = dom (scores mp)"
    and "r = Ret () \<Longrightarrow> 0 \<le> cfgMaxTx (pnCfg mp) \<Longrightarrow>
      \<exists>k. tx_key A (pnExtractor mp) t = Some k \<and> dom (scores mp') = insert k (dom (scores mp))"
proof -
  have "mempool_ok SL mp' \<and> pnCfg mp' = pnCfg mp \<and> pnExtractor mp' = pnExtractor mp \<and>
      (r \<noteq> Ret () \<longrightarrow> dom (scores mp') = dom (scores mp)) \<and>
      (r = Ret () \<and> 0 \<le> cfgMaxTx (pnCfg mp) \<longrightarrow>
        (\<exists>k. tx_key A (pnExtractor mp) t = Some k \<and> dom (scores mp') = insert k (dom (scores mp))))"
    using run
  proof (cases rule: PN_Insert_cases)
    case unchanged
    then show ?thesis using ok by auto
  next
    case (keyed n s p)
    from insert_keyed_ok [OF ok _ keyed(4)] keyed(1) show ?thesis by (auto split: if_splits)
  qed
  then show "mempool_ok SL mp'" "pnCfg mp' = pnCfg mp" "pnExtractor mp' = pnExtractor mp"
    "r \<noteq> Ret () \<Longrightarrow> dom (scores mp') = dom (scores mp)"
    "r = Ret () \<Longrightarrow> 0 \<le> cfgMaxTx (pnCfg mp) \<Longrightarrow>
      \<exists>k. tx_key A (pnExtractor mp) t = Some k \<and> dom (scores mp') = insert k (dom (scores mp))"
    by blast+
qed

lemma PN_Select_ok:
  assumes "mempool_ok SL mp" and "PN_Select SL mp = (mp', r)"
  shows "mempool_ok SL mp'" and "dom (scores mp') = dom (scores mp)" and "view SL mp' = view SL mp"
    and "pnCfg mp' = pnCfg mp" and "pnExtractor mp' = pnExtractor mp"
proof -
  consider "mp' = mp" | "mp' = reorderPriorityTies SL mp"
    using assms(2) by (auto simp: PN_Select_def Let_def split: if_splits)
  then have "mempool_ok SL mp' \<and> dom (scores mp') = dom (scores mp) \<and> view SL mp' = view SL mp \<and>
      pnCfg mp' = pnCfg mp \<and> pnExtractor mp' = pnExtractor mp"
    using assms(1) reorderPriorityTies_ok [OF assms(1)] by cases simp_all
  then show "mempool_ok SL mp'" and "dom (scores mp') = dom (scores mp)" and "view SL mp' = view SL mp"
    and "pnCfg mp' = pnCfg mp" and "pnExtractor mp' = pnExtractor mp" by blast+
qed

lemma PN_CountTx_eq:
  assumes "mempool_ok SL mp"
  shows "PN_CountTx SL mp = card (dom (scores mp))"
proof -
  have "mempool_laws SL mp" and "index_ok SL mp" and "scores_ok SL mp" using assms by (simp_all add: mempool_ok_def)
  then have "distinct (pelems SL mp)" and "inj_on elem_id (set (pelems SL mp))"
    and "dom (scores mp) = elem_id ` set (pelems SL mp)"
    using descending_distinct [OF mempool_lawsD(2)] by (auto simp: index_ok_def scores_ok_def)
  then show ?thesis
    using skiplist_lawsD(3) [OF mempool_lawsD(1) [OF \<open>mempool_laws SL mp\<close>]]
    by (simp add: PN_CountTx_def card_image distinct_card)
qed

lemma PN_Contains_eq:
  "(\<forall>u. pnExtractor mp u \<noteq> Panic) \<Longrightarrow>
   PN_Contains A mp t = Ret (\<exists>k \<in> dom (scores mp). tx_key A (pnExtractor mp) t = Some k)"
  by (auto simp: PN_Contains_def tx_key_def dom_def split: go.splits list.splits)


section \<open>Priorities that depend on the key only\<close>

text \<open>
  \<open>keyed f\<close>: every element, in the priority index and in the senders' indices, carries the priority
  \<open>f\<close> gives to its key. Then the two indices agree on the priorities.
\<close>

definition carries :: "(u64 \<times> string \<Rightarrow> 'c) \<Rightarrow> 'c elem \<Rightarrow> bool" where
  "carries f e \<longleftrightarrow> priority (fst e) = f (nonce (fst e), sender (fst e))"

definition keyed ::
    "(u64 \<times> string \<Rightarrow> 'c) \<Rightarrow> ('sl, 'c) skiplist_ops \<Rightarrow> ('sl, 'ctx, 'c) PriorityNonceMempool \<Rightarrow> bool" where
  "keyed f SL mp \<longleftrightarrow> (\<forall>e \<in> set (pelems SL mp). carries f e) \<and>
     (\<forall>s idx. senderIndices mp s = Some idx \<longrightarrow> (\<forall>e \<in> set (slElems SL idx). carries f e))"

lemma keyed_fresh: "keyed f SL mp \<Longrightarrow> fresh SL mp"
  by (simp add: keyed_def fresh_def carries_def elem_id_def)

lemma insert_keyed_senders:
  assumes "insert_keyed SL mp key t = (mp', r)"
  defines "idx \<equiv> case senderIndices mp (sender key) of Some idx \<Rightarrow> idx | None \<Rightarrow> slNew SL (nonceComparable SL)"
  shows "senderIndices mp' = (senderIndices mp)(sender key \<mapsto> idx) \<or>
    senderIndices mp' = (senderIndices mp)(sender key \<mapsto> slSet SL idx key t)"
  using assms(1) unfolding insert_keyed_def Let_def idx_def [symmetric]
  by (auto simp: store_tx_def remove_score_def split: option.splits go.splits bool.splits)

lemma insert_keyed_keyed:
  assumes ok: "mempool_ok SL mp" and k: "keyed f SL mp" and w: "weight key = cfgZero (pnCfg mp)"
    and p: "priority key = f (nonce key, sender key)" and run: "insert_keyed SL mp key t = (mp', r)"
  shows "keyed f SL mp'"
proof -
  define idx where "idx = (case senderIndices mp (sender key) of
    Some idx \<Rightarrow> idx | None \<Rightarrow> slNew SL (nonceComparable SL))"
  have SL: "skiplist_laws SL" using ok by (simp add: mempool_ok_def mempool_laws_def)
  have idx_ok: "sender_list_ok SL (sender key) idx"
    using ok by (auto simp: idx_def mempool_ok_def senders_ok_def sender_list_ok_def descending_def
        skiplist_lawsD(1,2) [OF SL] split: option.splits)
  have idx_k: "\<forall>e \<in> set (slElems SL idx). carries f e"
    using k by (auto simp: idx_def keyed_def skiplist_lawsD(1) [OF SL] split: option.splits)
  obtain k' where k': "nonce k' = nonce key" "sender k' = sender key"
    "k' = key \<or> (\<exists>u. (k', u) \<in> set (slElems SL idx))"
    "set (slElems SL (slSet SL idx key t)) = insert (k', t) {e \<in> set (slElems SL idx). nonce (fst e) \<noteq> nonce key}"
    by (rule slSet_sender [OF SL idx_ok refl])
  have "priority k' = f (nonce k', sender k')" using k'(1-3) p idx_k by (auto simp: carries_def)
  then have set_k: "\<forall>e \<in> set (slElems SL (slSet SL idx key t)). carries f e"
    using idx_k unfolding k'(4) by (simp add: carries_def)
  have "\<forall>e \<in> set (slElems SL i). carries f e" if i: "senderIndices mp' s = Some i" for s i
  proof -
    consider "senderIndices mp s = Some i" | "i = idx" | "i = slSet SL idx key t"
      using insert_keyed_senders [OF run, folded idx_def] i by (cases "s = sender key") auto
    then show ?thesis using k idx_k set_k unfolding keyed_def by cases blast+
  qed
  moreover have "carries f e" if "e \<in> set (pelems SL mp')" for e
  proof -
    have "carries f (key\<lparr>senderElement := Some (nonce key)\<rparr>, t)" using p by (simp add: carries_def)
    moreover have "e = (key\<lparr>senderElement := Some (nonce key)\<rparr>, t) \<or> e \<in> set (pelems SL mp)"
      using insert_keyed_ok [OF ok w run] that by (cases "r = Ret ()") auto
    ultimately show ?thesis using k unfolding keyed_def by blast
  qed
  ultimately show ?thesis by (simp add: keyed_def)
qed

lemma PN_Insert_keyed:
  assumes ok: "mempool_ok SL mp" and k: "keyed f SL mp" and run: "PN_Insert SL A mp ctx t = (mp', r)"
    and f: "\<And>n s p. tx_key A (pnExtractor mp) t = Some (n, s) \<Longrightarrow>
      GetTxPriority (cfgTxPriority (pnCfg mp)) ctx t = Ret p \<Longrightarrow> p = f (n, s)"
  shows "keyed f SL mp'"
  using run
proof (cases rule: PN_Insert_cases)
  case unchanged
  then show ?thesis using k by simp
next
  case (keyed n s p)
  show ?thesis by (rule insert_keyed_keyed [OF ok k _ _ keyed(4)]) (use f keyed in simp_all)
qed

lemma PN_Remove_cases:
  assumes run: "PN_Remove SL A mp t = (mp', r)"
  obtains "mp' = mp" | n s sc idx where "scores mp (n, s) = Some sc" "senderIndices mp s = Some idx"
    "mp' = (remove_score SL mp sc \<lparr> nonce = n, priority = priority sc, sender = s, weight = weight sc, senderElement = None \<rparr>)
      \<lparr> senderIndices := (senderIndices mp)(s \<mapsto> slRemove SL idx
          \<lparr> nonce = n, priority = priority sc, sender = s, weight = weight sc, senderElement = None \<rparr>),
        scores := (scores mp)((n, s) := None) \<rparr>"
proof (cases "\<exists>sig sigs sc idx. pnExtractor mp t = Ret (sig # sigs) \<and>
    scores mp (Sequence sig, addrString A (Signer sig)) = Some sc \<and>
    senderIndices mp (addrString A (Signer sig)) = Some idx")
  case True
  then obtain sig sigs sc idx where sig: "pnExtractor mp t = Ret (sig # sigs)"
    and sc: "scores mp (Sequence sig, addrString A (Signer sig)) = Some sc"
    and idx: "senderIndices mp (addrString A (Signer sig)) = Some idx" by blast
  define n where "n = Sequence sig"
  define s where "s = addrString A (Signer sig)"
  show thesis
  proof (rule that(2) [of n s sc idx])
    show "scores mp (n, s) = Some sc" "senderIndices mp s = Some idx" using sc idx by (simp_all add: n_def s_def)
    show "mp' = (remove_score SL mp sc \<lparr> nonce = n, priority = priority sc, sender = s, weight = weight sc, senderElement = None \<rparr>)
      \<lparr> senderIndices := (senderIndices mp)(s \<mapsto> slRemove SL idx
          \<lparr> nonce = n, priority = priority sc, sender = s, weight = weight sc, senderElement = None \<rparr>),
        scores := (scores mp)((n, s) := None) \<rparr>"
      using run sig sc idx by (auto simp: PN_Remove_def n_def s_def Let_def remove_score_def)
  qed
next
  case False
  then have "mp' = mp"
    using run by (auto simp: PN_Remove_def Let_def split: go.splits list.splits option.splits)
  with that(1) show thesis .
qed

lemma PN_Remove_keyed:
  assumes ok: "mempool_ok SL mp" and k: "keyed f SL mp" and run: "PN_Remove SL A mp t = (mp', r)"
  shows "keyed f SL mp'"
proof -
  consider "mp' = mp" | n s sc idx where "scores mp (n, s) = Some sc" "senderIndices mp s = Some idx"
    "mp' = (remove_score SL mp sc \<lparr> nonce = n, priority = priority sc, sender = s, weight = weight sc, senderElement = None \<rparr>)
      \<lparr> senderIndices := (senderIndices mp)(s \<mapsto> slRemove SL idx
          \<lparr> nonce = n, priority = priority sc, sender = s, weight = weight sc, senderElement = None \<rparr>),
        scores := (scores mp)((n, s) := None) \<rparr>"
    by (rule PN_Remove_cases [OF run])
  then show ?thesis
  proof cases
    case 1
    then show ?thesis using k by simp
  next
    case (2 n s sc idx)
    let ?k = "\<lparr> nonce = n, priority = priority sc, sender = s, weight = weight sc, senderElement = None \<rparr>"
    have parts: "mempool_laws SL mp" "index_ok SL mp" "counts_ok SL mp" "scores_ok SL mp"
      using ok by (simp_all add: mempool_ok_def)
    have "scores mp (nonce ?k, sender ?k) = Some sc" using 2 by simp
    note rest = remove_score_index(3) [OF parts this]
    have "sender_list_ok SL s idx" using ok 2(2) by (auto simp: mempool_ok_def senders_ok_def)
    note senders = slRemove_sender(1) [OF mempool_lawsD(1) [OF parts(1)] this, of ?k]
    have pel: "pelems SL mp' = pelems SL (remove_score SL mp sc ?k)"
      and snd_idx: "senderIndices mp' = (senderIndices mp)(s \<mapsto> slRemove SL idx ?k)" using 2(3) by simp_all
    have old: "\<forall>e \<in> set (slElems SL i). carries f e" if "senderIndices mp s' = Some i" for s' i
      using k that unfolding keyed_def by blast
    have new: "\<forall>e \<in> set (slElems SL (slRemove SL idx ?k)). carries f e"
      using old [OF 2(2)] unfolding senders by blast
    have "\<forall>e \<in> set (slElems SL i). carries f e" if i: "senderIndices mp' s' = Some i" for s' i
    proof (cases "s' = s")
      case True
      then have "i = slRemove SL idx ?k" using i unfolding snd_idx by simp
      then show ?thesis using new by (simp only:)
    next
      case False
      then have "senderIndices mp s' = Some i" using i unfolding snd_idx by simp
      then show ?thesis by (rule old)
    qed
    moreover have "\<forall>e \<in> set (pelems SL mp'). carries f e"
      using k unfolding pel rest keyed_def by blast
    ultimately show ?thesis unfolding keyed_def by blast
  qed
qed

lemma reorder_fold_keyed:
  fixes mp :: "('sl, 'ctx, 'c) PriorityNonceMempool" and W :: "'c txMeta \<Rightarrow> 'c"
  assumes "mempool_ok SL mp" and "distinct ks" and "set ks \<subseteq> set (pelems SL mp)" and "keyed f SL mp"
  shows "keyed f SL (fold (reorder_one SL) (map (\<lambda>(key, t). (key, key\<lparr>weight := W key\<rparr>, t)) ks) mp)"
  using assms
proof (induction ks arbitrary: mp)
  case Nil
  then show ?case by simp
next
  case (Cons k ks)
  obtain key t where k: "k = (key, t)" by (cases k)
  then have e: "(key, t) \<in> set (pelems SL mp)" using Cons.prems(3) by simp
  note st = reorder_one_ok [OF Cons.prems(1) e, of "W key"]
  have "set ks \<subseteq> set (pelems SL (reorder_one SL (key, key\<lparr>weight := W key\<rparr>, t) mp))"
    using Cons.prems(2,3) k unfolding st(2) by auto
  moreover have "priority key = f (nonce key, sender key)"
    using Cons.prems(4) e by (auto simp: keyed_def carries_def)
  then have "keyed f SL (reorder_one SL (key, key\<lparr>weight := W key\<rparr>, t) mp)"
    using Cons.prems(4) unfolding keyed_def st(2) by (simp add: reorder_one_frame carries_def)
  ultimately show ?case using Cons.IH [OF st(1)] Cons.prems(2) k by simp
qed

lemma reorderPriorityTies_keyed:
  assumes "mempool_ok SL mp" and "keyed f SL mp"
  shows "keyed f SL (reorderPriorityTies SL mp)"
proof -
  have "mempool_laws SL mp" and "index_ok SL mp" using assms by (simp_all add: mempool_ok_def)
  then have "distinct (pelems SL mp)"
    using descending_distinct [OF mempool_lawsD(2)] by (auto simp: index_ok_def)
  then have "distinct (filter (\<lambda>(key, t). priorityCounts mp (priority key) > 1) (pelems SL mp))" by simp
  from reorder_fold_keyed [OF assms(1) this _ assms(2),
    of "\<lambda>key. senderWeight (cfgTxPriority (pnCfg mp)) (sender_cursor SL mp key)"]
  show ?thesis unfolding reorderPriorityTies_def reorderings_def by auto
qed


section \<open>A selection is complete\<close>

lemma sender_list_nonces:
  assumes "skiplist_laws SL" and "sender_list_ok SL s idx"
  shows "sorted_wrt (<) (map (\<lambda>e. nonce (fst e)) (slElems SL idx))"
proof -
  have lt: "nonceComparable SL a b > 0 \<longleftrightarrow> nonce a < nonce b" for a b
    by (auto simp: nonceComparable_def skiplist_lawsD(8) [OF assms(1)])
  have "descending (nonceComparable SL) (slElems SL idx)" using assms(2) by (simp add: sender_list_ok_def)
  then show ?thesis by (simp add: descending_def sorted_wrt_map lt)
qed

text \<open>
  \<open>in_nonce_order\<close>: every sender's transactions come once, in the order of their nonces.
\<close>

definition in_nonce_order :: "'c elem list \<Rightarrow> bool" where
  "in_nonce_order es \<longleftrightarrow>
     (\<forall>s. sorted_wrt (<) (map (\<lambda>e. nonce (fst e)) (filter (\<lambda>e. sender (fst e) = s) es)))"

lemma in_nonce_order_distinct: "in_nonce_order es \<Longrightarrow> distinct (map elem_id es)"
proof (induction es)
  case Nil
  then show ?case by simp
next
  case (Cons e es)
  have order: "sorted_wrt (<) (map (\<lambda>e. nonce (fst e)) (filter (\<lambda>e'. sender (fst e') = s) (e # es)))" for s
    using Cons.prems unfolding in_nonce_order_def by blast
  have "sorted_wrt (<) (map (\<lambda>e. nonce (fst e)) (filter (\<lambda>e'. sender (fst e') = s) es))" for s
    using order [of s] by (auto split: if_splits)
  then have "distinct (map elem_id es)" using Cons.IH by (simp add: in_nonce_order_def)
  moreover have "elem_id e \<noteq> elem_id e'" if "e' \<in> set es" for e'
  proof
    assume "elem_id e = elem_id e'"
    then have "nonce (fst e) = nonce (fst e')" "sender (fst e') = sender (fst e)" by (simp_all add: elem_id_def)
    moreover have "\<forall>x \<in> set (filter (\<lambda>e'. sender (fst e') = sender (fst e)) es). nonce (fst e) < nonce (fst x)"
      using order [of "sender (fst e)"] by simp
    ultimately show False using that by fastforce
  qed
  ultimately show ?case by auto
qed

lemma iterate_all:
  assumes ok: "mempool_ok SL mp" and f: "fresh SL mp"
  obtains es where "iterate SL mp (pelems SL mp) Map.empty = Ret es"
    and "(\<lambda>e. (elem_id e, snd e)) ` set es = view SL mp" and "in_nonce_order es"
proof -
  let ?v = "\<lambda>e. (elem_id e, snd e)"
  have SL: "skiplist_laws SL" using ok by (simp add: mempool_ok_def mempool_laws_def)
  have rest0: "rest SL mp Map.empty s = (case senderIndices mp s of None \<Rightarrow> [] | Some idx \<Rightarrow> slElems SL idx)" for s
    by (simp add: rest_def next_elems_def split: option.splits)
  have sidx: "sender_list_ok SL s idx \<and> ?v ` set (slElems SL idx) = ?v ` {e \<in> set (pelems SL mp). sender (fst e) = s}"
    if "senderIndices mp s = Some idx" for s idx
    using ok that unfolding mempool_ok_def senders_ok_def by blast
  have sub: "set (rest SL mp Map.empty s) \<subseteq> (case senderIndices mp s of None \<Rightarrow> {} | Some idx \<Rightarrow> set (slElems SL idx))" for s
    by (simp add: rest0 split: option.splits)
  have hd_in: "rest SL mp Map.empty s = [] \<or>
      (\<exists>n \<in> set (pelems SL mp). elem_id n = elem_id (hd (rest SL mp Map.empty s))) \<or>
      (pelems SL mp \<noteq> [] \<and> sender (fst (hd (pelems SL mp))) = s)" for s
  proof (cases "rest SL mp Map.empty s")
    case (Cons c cs)
    then obtain idx where idx: "senderIndices mp s = Some idx" "c \<in> set (slElems SL idx)"
      by (auto simp: rest0 split: option.splits)
    then have "?v c \<in> ?v ` {e \<in> set (pelems SL mp). sender (fst e) = s}" using sidx by blast
    then show ?thesis using Cons by auto
  qed simp
  obtain es where es: "iterate SL mp (pelems SL mp) Map.empty = Ret es"
    "\<And>s. filter (\<lambda>e. sender (fst e) = s) es = rest SL mp Map.empty s"
    using iterate_complete [OF ok f append_Nil [symmetric] sub hd_in] by blast
  have "in_nonce_order es"
    using sidx sender_list_nonces [OF SL] unfolding in_nonce_order_def es(2) rest0
    by (simp split: option.splits) blast
  moreover have "?v ` set es = view SL mp"
  proof (intro equalityI subsetI)
    fix x assume "x \<in> ?v ` set es"
    then obtain e where e: "e \<in> set es" "x = ?v e" by blast
    then have in_rest: "e \<in> set (rest SL mp Map.empty (sender (fst e)))" by (simp add: es(2) [symmetric])
    then obtain idx where idx: "senderIndices mp (sender (fst e)) = Some idx"
      by (cases "senderIndices mp (sender (fst e))") (simp_all add: rest0)
    then have "e \<in> set (slElems SL idx)" using in_rest by (simp add: rest0)
    with idx have "?v e \<in> ?v ` {e' \<in> set (pelems SL mp). sender (fst e') = sender (fst e)}" using sidx by blast
    then show "x \<in> view SL mp" using e(2) by auto
  next
    fix x assume "x \<in> view SL mp"
    then obtain e where e: "e \<in> set (pelems SL mp)" "x = ?v e" by blast
    then have "senderIndices mp (sender (fst e)) \<noteq> None"
      using ok unfolding mempool_ok_def senders_ok_def by blast
    then obtain idx where idx: "senderIndices mp (sender (fst e)) = Some idx" by blast
    have "x \<in> ?v ` set (slElems SL idx)" using sidx [OF idx] e by blast
    then have "x \<in> ?v ` set (filter (\<lambda>e'. sender (fst e') = sender (fst e)) es)"
      unfolding es(2) rest0 idx by simp
    then show "x \<in> ?v ` set es" by auto
  qed
  ultimately show thesis using that es(1) by blast
qed

lemma PN_Select_complete:
  fixes mp :: "('sl, 'ctx, 'c) PriorityNonceMempool"
  assumes ok: "mempool_ok SL mp" and k: "keyed f SL mp"
  obtains mp' and es :: "'c elem list" where "PN_Select SL mp = (mp', Ret (map snd es))"
    and "(\<lambda>e. (elem_id e, snd e)) ` set es = view SL mp" and "in_nonce_order es" and "keyed f SL mp'"
proof (cases "slLen SL (priorityIndex mp) = 0")
  case True
  moreover have "skiplist_laws SL" using ok by (simp add: mempool_ok_def mempool_laws_def)
  ultimately have "pelems SL mp = []" by (simp add: skiplist_lawsD(3))
  with that [of mp "[]"] True k show thesis by (simp add: PN_Select_def in_nonce_order_def)
next
  case False
  let ?mp = "reorderPriorityTies SL mp"
  note r = reorderPriorityTies_ok [OF ok] and k' = reorderPriorityTies_keyed [OF ok k]
  obtain es where es: "iterate SL ?mp (pelems SL ?mp) Map.empty = Ret es"
    "(\<lambda>e. (elem_id e, snd e)) ` set es = view SL ?mp" "in_nonce_order es"
    by (rule iterate_all [OF r(1) keyed_fresh [OF k']])
  have sel: "PN_Select SL mp = (?mp, Ret (map snd es))" using False es(1) by (simp add: PN_Select_def Let_def)
  have "(\<lambda>e. (elem_id e, snd e)) ` set es = view SL mp" using es(2) r(3) by simp
  from that [OF sel this es(3) k'] show thesis .
qed

section \<open>Reachable mempools\<close>

text \<open>One call of a method that writes to the mempool, and the mempools such calls lead to.\<close>

inductive pn_step ::
    "('sl, 'c) skiplist_ops \<Rightarrow> addr_ops \<Rightarrow> ('sl, 'ctx, 'c) PriorityNonceMempool \<Rightarrow>
     ('sl, 'ctx, 'c) PriorityNonceMempool \<Rightarrow> bool" for SL A where
  insert: "PN_Insert SL A mp ctx t = (mp', r) \<Longrightarrow> pn_step SL A mp mp'"
| remove: "PN_Remove SL A mp t = (mp', r) \<Longrightarrow> pn_step SL A mp mp'"
| select: "PN_Select SL mp = (mp', r) \<Longrightarrow> pn_step SL A mp mp'"

inductive_cases pn_stepE: "pn_step SL A mp mp'"

inductive pn_reach ::
    "('sl, 'c) skiplist_ops \<Rightarrow> addr_ops \<Rightarrow> ('ctx, 'c) mempool_config \<Rightarrow> adapter \<Rightarrow>
     ('sl, 'ctx, 'c) PriorityNonceMempool \<Rightarrow> bool" for SL A c E where
  new: "pn_reach SL A c E (NewPriorityMempool SL c E)"
| step: "pn_reach SL A c E mp \<Longrightarrow> pn_step SL A mp mp' \<Longrightarrow> pn_reach SL A c E mp'"

lemma pn_step_ok:
  assumes "pn_step SL A mp mp'" and "mempool_ok SL mp"
  shows "mempool_ok SL mp' \<and> pnCfg mp' = pnCfg mp \<and> pnExtractor mp' = pnExtractor mp"
  using assms(1)
  by (rule pn_stepE)
     (blast dest: PN_Insert_ok [OF assms(2)] PN_Remove_ok [OF assms(2)] PN_Select_ok [OF assms(2)])+

lemma pn_reach_ok:
  assumes "pn_reach SL A c E mp" and "skiplist_laws SL" and "ordering_cmp (PriorityCompare (cfgTxPriority c))"
  shows "mempool_ok SL mp \<and> pnCfg mp = c \<and> pnExtractor mp = E"
  using assms(1)
proof induction
  case new
  show ?case using new_mempool_ok [OF assms(2,3)] by (simp add: NewPriorityMempool_def)
next
  case (step mp mp')
  then show ?case using pn_step_ok by blast
qed

lemma pn_reach_keyed:
  assumes "pn_reach SL A c E mp" and laws: "skiplist_laws SL" "ordering_cmp (PriorityCompare (cfgTxPriority c))"
    and f: "\<And>ctx t k p. tx_key A E t = Some k \<Longrightarrow> GetTxPriority (cfgTxPriority c) ctx t = Ret p \<Longrightarrow> p = f k"
  shows "keyed f SL mp"
  using assms(1)
proof induction
  case new
  show ?case by (simp add: keyed_def NewPriorityMempool_def skiplist_lawsD(1) [OF laws(1)])
next
  case (step mp mp')
  have ok: "mempool_ok SL mp" and cfg: "pnCfg mp = c" "pnExtractor mp = E"
    using pn_reach_ok [OF step(1) laws] by blast+
  have ins: "keyed f SL mp'" if "PN_Insert SL A mp ctx t = (mp', r)" for ctx t r
    by (rule PN_Insert_keyed [OF ok step(3) that]) (use f cfg in auto)
  have sel: "keyed f SL mp'" if "PN_Select SL mp = (mp', r)" for r
    using PN_Select_complete [OF ok step(3)] that by (metis prod.inject)
  from step(2) show ?case
    by (rule pn_stepE) (blast intro: ins sel PN_Remove_keyed [OF ok step(3)])+
qed


abbreviation keys :: "('sl, 'ctx, 'c) PriorityNonceMempool \<Rightarrow> (u64 \<times> string) set" where
  "keys mp \<equiv> dom (scores mp)"

lemma mempool_keys:
  assumes "mempool_ok SL mp"
  shows "keys mp = elem_id ` set (pelems SL mp)" and "finite (keys mp)" and "keys mp = fst ` view SL mp"
proof -
  show eq: "keys mp = elem_id ` set (pelems SL mp)" using assms by (simp add: mempool_ok_def scores_ok_def)
  show "finite (keys mp)" unfolding eq by simp
  show "keys mp = fst ` view SL mp" unfolding eq by (auto simp: image_iff)
qed

text \<open>The capacity is never exceeded: an insert at the limit fails, even one that would replace.\<close>

lemma PN_Insert_capacity:
  assumes ok: "mempool_ok SL mp" and run: "PN_Insert SL A mp ctx t = (mp', r)"
    and max: "0 < cfgMaxTx (pnCfg mp)" "int (card (keys mp)) \<le> cfgMaxTx (pnCfg mp)"
  shows "int (card (keys mp')) \<le> cfgMaxTx (pnCfg mp)"
proof (cases "int (card (keys mp)) < cfgMaxTx (pnCfg mp)")
  case True
  have "card (keys mp') \<le> Suc (card (keys mp))"
    using PN_Insert_ok(4,5) [OF ok run] max(1) mempool_keys(2) [OF ok]
    by (cases "r = Ret ()") (auto simp: card_insert_if)
  then show ?thesis using True by simp
next
  case False
  then have "mp' = mp" using run max PN_CountTx_eq [OF ok] by (simp add: PN_Insert_def)
  then show ?thesis using max by simp
qed

lemma pn_reach_capacity:
  assumes "pn_reach SL A c E mp" and laws: "skiplist_laws SL" "ordering_cmp (PriorityCompare (cfgTxPriority c))"
    and max: "0 < cfgMaxTx c"
  shows "int (card (keys mp)) \<le> cfgMaxTx c"
  using assms(1)
proof induction
  case new
  show ?case using max by (simp add: NewPriorityMempool_def)
next
  case (step mp mp')
  have ok: "mempool_ok SL mp" and cfg: "pnCfg mp = c" using pn_reach_ok [OF step(1) laws] by blast+
  have ins: ?case if "PN_Insert SL A mp ctx t = (mp', r)" for ctx t r
    using PN_Insert_capacity [OF ok that] max step(3) unfolding cfg by blast
  have rm: ?case if "PN_Remove SL A mp t = (mp', r)" for t r
  proof -
    have "keys mp' \<subseteq> keys mp" using PN_Remove_ok [OF ok that] by blast
    then have "card (keys mp') \<le> card (keys mp)" by (rule card_mono [OF mempool_keys(2) [OF ok]])
    then show ?thesis using step(3) by simp
  qed
  have sel: ?case if "PN_Select SL mp = (mp', r)" for r
    using PN_Select_ok(2) [OF ok that] step(3) by simp
  from step(2) show ?case by (rule pn_stepE) (rule ins rm sel, assumption)+
qed

lemma NextSenderTx_ok:
  fixes mp :: "('sl, 'ctx, 'c) PriorityNonceMempool"
  assumes ok: "mempool_ok SL mp"
  shows "NextSenderTx SL mp s = Panic \<longleftrightarrow> senderIndices mp s \<noteq> None \<and> s \<notin> snd ` keys mp"
    and "NextSenderTx SL mp s = Ret None \<longleftrightarrow> senderIndices mp s = None"
    and "NextSenderTx SL mp s = Ret (Some t) \<Longrightarrow>
      \<exists>n. ((n, s), t) \<in> view SL mp \<and> (\<forall>m. (m, s) \<in> keys mp \<longrightarrow> n \<le> m)"
proof -
  let ?v = "\<lambda>e. (elem_id e, snd e)"
  have SL: "skiplist_laws SL" using ok by (simp add: mempool_ok_def mempool_laws_def)
  have sidx: "sender_list_ok SL s idx \<and> ?v ` set (slElems SL idx) = ?v ` {e \<in> set (pelems SL mp). sender (fst e) = s}"
    if "senderIndices mp s = Some idx" for idx
    using ok that unfolding mempool_ok_def senders_ok_def by blast
  have ids: "elem_id ` set (slElems SL idx) = {k \<in> keys mp. snd k = s}" if "senderIndices mp s = Some idx" for idx
  proof -
    have "elem_id ` set (slElems SL idx) = fst ` ?v ` {e \<in> set (pelems SL mp). sender (fst e) = s}"
      using sidx [OF that] by (metis (no_types, lifting) fst_conv image_cong image_image)
    also have "\<dots> = {k \<in> keys mp. snd k = s}"
    proof -
      have snd_id: "snd (elem_id e) = sender (fst e)" for e :: "'c elem" by (simp add: elem_id_def)
      have "elem_id ` {e \<in> set (pelems SL mp). snd (elem_id e) = s} = {k \<in> elem_id ` set (pelems SL mp). snd k = s}"
        by blast
      then show ?thesis unfolding mempool_keys(1) [OF ok] by (simp add: image_image snd_id)
    qed
    finally show ?thesis .
  qed
  have empty: "slElems SL idx = [] \<longleftrightarrow> s \<notin> snd ` keys mp" if "senderIndices mp s = Some idx" for idx
  proof -
    have "slElems SL idx = [] \<longleftrightarrow> elem_id ` set (slElems SL idx) = {}" by simp
    also have "\<dots> \<longleftrightarrow> s \<notin> snd ` keys mp" unfolding ids [OF that] by blast
    finally show ?thesis .
  qed
  show "NextSenderTx SL mp s = Panic \<longleftrightarrow> senderIndices mp s \<noteq> None \<and> s \<notin> snd ` keys mp"
  proof (cases "senderIndices mp s")
    case (Some idx)
    have "NextSenderTx SL mp s = Panic \<longleftrightarrow> slElems SL idx = []"
      using Some by (cases "slElems SL idx") (simp_all add: NextSenderTx_def)
    then show ?thesis unfolding empty [OF Some] using Some by blast
  qed (simp add: NextSenderTx_def)
  show "NextSenderTx SL mp s = Ret None \<longleftrightarrow> senderIndices mp s = None"
    by (simp add: NextSenderTx_def split: option.split list.split)
  show "\<exists>n. ((n, s), t) \<in> view SL mp \<and> (\<forall>m. (m, s) \<in> keys mp \<longrightarrow> n \<le> m)"
    if run: "NextSenderTx SL mp s = Ret (Some t)"
  proof -
    obtain idx c cs where idx: "senderIndices mp s = Some idx" and c: "slElems SL idx = c # cs" "snd c = t"
      using run by (auto simp: NextSenderTx_def split: option.splits list.splits)
    have snd_c: "sender (fst c) = s" using sidx [OF idx] c(1) by (simp add: sender_list_ok_def)
    have "?v c \<in> ?v ` {e \<in> set (pelems SL mp). sender (fst e) = s}" using sidx [OF idx] c(1) by auto
    then have "((nonce (fst c), s), t) \<in> view SL mp" using snd_c c(2) by (auto simp: elem_id_def)
    moreover have "nonce (fst c) \<le> m" if "(m, s) \<in> keys mp" for m
    proof -
      have "(m, s) \<in> elem_id ` set (slElems SL idx)" using that ids [OF idx] by simp
      then obtain e where e: "e \<in> set (c # cs)" "elem_id e = (m, s)" unfolding c(1) by (metis imageE)
      then have "nonce (fst e) = m" by (simp add: elem_id_def)
      then show ?thesis
        using sender_list_nonces [OF SL conjunct1 [OF sidx [OF idx]]] e(1) unfolding c(1) by (fastforce simp: less_imp_le)
    qed
    ultimately show ?thesis by blast
  qed
qed

section \<open>A replacement that the selection passes by\<close>

text \<open>Reordering changes weights only: every element stands for one of the same key and priority.\<close>

lemma reorder_fold_priorities:
  fixes mp :: "('sl, 'ctx, 'c) PriorityNonceMempool" and W :: "'c txMeta \<Rightarrow> 'c"
  assumes "mempool_ok SL mp" and "distinct ks" and "set ks \<subseteq> set (pelems SL mp)"
  shows "(\<lambda>e. (elem_id e, priority (fst e))) `
      set (pelems SL (fold (reorder_one SL) (map (\<lambda>(key, t). (key, key\<lparr>weight := W key\<rparr>, t)) ks) mp)) =
    (\<lambda>e. (elem_id e, priority (fst e))) ` set (pelems SL mp)"
  using assms
proof (induction ks arbitrary: mp)
  case Nil
  then show ?case by simp
next
  case (Cons k ks)
  let ?p = "\<lambda>e :: 'c elem. (elem_id e, priority (fst e))"
  obtain key t where k: "k = (key, t)" by (cases k)
  then have e: "(key, t) \<in> set (pelems SL mp)" using Cons.prems(3) by simp
  let ?mp1 = "reorder_one SL (key, key\<lparr>weight := W key\<rparr>, t) mp"
  note st = reorder_one_ok [OF Cons.prems(1) e, of "W key"]
  have "set ks \<subseteq> set (pelems SL ?mp1)" using Cons.prems(2,3) k unfolding st(2) by auto
  note IH = Cons.IH [OF st(1) _ this]
  have "?p (key\<lparr>weight := W key\<rparr>, t) = ?p (key, t)" by (simp add: elem_id_def)
  then have "?p ` set (pelems SL ?mp1) = ?p ` insert (key, t) (set (pelems SL mp) - {(key, t)})"
    unfolding st(2) image_insert by (rule arg_cong)
  also have "insert (key, t) (set (pelems SL mp) - {(key, t)}) = set (pelems SL mp)" by (rule insert_Diff [OF e])
  finally show ?case using IH Cons.prems(2) k by simp
qed

lemma reorderPriorityTies_priorities:
  assumes "mempool_ok SL mp"
  shows "(\<lambda>e. (elem_id e, priority (fst e))) ` set (pelems SL (reorderPriorityTies SL mp)) =
    (\<lambda>e. (elem_id e, priority (fst e))) ` set (pelems SL mp)"
proof -
  have "mempool_laws SL mp" and "index_ok SL mp" using assms by (simp_all add: mempool_ok_def)
  then have "distinct (pelems SL mp)"
    using descending_distinct [OF mempool_lawsD(2)] by (auto simp: index_ok_def)
  then have "distinct (filter (\<lambda>(key, t). priorityCounts mp (priority key) > 1) (pelems SL mp))" by simp
  from reorder_fold_priorities [OF assms this, of "\<lambda>key. senderWeight (cfgTxPriority (pnCfg mp)) (sender_cursor SL mp key)"]
  show ?thesis unfolding reorderPriorityTies_def reorderings_def by simp
qed

text \<open>A sender whose first transaction stands below the successor of each of his nodes yields nothing.\<close>

lemma iterate_passes:
  assumes ok: "mempool_ok SL mp" and s: "senderIndices mp s = Some idx" "slElems SL idx = c # cs" "cur s = None"
    and sub: "set nodes \<subseteq> set (pelems SL mp)"
    and cursors: "\<And>s' l. cur s' = Some l \<Longrightarrow> \<forall>x \<in> set l. sender (fst x) = s'"
    and below: "\<forall>pre e post. nodes = pre @ e # post \<and> sender (fst e) = s \<longrightarrow> below_next mp (fst c) post"
  shows "\<exists>es. iterate SL mp nodes cur = Ret es \<and> (\<forall>e \<in> set es. sender (fst e) \<noteq> s)"
  using assms
proof (induction SL mp nodes cur rule: iterate.induct)
  case (1 SL mp cur)
  then show ?case by simp
next
  case (2 SL mp node nodes cur)
  let ?s = "sender (fst node)"
  have senders: "senderIndices mp ?s \<noteq> None"
    using "2.prems"(1,5) by (simp add: mempool_ok_def senders_ok_def)
  then obtain l where l: "next_elems SL mp cur ?s = Some l" by (cases "cur ?s") (auto simp: next_elems_def)
  have l_sender: "\<forall>x \<in> set l. sender (fst x) = ?s"
  proof (cases "cur ?s")
    case None
    with l obtain i where "senderIndices mp ?s = Some i" "l = slElems SL i" by (auto simp: next_elems_def)
    then show ?thesis using "2.prems"(1) by (auto simp: mempool_ok_def senders_ok_def sender_list_ok_def)
  next
    case (Some cursor)
    with l have "l = tl cursor" by (simp add: next_elems_def)
    then show ?thesis using "2.prems"(6) [OF Some] by (cases cursor) auto
  qed
  have sub': "set nodes \<subseteq> set (pelems SL mp)" using "2.prems"(5) by simp
  have below': "\<forall>pre e post. nodes = pre @ e # post \<and> sender (fst e) = s \<longrightarrow> below_next mp (fst c) post"
    using "2.prems"(7) by (metis append_Cons)
  show ?case
  proof (cases l)
    case Nil
    from "2.IH"(1) [OF l Nil "2.prems"(1-4) sub' "2.prems"(6) below'] l Nil show ?thesis by simp
  next
    case (Cons d ds)
    show ?thesis
    proof (cases "below_next mp (fst d) nodes")
      case True
      from "2.IH"(2) [OF l Cons True "2.prems"(1-4) sub' "2.prems"(6) below'] l Cons True show ?thesis by simp
    next
      case False
      have "?s \<noteq> s"
      proof
        assume "?s = s"
        then have "d = c" using l Cons "2.prems"(2-4) by (simp add: next_elems_def)
        then show False using False "2.prems"(7) [rule_format, of "[]" node nodes] \<open>?s = s\<close> by simp
      qed
      let ?cur = "cur(?s \<mapsto> d # ds)"
      have cur': "\<forall>x \<in> set m. sender (fst x) = s'" if "?cur s' = Some m" for s' m
        using that "2.prems"(6) [of s' m] l_sender Cons by (cases "s' = ?s") auto
      have free: "?cur s = None" using \<open>?s \<noteq> s\<close> "2.prems"(4) by simp
      from "2.IH"(3) [OF l Cons False "2.prems"(1-3) free "2.prems"(5) cur' "2.prems"(7)]
      obtain es where "iterate SL mp (node # nodes) ?cur = Ret es" "\<forall>e \<in> set es. sender (fst e) \<noteq> s" by blast
      then show ?thesis using l Cons False l_sender \<open>?s \<noteq> s\<close> by simp
    qed
  qed
qed

text \<open>An element with a priority above the sender's recorded one, after all of the sender's nodes.\<close>

lemma select_passes:
  fixes mp :: "('sl, 'ctx, 'c) PriorityNonceMempool"
  assumes ok: "mempool_ok SL mp" and s: "senderIndices mp s = Some idx" "slElems SL idx = c # cs"
    and u: "u \<in> set (pelems SL mp)"
      "PriorityCompare (cfgTxPriority (pnCfg mp)) (priority (fst u)) (priority (fst c)) > 0"
    and above: "\<And>e. e \<in> set (pelems SL mp) \<Longrightarrow> sender (fst e) = s \<Longrightarrow>
      PriorityCompare (cfgTxPriority (pnCfg mp)) (priority (fst e)) (priority (fst u)) > 0"
  obtains mp' and es :: "'c elem list" where "PN_Select SL mp = (mp', Ret (map snd es))"
    and "\<forall>e \<in> set es. sender (fst e) \<noteq> s"
proof -
  let ?mp = "reorderPriorityTies SL mp" and ?P = "cfgTxPriority (pnCfg mp)"
  let ?p = "\<lambda>e :: 'c elem. (elem_id e, priority (fst e))"
  note r = reorderPriorityTies_ok [OF ok]
  have laws: "skiplist_laws SL" "ordering_cmp (PriorityCompare ?P)" using ok by (simp_all add: mempool_ok_def mempool_laws_def)
  note same = reorderPriorityTies_priorities [OF ok]
  obtain u' where u': "u' \<in> set (pelems SL ?mp)" "priority (fst u') = priority (fst u)"
  proof -
    have "?p u \<in> ?p ` set (pelems SL ?mp)" unfolding same using u(1) by (rule imageI)
    then show thesis using that by auto
  qed
  have above': "PriorityCompare ?P (priority (fst e)) (priority (fst u)) > 0"
    if e: "e \<in> set (pelems SL ?mp)" "sender (fst e) = s" for e
  proof -
    have "?p e \<in> ?p ` set (pelems SL mp)" unfolding same [symmetric] using e(1) by (rule imageI)
    then obtain e0 where "e0 \<in> set (pelems SL mp)" "elem_id e = elem_id e0" "priority (fst e) = priority (fst e0)" by auto
    then show ?thesis using above [of e0] e(2) by (simp add: elem_id_def)
  qed
  have below: "below_next ?mp (fst c) post" if split: "pelems SL ?mp = pre @ e # post" "sender (fst e) = s" for pre e post
  proof -
    let ?f = "skiplistComparable SL ?P"
    have e: "PriorityCompare ?P (priority (fst e)) (priority (fst u')) > 0"
      using above' [of e] split u'(2) by simp
    have desc: "descending ?f (pre @ e # post)"
      using r(1,4) unfolding mempool_ok_def index_ok_def split(1) by simp
    have "u' \<in> set post"
    proof (rule ccontr)
      assume "u' \<notin> set post"
      then have "u' = e \<or> u' \<in> set pre" using u'(1) split(1) by auto
      then have "?f (fst u') (fst e) \<ge> 0"
        using desc ordering_cmpD(1) [OF ordering_cmp_comparable [OF laws]]
        by (auto simp: descending_def sorted_wrt_append intro: less_imp_le)
      moreover have "PriorityCompare ?P (priority (fst u')) (priority (fst e)) < 0"
        using e ordering_cmpD(2) [OF laws(2)] by simp
      ultimately show False by (simp add: skiplistComparable_def Let_def)
    qed
    then obtain m ms where m: "post = m # ms" "u' = m \<or> u' \<in> set ms" by (cases post) auto
    have "?f (fst m) (fst u') \<ge> 0"
      using m(2) desc ordering_cmpD(1) [OF ordering_cmp_comparable [OF laws]] unfolding m(1)
      by (auto simp: descending_def sorted_wrt_append intro: less_imp_le)
    then have "PriorityCompare ?P (priority (fst m)) (priority (fst u')) \<ge> 0"
      by (auto simp: skiplistComparable_def Let_def split: if_splits)
    then have "PriorityCompare ?P (priority (fst m)) (priority (fst c)) > 0"
      using ordering_cmp_trans(2) [OF laws(2)] u(2) u'(2) by metis
    then show ?thesis
      using ordering_cmpD(2) [OF laws(2)] by (simp add: below_next_def m(1) Let_def r(4))
  qed
  have "senderIndices ?mp s = Some idx" using s(1) r(6) by simp
  then have "\<exists>es. iterate SL ?mp (pelems SL ?mp) Map.empty = Ret es \<and> (\<forall>e \<in> set es. sender (fst e) \<noteq> s)"
    by (rule iterate_passes [OF r(1) _ s(2) _ order.refl]) (use below in auto)
  then obtain es where es: "iterate SL ?mp (pelems SL ?mp) Map.empty = Ret es" "\<forall>e \<in> set es. sender (fst e) \<noteq> s"
    by blast
  have "slLen SL (priorityIndex mp) \<noteq> 0" using u(1) skiplist_lawsD(3) [OF laws(1)] by auto
  then have "PN_Select SL mp = (?mp, Ret (map snd es))" using es(1) by (simp add: PN_Select_def Let_def)
  then show thesis using es(2) by (rule that)
qed

text \<open>An insert that replaces a transaction keeps the key of its element in the sender's index.\<close>

lemma PN_Insert_replaces:
  assumes ok: "mempool_ok SL mp" and max: "0 \<le> cfgMaxTx (pnCfg mp)"
    and run: "PN_Insert SL A mp ctx t = (mp', Ret ())" and key: "tx_key A (pnExtractor mp) t = Some (n, s)"
    and idx: "senderIndices mp s = Some idx" "slElems SL idx = (k0, t0) # cs" "nonce k0 = n"
  obtains idx' where "senderIndices mp' s = Some idx'" and "slElems SL idx' = (k0, t) # cs"
proof -
  from run obtain p where keyed: "insert_keyed SL mp \<lparr> nonce = n, priority = p, sender = s, weight = cfgZero (pnCfg mp),
        senderElement = None \<rparr> t = (mp', Ret ())" (is "insert_keyed SL mp ?key t = _")
    using max key by (cases rule: PN_Insert_cases) auto
  have SL: "skiplist_laws SL" using ok by (simp add: mempool_ok_def mempool_laws_def)
  have "slCompare SL idx = nonceComparable SL" "descending (nonceComparable SL) (slElems SL idx)"
    using ok idx(1) by (auto simp: mempool_ok_def senders_ok_def sender_list_ok_def)
  note S = skiplist_update(1) [OF SL this(1) ordering_cmp_nonce [OF SL] this(2), of ?key t]
  have "slElems SL (slSet SL idx ?key t) = (k0, t) # cs" using idx(2,3) by (simp add: S SL)
  moreover have "senderIndices mp' s = Some (slSet SL idx ?key t)"
    using keyed idx(1) by (auto simp: insert_keyed_def Let_def store_tx_def split: option.splits go.splits bool.splits)
  ultimately show thesis using that by blast
qed

section \<open>The properties\<close>

text \<open>C34: In every reachable state the mempool is a finite set of keys, a key being the nonce and
  the sender of a transaction's first signer: \<open>CountTx\<close> is its size, which stays within the
  capacity; a successful insert adds the transaction's key unless the mempool is disabled, a failed
  one changes nothing; \<open>Remove\<close> takes the key out and fails exactly when it is absent; \<open>Contains\<close>
  tells whether it is there; a selection keeps the set.\<close>

theorem mempool_refines_key_set:
  assumes "pn_reach SL A c E mp" and "skiplist_laws SL" and "ordering_cmp (PriorityCompare (cfgTxPriority c))"
    and "PN_Insert SL A mp ctx t = (mp1, r1)" and "PN_Remove SL A mp t = (mp2, r2)"
    and "PN_Select SL mp = (mp3, r3)"
  shows "finite (keys mp) \<and> PN_CountTx SL mp = card (keys mp) \<and>
    (0 < cfgMaxTx c \<longrightarrow> int (card (keys mp)) \<le> cfgMaxTx c) \<and>
    (if r1 = Ret () \<and> 0 \<le> cfgMaxTx c then \<exists>k. tx_key A E t = Some k \<and> keys mp1 = insert k (keys mp)
     else keys mp1 = keys mp) \<and>
    keys mp2 = keys mp - set_option (tx_key A E t) \<and>
    (r2 = Ret () \<longleftrightarrow> (\<exists>k. tx_key A E t = Some k \<and> k \<in> keys mp)) \<and>
    (E t \<noteq> Panic \<longrightarrow> PN_Contains A mp t = Ret (\<exists>k. tx_key A E t = Some k \<and> k \<in> keys mp)) \<and>
    keys mp3 = keys mp"
proof -
  have ok: "mempool_ok SL mp" and cfg: "pnCfg mp = c" "pnExtractor mp = E"
    using pn_reach_ok [OF assms(1-3)] by blast+
  have "cfgMaxTx c < 0 \<Longrightarrow> mp1 = mp" using assms(4) by (auto simp: PN_Insert_def cfg)
  then have "if r1 = Ret () \<and> 0 \<le> cfgMaxTx c then \<exists>k. tx_key A E t = Some k \<and> keys mp1 = insert k (keys mp)
      else keys mp1 = keys mp"
    using PN_Insert_ok(4,5) [OF ok assms(4)] by (auto simp: cfg)
  moreover have "PN_Contains A mp t = Ret (\<exists>k. tx_key A E t = Some k \<and> k \<in> keys mp)" if "E t \<noteq> Panic"
    using that by (auto simp: PN_Contains_def tx_key_def cfg dom_def split: go.splits list.splits)
  ultimately show ?thesis
    using mempool_keys(2) [OF ok] PN_CountTx_eq [OF ok] pn_reach_capacity [OF assms(1-3)]
      PN_Remove_ok [OF ok assms(5)] PN_Select_ok(2) [OF ok assms(6)] by (simp add: cfg)
qed

text \<open>C35: If the priority of a transaction is a function of its key, as for the default lane, then
  in every reachable state a selection returns normally and yields every transaction of the mempool
  exactly once, the transactions of each sender in the order of their nonces.\<close>

theorem selection_is_complete:
  fixes mp :: "('sl, 'ctx, 'c) PriorityNonceMempool"
  assumes "pn_reach SL A c E mp" and "skiplist_laws SL" and "ordering_cmp (PriorityCompare (cfgTxPriority c))"
    and "\<forall>ctx t k p. tx_key A E t = Some k \<and> GetTxPriority (cfgTxPriority c) ctx t = Ret p \<longrightarrow> p = f k"
  shows "\<exists>mp' (es :: 'c elem list). PN_Select SL mp = (mp', Ret (map snd es)) \<and>
    (\<lambda>e. (elem_id e, snd e)) ` set es = view SL mp \<and> distinct (map elem_id es) \<and>
    elem_id ` set es = keys mp \<and> in_nonce_order es"
proof -
  have ok: "mempool_ok SL mp" using pn_reach_ok [OF assms(1-3)] by blast
  have "keyed f SL mp" by (rule pn_reach_keyed [OF assms(1-3)]) (use assms(4) in blast)
  then obtain mp' and es :: "'c elem list" where es: "PN_Select SL mp = (mp', Ret (map snd es))"
    "(\<lambda>e. (elem_id e, snd e)) ` set es = view SL mp" "in_nonce_order es"
    by (rule PN_Select_complete [OF ok])
  have "fst ` (\<lambda>e. (elem_id e, snd e)) ` set es = keys mp" unfolding es(2) mempool_keys(3) [OF ok] by (rule refl)
  then have "elem_id ` set es = keys mp" by (simp add: image_image)
  with es in_nonce_order_distinct [OF es(3)] show ?thesis by blast
qed

text \<open>\<open>NextSenderTx\<close> gives the transaction of the sender with the lowest nonce, and nil for a
  sender that never inserted one; but for a sender whose transactions have all been removed it
  panics, because \<open>Remove\<close> leaves the emptied index of the sender in place. In particular it panics
  after the removal of a sender's only transaction.\<close>

lemma NextSenderTx_outcomes:
  assumes "pn_reach SL A c E mp" and "skiplist_laws SL" and "ordering_cmp (PriorityCompare (cfgTxPriority c))"
  shows "(NextSenderTx SL mp s = Panic \<longleftrightarrow> senderIndices mp s \<noteq> None \<and> s \<notin> snd ` keys mp) \<and>
    (NextSenderTx SL mp s = Ret None \<longleftrightarrow> senderIndices mp s = None) \<and>
    (\<forall>t. NextSenderTx SL mp s = Ret (Some t) \<longrightarrow>
       (\<exists>n. ((n, s), t) \<in> view SL mp \<and> (\<forall>m. (m, s) \<in> keys mp \<longrightarrow> n \<le> m))) \<and>
    (\<forall>u n mp'. PN_Remove SL A mp u = (mp', Ret ()) \<and> tx_key A E u = Some (n, s) \<and>
       (\<forall>m. (m, s) \<in> keys mp \<longrightarrow> m = n) \<longrightarrow> NextSenderTx SL mp' s = Panic)"
proof -
  have ok: "mempool_ok SL mp" and cfg: "pnExtractor mp = E" using pn_reach_ok [OF assms(1-3)] by blast+
  have "NextSenderTx SL mp' s = Panic"
    if run: "PN_Remove SL A mp u = (mp', Ret ())" and key: "tx_key A E u = Some (n, s)"
      and only: "\<forall>m. (m, s) \<in> keys mp \<longrightarrow> m = n" for u n mp'
  proof -
    have rm: "mempool_ok SL mp'" "keys mp' = keys mp - {(n, s)}" "(n, s) \<in> keys mp"
      using PN_Remove_ok [OF ok run] key cfg by auto
    have "(n, s) \<in> elem_id ` set (pelems SL mp)" using rm(3) unfolding mempool_keys(1) [OF ok] .
    then have "senderIndices mp s \<noteq> None"
      using ok unfolding mempool_ok_def senders_ok_def by (auto simp: elem_id_def)
    moreover have "dom (senderIndices mp') = dom (senderIndices mp)"
      by (rule PN_Remove_cases [OF run]) auto
    ultimately have "senderIndices mp' s \<noteq> None" by blast
    moreover have "(m, s) \<notin> keys mp'" for m using only unfolding rm(2) by blast
    then have "s \<notin> snd ` keys mp'" by (metis imageE prod.collapse)
    ultimately show ?thesis using NextSenderTx_ok(1) [OF rm(1)] by blast
  qed
  then show ?thesis using NextSenderTx_ok [OF ok, of s] by blast
qed


text \<open>C37: A replaced transaction can be lost to the proposals. Let the transaction with the lowest nonce
  that the mempool holds of a sender be replaced. The sender's index keeps the old key with the priority
  recorded there, since setting an existing key of a skip list updates its value only. If another
  transaction's priority lies above the recorded priority and below that of each of the sender's
  transactions now, a selection yields no transaction of the sender, although the mempool contains
  the replacement and counts as many transactions as before.\<close>

theorem replaced_tx_is_passed_by:
  fixes mp :: "('sl, 'ctx, 'c) PriorityNonceMempool"
  assumes "pn_reach SL A c E mp" and "skiplist_laws SL" and "ordering_cmp (PriorityCompare (cfgTxPriority c))"
    and "0 \<le> cfgMaxTx c" and "PN_Insert SL A mp ctx t = (mp1, Ret ())" and "tx_key A E t = Some (n, s)"
    and "senderIndices mp s = Some idx" and "slElems SL idx = (k0, t0) # later" and "nonce k0 = n"
    and "u \<in> set (pelems SL mp1)" and "PriorityCompare (cfgTxPriority c) (priority (fst u)) (priority k0) > 0"
    and "\<forall>e \<in> set (pelems SL mp1). sender (fst e) = s \<longrightarrow>
      PriorityCompare (cfgTxPriority c) (priority (fst e)) (priority (fst u)) > 0"
  shows "(\<exists>idx1. senderIndices mp1 s = Some idx1 \<and> slElems SL idx1 = (k0, t) # later) \<and>
    PN_Contains A mp1 t = Ret True \<and> PN_CountTx SL mp1 = PN_CountTx SL mp \<and>
    (\<exists>mp2 (es :: 'c elem list). PN_Select SL mp1 = (mp2, Ret (map snd es)) \<and> (\<forall>e \<in> set es. sender (fst e) \<noteq> s))"
proof -
  have ok: "mempool_ok SL mp" and cfg: "pnCfg mp = c" "pnExtractor mp = E"
    using pn_reach_ok [OF assms(1-3)] by blast+
  note ins = PN_Insert_ok [OF ok assms(5)]
  obtain idx1 where idx1: "senderIndices mp1 s = Some idx1" "slElems SL idx1 = (k0, t) # later"
    by (rule PN_Insert_replaces [OF ok _ assms(5) _ assms(7-9)]) (use assms(4,6) cfg in auto)
  have held: "(n, s) \<in> keys mp"
  proof -
    have "(elem_id (k0, t0), t0) \<in> (\<lambda>e. (elem_id e, snd e)) ` set (slElems SL idx)" using assms(8) by force
    then have "(elem_id (k0, t0), t0) \<in> (\<lambda>e. (elem_id e, snd e)) ` {e \<in> set (pelems SL mp). sender (fst e) = s}"
      using ok assms(7) unfolding mempool_ok_def senders_ok_def by blast
    then show ?thesis
      using assms(9) unfolding mempool_keys(1) [OF ok] by (auto simp: elem_id_def)
  qed
  then have keys: "keys mp1 = keys mp" using ins(5) assms(4,6) cfg by auto
  have "PriorityCompare (cfgTxPriority (pnCfg mp1)) (priority (fst u)) (priority (fst (k0, t))) > 0"
    using assms(11) ins(2) cfg by simp
  moreover have "PriorityCompare (cfgTxPriority (pnCfg mp1)) (priority (fst e)) (priority (fst u)) > 0"
    if "e \<in> set (pelems SL mp1)" "sender (fst e) = s" for e
    using assms(12) that ins(2) cfg by simp
  ultimately obtain mp2 and es :: "'c elem list" where "PN_Select SL mp1 = (mp2, Ret (map snd es))" "\<forall>e \<in> set es. sender (fst e) \<noteq> s"
    by (rule select_passes [OF ins(1) idx1 assms(10)])
  moreover have "PN_Contains A mp1 t = Ret True"
    using assms(6) keys held ins(3) cfg(2) by (auto simp: PN_Contains_def tx_key_def split: go.splits list.splits)
  ultimately show ?thesis using idx1 keys PN_CountTx_eq [OF ok] PN_CountTx_eq [OF ins(1)] by auto
qed

section \<open>A concrete skip list\<close>

text \<open>A comparison function and the elements in order; strings are compared lexicographically.\<close>

fun nats_cmp :: "nat list \<Rightarrow> nat list \<Rightarrow> int" where
  "nats_cmp [] [] = 0"
| "nats_cmp [] (b # bs) = - 1"
| "nats_cmp (a # as) [] = 1"
| "nats_cmp (a # as) (b # bs) = (if a < b then - 1 else if a = b then nats_cmp as bs else 1)"

definition string_cmp :: "string \<Rightarrow> string \<Rightarrow> int" where
  "string_cmp a b = nats_cmp (map of_char a) (map of_char b)"

lemma nats_cmp_0: "nats_cmp a b = 0 \<longleftrightarrow> a = b"
  by (induction a b rule: nats_cmp.induct) auto

lemma nats_cmp_swap: "nats_cmp a b > 0 \<longleftrightarrow> nats_cmp b a < 0"
  by (induction a b rule: nats_cmp.induct) auto

lemma nats_cmp_trans: "nats_cmp a b \<le> 0 \<Longrightarrow> nats_cmp b c \<le> 0 \<Longrightarrow> nats_cmp a c \<le> 0"
proof (induction a c arbitrary: b rule: nats_cmp.induct)
  case (3 x xs)
  then show ?case by (cases b) (auto split: if_splits)
next
  case (4 x xs z zs)
  then show ?case by (cases b) (auto split: if_splits)
qed auto

lemma string_cmp_order: "ordering_cmp string_cmp" and string_cmp_0: "string_cmp a b = 0 \<longleftrightarrow> a = b"
proof -
  have "inj (of_char :: char \<Rightarrow> nat)" by (rule injI) simp
  then show "string_cmp a b = 0 \<longleftrightarrow> a = b" by (simp add: string_cmp_def nats_cmp_0 inj_map_eq_map)
  show "ordering_cmp string_cmp"
    using nats_cmp_swap nats_cmp_trans unfolding ordering_cmp_def string_cmp_def by (simp add: nats_cmp_0) blast
qed

definition list_skiplist :: "((('c txMeta \<Rightarrow> 'c txMeta \<Rightarrow> int) \<times> 'c elem list), 'c) skiplist_ops" where
  "list_skiplist = \<lparr> slNew = (\<lambda>f. (f, [])), slCompare = fst, slElems = snd, slLen = (\<lambda>l. length (snd l)),
     slGet = (\<lambda>l k. map_option snd (find (\<lambda>x. fst l k (fst x) = 0) (snd l))),
     slSet = (\<lambda>l k t. (fst l, set_elem (fst l) k t (snd l))),
     slRemove = (\<lambda>l k. (fst l, remove_elem (fst l) k (snd l))),
     slString = string_cmp,
     slUint64 = (\<lambda>a b. if a < b then - 1 else if a = b then 0 else 1),
     slInt64 = (\<lambda>a b. if a <s b then - 1 else if a = b then 0 else 1) \<rparr>"

lemma list_skiplist_laws: "skiplist_laws list_skiplist"
  by (simp add: skiplist_laws_def list_skiplist_def string_cmp_order string_cmp_0)

text \<open>A mempool ordered by the content of the transactions, which has room for five.\<close>

definition signed_tx :: "bytes \<Rightarrow> u64 \<Rightarrow> bytes \<Rightarrow> tx" where
  "signed_tx a n rst = (sample_tx rst)\<lparr>TxSignatures := Some (Ret [\<lparr> SigAddress = Some a, SigSequence = n \<rparr>])\<rparr>"

definition content_priority :: "(value_context, int) TxPriority" where
  "content_priority = \<lparr> GetTxPriority = (\<lambda>_ t. Ret (int (length (TxRest t)))),
     PriorityCompare = (\<lambda>a b. sgn (a - b)), MinValue = 0 \<rparr>"

definition content_config :: "(value_context, int) mempool_config" where
  "content_config = \<lparr> cfgTxPriority = content_priority, cfgTxReplacement = None, cfgMaxTx = 5, cfgZero = 0 \<rparr>"

lemma content_priority_order: "ordering_cmp (PriorityCompare (cfgTxPriority content_config))"
  by (auto simp: ordering_cmp_def content_config_def content_priority_def sgn_if)

definition default_config :: "(value_context, int) mempool_config" where
  "default_config = \<lparr> cfgTxPriority = DefaultTxPriority, cfgTxReplacement = None, cfgMaxTx = 0, cfgZero = 0 \<rparr>"

lemma default_config_order: "ordering_cmp (PriorityCompare (cfgTxPriority default_config))"
  by (simp add: ordering_cmp_def default_config_def DefaultTxPriority_def)

text \<open>The mempool after the insertion of a list of transactions.\<close>

definition sample_pool :: "(value_context, int) mempool_config \<Rightarrow> tx list \<Rightarrow>
    ((int txMeta \<Rightarrow> int txMeta \<Rightarrow> int) \<times> int elem list, value_context, int) PriorityNonceMempool" where
  "sample_pool c ts = foldl (\<lambda>mp t. fst (PN_Insert list_skiplist char_addr mp sample_ctx t))
     (NewPriorityMempool list_skiplist c DefaultAdapter_GetSigners) ts"

lemma sample_pool_reach:
  "pn_reach list_skiplist char_addr c DefaultAdapter_GetSigners (sample_pool c ts)"
proof (induction ts rule: rev_induct)
  case Nil
  show ?case by (simp add: sample_pool_def pn_reach.new)
next
  case (snoc t ts)
  have "pn_step list_skiplist char_addr (sample_pool c ts) (sample_pool c (ts @ [t]))"
    by (rule pn_step.insert [of _ _ _ _ _ _ "snd (PN_Insert list_skiplist char_addr (sample_pool c ts) sample_ctx t)"])
       (simp add: sample_pool_def)
  with snoc show ?case by (rule pn_reach.step)
qed

theorem mempool_refines_key_set_witness:
  "keys (fst (PN_Insert list_skiplist char_addr (sample_pool content_config [signed_tx [65] 0 [1]]) sample_ctx
      (signed_tx [66] 3 [1, 2]))) = insert (3, ''B'') (keys (sample_pool content_config [signed_tx [65] 0 [1]])) \<and>
   PN_CountTx list_skiplist (sample_pool content_config [signed_tx [65] 0 [1]]) =
     card (keys (sample_pool content_config [signed_tx [65] 0 [1]]))"
proof -
  let ?mp = "sample_pool content_config [signed_tx [65] 0 [1]]" and ?t = "signed_tx [66] 3 [1, 2]"
  have ret: "snd (PN_Insert list_skiplist char_addr ?mp sample_ctx ?t) = Ret ()" by code_simp
  have key: "tx_key char_addr DefaultAdapter_GetSigners ?t = Some (3, ''B'')" by code_simp
  have max: "0 \<le> cfgMaxTx content_config" by (simp add: content_config_def)
  from mempool_refines_key_set [OF sample_pool_reach list_skiplist_laws content_priority_order
    prod.collapse [symmetric, of "PN_Insert list_skiplist char_addr ?mp sample_ctx ?t"]
    prod.collapse [symmetric, of "PN_Remove list_skiplist char_addr ?mp ?t"]
    prod.collapse [symmetric, of "PN_Select list_skiplist ?mp"]]
  show ?thesis using ret key max by simp
qed

theorem selection_is_complete_witness:
  "\<exists>mp' (es :: int elem list). PN_Select list_skiplist (sample_pool default_config [signed_tx [65] 4 [], signed_tx [66] 3 [], signed_tx [65] 2 []]) =
       (mp', Ret (map snd es)) \<and> in_nonce_order es \<and>
     elem_id ` set es = keys (sample_pool default_config [signed_tx [65] 4 [], signed_tx [66] 3 [], signed_tx [65] 2 []])"
proof -
  have "\<forall>ctx t k p. tx_key char_addr DefaultAdapter_GetSigners t = Some k \<and>
      GetTxPriority (cfgTxPriority default_config) ctx t = Ret p \<longrightarrow> p = (\<lambda>_. 0) k"
    by (simp add: default_config_def DefaultTxPriority_def)
  from selection_is_complete [OF sample_pool_reach list_skiplist_laws default_config_order this]
  show ?thesis by blast
qed

lemma NextSenderTx_outcomes_sample:
  "NextSenderTx list_skiplist (fst (PN_Remove list_skiplist char_addr (sample_pool content_config [signed_tx [65] 0 [1]])
     (signed_tx [65] 0 [1]))) ''A'' = Panic"
proof -
  let ?mp = "sample_pool content_config [signed_tx [65] 0 [1]]" and ?t = "signed_tx [65] 0 [1]"
  obtain mp' where run: "PN_Remove list_skiplist char_addr ?mp ?t = (mp', Ret ())"
  proof -
    have "snd (PN_Remove list_skiplist char_addr ?mp ?t) = Ret ()" by code_simp
    with that show thesis by (metis prod.collapse)
  qed
  have key: "tx_key char_addr DefaultAdapter_GetSigners ?t = Some (0, ''A'')" by code_simp
  have "keys ?mp = elem_id ` set (pelems list_skiplist ?mp)"
    using pn_reach_ok [OF sample_pool_reach list_skiplist_laws content_priority_order] mempool_keys(1) by blast
  moreover have "map elem_id (pelems list_skiplist ?mp) = [(0, ''A'')]" by code_simp
  ultimately have "keys ?mp = {(0, ''A'')}" by (metis list.set_map list.simps(15) empty_set)
  then have "\<forall>m. (m, ''A'') \<in> keys ?mp \<longrightarrow> m = 0" by simp
  with NextSenderTx_outcomes [OF sample_pool_reach list_skiplist_laws content_priority_order,
    of "[signed_tx [65] 0 [1]]" "''A''"] run key show ?thesis by simp
qed

definition hidden_txs :: "tx list" where
  "hidden_txs = [signed_tx [65] 0 [1], signed_tx [66] 0 [1, 2, 3]]"

theorem replaced_tx_is_passed_by_witness:
  "let mp = fst (PN_Insert list_skiplist char_addr (sample_pool content_config hidden_txs) sample_ctx
       (signed_tx [65] 0 [1, 2, 3, 4])) in
   PN_Contains char_addr mp (signed_tx [65] 0 [1, 2, 3, 4]) = Ret True \<and>
   (\<exists>mp' (es :: int elem list). PN_Select list_skiplist mp = (mp', Ret (map snd es)) \<and> (\<forall>e \<in> set es. sender (fst e) \<noteq> ''A''))"
proof -
  let ?mp = "sample_pool content_config hidden_txs" and ?t = "signed_tx [65] 0 [1, 2, 3, 4]"
  obtain mp' where run: "PN_Insert list_skiplist char_addr ?mp sample_ctx ?t = (mp', Ret ())"
  proof -
    have "snd (PN_Insert list_skiplist char_addr ?mp sample_ctx ?t) = Ret ()" by code_simp
    with that show thesis by (metis prod.collapse)
  qed
  have key: "tx_key char_addr DefaultAdapter_GetSigners ?t = Some (0, ''A'')" by code_simp
  have idx: "map_option (\<lambda>l. map (\<lambda>e. (nonce (fst e), priority (fst e))) (slElems list_skiplist l)) (senderIndices ?mp ''A'') =
      Some [(0, 1)]" by code_simp
  then obtain idx k0 t0 where idx: "senderIndices ?mp ''A'' = Some idx" "slElems list_skiplist idx = [(k0, t0)]"
    "nonce k0 = 0" "priority k0 = 1" by auto
  have "map (\<lambda>e. (sender (fst e), priority (fst e)))
      (pelems list_skiplist (fst (PN_Insert list_skiplist char_addr ?mp sample_ctx ?t))) = [(''A'', 4), (''B'', 3)]"
    by code_simp
  then have new: "map (\<lambda>e. (sender (fst e), priority (fst e))) (pelems list_skiplist mp') = [(''A'', 4), (''B'', 3)]"
    using run by simp
  then obtain v u where u: "pelems list_skiplist mp' = [v, u]" "priority (fst u) = 3" by auto
  from new have above: "\<forall>e \<in> set (pelems list_skiplist mp'). sender (fst e) = ''A'' \<longrightarrow> priority (fst e) = 4" by auto
  have cmp: "PriorityCompare (cfgTxPriority content_config) a b = sgn (a - b)" for a b
    by (simp add: content_config_def content_priority_def)
  have max: "0 \<le> cfgMaxTx content_config" by (simp add: content_config_def)
  show ?thesis
    using replaced_tx_is_passed_by [OF sample_pool_reach list_skiplist_laws content_priority_order _ run key idx(1-3), of u]
      u idx(4) above run max by (simp add: cmp Let_def)
qed

end
