(* ===== verification/Lane_Mempool.thy ===== *)
theory Lane_Mempool
  imports Mempool_Reach Laned_Mempool Mev_Lane
begin

text \<open>
  The mempool of a lane (\<open>block/base/mempool.go\<close>), a wrapper of the priority nonce mempool, and the
  construction of lanes: \<open>NewBaseLane\<close> (\<open>block/base/lane.go\<close>), the options (\<open>block/base/options.go\<close>), the
  test handlers (\<open>block/base/types.go\<close>) and the constructors of the MEV, default and free lane
  (\<open>lanes/mev/lane.go\<close>, \<open>lanes/base/lane.go\<close>, \<open>lanes/free/lane.go\<close>). The locales \<open>keyed_store\<close> and
  \<open>keyed_mempool\<close> state what the laned mempool needs of the lanes' mempools; the latter is interpreted on the wrapper.
\<close>

section \<open>The mempool of a lane\<close>

record ('sl, 'ctx, 'c) Mempool =
  index :: "('sl, 'ctx, 'c) PriorityNonceMempool"
  extractor :: adapter
  txPriority :: "('ctx, 'c) TxPriority"

text \<open>\<open>z\<close> is the zero value of the type of priorities.\<close>

definition NewMempool ::
    "('sl, 'c) skiplist_ops \<Rightarrow> 'c \<Rightarrow> ('ctx, 'c) TxPriority \<Rightarrow> adapter \<Rightarrow> int \<Rightarrow> ('sl, 'ctx, 'c) Mempool" where
  "NewMempool SL z P E maxTx =
     \<lparr> index = NewPriorityMempool SL
         \<lparr> cfgTxPriority = P, cfgTxReplacement = None, cfgMaxTx = maxTx, cfgZero = z \<rparr> E,
       extractor = E, txPriority = P \<rparr>"

definition BaseMempool_Priority :: "('ctx, 'c) TxPriority \<Rightarrow> 'ctx \<Rightarrow> tx \<Rightarrow> 'c go" where
  "BaseMempool_Priority P ctx t = GetTxPriority P ctx t"

definition BaseMempool_Insert ::
    "('sl, 'c) skiplist_ops \<Rightarrow> addr_ops \<Rightarrow> ('sl, 'ctx, 'c) Mempool \<Rightarrow> 'ctx \<Rightarrow> tx \<Rightarrow>
     ('sl, 'ctx, 'c) Mempool \<times> unit go" where
  "BaseMempool_Insert SL A cm ctx t =
     (case PN_Insert SL A (index cm) ctx t of
        (i, r) \<Rightarrow> (cm\<lparr>index := i\<rparr>, wrap_err ''failed to insert tx into mempool'' r))"

definition BaseMempool_Remove ::
    "('sl, 'c) skiplist_ops \<Rightarrow> addr_ops \<Rightarrow> ('sl, 'ctx, 'c) Mempool \<Rightarrow> tx \<Rightarrow> ('sl, 'ctx, 'c) Mempool \<times> unit go" where
  "BaseMempool_Remove SL A cm t =
     (case PN_Remove SL A (index cm) t of
        (i, Err e) \<Rightarrow> (cm\<lparr>index := i\<rparr>, if errors_Is e ErrTxNotFound then Ret ()
          else Err (Wrapf ''failed to remove transaction from the mempool'' e))
      | (i, r) \<Rightarrow> (cm\<lparr>index := i\<rparr>, r))"

definition BaseMempool_Select ::
    "('sl, 'c) skiplist_ops \<Rightarrow> ('sl, 'ctx, 'c) Mempool \<Rightarrow> 'ctx \<Rightarrow> ('sl, 'ctx, 'c) Mempool \<times> tx list go" where
  "BaseMempool_Select SL cm ctx = (case PN_Select SL (index cm) of (i, r) \<Rightarrow> (cm\<lparr>index := i\<rparr>, r))"

definition BaseMempool_CountTx :: "('sl, 'c) skiplist_ops \<Rightarrow> ('sl, 'ctx, 'c) Mempool \<Rightarrow> nat" where
  "BaseMempool_CountTx SL cm = PN_CountTx SL (index cm)"

definition BaseMempool_Contains :: "addr_ops \<Rightarrow> ('sl, 'ctx, 'c) Mempool \<Rightarrow> tx \<Rightarrow> bool go" where
  "BaseMempool_Contains A cm t = PN_Contains A (index cm) t"

text \<open>Two transactions of one signer are compared by nonce, others by priority.\<close>

definition BaseMempool_Compare ::
    "addr_ops \<Rightarrow> ('sl, 'ctx, 'c) Mempool \<Rightarrow> 'ctx \<Rightarrow> tx \<Rightarrow> tx \<Rightarrow> int go" where
  "BaseMempool_Compare A cm ctx this other =
     go_bind (extractor cm this) (\<lambda>signers. case signers of
       [] \<Rightarrow> Err (Errorf ''expected one signer for the first transaction'')
     | thisSignerInfo # _ \<Rightarrow>
         go_bind (extractor cm other) (\<lambda>signers. case signers of
           [] \<Rightarrow> Err (Errorf ''expected one signer for the second transaction'')
         | otherSignerInfo # _ \<Rightarrow>
             if addrEquals A (Signer thisSignerInfo) (Signer otherSignerInfo)
             then if Sequence thisSignerInfo < Sequence otherSignerInfo then Ret 1
               else if Sequence thisSignerInfo > Sequence otherSignerInfo then Ret (- 1)
               else Err (Errorf ''the two transactions have the same sequence number'')
             else go_bind (GetTxPriority (txPriority cm) ctx this) (\<lambda>firstPriority.
               go_bind (GetTxPriority (txPriority cm) ctx other) (\<lambda>secondPriority.
               Ret (PriorityCompare (txPriority cm) firstPriority secondPriority)))))"

text \<open>
  The wrapper behind the interface. An interface value can hold a mempool of any type of
  priorities: \<open>box\<close> puts the state of such a mempool into the type of interface values, \<open>unbox\<close>
  takes it out again; \<open>dyn\<close> turns a priority into a value of type \<open>any\<close>.
\<close>

definition Mempool_methods ::
    "('sl, 'c) skiplist_ops \<Rightarrow> addr_ops \<Rightarrow> ('c \<Rightarrow> any) \<Rightarrow> (('sl, 'ctx, 'c) Mempool \<Rightarrow> 'mp) \<Rightarrow>
     ('mp \<Rightarrow> ('sl, 'ctx, 'c) Mempool) \<Rightarrow> ('ctx, 'c) TxPriority \<Rightarrow> ('mp, 'ctx) LaneMempool" where
  "Mempool_methods SL A dyn box unbox P =
     \<lparr> mpInsert = (\<lambda>mp ctx t. case BaseMempool_Insert SL A (unbox mp) ctx t of (cm, r) \<Rightarrow> (box cm, r)),
       mpSelect = (\<lambda>mp ctx. case BaseMempool_Select SL (unbox mp) ctx of (cm, r) \<Rightarrow> (box cm, r)),
       mpCountTx = (\<lambda>mp. BaseMempool_CountTx SL (unbox mp)),
       mpRemove = (\<lambda>mp t. case BaseMempool_Remove SL A (unbox mp) t of (cm, r) \<Rightarrow> (box cm, r)),
       mpCompare = (\<lambda>mp. BaseMempool_Compare A (unbox mp)),
       mpContains = (\<lambda>mp. BaseMempool_Contains A (unbox mp)),
       mpPriority = (\<lambda>ctx t. go_bind (BaseMempool_Priority P ctx t) (\<lambda>p. Ret (dyn p))) \<rparr>"

section \<open>What the laned mempool needs of a lane's mempool\<close>

text \<open>A registry of base lanes.\<close>

definition base_registry :: "dec_ops \<Rightarrow> (bytes \<Rightarrow> bytes) \<Rightarrow> ('mp, 'ctx) BaseLane list \<Rightarrow> ('mp, 'ctx) registry" where
  "base_registry D H ls = map (\<lambda>l. LaneOf (base_lane_methods D H l)) ls"

lemma base_registry_simps [simp]:
  "base_registry D H [] = []"
  "base_registry D H (l # ls) = LaneOf (base_lane_methods D H l) # base_registry D H ls"
  by (simp_all add: base_registry_def)

text \<open>
  Mempool \<open>i\<close> of a family, that of the lane with reference \<open>i\<close>, holds a finite set of keys. \<open>ok i\<close>
  is its invariant; \<open>key_of\<close> gives the key of a transaction that has one.
\<close>

locale keyed_store =
  fixes m :: "nat \<Rightarrow> ('mp, 'ctx) LaneMempool" and ok :: "nat \<Rightarrow> 'mp \<Rightarrow> bool"
    and keys_in :: "'mp \<Rightarrow> 'k set" and key_of :: "tx \<Rightarrow> 'k option"
  assumes insert_ok: "ok i mp \<Longrightarrow> mpInsert (m i) mp ctx t = (mp', r) \<Longrightarrow> ok i mp'"
    and insert_added: "ok i mp \<Longrightarrow> mpInsert (m i) mp ctx t = (mp', Ret ()) \<Longrightarrow>
      \<exists>k. key_of t = Some k \<and> keys_in mp' = insert k (keys_in mp)"
    and insert_failed: "ok i mp \<Longrightarrow> mpInsert (m i) mp ctx t = (mp', r) \<Longrightarrow> r \<noteq> Ret () \<Longrightarrow> keys_in mp' = keys_in mp"
    and remove_ok: "ok i mp \<Longrightarrow> mpRemove (m i) mp t = (mp', r) \<Longrightarrow> ok i mp'"
    and remove_keys: "ok i mp \<Longrightarrow> mpRemove (m i) mp t = (mp', r) \<Longrightarrow>
      keys_in mp' = keys_in mp - set_option (key_of t)"
    and remove_returns: "ok i mp \<Longrightarrow> mpRemove (m i) mp t = (mp', r) \<Longrightarrow> key_of t \<noteq> None \<Longrightarrow> r = Ret ()"
    and contains_keys: "ok i mp \<Longrightarrow> key_of t = Some k \<Longrightarrow> mpContains (m i) mp t = Ret (k \<in> keys_in mp)"
begin

lemma insert_registry:
  assumes "\<forall>l \<in> set ls. laneMempool l = Some (m (laneRef l)) \<and> ok (laneRef l) (mps (laneRef l))"
    and "\<forall>l \<in> set ls. \<exists>b. Match l ctx t = Ret b"
    and "insert_loop D (base_registry D H ls) mps ctx t = (mps', r)"
  shows "case find (\<lambda>l. Match l ctx t = Ret True) ls of
      None \<Rightarrow> mps' = mps \<and> r = Ret ()
    | Some l \<Rightarrow> (\<exists>mp'. mps' = mps(laneRef l := mp') \<and> ok (laneRef l) mp' \<and>
        (if r = Ret () then \<exists>k. key_of t = Some k \<and> keys_in mp' = insert k (keys_in (mps (laneRef l)))
         else keys_in mp' = keys_in (mps (laneRef l))))"
  using assms
proof (induction ls)
  case Nil
  then show ?case by simp
next
  case (Cons l ls)
  then obtain b where b: "Match l ctx t = Ret b" by auto
  show ?case
  proof (cases b)
    case True
    obtain mp' r' where ins: "mpInsert (m (laneRef l)) (mps (laneRef l)) ctx t = (mp', r')" by fastforce
    then have res: "mps' = mps(laneRef l := mp')" "r = r'"
      using Cons.prems(1,3) b True by (auto simp: base_lane_methods_def)
    have "ok (laneRef l) (mps (laneRef l))" using Cons.prems(1) by simp
    note laws = insert_ok [OF this ins] insert_added [OF this] insert_failed [OF this ins]
    show ?thesis using b True res ins laws by auto
  next
    case False
    then show ?thesis using Cons b by (auto simp: base_lane_methods_def)
  qed
qed

lemma remove_registry:
  assumes "\<forall>l \<in> set ls. laneMempool l = Some (m (laneRef l)) \<and> ok (laneRef l) (mps (laneRef l))"
    and "key_of t = Some k" and "remove_loop D (base_registry D H ls) mps t = (mps', r)"
  shows "r = Ret () \<and> (case find (\<lambda>l. k \<in> keys_in (mps (laneRef l))) ls of
      None \<Rightarrow> mps' = mps
    | Some l \<Rightarrow> (\<exists>mp'. mps' = mps(laneRef l := mp') \<and> ok (laneRef l) mp' \<and>
        keys_in mp' = keys_in (mps (laneRef l)) - {k}))"
  using assms
proof (induction ls)
  case Nil
  then show ?case by simp
next
  case (Cons l ls)
  have lane: "laneMempool l = Some (m (laneRef l))" "ok (laneRef l) (mps (laneRef l))" using Cons.prems(1) by simp_all
  note c = contains_keys [OF lane(2) Cons.prems(2)]
  show ?case
  proof (cases "k \<in> keys_in (mps (laneRef l))")
    case True
    obtain mp' r' where rm: "mpRemove (m (laneRef l)) (mps (laneRef l)) t = (mp', r')" by fastforce
    then have "mps' = mps(laneRef l := mp')" "r = r'"
      using Cons.prems(3) lane c True by (auto simp: base_lane_methods_def)
    then show ?thesis
      using remove_ok [OF lane(2) rm] remove_keys [OF lane(2) rm] remove_returns [OF lane(2) rm] Cons.prems(2) True
      by auto
  next
    case False
    then show ?thesis using Cons c lane by (auto simp: base_lane_methods_def)
  qed
qed

lemma contains_registry:
  assumes "\<forall>l \<in> set ls. laneMempool l = Some (m (laneRef l)) \<and> ok (laneRef l) (mps (laneRef l))"
    and "key_of t = Some k"
  shows "contains_loop D (base_registry D H ls) mps t = Ret (\<exists>l \<in> set ls. k \<in> keys_in (mps (laneRef l)))"
  using assms
proof (induction ls)
  case (Cons l ls)
  then have "mpContains (m (laneRef l)) (mps (laneRef l)) t = Ret (k \<in> keys_in (mps (laneRef l)))"
    by (intro contains_keys) simp_all
  with Cons show ?case by (simp add: base_lane_methods_def)
qed simp

text \<open>When at most one lane holds the key, nothing is left of it after a removal.\<close>

lemma remove_absent:
  assumes lanes: "\<forall>l \<in> set ls. laneMempool l = Some (m (laneRef l)) \<and> ok (laneRef l) (mps (laneRef l))"
    and key: "key_of t = Some k" and run: "remove_loop D (base_registry D H ls) mps t = (mps', r)"
    and one: "\<forall>l \<in> set ls. \<forall>l' \<in> set ls. k \<in> keys_in (mps (laneRef l)) \<and> k \<in> keys_in (mps (laneRef l')) \<longrightarrow>
      laneRef l = laneRef l'"
  shows "contains_loop D (base_registry D H ls) mps' t = Ret False"
proof (cases "find (\<lambda>l. k \<in> keys_in (mps (laneRef l))) ls")
  case None
  then have "mps' = mps" using remove_registry [OF lanes key run] by simp
  moreover have "\<forall>l \<in> set ls. k \<notin> keys_in (mps (laneRef l))" using None by (simp add: find_None_iff)
  ultimately show ?thesis using contains_registry [OF lanes key, of D H] by simp
next
  case (Some l)
  then have l: "l \<in> set ls" "k \<in> keys_in (mps (laneRef l))" by (auto simp: find_Some_iff)
  obtain mp' where mp': "mps' = mps(laneRef l := mp')" "ok (laneRef l) mp'"
    "keys_in mp' = keys_in (mps (laneRef l)) - {k}"
    using remove_registry [OF lanes key run] Some by auto
  have lanes': "\<forall>l \<in> set ls. laneMempool l = Some (m (laneRef l)) \<and> ok (laneRef l) (mps' (laneRef l))"
    using lanes mp' by auto
  have "k \<notin> keys_in (mps' (laneRef l'))" if "l' \<in> set ls" for l'
    using one l that mp' by (cases "laneRef l' = laneRef l") auto
  then show ?thesis using contains_registry [OF lanes' key, of D H] by simp
qed

end

text \<open>A mempool whose size is the number of its keys.\<close>

locale keyed_mempool = keyed_store m ok keys_in key_of
  for m :: "nat \<Rightarrow> ('mp, 'ctx) LaneMempool" and ok :: "nat \<Rightarrow> 'mp \<Rightarrow> bool"
    and keys_in :: "'mp \<Rightarrow> 'k set" and key_of :: "tx \<Rightarrow> 'k option" +
  assumes count_keys: "ok i mp \<Longrightarrow> mpCountTx (m i) mp = card (keys_in mp)"
begin

lemma count_registry:
  assumes "\<forall>l \<in> set ls. laneMempool l = Some (m (laneRef l)) \<and> ok (laneRef l) (mps (laneRef l))"
  shows "CountTx D (base_registry D H ls) mps = Ret (\<Sum>l \<leftarrow> ls. card (keys_in (mps (laneRef l))))"
  using assms by (induction ls) (auto simp: base_lane_methods_def count_keys)

end

text \<open>The wrapper of the priority nonce mempool keeps the contract, unless it is disabled.\<close>

definition base_pool_ok ::
    "('sl, 'c) skiplist_ops \<Rightarrow> adapter \<Rightarrow> ('sl, 'ctx, 'c) Mempool \<Rightarrow> bool" where
  "base_pool_ok SL E cm \<longleftrightarrow> mempool_ok SL (index cm) \<and> pnExtractor (index cm) = E \<and>
     0 \<le> cfgMaxTx (pnCfg (index cm))"

lemma Mempool_methods_simps:
  "mpInsert (Mempool_methods SL A dyn (\<lambda>x. x) (\<lambda>x. x) P) = BaseMempool_Insert SL A"
  "mpRemove (Mempool_methods SL A dyn (\<lambda>x. x) (\<lambda>x. x) P) = BaseMempool_Remove SL A"
  "mpContains (Mempool_methods SL A dyn (\<lambda>x. x) (\<lambda>x. x) P) = BaseMempool_Contains A"
  "mpCountTx (Mempool_methods SL A dyn (\<lambda>x. x) (\<lambda>x. x) P) = BaseMempool_CountTx SL"
  by (simp_all add: Mempool_methods_def fun_eq_iff split: prod.split)

lemma BaseMempool_Insert_ok:
  assumes ok: "base_pool_ok SL E cm" and run: "BaseMempool_Insert SL A cm ctx t = (cm', r)"
  shows "base_pool_ok SL E cm' \<and>
    (if r = Ret () then \<exists>k. tx_key A E t = Some k \<and> keys (index cm') = insert k (keys (index cm))
     else keys (index cm') = keys (index cm))"
proof -
  obtain i r0 where pn: "PN_Insert SL A (index cm) ctx t = (i, r0)" by fastforce
  then have "cm' = cm\<lparr>index := i\<rparr>" "r = Ret () \<longleftrightarrow> r0 = Ret ()"
    using run by (auto simp: BaseMempool_Insert_def)
  with PN_Insert_ok [OF _ pn] ok show ?thesis by (auto simp: base_pool_ok_def)
qed

lemma BaseMempool_Remove_ok:
  assumes ok: "base_pool_ok SL E cm" and run: "BaseMempool_Remove SL A cm t = (cm', r)"
  shows "base_pool_ok SL E cm' \<and> keys (index cm') = keys (index cm) - set_option (tx_key A E t) \<and>
    (tx_key A E t \<noteq> None \<longrightarrow> r = Ret ())"
proof -
  obtain i r0 where pn: "PN_Remove SL A (index cm) t = (i, r0)" by fastforce
  have cm': "cm' = cm\<lparr>index := i\<rparr>"
    using run pn by (auto simp: BaseMempool_Remove_def split: go.splits)
  have inv: "mempool_ok SL (index cm)" "pnExtractor (index cm) = E" using ok by (simp_all add: base_pool_ok_def)
  note rm = PN_Remove_ok [OF inv(1) pn]
  have "r = Ret ()" if key: "tx_key A E t = Some k" for k
  proof (cases "k \<in> keys (index cm)")
    case True
    then have "r0 = Ret ()" using rm key inv(2) by blast
    then show ?thesis using run pn by (simp add: BaseMempool_Remove_def)
  next
    case False
    then have "r0 = Err ErrTxNotFound"
      using pn key inv(2) by (auto simp: PN_Remove_def tx_key_def Let_def split: go.splits list.splits option.splits)
    then show ?thesis using run pn by (simp add: BaseMempool_Remove_def)
  qed
  then show ?thesis using rm ok unfolding cm' by (auto simp: base_pool_ok_def)
qed

interpretation base_pools: keyed_mempool "\<lambda>i. Mempool_methods SL A dyn (\<lambda>x. x) (\<lambda>x. x) (P i)" "\<lambda>_. base_pool_ok SL E"
    "\<lambda>cm. keys (index cm)" "tx_key A E"
  for SL A dyn P E
proof
  fix cm :: "('a, 'c, 'b) Mempool" and ctx t cm' r k
  assume ok: "base_pool_ok SL E cm"
  show "base_pool_ok SL E cm'" if "mpInsert (Mempool_methods SL A dyn (\<lambda>x. x) (\<lambda>x. x) (P i)) cm ctx t = (cm', r)" for i
    using BaseMempool_Insert_ok [OF ok, of A ctx t cm' r] that by (simp add: Mempool_methods_simps)
  show "\<exists>k. tx_key A E t = Some k \<and> keys (index cm') = insert k (keys (index cm))"
    if "mpInsert (Mempool_methods SL A dyn (\<lambda>x. x) (\<lambda>x. x) (P i)) cm ctx t = (cm', Ret ())" for i
    using BaseMempool_Insert_ok [OF ok, of A ctx t cm' "Ret ()"] that by (simp add: Mempool_methods_simps)
  show "keys (index cm') = keys (index cm)"
    if "mpInsert (Mempool_methods SL A dyn (\<lambda>x. x) (\<lambda>x. x) (P i)) cm ctx t = (cm', r)" "r \<noteq> Ret ()" for i
    using BaseMempool_Insert_ok [OF ok, of A ctx t cm' r] that by (simp add: Mempool_methods_simps)
  show "base_pool_ok SL E cm'" if "mpRemove (Mempool_methods SL A dyn (\<lambda>x. x) (\<lambda>x. x) (P i)) cm t = (cm', r)" for i
    using BaseMempool_Remove_ok [OF ok, of A t cm' r] that by (simp add: Mempool_methods_simps)
  show "keys (index cm') = keys (index cm) - set_option (tx_key A E t)"
    if "mpRemove (Mempool_methods SL A dyn (\<lambda>x. x) (\<lambda>x. x) (P i)) cm t = (cm', r)" for i
    using BaseMempool_Remove_ok [OF ok, of A t cm' r] that by (simp add: Mempool_methods_simps)
  show "r = Ret ()"
    if "mpRemove (Mempool_methods SL A dyn (\<lambda>x. x) (\<lambda>x. x) (P i)) cm t = (cm', r)" "tx_key A E t \<noteq> None" for i
    using BaseMempool_Remove_ok [OF ok, of A t cm' r] that by (simp add: Mempool_methods_simps)
  show "mpContains (Mempool_methods SL A dyn (\<lambda>x. x) (\<lambda>x. x) (P i)) cm t = Ret (k \<in> keys (index cm))"
    if "tx_key A E t = Some k" for i
    using that ok
    by (auto simp: Mempool_methods_simps BaseMempool_Contains_def PN_Contains_def tx_key_def base_pool_ok_def dom_def
        split: go.splits list.splits)
  show "mpCountTx (Mempool_methods SL A dyn (\<lambda>x. x) (\<lambda>x. x) (P i)) cm = card (keys (index cm))" for i
    using ok by (simp add: Mempool_methods_simps BaseMempool_CountTx_def PN_CountTx_eq base_pool_ok_def)
qed


section \<open>Constructing lanes\<close>

text \<open>Handlers for tests (\<open>block/base/types.go\<close>); like all handlers they are closures over the lane.\<close>

definition NoOpPrepareLaneHandler :: "('mp, 'ctx) lane_core \<Rightarrow> ('mp, 'ctx) PrepareLaneHandler" where
  "NoOpPrepareLaneHandler l mp ctx p limit = (mp, ctx, Ret ([], []))"

definition PanicPrepareLaneHandler :: "('mp, 'ctx) lane_core \<Rightarrow> ('mp, 'ctx) PrepareLaneHandler" where
  "PanicPrepareLaneHandler l mp ctx p limit = (mp, ctx, Panic)"

definition NoOpProcessLaneHandler :: "('mp, 'ctx) lane_core \<Rightarrow> ('mp, 'ctx) ProcessLaneHandler" where
  "NoOpProcessLaneHandler l mp ctx txs = (ctx, Ret ([], []))"

definition PanicProcessLaneHandler :: "('mp, 'ctx) lane_core \<Rightarrow> ('mp, 'ctx) ProcessLaneHandler" where
  "PanicProcessLaneHandler l mp ctx txs = (ctx, Panic)"

text \<open>
  An option changes the lane behind a pointer. The pair is the lane and the state of the mempool it
  refers to, which the owner of the lane stores under the lane's reference. A nil function or
  interface is \<open>None\<close>.
\<close>

type_synonym ('mp, 'ctx) LaneOption = "('mp, 'ctx) BaseLane \<times> 'mp \<Rightarrow> (('mp, 'ctx) BaseLane \<times> 'mp) go"

definition WithAnteHandler :: "'ctx ante_handler option \<Rightarrow> ('mp, 'ctx) LaneOption" where
  "WithAnteHandler anteHandler = (\<lambda>(l, mp). Ret (l\<lparr>cfg := (cfg l)\<lparr>cfgAnteHandler := anteHandler\<rparr>\<rparr>, mp))"

definition WithPrepareLaneHandler ::
    "(('mp, 'ctx) lane_core \<Rightarrow> ('mp, 'ctx) PrepareLaneHandler) option \<Rightarrow> ('mp, 'ctx) LaneOption" where
  "WithPrepareLaneHandler handler = (\<lambda>(l, mp).
     if Option.is_none handler then Panic else Ret (l\<lparr>prepareLaneHandler := handler\<rparr>, mp))"

definition WithProcessLaneHandler ::
    "(('mp, 'ctx) lane_core \<Rightarrow> ('mp, 'ctx) ProcessLaneHandler) option \<Rightarrow> ('mp, 'ctx) LaneOption" where
  "WithProcessLaneHandler handler = (\<lambda>(l, mp).
     if Option.is_none handler then Panic else Ret (l\<lparr>processLaneHandler := handler\<rparr>, mp))"

definition WithMatchHandler :: "'ctx MatchHandler option \<Rightarrow> ('mp, 'ctx) LaneOption" where
  "WithMatchHandler handler = (\<lambda>(l, mp).
     if Option.is_none handler then Panic else Ret (l\<lparr>matchHandler := handler\<rparr>, mp))"

definition WithMempool :: "(('mp, 'ctx) LaneMempool \<times> 'mp) option \<Rightarrow> ('mp, 'ctx) LaneOption" where
  "WithMempool mempool = (\<lambda>(l, mp).
     case mempool of None \<Rightarrow> Panic | Some (m, state) \<Rightarrow> Ret (l\<lparr>laneMempool := Some m\<rparr>, state))"

text \<open>The extractor of the configuration may be nil; then a call of the extractor panics.\<close>

definition WithMempoolConfigs ::
    "('sl, 'c) skiplist_ops \<Rightarrow> addr_ops \<Rightarrow> ('c \<Rightarrow> any) \<Rightarrow> (('sl, 'ctx, 'c) Mempool \<Rightarrow> 'mp) \<Rightarrow>
     ('mp \<Rightarrow> ('sl, 'ctx, 'c) Mempool) \<Rightarrow> 'c \<Rightarrow> 'ctx LaneConfig \<Rightarrow> ('ctx, 'c) TxPriority \<Rightarrow> ('mp, 'ctx) LaneOption" where
  "WithMempoolConfigs SL A dyn box unbox z c P = (\<lambda>(l, mp).
     Ret (l\<lparr>laneMempool := Some (Mempool_methods SL A dyn box unbox P)\<rparr>,
       box (NewMempool SL z P (call1 (cfgSignerExtractor c)) (cfgMaxTxs c))))"

fun WithOptions :: "('mp, 'ctx) LaneOption list \<Rightarrow> ('mp, 'ctx) LaneOption" where
  "WithOptions [] l = Ret l"
| "WithOptions (option # options) l = go_bind (option l) (WithOptions options)"

text \<open>\<open>ref\<close> is the address of the new lane.\<close>

definition NewBaseLane ::
    "'ctx ctx_ops \<Rightarrow> dec_ops \<Rightarrow> (bytes \<Rightarrow> bytes) \<Rightarrow> ('sl, int) skiplist_ops \<Rightarrow> addr_ops \<Rightarrow>
     (('sl, 'ctx, int) Mempool \<Rightarrow> 'mp) \<Rightarrow> ('mp \<Rightarrow> ('sl, 'ctx, int) Mempool) \<Rightarrow> nat \<Rightarrow> 'ctx LaneConfig \<Rightarrow> string \<Rightarrow>
     ('mp, 'ctx) LaneOption list \<Rightarrow> (('mp, 'ctx) BaseLane \<times> 'mp) go" where
  "NewBaseLane C D H SL A box unbox ref c name options =
     go_bind (WithOptions options
       (\<lparr> laneRef = ref, cfg = c, laneName = name,
          laneMempool = Some (Mempool_methods SL A AnyInt box unbox DefaultTxPriority),
          matchHandler = Some DefaultMatchHandler,
          prepareLaneHandler = Some (Default_PrepareLaneHandler C H),
          processLaneHandler = Some (Default_ProcessLaneHandler C) \<rparr>,
        box (NewMempool SL 0 DefaultTxPriority (call1 (cfgSignerExtractor c)) (cfgMaxTxs c))))
     (\<lambda>(l, mp). go_bind (BaseLane_ValidateBasic D l) (\<lambda>_. Ret (l, mp)))"

text \<open>\<open>if err != nil { panic(err) }\<close>\<close>

fun must :: "'a go \<Rightarrow> 'a go" where
  "must (Ret x) = Ret x"
| "must _ = Panic"

definition NewDefaultLane ::
    "'ctx ctx_ops \<Rightarrow> dec_ops \<Rightarrow> (bytes \<Rightarrow> bytes) \<Rightarrow> ('sl, int) skiplist_ops \<Rightarrow> addr_ops \<Rightarrow>
     (('sl, 'ctx, int) Mempool \<Rightarrow> 'mp) \<Rightarrow> ('mp \<Rightarrow> ('sl, 'ctx, int) Mempool) \<Rightarrow> nat \<Rightarrow> 'ctx LaneConfig \<Rightarrow>
     'ctx MatchHandler option \<Rightarrow> (('mp, 'ctx) BaseLane \<times> 'mp) go" where
  "NewDefaultLane C D H SL A box unbox ref c mh =
     must (NewBaseLane C D H SL A box unbox ref c ''default'' [WithMatchHandler mh])"

text \<open>The free lane has a priority of its own; it matches staking messages by default.\<close>

definition NewFreeLane ::
    "'ctx ctx_ops \<Rightarrow> dec_ops \<Rightarrow> (bytes \<Rightarrow> bytes) \<Rightarrow> ('sl, int) skiplist_ops \<Rightarrow> addr_ops \<Rightarrow>
     (('sl, 'ctx, int) Mempool \<Rightarrow> 'mp) \<Rightarrow> ('mp \<Rightarrow> ('sl, 'ctx, int) Mempool) \<Rightarrow>
     ('sl', 'c) skiplist_ops \<Rightarrow> ('c \<Rightarrow> any) \<Rightarrow> (('sl', 'ctx, 'c) Mempool \<Rightarrow> 'mp) \<Rightarrow> ('mp \<Rightarrow> ('sl', 'ctx, 'c) Mempool) \<Rightarrow> 'c \<Rightarrow>
     nat \<Rightarrow> 'ctx LaneConfig \<Rightarrow> ('ctx, 'c) TxPriority \<Rightarrow> 'ctx MatchHandler option \<Rightarrow> (('mp, 'ctx) BaseLane \<times> 'mp) go" where
  "NewFreeLane C D H SL A box unbox SL' dyn box' unbox' z ref c P mh =
     must (NewBaseLane C D H SL A box unbox ref c ''free''
       [WithMatchHandler mh, WithMempoolConfigs SL' A dyn box' unbox' z c P])"

fun staking_msg :: "msg \<Rightarrow> bool" where
  "staking_msg MsgDelegate = True"
| "staking_msg MsgBeginRedelegate = True"
| "staking_msg MsgCancelUnbondingDelegation = True"
| "staking_msg _ = False"

definition Free_DefaultMatchHandler :: "'ctx MatchHandler" where
  "Free_DefaultMatchHandler ctx t = Ret (list_ex staking_msg (TxMsgs t))"

text \<open>The MEV lane: bids as priorities, and the handlers of the auction. It carries its factory.\<close>

record ('mp, 'ctx) MEVLane =
  MevBaseLane :: "('mp, 'ctx) BaseLane"
  MevFactory :: "'ctx Factory"

definition NewMEVLane ::
    "'ctx ctx_ops \<Rightarrow> dec_ops \<Rightarrow> coin_ops \<Rightarrow> (bytes \<Rightarrow> bytes) \<Rightarrow> ('sl, int) skiplist_ops \<Rightarrow> addr_ops \<Rightarrow>
     (('sl, 'ctx, int) Mempool \<Rightarrow> 'mp) \<Rightarrow> ('mp \<Rightarrow> ('sl, 'ctx, int) Mempool) \<Rightarrow>
     ('sl', string) skiplist_ops \<Rightarrow> (('sl', 'ctx, string) Mempool \<Rightarrow> 'mp) \<Rightarrow> ('mp \<Rightarrow> ('sl', 'ctx, string) Mempool) \<Rightarrow>
     nat \<Rightarrow> 'ctx LaneConfig \<Rightarrow> 'ctx Factory \<Rightarrow> 'ctx MatchHandler option \<Rightarrow> (('mp, 'ctx) MEVLane \<times> 'mp) go" where
  "NewMEVLane C D K H SL A box unbox SL' box' unbox' ref c F mh =
     go_bind (must (NewBaseLane C D H SL A box unbox ref c ''mev''
         [WithMatchHandler mh, WithMempoolConfigs SL' A AnyString box' unbox' '''' c (Mev_TxPriority K F)])) (\<lambda>lane.
       go_bind (WithOptions [WithPrepareLaneHandler (Some (Mev_PrepareLaneHandler C H F)),
           WithProcessLaneHandler (Some (Mev_ProcessLaneHandler C F))] lane) (\<lambda>(l, mp).
         Ret (\<lparr> MevBaseLane = l, MevFactory = F \<rparr>, mp)))"


section \<open>What the constructors give\<close>

lemma NewBaseLane_valid:
  "NewBaseLane C D H SL A box unbox ref c name options = Ret (l, mp) \<Longrightarrow> BaseLane_ValidateBasic D l = Ret ()"
  by (auto simp: NewBaseLane_def go_simps)

lemma must_Ret_iff [simp]: "must m = Ret x \<longleftrightarrow> m = Ret x"
  by (cases m) auto

lemma must_no_error: "must m \<noteq> Err e"
  by (cases m) auto

lemma NewMempool_ok:
  assumes "skiplist_laws SL" and "ordering_cmp (PriorityCompare P)" and "0 \<le> maxTx"
  shows "base_pool_ok SL E (NewMempool SL z P E maxTx)"
  using new_mempool_ok [OF assms(1), of "\<lparr> cfgTxPriority = P, cfgTxReplacement = None, cfgMaxTx = maxTx, cfgZero = z \<rparr>"]
    assms(2,3)
  by (simp add: base_pool_ok_def NewMempool_def) (simp add: NewPriorityMempool_def)

text \<open>A default lane: its match handler, the default handlers, and an empty mempool that keeps its contract.\<close>

lemma NewDefaultLane_ok:
  fixes c :: "'ctx LaneConfig"
  assumes "skiplist_laws SL" and "0 \<le> cfgMaxTxs c"
    and new: "NewDefaultLane C D H SL A (\<lambda>x. x) (\<lambda>x. x) ref c mh = Ret (l, mp)"
  shows "laneRef l = ref \<and> laneName l = ''default'' \<and> cfg l = c \<and> matchHandler l = mh \<and> mh \<noteq> None \<and>
    laneMempool l = Some (Mempool_methods SL A AnyInt (\<lambda>x. x) (\<lambda>x. x) DefaultTxPriority) \<and>
    prepareLaneHandler l = Some (Default_PrepareLaneHandler C H) \<and>
    processLaneHandler l = Some (Default_ProcessLaneHandler C) \<and>
    base_pool_ok SL (call1 (cfgSignerExtractor c)) mp \<and> keys (index mp) = {}"
proof -
  have "ordering_cmp (PriorityCompare (DefaultTxPriority :: ('ctx, int) TxPriority))"
    by (simp add: ordering_cmp_def DefaultTxPriority_def)
  note pool = NewMempool_ok [OF assms(1) this assms(2), of "call1 (cfgSignerExtractor c)" 0]
  have "keys (index (NewMempool SL z P E n)) = {}" for z :: int and P :: "('ctx, int) TxPriority" and E n
    by (simp add: NewMempool_def NewPriorityMempool_def)
  with pool new show ?thesis
    by (auto simp: NewDefaultLane_def NewBaseLane_def WithMatchHandler_def go_simps Option.is_none_def split: if_splits)
qed

text \<open>A MEV lane is made exactly from a valid configuration and a match handler; else the constructor panics.\<close>

lemma NewMEVLane_iff:
  "(\<exists>l. NewMEVLane C D K H SL A box unbox SL' box' unbox' ref c F mh = Ret l) \<longleftrightarrow>
     LaneConfig_ValidateBasic D c = Ret () \<and> mh \<noteq> None"
  "NewMEVLane C D K H SL A box unbox SL' box' unbox' ref c F mh = Ret (l, mp) \<Longrightarrow>
     MevFactory l = F \<and> matchHandler (MevBaseLane l) = mh \<and> laneName (MevBaseLane l) = ''mev'' \<and>
     prepareLaneHandler (MevBaseLane l) = Some (Mev_PrepareLaneHandler C H F) \<and>
     processLaneHandler (MevBaseLane l) = Some (Mev_ProcessLaneHandler C F) \<and>
     laneMempool (MevBaseLane l) = Some (Mempool_methods SL' A AnyString box' unbox' (Mev_TxPriority K F))"
  by (auto simp: NewMEVLane_def NewBaseLane_def WithMatchHandler_def WithMempoolConfigs_def WithPrepareLaneHandler_def
      WithProcessLaneHandler_def BaseLane_ValidateBasic_def go_simps Option.is_none_def split: if_splits)

section \<open>The laned mempool tracks the keys of its lanes\<close>

text \<open>C36: Over lanes with mempools that keep the contract, the laned mempool is a list of key sets. A
  successful insert adds the transaction's key to the first lane that matches and touches no other
  lane; without a matching lane nothing happens. \<open>Remove\<close> succeeds and takes the key out of the first
  lane that holds it; \<open>Contains\<close> tells whether some lane holds it; \<open>CountTx\<close> adds up the sizes.\<close>

theorem LanedMempool_tracks_keys:
  assumes "\<forall>l \<in> set ls. laneMempool l = Some (Mempool_methods SL A dyn (\<lambda>x. x) (\<lambda>x. x) (P (laneRef l))) \<and>
      base_pool_ok SL E (mps (laneRef l))"
    and "\<forall>l \<in> set ls. \<exists>b. Match l ctx t = Ret b" and "tx_key A E t = Some k"
    and "Insert D (base_registry D H ls) mps ctx t = (mps1, r1)" and "Remove D (base_registry D H ls) mps t = (mps2, r2)"
  shows "(case find (\<lambda>l. Match l ctx t = Ret True) ls of
        None \<Rightarrow> mps1 = mps \<and> r1 = Ret ()
      | Some l \<Rightarrow> \<exists>mp'. mps1 = mps(laneRef l := mp') \<and> base_pool_ok SL E mp' \<and>
          keys (index mp') = (if r1 = Ret () then insert k (keys (index (mps (laneRef l)))) else keys (index (mps (laneRef l))))) \<and>
    r2 = Ret () \<and>
    (case find (\<lambda>l. k \<in> keys (index (mps (laneRef l)))) ls of
        None \<Rightarrow> mps2 = mps
      | Some l \<Rightarrow> \<exists>mp'. mps2 = mps(laneRef l := mp') \<and> base_pool_ok SL E mp' \<and>
          keys (index mp') = keys (index (mps (laneRef l))) - {k}) \<and>
    (Mempool_Contains D (base_registry D H ls) mps t \<longleftrightarrow> (\<exists>l \<in> set ls. k \<in> keys (index (mps (laneRef l))))) \<and>
    CountTx D (base_registry D H ls) mps = Ret (\<Sum>l \<leftarrow> ls. card (keys (index (mps (laneRef l)))))"
proof -
  obtain r where ins: "insert_loop D (base_registry D H ls) mps ctx t = (mps1, r)" "r1 = Ret () \<longleftrightarrow> r = Ret ()"
    using assms(4) by (auto simp: Insert_def split: prod.splits)
  obtain r' where rm: "remove_loop D (base_registry D H ls) mps t = (mps2, r')" "r2 = Ret () \<longleftrightarrow> r' = Ret ()"
    using assms(5) by (auto simp: Remove_def split: prod.splits)
  note facts = base_pools.insert_registry [OF assms(1,2) ins(1)] base_pools.remove_registry [OF assms(1,3) rm(1)]
    base_pools.contains_registry [OF assms(1,3), of D H] base_pools.count_registry [OF assms(1), of D H]
  show ?thesis
    using facts assms(3) ins(2) rm(2)
    by (auto simp: Mempool_Contains_def split: option.splits)
qed

text \<open>Two lanes made by the constructor; the first takes transactions with an empty content.\<close>

definition pool_config :: "LegacyDec \<Rightarrow> value_context LaneConfig" where
  "pool_config space = NewLaneConfig (Some ()) (Some sample_encode) (Some sample_decode) None
     (Some DefaultAdapter_GetSigners) space"

definition pool_lane :: "nat \<Rightarrow> LegacyDec \<Rightarrow> value_context MatchHandler \<Rightarrow>
    (((int txMeta \<Rightarrow> int txMeta \<Rightarrow> int) \<times> int elem list, value_context, int) Mempool, value_context) BaseLane \<times>
    ((int txMeta \<Rightarrow> int txMeta \<Rightarrow> int) \<times> int elem list, value_context, int) Mempool" where
  "pool_lane ref space mh = (case NewDefaultLane value_ctx scaled_dec (\<lambda>bz. bz) list_skiplist char_addr (\<lambda>x. x) (\<lambda>x. x) ref
     (pool_config space) (Some mh) of Ret r \<Rightarrow> r)"

definition pool_lanes :: "(((int txMeta \<Rightarrow> int txMeta \<Rightarrow> int) \<times> int elem list, value_context, int) Mempool, value_context) BaseLane list" where
  "pool_lanes = [fst (pool_lane 0 (Dec 0) (\<lambda>_ t. Ret (TxRest t = []))), fst (pool_lane 1 (Dec 1) DefaultMatchHandler)]"

definition pool_store :: "((int txMeta \<Rightarrow> int txMeta \<Rightarrow> int) \<times> int elem list, value_context, int) Mempool store" where
  "pool_store ref = snd (pool_lane 0 (Dec 0) DefaultMatchHandler)"

lemma pool_lane_new:
  assumes "0 \<le> x" and "x \<le> dec_unit"
  shows "NewDefaultLane value_ctx scaled_dec (\<lambda>bz. bz) list_skiplist char_addr (\<lambda>x. x) (\<lambda>x. x) ref (pool_config (Dec x)) (Some mh) =
    Ret (pool_lane ref (Dec x) mh)"
proof -
  have "\<exists>r. NewDefaultLane value_ctx scaled_dec (\<lambda>bz. bz) list_skiplist char_addr (\<lambda>x. x) (\<lambda>x. x) ref (pool_config (Dec x)) (Some mh) = Ret r"
    using assms
    by (simp add: NewDefaultLane_def NewBaseLane_def WithMatchHandler_def BaseLane_ValidateBasic_def LaneConfig_ValidateBasic_def
        pool_config_def NewLaneConfig_def scaled_dec_def)
  then show ?thesis by (auto simp: pool_lane_def)
qed

lemma pool_lane_facts:
  assumes "0 \<le> x" and "x \<le> dec_unit"
  shows "laneRef (fst (pool_lane ref (Dec x) mh)) = ref" and "matchHandler (fst (pool_lane ref (Dec x) mh)) = Some mh"
    and "laneMempool (fst (pool_lane ref (Dec x) mh)) =
      Some (Mempool_methods list_skiplist char_addr AnyInt (\<lambda>x. x) (\<lambda>x. x) DefaultTxPriority)"
    and "base_pool_ok list_skiplist DefaultAdapter_GetSigners (snd (pool_lane ref (Dec x) mh))"
    and "keys (index (snd (pool_lane ref (Dec x) mh))) = {}" and "cfg (fst (pool_lane ref (Dec x) mh)) = pool_config (Dec x)"
proof -
  have cfg: "0 \<le> cfgMaxTxs (pool_config (Dec x))" "call1 (cfgSignerExtractor (pool_config (Dec x))) = DefaultAdapter_GetSigners"
    by (auto simp: pool_config_def NewLaneConfig_def)
  have "NewDefaultLane value_ctx scaled_dec (\<lambda>bz. bz) list_skiplist char_addr (\<lambda>x. x) (\<lambda>x. x) ref (pool_config (Dec x)) (Some mh) =
      Ret (fst (pool_lane ref (Dec x) mh), snd (pool_lane ref (Dec x) mh))"
    using pool_lane_new [OF assms] by simp
  from NewDefaultLane_ok [OF list_skiplist_laws cfg(1) this]
  show "laneRef (fst (pool_lane ref (Dec x) mh)) = ref" "matchHandler (fst (pool_lane ref (Dec x) mh)) = Some mh"
    "laneMempool (fst (pool_lane ref (Dec x) mh)) =
      Some (Mempool_methods list_skiplist char_addr AnyInt (\<lambda>x. x) (\<lambda>x. x) DefaultTxPriority)"
    "base_pool_ok list_skiplist DefaultAdapter_GetSigners (snd (pool_lane ref (Dec x) mh))"
    "keys (index (snd (pool_lane ref (Dec x) mh))) = {}" "cfg (fst (pool_lane ref (Dec x) mh)) = pool_config (Dec x)"
    by (simp_all add: cfg(2))
qed

theorem LanedMempool_tracks_keys_witness:
  "\<exists>mps mp'. Insert scaled_dec (base_registry scaled_dec (\<lambda>bz. bz) pool_lanes) pool_store sample_ctx (signed_tx [65] 0 [1]) = (mps, Ret ()) \<and>
     mps = pool_store(1 := mp') \<and> keys (index mp') = {(0, ''A'')} \<and>
     \<not> Mempool_Contains scaled_dec (base_registry scaled_dec (\<lambda>bz. bz) pool_lanes) pool_store (signed_tx [65] 0 [1])"
proof -
  let ?t = "signed_tx [65] 0 [1]" and ?R = "base_registry scaled_dec (\<lambda>bz. bz) pool_lanes"
  obtain mps1 r1 mps2 r2 where run: "Insert scaled_dec ?R pool_store sample_ctx ?t = (mps1, r1)"
    "Remove scaled_dec ?R pool_store ?t = (mps2, r2)" by (meson surj_pair)
  have lanes: "\<forall>l \<in> set pool_lanes. laneMempool l = Some (Mempool_methods list_skiplist char_addr AnyInt (\<lambda>x. x) (\<lambda>x. x)
        ((\<lambda>_. DefaultTxPriority) (laneRef l))) \<and> base_pool_ok list_skiplist DefaultAdapter_GetSigners (pool_store (laneRef l))"
    by (simp add: pool_lanes_def pool_store_def pool_lane_facts)
  have match: "\<forall>l \<in> set pool_lanes. \<exists>b. Match l sample_ctx ?t = Ret b"
    by (auto simp: pool_lanes_def Match_def pool_lane_facts DefaultMatchHandler_def)
  have first: "find (\<lambda>l. Match l sample_ctx ?t = Ret True) pool_lanes = Some (fst (pool_lane 1 (Dec 1) DefaultMatchHandler))"
    by (simp add: pool_lanes_def Match_def pool_lane_facts DefaultMatchHandler_def signed_tx_def)
  have key: "tx_key char_addr DefaultAdapter_GetSigners ?t = Some (0, ''A'')" by code_simp
  have "snd (Insert scaled_dec ?R pool_store sample_ctx ?t) = Ret ()" by code_simp
  then have ret: "r1 = Ret ()" using run(1) by simp
  note facts = LanedMempool_tracks_keys [OF lanes match key run]
  from facts show ?thesis
    using run(1) ret unfolding first by (auto simp: pool_lane_facts pool_store_def)
qed

end
