(* ===== verification/App_Run.thy ===== *)
theory App_Run
  imports Round_Trip Lane_Mempool
begin

text \<open>
  The life of an application's mempools and the blocks built from them: transactions are inserted
  into and removed from the laned mempool and proposals are prepared, in any order. The laned mempool
  gives a transaction to the first lane that matches it, so no lane matches what a later one holds;
  this discipline is an invariant, and with it a proposal of one such node is accepted by another.
  What this needs of a lane's mempool is the locale \<open>selecting_mempool\<close>, interpreted by the
  repository's own mempool with the priority of the default lane.
\<close>

section \<open>What preparing does to a lane's mempool\<close>

text \<open>A property of a lane's mempool that its prepare handler and removals keep.\<close>

definition keeps :: "('mp \<Rightarrow> bool) \<Rightarrow> ('mp, 'ctx) BaseLane \<Rightarrow> bool" where
  "keeps J l \<longleftrightarrow> (\<forall>mp. J mp \<longrightarrow>
     (\<forall>h ctx p limit mp1 ctx1 r. prepareLaneHandler l = Some h \<longrightarrow>
        h (lane_core.truncate l) mp ctx p limit = (mp1, ctx1, r) \<longrightarrow> J mp1) \<and>
     (\<forall>m t. laneMempool l = Some m \<longrightarrow> J (fst (mpRemove m mp t))))"

lemma keepsD:
  assumes "keeps J l" and "J mp"
  shows "prepareLaneHandler l = Some h \<Longrightarrow> h (lane_core.truncate l) mp ctx p limit = (mp1, ctx1, r) \<Longrightarrow> J mp1"
    and "laneMempool l = Some m \<Longrightarrow> J (fst (mpRemove m mp t))"
  using assms unfolding keeps_def by blast+

lemma remove_invalid_keeps: "keeps J l \<Longrightarrow> J mp \<Longrightarrow> J (fst (remove_invalid l txs mp))"
  unfolding remove_invalid_def
  by (rule RemoveTxsFromLane_invariant) (auto dest: keepsD(2) split: option.split)

lemma PrepareLane_keeps:
  assumes J: "keeps J l" "J (mps (laneRef l))"
    and run: "BaseLane_PrepareLane D H l next mps ctx p = (mps', ctx', sh, r)"
  obtains (ended) mp where "J mp" "mps' = mps(laneRef l := mp)"
  | (went_on) mp ctx1 p1 where "J mp" "next (mps(laneRef l := mp)) ctx1 p1 = (mps', ctx', sh, r)"
proof -
  have same: "\<exists>mp. J mp \<and> mps = mps(laneRef l := mp)" using J(2) by (intro exI [of _ "mps (laneRef l)"]) simp
  have "(\<exists>mp. J mp \<and> mps' = mps(laneRef l := mp)) \<or>
      (\<exists>mp ctx1 p1. J mp \<and> next (mps(laneRef l := mp)) ctx1 p1 = (mps', ctx', sh, r))"
  proof (cases "GetLaneLimits D p (GetMaxBlockSpace l)")
    case lim: (Ret limit)
    show ?thesis
    proof (cases "prepareLaneHandler l")
      case None
      then show ?thesis using run lim same by (auto simp: BaseLane_PrepareLane_def)
    next
      case (Some h)
      obtain mp1 ctx1 o1 where h: "h (lane_core.truncate l) (mps (laneRef l)) ctx p limit = (mp1, ctx1, o1)"
        by (metis prod.collapse)
      have J1: "J mp1" by (rule keepsD(1) [OF J Some h])
      show ?thesis
      proof (cases o1)
        case o1: (Ret sel)
        obtain incl rmv where sel: "sel = (incl, rmv)" by fastforce
        obtain mp2 rr where rm: "remove_invalid l rmv mp1 = (mp2, rr)" by fastforce
        then have "J mp2" using remove_invalid_keeps [OF J(1) J1, of rmv] by simp
        then show ?thesis
          using run lim Some h o1 sel rm
          by (auto simp: BaseLane_PrepareLane_def split: go.splits prod.splits)
      qed (use run lim Some h J1 in \<open>auto simp: BaseLane_PrepareLane_def\<close>)
    qed
  qed (use run same in \<open>auto simp: BaseLane_PrepareLane_def\<close>)
  then show thesis using ended went_on by blast
qed

text \<open>The chain: what every lane keeps of its own mempool holds of the whole store.\<close>

lemma prepare_chain_keeps:
  assumes "\<forall>l \<in> set ls. keeps (J l) l" and "set ls \<subseteq> set all" and "inj_on laneRef (set all)"
    and "\<forall>l \<in> set all. J l (mps (laneRef l))"
    and "prepare_chain D C (lane_chain D H ls) mps ctx p = (mps', ctx', sh, r)"
  shows "\<forall>l \<in> set all. J l (mps' (laneRef l))"
  using assms(1,2,4,5)
proof (induction ls arbitrary: mps ctx p mps' ctx' sh r)
  case Nil
  then show ?case by (auto simp: Terminator_methods_def Terminator_PrepareLane_def)
next
  case (Cons l ls)
  let ?next = "prepare_chain D C (lane_chain D H ls)"
  have IH: "\<forall>k \<in> set all. J k (mps2 (laneRef k))"
    if "?next mps1 c q = (mps2, c', sh', r')" "\<forall>k \<in> set all. J k (mps1 (laneRef k))" for mps1 c q mps2 c' sh' r'
    by (rule Cons.IH [OF _ _ that(2,1)]) (use Cons.prems(1,2) in auto)
  have upd: "\<forall>k \<in> set all. J k ((mps(laneRef l := mp)) (laneRef k))" if "J l mp" for mp
    using that Cons.prems(2,3) assms(3) by (auto simp: inj_on_def)
  obtain mps1 c1 sh1 r1 where pl: "BaseLane_PrepareLane D H l ?next mps (CacheContext C ctx) p = (mps1, c1, sh1, r1)"
    by (metis prod.collapse)
  have lane: "keeps (J l) l" "J l (mps (laneRef l))" using Cons.prems(1-3) by auto
  have one: "\<forall>k \<in> set all. J k (mps1 (laneRef k))"
  proof (rule PrepareLane_keeps [of "J l" l mps, OF lane pl])
    show ?thesis if "J l mp" and "mps1 = mps(laneRef l := mp)" for mp
      using upd [OF that(1)] that(2) by simp
    show ?thesis if "J l mp" and "?next (mps(laneRef l := mp)) c2 p2 = (mps1, c1, sh1, r1)" for mp c2 p2
      using IH [OF that(2) upd [OF that(1)]] .
  qed
  show ?case
    using Cons.prems(4) pl one IH [OF _ one]
    by (cases r1) (auto simp: base_lane_methods_def split: if_splits)
qed

section \<open>Transactions are given to the first lane that matches\<close>

text \<open>
  \<open>dispatched\<close>: the mempools of the lanes \<open>ls\<close> are in order, and no lane, of \<open>ms\<close> or of \<open>ls\<close>, matches
  what a later lane of \<open>ls\<close> holds. \<open>stateless\<close>: what a lane matches does not depend on the context.
\<close>

definition dispatched :: "('mp \<Rightarrow> bool) \<Rightarrow> ('mp \<Rightarrow> tx set) \<Rightarrow> ('mp, 'ctx) BaseLane list \<Rightarrow>
    ('mp, 'ctx) BaseLane list \<Rightarrow> 'mp store \<Rightarrow> bool" where
  "dispatched ok held ms ls mps \<longleftrightarrow> (\<forall>k \<in> set ls. ok (mps (laneRef k))) \<and>
     sorted_wrt (\<lambda>l k. k \<in> set ls \<longrightarrow> (\<forall>t \<in> held (mps (laneRef k)). \<forall>c. Match l c t = Ret False)) (ms @ ls)"

definition stateless :: "('mp, 'ctx) BaseLane \<Rightarrow> bool" where
  "stateless l \<longleftrightarrow> (\<forall>t c c'. Match l c t = Match l c' t)"

lemma refs_inj: "distinct (map laneRef ls) \<Longrightarrow> inj_on laneRef (set ls)"
  by (simp add: distinct_map)

lemma dispatched_shrink:
  assumes "dispatched ok held ms ls mps"
    and "\<forall>k \<in> set ls. ok (mps' (laneRef k)) \<and> held (mps' (laneRef k)) \<subseteq> held (mps (laneRef k))"
  shows "dispatched ok held ms ls mps'"
  unfolding dispatched_def
proof
  have "sorted_wrt (\<lambda>l k. k \<in> set ls \<longrightarrow> (\<forall>t \<in> held (mps (laneRef k)). \<forall>c. Match l c t = Ret False)) (ms @ ls)"
    using assms(1) by (simp add: dispatched_def)
  then show "sorted_wrt (\<lambda>l k. k \<in> set ls \<longrightarrow> (\<forall>t \<in> held (mps' (laneRef k)). \<forall>c. Match l c t = Ret False)) (ms @ ls)"
    by (rule sorted_wrt_mono_rel [rotated]) (use assms(2) in blast)
qed (use assms(2) in blast)

text \<open>A transaction that the lanes in front do not match may be added to a lane.\<close>

lemma dispatched_add:
  assumes disp: "dispatched ok held ms ls mps" and split: "ms @ ls = as @ l # bs"
    and refs: "distinct (map laneRef (ms @ ls))"
    and add: "l \<in> set ls \<Longrightarrow> ok mp \<and> held mp \<subseteq> insert t (held (mps (laneRef l)))"
    and front: "\<forall>a \<in> set as. \<forall>c. Match a c t = Ret False"
  shows "dispatched ok held ms ls (mps(laneRef l := mp))"
proof -
  let ?R = "\<lambda>st l k. k \<in> set ls \<longrightarrow> (\<forall>t \<in> held (st (laneRef k)). \<forall>c. Match l c t = Ret False)"
  let ?mps = "mps(laneRef l := mp)"
  have other: "laneRef k \<noteq> laneRef l" if "k \<in> set as \<or> k \<in> set bs" for k
    using refs that unfolding split by (auto simp: image_iff)
  have same: "?R ?mps x k \<longleftrightarrow> ?R mps x k" if "k \<in> set as \<or> k \<in> set bs" for x k
    using other [OF that] by simp
  from disp have old: "sorted_wrt (?R mps) as" "sorted_wrt (?R mps) bs" "\<forall>a \<in> set as. ?R mps a l"
    "\<forall>b \<in> set bs. ?R mps l b" "\<forall>a \<in> set as. \<forall>b \<in> set bs. ?R mps a b"
    unfolding dispatched_def split by (auto simp: sorted_wrt_append)
  have "sorted_wrt (?R ?mps) as" "sorted_wrt (?R ?mps) bs"
    by (rule sorted_wrt_mono_rel [OF _ old(1)], subst same, simp, assumption,
        rule sorted_wrt_mono_rel [OF _ old(2)], subst same, simp, assumption)
  moreover have "\<forall>a \<in> set as. ?R ?mps a l"
  proof (intro ballI impI allI)
    fix a u c assume a: "a \<in> set as" and l: "l \<in> set ls" and "u \<in> held (?mps (laneRef l))"
    then have "u = t \<or> u \<in> held (mps (laneRef l))" using add [OF l] by auto
    then show "Match a c u = Ret False"
      using bspec [OF old(3) a] bspec [OF front a] l by (elim disjE) simp_all
  qed
  moreover have "\<forall>b \<in> set bs. ?R ?mps l b" "\<forall>a \<in> set as. \<forall>b \<in> set bs. ?R ?mps a b"
    by (intro ballI, subst same, simp, rule bspec [OF old(4)], assumption,
        intro ballI, subst same, simp, rule bspec [OF bspec [OF old(5)]])
  ultimately have "sorted_wrt (?R ?mps) (ms @ ls)" unfolding split by (auto simp: sorted_wrt_append)
  moreover have "\<forall>k \<in> set ls. ok (?mps (laneRef k))"
  proof
    fix k assume k: "k \<in> set ls"
    show "ok (?mps (laneRef k))"
    proof (cases "laneRef k = laneRef l")
      case True
      have "k \<in> set (ms @ ls)" "l \<in> set (ms @ ls)" using k by simp (simp add: split)
      then have "k = l" using refs_inj [OF refs] True by (auto simp: inj_on_def)
      then show ?thesis using add k by simp
    next
      case False
      then show ?thesis using disp k by (simp add: dispatched_def)
    qed
  qed
  ultimately show ?thesis by (simp add: dispatched_def)
qed

abbreviation lanes_of :: "dec_ops \<Rightarrow> (bytes \<Rightarrow> bytes) \<Rightarrow> ('mp, 'ctx) BaseLane list \<Rightarrow> ('mp, 'ctx) registry" where
  "lanes_of D H ls \<equiv> map (\<lambda>l. LaneOf (base_lane_methods D H l)) ls"

lemma insert_loop_cases:
  "insert_loop D (lanes_of D H ls) mps ctx t = (mps', r) \<Longrightarrow>
   mps' = mps \<or> (\<exists>as l bs m. ls = as @ l # bs \<and> (\<forall>a \<in> set as. Match a ctx t = Ret False) \<and>
     laneMempool l = Some m \<and> mps' = mps(laneRef l := fst (mpInsert m (mps (laneRef l)) ctx t)))"
proof (induction ls)
  case (Cons l ls)
  show ?case
  proof (cases "Match l ctx t")
    case b: (Ret b)
    show ?thesis
    proof (cases b)
      case True
      show ?thesis
      proof (cases "laneMempool l")
        case None
        then show ?thesis using Cons.prems b True by (simp add: base_lane_methods_def)
      next
        case (Some m)
        then have "mps' = mps(laneRef l := fst (mpInsert m (mps (laneRef l)) ctx t))"
          using Cons.prems b True by (auto simp: base_lane_methods_def split: prod.splits)
        with Some show ?thesis by (intro disjI2 exI [of _ "[]"]) auto
      qed
    next
      case False
      then have "insert_loop D (lanes_of D H ls) mps ctx t = (mps', r)"
        using Cons.prems b by (simp add: base_lane_methods_def)
      from Cons.IH [OF this] show ?thesis
      proof (elim disjE exE conjE)
        fix as k bs m
        assume "ls = as @ k # bs" "\<forall>a \<in> set as. Match a ctx t = Ret False" "laneMempool k = Some m"
          "mps' = mps(laneRef k := fst (mpInsert m (mps (laneRef k)) ctx t))"
        then show ?thesis using b False by (intro disjI2 exI [of _ "l # as"]) auto
      qed simp
    qed
  qed (use Cons.prems in \<open>auto simp: base_lane_methods_def\<close>)
qed simp

lemma remove_loop_cases:
  "remove_loop D (lanes_of D H ls) mps t = (mps', r) \<Longrightarrow>
   mps' = mps \<or> (\<exists>l \<in> set ls. \<exists>m. laneMempool l = Some m \<and>
     mps' = mps(laneRef l := fst (mpRemove m (mps (laneRef l)) t)))"
  by (induction ls) (auto simp: base_lane_methods_def split: go.splits bool.splits option.splits prod.splits)

lemma PrepareProposal_mps:
  assumes "PrepareProposalHandler D C registry mps ctx req = (mps', ctx', txs, e)"
  obtains "mps' = mps" | p c q sh r where "prepare_chain D C (terminated registry) mps c p = (mps', q, sh, r)"
  using assms
  by (auto simp: PrepareProposalHandler_def PrepareProposal_body_def ChainPrepareLanes_def
      split: go.splits prod.splits if_splits)

text \<open>
  The lanes of a node: a MEV lane or none, then lanes with the default handlers and mempool \<open>m\<close>; they
  are distinct objects and match transactions whatever the state.
\<close>

definition node_lanes ::
    "'ctx ctx_ops \<Rightarrow> (bytes \<Rightarrow> bytes) \<Rightarrow> 'ctx Factory \<Rightarrow> tx_encoder \<Rightarrow> ('mp, 'ctx) LaneMempool \<Rightarrow>
     ('mp, 'ctx) BaseLane list \<Rightarrow> ('mp, 'ctx) BaseLane list \<Rightarrow> bool" where
  "node_lanes C H F enc m ms ls \<longleftrightarrow> length ms \<le> 1 \<and> ms @ ls \<noteq> [] \<and> distinct (map laneRef (ms @ ls)) \<and>
     (\<forall>l \<in> set ms. prepareLaneHandler l = Some (Mev_PrepareLaneHandler C H F) \<and>
        processLaneHandler l = Some (Mev_ProcessLaneHandler C F) \<and> mev_good C F enc l) \<and>
     (\<forall>l \<in> set ls. prepareLaneHandler l = Some (Default_PrepareLaneHandler C H) \<and>
        processLaneHandler l = Some (Default_ProcessLaneHandler C) \<and> valid_space l \<and>
        cfgTxEncoder (cfg l) = Some enc \<and> sizes_bounded l \<and> laneMempool l = Some m) \<and>
     (\<forall>l \<in> set (ms @ ls). stateless l)"

section \<open>Histories of a node's mempools\<close>

text \<open>Insertions into and removals from the laned mempool, and preparations of proposals, in any order.\<close>

inductive mempool_run :: "dec_ops \<Rightarrow> 'ctx ctx_ops \<Rightarrow> ('mp, 'ctx) registry \<Rightarrow> 'mp store \<Rightarrow> 'mp store \<Rightarrow> bool"
  for D C registry init where
  start: "mempool_run D C registry init init"
| insert: "mempool_run D C registry init mps \<Longrightarrow> Insert D registry mps ctx t = (mps', r) \<Longrightarrow>
    mempool_run D C registry init mps'"
| remove: "mempool_run D C registry init mps \<Longrightarrow> Remove D registry mps t = (mps', r) \<Longrightarrow>
    mempool_run D C registry init mps'"
| prepare: "mempool_run D C registry init mps \<Longrightarrow>
    PrepareProposalHandler D C registry mps ctx req = (mps', ctx', txs, e) \<Longrightarrow>
    mempool_run D C registry init mps'"

text \<open>
  The contract of a mempool whose selections are in the order of its comparison. \<open>held mp\<close> are the
  transactions a selection may yield.
\<close>

locale selecting_mempool =
  fixes m :: "('mp, 'ctx) LaneMempool" and ok :: "'mp \<Rightarrow> bool" and held :: "'mp \<Rightarrow> tx set"
  assumes insert_held: "ok mp \<Longrightarrow> ok (fst (mpInsert m mp ctx t)) \<and> held (fst (mpInsert m mp ctx t)) \<subseteq> insert t (held mp)"
    and remove_held: "ok mp \<Longrightarrow> ok (fst (mpRemove m mp t)) \<and> held (fst (mpRemove m mp t)) \<subseteq> held mp"
    and select_held: "ok mp \<Longrightarrow> ok (fst (mpSelect m mp ctx)) \<and> held (fst (mpSelect m mp ctx)) \<subseteq> held mp"
    and selected: "ok mp \<Longrightarrow> mpSelect m mp ctx = (mp', Ret txs) \<Longrightarrow> set txs \<subseteq> held mp"
    and in_compare_order: "ok mp \<Longrightarrow> ok mp2 \<Longrightarrow> mpSelect m mp ctx = (mp', Ret txs) \<Longrightarrow>
      sorted_wrt (\<lambda>a b. \<exists>v. mpCompare m mp2 c a b = Ret v \<and> v \<noteq> - 1) txs"
begin

lemma default_lane_keeps:
  assumes "laneMempool l = Some m" and "prepareLaneHandler l = Some (Default_PrepareLaneHandler C H)"
  shows "keeps (\<lambda>mp. ok mp \<and> held mp \<subseteq> S) l"
  unfolding keeps_def
proof (intro allI impI conjI; (elim conjE)?)
  fix mp h ctx p limit mp1 ctx1 r
  assume mp: "ok mp" "held mp \<subseteq> S" and "prepareLaneHandler l = Some h"
    and run: "h (lane_core.truncate l) mp ctx p limit = (mp1, ctx1, r)"
  then have "mp1 = fst (mpSelect m mp ctx)"
    using assms by (auto simp: Default_PrepareLaneHandler_def split: prod.splits go.splits)
  then show "ok mp1" "held mp1 \<subseteq> S" using select_held [OF mp(1), of ctx] mp(2) by auto
next
  fix mp m' t
  assume "ok mp" "held mp \<subseteq> S" "laneMempool l = Some m'"
  then show "ok (fst (mpRemove m' mp t))" "held (fst (mpRemove m' mp t)) \<subseteq> S"
    using assms(1) remove_held [of mp t] by auto
qed

lemma insert_dispatched:
  assumes "dispatched ok held ms ls mps" and "distinct (map laneRef (ms @ ls))"
    and "\<forall>l \<in> set ls. laneMempool l = Some m" and "\<forall>l \<in> set (ms @ ls). stateless l"
    and "Insert D (lanes_of D H (ms @ ls)) mps ctx t = (mps', r)"
  shows "dispatched ok held ms ls mps'"
proof -
  obtain r1 where "insert_loop D (lanes_of D H (ms @ ls)) mps ctx t = (mps', r1)"
    using assms(5) by (auto simp: Insert_def split: prod.splits)
  from insert_loop_cases [OF this] show ?thesis
  proof (elim disjE exE conjE)
    fix as l bs m'
    assume split: "ms @ ls = as @ l # bs" and front: "\<forall>a \<in> set as. Match a ctx t = Ret False"
      and m': "laneMempool l = Some m'" and mps': "mps' = mps(laneRef l := fst (mpInsert m' (mps (laneRef l)) ctx t))"
    have "set as \<subseteq> set (ms @ ls)" unfolding split by auto
    have "\<forall>c. Match a c t = Ret False" if a: "a \<in> set as" for a
      using assms(4) \<open>set as \<subseteq> _\<close> a front unfolding stateless_def by (metis subsetD)
    then have ahead: "\<forall>a \<in> set as. \<forall>c. Match a c t = Ret False" by blast
    have held: "ok (fst (mpInsert m' (mps (laneRef l)) ctx t)) \<and>
        held (fst (mpInsert m' (mps (laneRef l)) ctx t)) \<subseteq> insert t (held (mps (laneRef l)))" if "l \<in> set ls"
    proof -
      have "ok (mps (laneRef l))" and "m' = m" using assms(1,3) m' that by (auto simp: dispatched_def)
      then show ?thesis using insert_held by blast
    qed
    show ?thesis unfolding mps' by (rule dispatched_add [OF assms(1) split assms(2) held ahead])
  qed (use assms(1) in simp)
qed

lemma remove_dispatched:
  assumes "dispatched ok held ms ls mps" and "distinct (map laneRef (ms @ ls))"
    and "\<forall>l \<in> set ls. laneMempool l = Some m"
    and "Remove D (lanes_of D H (ms @ ls)) mps t = (mps', r)"
  shows "dispatched ok held ms ls mps'"
proof -
  obtain r1 where "remove_loop D (lanes_of D H (ms @ ls)) mps t = (mps', r1)"
    using assms(4) by (auto simp: Remove_def split: prod.splits)
  from remove_loop_cases [OF this] show ?thesis
  proof (elim disjE bexE exE conjE)
    fix l m'
    assume l: "l \<in> set (ms @ ls)" "laneMempool l = Some m'"
      and mps': "mps' = mps(laneRef l := fst (mpRemove m' (mps (laneRef l)) t))"
    have refs: "inj_on laneRef (set (ms @ ls))" using refs_inj [OF assms(2)] .
    show ?thesis
    proof (rule dispatched_shrink [OF assms(1)], intro ballI)
      fix k assume k: "k \<in> set ls"
      have ok: "ok (mps (laneRef k))" using assms(1) k by (simp add: dispatched_def)
      show "ok (mps' (laneRef k)) \<and> held (mps' (laneRef k)) \<subseteq> held (mps (laneRef k))"
      proof (cases "laneRef k = laneRef l")
        case True
        then have "k = l" using refs k l(1) by (auto simp: inj_on_def)
        then show ?thesis using mps' l(2) assms(3) k remove_held [OF ok] by simp
      next
        case False
        then show ?thesis using mps' ok by simp
      qed
    qed
  qed (use assms(1) in simp)
qed

lemma prepare_dispatched:
  assumes "dispatched ok held ms ls mps" and "distinct (map laneRef (ms @ ls))"
    and "\<forall>l \<in> set ls. laneMempool l = Some m \<and> prepareLaneHandler l = Some (Default_PrepareLaneHandler C H)"
    and "ms @ ls \<noteq> []"
    and "PrepareProposalHandler D C (lanes_of D H (ms @ ls)) mps ctx req = (mps', ctx', txs, e)"
  shows "dispatched ok held ms ls mps'"
  using assms(5)
proof (rule PrepareProposal_mps)
  fix p c q sh r
  assume run: "prepare_chain D C (terminated (lanes_of D H (ms @ ls))) mps c p = (mps', q, sh, r)"
  let ?J = "\<lambda>l mp. l \<in> set ls \<longrightarrow> ok mp \<and> held mp \<subseteq> held (mps (laneRef l))"
  have chain: "terminated (lanes_of D H (ms @ ls)) = lane_chain D H (ms @ ls)"
    by (rule terminated_base_lanes) (use assms(4) in simp)
  have refs: "inj_on laneRef (set (ms @ ls))" using refs_inj [OF assms(2)] .
  have "keeps (?J l) l" for l
  proof (cases "l \<in> set ls")
    case True
    then show ?thesis using default_lane_keeps [of l C H "held (mps (laneRef l))"] assms(3) by simp
  next
    case False
    then show ?thesis by (simp add: keeps_def)
  qed
  then have keeps: "\<forall>l \<in> set (ms @ ls). keeps (?J l) l" by blast
  have "\<forall>l \<in> set (ms @ ls). ?J l (mps (laneRef l))" using assms(1) by (simp add: dispatched_def)
  from prepare_chain_keeps [of "ms @ ls" ?J, OF keeps subset_refl refs this run [unfolded chain]]
  have "\<forall>l \<in> set (ms @ ls). ?J l (mps' (laneRef l))" .
  then show ?thesis by (intro dispatched_shrink [OF assms(1)]) auto
qed (use assms(1) in simp)

lemma run_dispatched:
  assumes "mempool_run D C (lanes_of D H (ms @ ls)) init mps" and "node_lanes C H F enc m ms ls"
    and "dispatched ok held ms ls init"
  shows "dispatched ok held ms ls mps"
proof -
  have refs: "distinct (map laneRef (ms @ ls))" and some: "ms @ ls \<noteq> []"
    and state: "\<forall>l \<in> set (ms @ ls). stateless l" and pool: "\<forall>l \<in> set ls. laneMempool l = Some m"
    and default: "\<forall>l \<in> set ls. laneMempool l = Some m \<and> prepareLaneHandler l = Some (Default_PrepareLaneHandler C H)"
    using assms(2) by (auto simp: node_lanes_def)
  from assms(1) show ?thesis
  proof induction
    case (insert mps ctx t mps' r)
    then show ?case using insert_dispatched [OF _ refs pool state] by blast
  next
    case (remove mps t mps' r)
    then show ?case using remove_dispatched [OF _ refs pool] by blast
  next
    case (prepare mps ctx req mps' ctx' txs e)
    then show ?case using prepare_dispatched [OF _ refs default some] by blast
  qed (rule assms(3))
qed

text \<open>So the lanes are those of an application whose handlers agree.\<close>

lemma dispatched_app_lanes:
  assumes lanes: "node_lanes C H F enc m ms ls"
    and disp: "dispatched ok held ms ls mps" and disp2: "dispatched ok held ms ls mps2"
  shows "app_lanes C H F enc mps mps2 ms ls"
proof -
  have oks: "ok (mps (laneRef l))" "ok (mps2 (laneRef l))" if "l \<in> set ls" for l
    using disp disp2 that by (auto simp: dispatched_def)
  have pool: "laneMempool l = Some m" if "l \<in> set ls" for l using lanes that by (auto simp: node_lanes_def)
  have ordered: "ordered_mempool l (mps (laneRef l)) (mps2 (laneRef l))" if l: "l \<in> set ls" for l
    unfolding ordered_mempool_def in_order_def lane_Compare_def pool [OF l]
    using in_compare_order [OF oks [OF l]] by auto
  have supplied: "t \<in> held (mps (laneRef l))" if l: "l \<in> set ls" and "supplies l (mps (laneRef l)) t" for l t
    using that selected [OF oks(1) [OF l]] pool [OF l] by (auto simp: supplies_def)
  let ?apart = "\<lambda>l k. \<forall>t c. supplies k (mps (laneRef k)) t \<longrightarrow> Match l c t = Ret False"
  have front: "sorted_wrt (\<lambda>l k. k \<in> set ls \<longrightarrow> (\<forall>t \<in> held (mps (laneRef k)). \<forall>c. Match l c t = Ret False)) (ms @ ls)"
    using disp by (simp add: dispatched_def)
  have apart: "?apart l k" if "k \<in> set ls" "k \<in> set ls \<longrightarrow> (\<forall>t \<in> held (mps (laneRef k)). \<forall>c. Match l c t = Ret False)" for l k
    using that(2) supplied [OF that(1)] that(1) by blast
  from front have "sorted_wrt ?apart ls"
    unfolding sorted_wrt_append by (elim conjE) (rule sorted_wrt_mono_rel, rule apart)
  moreover from front have "\<forall>l \<in> set ms. \<forall>k \<in> set ls. ?apart l k"
    unfolding sorted_wrt_append using apart by blast
  moreover have "sorted_wrt ?apart ms" using lanes by (cases ms) (auto simp: node_lanes_def)
  ultimately have "sorted_wrt ?apart (ms @ ls)" by (simp only: sorted_wrt_append)
  then show ?thesis
    using lanes ordered by (simp add: app_lanes_def node_lanes_def default_good_def)
qed

end

section \<open>The repository's mempool selects in the order of its comparison\<close>

text \<open>
  The wrapper with the priority of the default lane, as the value of an interface. Every transaction it
  holds has a key, and is held under it.
\<close>

definition default_pool ::
    "('sl, int) skiplist_ops \<Rightarrow> addr_ops \<Rightarrow> adapter \<Rightarrow> ('sl, 'ctx, int) Mempool \<Rightarrow> bool" where
  "default_pool SL A E cm \<longleftrightarrow> mempool_ok SL (index cm) \<and> keyed (\<lambda>_. 0) SL (index cm) \<and>
     pnExtractor (index cm) = E \<and> extractor cm = E \<and>
     cfgTxPriority (pnCfg (index cm)) = DefaultTxPriority \<and> txPriority cm = DefaultTxPriority \<and>
     (\<forall>e \<in> set (pelems SL (index cm)). tx_key A E (snd e) = Some (elem_id e))"

abbreviation pool_txs :: "('sl, int) skiplist_ops \<Rightarrow> ('sl, 'ctx, int) Mempool \<Rightarrow> tx set" where
  "pool_txs SL cm \<equiv> snd ` set (pelems SL (index cm))"

lemma new_default_pool:
  assumes "skiplist_laws SL"
  shows "default_pool SL A E (NewMempool SL 0 DefaultTxPriority E n :: ('sl, 'ctx, int) Mempool) \<and>
    pool_txs SL (NewMempool SL 0 DefaultTxPriority E n :: ('sl, 'ctx, int) Mempool) = {}"
proof -
  let ?c = "\<lparr> cfgTxPriority = DefaultTxPriority, cfgTxReplacement = None, cfgMaxTx = n, cfgZero = 0 \<rparr> ::
    ('ctx, int) mempool_config"
  have "ordering_cmp (PriorityCompare (cfgTxPriority ?c))" by (simp add: ordering_cmp_def DefaultTxPriority_def)
  from new_mempool_ok [OF assms this] have "mempool_ok SL (NewPriorityMempool SL ?c E)" .
  moreover have "pelems SL (NewPriorityMempool SL ?c E) = []"
    by (simp add: NewPriorityMempool_def skiplist_lawsD(1) [OF assms])
  ultimately show ?thesis
    by (simp_all add: default_pool_def NewMempool_def keyed_def) (simp_all add: NewPriorityMempool_def)
qed

lemma PN_Insert_elems:
  assumes ok: "mempool_ok SL mp" and run: "PN_Insert SL A mp ctx t = (mp', r)"
  shows "\<forall>e \<in> set (pelems SL mp'). e \<in> set (pelems SL mp) \<or> (tx_key A (pnExtractor mp) t = Some (elem_id e) \<and> snd e = t)"
  using run
proof (cases rule: PN_Insert_cases)
  case unchanged
  then show ?thesis by simp
next
  case (keyed n s p)
  from insert_keyed_ok [OF ok _ keyed(4)] keyed(1) show ?thesis by (auto simp: elem_id_def split: if_splits)
qed

lemma PN_Remove_elems:
  fixes mp :: "('sl, 'ctx, 'c) PriorityNonceMempool"
  assumes ok: "mempool_ok SL mp" and run: "PN_Remove SL A mp t = (mp', r)"
  shows "set (pelems SL mp') \<subseteq> set (pelems SL mp)"
proof (rule PN_Remove_cases [OF run])
  fix n s idx and sc :: "'c txMeta"
  let ?k = "\<lparr> nonce = n, priority = priority sc, sender = s, weight = weight sc, senderElement = None \<rparr>"
  assume sc: "scores mp (n, s) = Some sc" and mp': "mp' = (remove_score SL mp sc ?k)
      \<lparr> senderIndices := (senderIndices mp)(s \<mapsto> slRemove SL idx ?k), scores := (scores mp)((n, s) := None) \<rparr>"
  have parts: "mempool_laws SL mp" "index_ok SL mp" "counts_ok SL mp" "scores_ok SL mp"
    using ok by (simp_all add: mempool_ok_def)
  have "scores mp (nonce ?k, sender ?k) = Some sc" using sc by simp
  from remove_score_index(3) [OF parts this] show ?thesis unfolding mp' by auto
qed simp

lemma default_pool_update:
  assumes "default_pool SL A E cm" and "mempool_ok SL i" and "keyed (\<lambda>_. 0) SL i" and "pnExtractor i = E"
    and "pnCfg i = pnCfg (index cm)"
    and "\<forall>e \<in> set (pelems SL i). (\<exists>e' \<in> set (pelems SL (index cm)). elem_id e = elem_id e' \<and> snd e = snd e') \<or>
      tx_key A E (snd e) = Some (elem_id e)"
  shows "default_pool SL A E (cm\<lparr>index := i\<rparr>)"
proof -
  have old: "\<forall>e \<in> set (pelems SL (index cm)). tx_key A E (snd e) = Some (elem_id e)"
    using assms(1) by (simp add: default_pool_def)
  have "tx_key A E (snd e) = Some (elem_id e)" if "e \<in> set (pelems SL i)" for e
    using bspec [OF assms(6) that] old by (metis (no_types))
  then show ?thesis using assms(1-5) by (simp add: default_pool_def)
qed

lemma default_pool_insert:
  assumes pool: "default_pool SL A E cm"
  shows "default_pool SL A E (fst (BaseMempool_Insert SL A cm ctx t)) \<and>
    pool_txs SL (fst (BaseMempool_Insert SL A cm ctx t)) \<subseteq> insert t (pool_txs SL cm)"
proof -
  obtain i r where run: "PN_Insert SL A (index cm) ctx t = (i, r)" by fastforce
  have ok: "mempool_ok SL (index cm)" and k: "keyed (\<lambda>_. 0) SL (index cm)" and E: "pnExtractor (index cm) = E"
    and P: "cfgTxPriority (pnCfg (index cm)) = DefaultTxPriority"
    using pool by (simp_all add: default_pool_def)
  have k': "keyed (\<lambda>_. 0) SL i"
    by (rule PN_Insert_keyed [OF ok k run]) (simp add: P DefaultTxPriority_def)
  note elems = PN_Insert_elems [OF ok run, unfolded E]
  have "default_pool SL A E (cm\<lparr>index := i\<rparr>)"
    by (rule default_pool_update [OF pool _ k']) (use PN_Insert_ok [OF ok run] E elems in auto)
  moreover have "pool_txs SL (cm\<lparr>index := i\<rparr>) \<subseteq> insert t (pool_txs SL cm)" using elems by auto
  ultimately show ?thesis using run by (simp add: BaseMempool_Insert_def)
qed

lemma default_pool_remove:
  assumes pool: "default_pool SL A E cm"
  shows "default_pool SL A E (fst (BaseMempool_Remove SL A cm t)) \<and>
    pool_txs SL (fst (BaseMempool_Remove SL A cm t)) \<subseteq> pool_txs SL cm"
proof -
  obtain i r where run: "PN_Remove SL A (index cm) t = (i, r)" by fastforce
  have ok: "mempool_ok SL (index cm)" and k: "keyed (\<lambda>_. 0) SL (index cm)" and E: "pnExtractor (index cm) = E"
    using pool by (simp_all add: default_pool_def)
  note elems = PN_Remove_elems [OF ok run]
  have "default_pool SL A E (cm\<lparr>index := i\<rparr>)"
    by (rule default_pool_update [OF pool _ PN_Remove_keyed [OF ok k run]])
       (use PN_Remove_ok [OF ok run] E elems in auto)
  moreover have "pool_txs SL (cm\<lparr>index := i\<rparr>) \<subseteq> pool_txs SL cm" using elems by auto
  moreover have "fst (BaseMempool_Remove SL A cm t) = cm\<lparr>index := i\<rparr>"
    using run by (auto simp: BaseMempool_Remove_def split: go.splits)
  ultimately show ?thesis by simp
qed

lemma default_pool_select:
  assumes pool: "default_pool SL A E cm"
  obtains i and es :: "int elem list" where "BaseMempool_Select SL cm ctx = (cm\<lparr>index := i\<rparr>, Ret (map snd es))"
    and "default_pool SL A E (cm\<lparr>index := i\<rparr>)" and "pool_txs SL (cm\<lparr>index := i\<rparr>) = pool_txs SL cm"
    and "snd ` set es = pool_txs SL cm" and "in_nonce_order es" and "\<forall>e \<in> set es. tx_key A E (snd e) = Some (elem_id e)"
proof -
  have ok: "mempool_ok SL (index cm)" and k: "keyed (\<lambda>_. 0) SL (index cm)" and E: "pnExtractor (index cm) = E"
    using pool by (simp_all add: default_pool_def)
  obtain i and es :: "int elem list" where sel: "PN_Select SL (index cm) = (i, Ret (map snd es))"
    and es: "(\<lambda>e. (elem_id e, snd e)) ` set es = view SL (index cm)" "in_nonce_order es" and k': "keyed (\<lambda>_. 0) SL i"
    by (rule PN_Select_complete [OF ok k])
  note ok' = PN_Select_ok [OF ok sel]
  have snds: "snd ` (\<lambda>e. (elem_id e, snd e)) ` X = snd ` X" for X :: "int elem set" by (simp add: image_image)
  have same: "snd ` set (pelems SL i) = pool_txs SL cm" "snd ` set es = pool_txs SL cm"
    using arg_cong [OF ok'(3), of "image snd"] arg_cong [OF es(1), of "image snd"] by (simp_all only: snds)
  have from_view: "\<exists>e' \<in> set (pelems SL (index cm)). elem_id e = elem_id e' \<and> snd e = snd e'"
    if "(elem_id e, snd e) \<in> view SL (index cm)" for e using that by auto
  have keys: "\<forall>e \<in> set es. tx_key A E (snd e) = Some (elem_id e)"
  proof
    fix e assume "e \<in> set es"
    then have "(elem_id e, snd e) \<in> view SL (index cm)" unfolding es(1) [symmetric] by (rule imageI)
    from from_view [OF this] show "tx_key A E (snd e) = Some (elem_id e)" using pool by (auto simp: default_pool_def)
  qed
  have "default_pool SL A E (cm\<lparr>index := i\<rparr>)"
  proof (rule default_pool_update [OF pool ok'(1) k'])
    show "\<forall>e \<in> set (pelems SL i). (\<exists>e' \<in> set (pelems SL (index cm)). elem_id e = elem_id e' \<and> snd e = snd e') \<or>
      tx_key A E (snd e) = Some (elem_id e)"
    proof
      fix e assume "e \<in> set (pelems SL i)"
      then have "(elem_id e, snd e) \<in> view SL (index cm)" unfolding ok'(3) [symmetric] by (rule imageI)
      then show "(\<exists>e' \<in> set (pelems SL (index cm)). elem_id e = elem_id e' \<and> snd e = snd e') \<or>
        tx_key A E (snd e) = Some (elem_id e)" using from_view by blast
    qed
  qed (use ok' E in simp_all)
  from that [OF _ this _ same(2) es(2) keys] sel same(1) show thesis by (simp add: BaseMempool_Select_def)
qed


lemma in_nonce_order_pairs:
  "in_nonce_order es \<Longrightarrow> sorted_wrt (\<lambda>e e'. sender (fst e) = sender (fst e') \<longrightarrow> nonce (fst e) < nonce (fst e')) es"
proof (induction es)
  case (Cons e es)
  have order: "sorted_wrt (<) (map (\<lambda>e. nonce (fst e)) (filter (\<lambda>e'. sender (fst e') = s) (e # es)))" for s
    using Cons.prems unfolding in_nonce_order_def by blast
  have "sorted_wrt (<) (map (\<lambda>e. nonce (fst e)) (filter (\<lambda>e'. sender (fst e') = s) es))" for s
    using order [of s] by (auto split: if_splits)
  then have "in_nonce_order es" by (simp add: in_nonce_order_def)
  moreover have "\<forall>x \<in> set (filter (\<lambda>e'. sender (fst e') = sender (fst e)) es). nonce (fst e) < nonce (fst x)"
    using order [of "sender (fst e)"] by simp
  ultimately show ?case using Cons.IH by auto
qed simp

text \<open>Two transactions in the order of a selection do not compare as out of order.\<close>

lemma Compare_selected:
  assumes "addr_laws A" and "extractor cm = E" and "txPriority cm = DefaultTxPriority"
    and "tx_key A E t = Some (n, s)" and "tx_key A E t' = Some (n', s')" and "s = s' \<longrightarrow> n < n'"
  shows "\<exists>v. BaseMempool_Compare A cm c t t' = Ret v \<and> v \<noteq> - 1"
proof -
  obtain sig sigs where sig: "E t = Ret (sig # sigs)" "n = Sequence sig" "s = addrString A (Signer sig)"
    using assms(4) by (auto simp: tx_key_def split: go.splits list.splits)
  obtain sig' sigs' where sig': "E t' = Ret (sig' # sigs')" "n' = Sequence sig'" "s' = addrString A (Signer sig')"
    using assms(5) by (auto simp: tx_key_def split: go.splits list.splits)
  show ?thesis
    using assms(1-3,6) sig sig' by (auto simp: BaseMempool_Compare_def addr_laws_def DefaultTxPriority_def)
qed

text \<open>The same mempool behind an interface: \<open>box\<close> and \<open>unbox\<close> must be inverse on its values.\<close>

definition boxed_pool ::
    "('sl, int) skiplist_ops \<Rightarrow> addr_ops \<Rightarrow> adapter \<Rightarrow> (('sl, 'ctx, int) Mempool \<Rightarrow> 'mp) \<Rightarrow>
     ('mp \<Rightarrow> ('sl, 'ctx, int) Mempool) \<Rightarrow> 'mp \<Rightarrow> bool" where
  "boxed_pool SL A E box unbox mp \<longleftrightarrow>
     addr_laws A \<and> (\<forall>cm. unbox (box cm) = cm) \<and> default_pool SL A E (unbox mp)"

interpretation default_pools: selecting_mempool "Mempool_methods SL A dyn box unbox DefaultTxPriority"
  "boxed_pool SL A E box unbox" "\<lambda>mp. pool_txs SL (unbox mp)" for SL A E dyn box unbox
proof (unfold_locales)
  fix SL :: "('sl, int) skiplist_ops" and A E box and unbox :: "'mp \<Rightarrow> ('sl, 'ctx, int) Mempool" and mp
  let ?m = "Mempool_methods SL A dyn box unbox DefaultTxPriority"
  assume ok: "boxed_pool SL A E box unbox mp"
  then have pool: "default_pool SL A E (unbox mp)" and A: "addr_laws A" and box: "\<And>cm. unbox (box cm) = cm"
    by (simp_all add: boxed_pool_def)
  show "boxed_pool SL A E box unbox (fst (mpInsert ?m mp ctx t)) \<and>
      pool_txs SL (unbox (fst (mpInsert ?m mp ctx t))) \<subseteq> insert t (pool_txs SL (unbox mp))" for dyn ctx t
    using default_pool_insert [OF pool, of ctx t] A box
    by (simp add: Mempool_methods_def boxed_pool_def split_beta)
  show "boxed_pool SL A E box unbox (fst (mpRemove ?m mp t)) \<and>
      pool_txs SL (unbox (fst (mpRemove ?m mp t))) \<subseteq> pool_txs SL (unbox mp)" for dyn t
    using default_pool_remove [OF pool, of t] A box
    by (simp add: Mempool_methods_def boxed_pool_def split_beta)
  fix ctx
  obtain i and es :: "int elem list" where
    sel: "BaseMempool_Select SL (unbox mp) ctx = ((unbox mp)\<lparr>index := i\<rparr>, Ret (map snd es))"
    and pool': "default_pool SL A E ((unbox mp)\<lparr>index := i\<rparr>)"
    and same: "pool_txs SL ((unbox mp)\<lparr>index := i\<rparr>) = pool_txs SL (unbox mp)" "snd ` set es = pool_txs SL (unbox mp)"
    and es: "in_nonce_order es" "\<forall>e \<in> set es. tx_key A E (snd e) = Some (elem_id e)"
    by (rule default_pool_select [OF pool])
  have select: "mpSelect ?m mp ctx = (box ((unbox mp)\<lparr>index := i\<rparr>), Ret (map snd es))" for dyn
    using sel by (simp add: Mempool_methods_def)
  show "boxed_pool SL A E box unbox (fst (mpSelect ?m mp ctx)) \<and>
      pool_txs SL (unbox (fst (mpSelect ?m mp ctx))) \<subseteq> pool_txs SL (unbox mp)" for dyn
    using pool' same(1) A box by (simp add: select boxed_pool_def)
  fix mp' txs
  show "set txs \<subseteq> pool_txs SL (unbox mp)" if "mpSelect ?m mp ctx = (mp', Ret txs)" for dyn
    using that same(2) by (auto simp: select)
  fix mp2 c
  assume "boxed_pool SL A E box unbox mp2"
  then have cm2: "extractor (unbox mp2) = E" "txPriority (unbox mp2) = DefaultTxPriority"
    by (simp_all add: boxed_pool_def default_pool_def)
  have "sorted_wrt (\<lambda>e e'. \<exists>v. BaseMempool_Compare A (unbox mp2) c (snd e) (snd e') = Ret v \<and> v \<noteq> - 1) es"
  proof (rule sorted_wrt_mono_rel [OF _ in_nonce_order_pairs [OF es(1)]])
    fix e e' assume "e \<in> set es" "e' \<in> set es" "sender (fst e) = sender (fst e') \<longrightarrow> nonce (fst e) < nonce (fst e')"
    then show "\<exists>v. BaseMempool_Compare A (unbox mp2) c (snd e) (snd e') = Ret v \<and> v \<noteq> - 1"
      using es(2) by (intro Compare_selected [OF A cm2]) (auto simp: elem_id_def)
  qed
  then show "sorted_wrt (\<lambda>a b. \<exists>v. mpCompare ?m mp2 c a b = Ret v \<and> v \<noteq> - 1) txs"
    if "mpSelect ?m mp ctx = (mp', Ret txs)" for dyn
    using that unfolding select by (auto simp: sorted_wrt_map Mempool_methods_def)
qed


text \<open>Empty mempools are in order.\<close>

lemma new_pools_dispatched:
  assumes "skiplist_laws SL" and "addr_laws A" and "\<forall>cm. unbox (box cm) = cm" and "length ms \<le> 1"
    and "\<forall>l \<in> set ls. \<exists>n. st (laneRef l) = box (NewMempool SL 0 DefaultTxPriority E n)"
  shows "dispatched (boxed_pool SL A E box unbox) (\<lambda>mp. pool_txs SL (unbox mp)) ms ls st"
proof -
  have *: "boxed_pool SL A E box unbox (st (laneRef l)) \<and> pool_txs SL (unbox (st (laneRef l))) = {}"
    if "l \<in> set ls" for l
    using assms(5) that new_default_pool [OF assms(1)] assms(2,3) by (fastforce simp: boxed_pool_def)
  have "sorted_wrt (\<lambda>l k. k \<in> set ls \<longrightarrow> (\<forall>t \<in> pool_txs SL (unbox (st (laneRef k))). \<forall>c. Match l c t = Ret False)) (ms @ ls)"
    by (rule sorted_wrt_mono_rel [of _ "\<lambda>_ _. True"]) (use * in \<open>auto simp: sorted_wrt_iff_nth_less\<close>)
  then show ?thesis using * by (simp add: dispatched_def)
qed

section \<open>Two nodes agree\<close>

text \<open>
  Two nodes with the same lanes, whose mempools are empty at the start, agree; each inserts, removes and
  prepares in its own order with its own transactions. Nothing is assumed of the mempools: that
  selections are in the verifier's order and that no lane matches what a later one holds is proved
  of every history.
\<close>

lemma nodes_agree:
  assumes "dec_laws D" and "ctx_laws C" and "codec_faithful enc dec" and "skiplist_laws SL" and "addr_laws A"
    and "\<forall>cm. unbox (box cm) = cm"
    and "node_lanes C H F enc (Mempool_methods SL A AnyInt box unbox DefaultTxPriority) ms ls"
    and "\<forall>l \<in> set ls. \<exists>n. init (laneRef l) = box (NewMempool SL 0 DefaultTxPriority E n)"
    and "\<forall>l \<in> set ls. \<exists>n. init2 (laneRef l) = box (NewMempool SL 0 DefaultTxPriority E n)"
    and "mempool_run D C (lanes_of D H (ms @ ls)) init mps" and "mempool_run D C (lanes_of D H (ms @ ls)) init2 mps2"
    and "\<not> prepHeight req \<le>s 1" and "\<not> procHeight req' \<le>s 1" and "procTxs req' = txs"
    and "PrepareProposalHandler D C (lanes_of D H (ms @ ls)) mps ctx req = (mps', ctx', txs, None)"
    and "ConsBlock C ctx = Some bp" and "0 \<le> sint (prepMaxTxBytes req)"
    and "sint (prepMaxTxBytes req) < 2 ^ 62" and "sint (prepMaxTxBytes req) \<le> sint (ParamMaxBytes bp)"
  shows "ProcessProposalHandler D C dec noop True (lanes_of D H (ms @ ls)) mps2 ctx req' = (ctx', ACCEPT, None)"
proof -
  let ?ok = "boxed_pool SL A E box unbox" and ?held = "\<lambda>mp. pool_txs SL (unbox mp)"
  have refs: "distinct (map laneRef (ms @ ls))" using assms(7) by (simp add: node_lanes_def)
  have new: "dispatched ?ok ?held ms ls st"
    if "\<forall>l \<in> set ls. \<exists>n. st (laneRef l) = box (NewMempool SL 0 DefaultTxPriority E n)" for st
    by (rule new_pools_dispatched [OF assms(4-6) _ that]) (use assms(7) in \<open>auto simp: node_lanes_def\<close>)
  have "dispatched ?ok ?held ms ls mps" "dispatched ?ok ?held ms ls mps2"
    using default_pools.run_dispatched [OF assms(10,7) new [OF assms(8)]]
      default_pools.run_dispatched [OF assms(11,7) new [OF assms(9)]] .
  from default_pools.dispatched_app_lanes [OF assms(7) this]
  obtain K where "\<forall>l \<in> set (ms @ ls). paired_lane H enc K mps mps2 l" "disjoint_lanes K (ms @ ls)"
    by (rule app_lanes_chain)
  then show ?thesis by (rule paired_lanes_accept [OF assms(1-3) _ _ refs assms(12-19)])
qed

end
