(* ===== verification/Tx_Cache.thy ===== *)
theory Tx_Cache
  imports Tx_Info "HOL-Library.AList"
begin

text \<open>
  The caching transaction decoder (\<open>block/utils/decoder.go\<close>): a map from hashes to decoded
  transactions and a ring buffer of hashes that says which entry goes next. The Go map is an
  association list, so that its length is the number of entries; each call of the decoder runs
  under the mutex and is one step of the model. The lemmas show that the ring buffer implements
  a bounded first-in first-out queue (\<open>fifo_push\<close>), that the cache never exceeds its size, and
  that it is transparent: results are those of the wrapped decoder.
\<close>

section \<open>State and operations\<close>

record CacheTxDecoder =
  decoder :: tx_decoder
  cache :: "(string \<times> tx) list"
  window :: "string list"
  insertIndex :: nat
  oldestIndex :: nat
  maxSize :: u64

definition DefaultMaxSize :: u64 where
  "DefaultMaxSize = 500"

text \<open>
  The decoder argument may be nil; \<open>make([]string, n)\<close> panics when \<open>n\<close> does not fit in an \<open>int\<close>. That it
  also panics for smaller sizes which exceed the memory of the machine is not modelled.
\<close>

definition NewCacheTxDecoder :: "tx_decoder option \<Rightarrow> u64 \<Rightarrow> CacheTxDecoder go" where
  "NewCacheTxDecoder dec size_max =
     (case dec of
        None \<Rightarrow> Err (Errorf ''decoder cannot be nil'')
      | Some d \<Rightarrow>
          if 2 ^ 63 \<le> unat size_max then Panic
          else Ret \<lparr> decoder = d, cache = [], window = replicate (unat size_max) '''',
                     insertIndex = 0, oldestIndex = 0, maxSize = size_max \<rparr>)"

definition NewDefaultCacheTxDecoder :: "tx_decoder option \<Rightarrow> CacheTxDecoder go" where
  "NewDefaultCacheTxDecoder dec =
     (case dec of
        None \<Rightarrow> Err (Errorf ''decoder cannot be nil'')
      | Some d \<Rightarrow>
          Ret \<lparr> decoder = d, cache = [], window = replicate (unat DefaultMaxSize) '''',
                insertIndex = 0, oldestIndex = 0, maxSize = DefaultMaxSize \<rparr>)"

text \<open>
  The purge: reading the window out of range panics (it does when \<open>maxSize\<close> is 0), otherwise the
  oldest entry is dropped and the index moves on.
\<close>

definition purge_oldest :: "CacheTxDecoder \<Rightarrow> CacheTxDecoder go" where
  "purge_oldest ctd =
     (if oldestIndex ctd < length (window ctd) then
        Ret (ctd\<lparr> cache := AList.delete (window ctd ! oldestIndex ctd) (cache ctd),
                  oldestIndex := (oldestIndex ctd + 1) mod unat (maxSize ctd) \<rparr>)
      else Panic)"

definition store_entry :: "string \<Rightarrow> tx \<Rightarrow> CacheTxDecoder \<Rightarrow> CacheTxDecoder go" where
  "store_entry h t ctd =
     (if insertIndex ctd < length (window ctd) then
        Ret (ctd\<lparr> cache := AList.update h t (cache ctd),
                  window := (window ctd)[insertIndex ctd := h],
                  insertIndex := (insertIndex ctd + 1) mod unat (maxSize ctd) \<rparr>)
      else Panic)"

definition TxDecoder ::
    "(bytes \<Rightarrow> bytes) \<Rightarrow> CacheTxDecoder \<Rightarrow> bytes \<Rightarrow> CacheTxDecoder \<times> tx go" where
  "TxDecoder H ctd txBytes =
     (let h = TxHash H txBytes in
      case map_of (cache ctd) h of
        Some t \<Rightarrow> (ctd, Ret t)
      | None \<Rightarrow>
        (case decoder ctd txBytes of
           Err e \<Rightarrow> (ctd, Err e)
         | Panic \<Rightarrow> (ctd, Panic)
         | Ret t \<Rightarrow>
           (case (if maxSize ctd \<le> of_nat (length (cache ctd)) then purge_oldest ctd else Ret ctd) of
              Ret ctd1 \<Rightarrow>
                (case store_entry h t ctd1 of
                   Ret ctd2 \<Rightarrow> (ctd2, Ret t)
                 | _ \<Rightarrow> (ctd1, Panic))
            | _ \<Rightarrow> (ctd, Panic))))"

definition Len :: "CacheTxDecoder \<Rightarrow> nat" where
  "Len ctd = length (cache ctd)"

definition cache_Contains :: "(bytes \<Rightarrow> bytes) \<Rightarrow> CacheTxDecoder \<Rightarrow> bytes \<Rightarrow> bool" where
  "cache_Contains H ctd txBytes \<longleftrightarrow> map_of (cache ctd) (TxHash H txBytes) \<noteq> None"

text \<open>A sequence of decode calls.\<close>

fun decode_all ::
    "(bytes \<Rightarrow> bytes) \<Rightarrow> CacheTxDecoder \<Rightarrow> bytes list \<Rightarrow> CacheTxDecoder \<times> tx go list" where
  "decode_all H ctd [] = (ctd, [])"
| "decode_all H ctd (bz # bzs) =
     (let (ctd1, r) = TxDecoder H ctd bz; (ctd2, rs) = decode_all H ctd1 bzs in (ctd2, r # rs))"

section \<open>The ring buffer is a queue\<close>

text \<open>The live part of the window, oldest first.\<close>

definition live :: "CacheTxDecoder \<Rightarrow> string list" where
  "live ctd = map (\<lambda>i. window ctd ! ((oldestIndex ctd + i) mod unat (maxSize ctd)))
     [0 ..< length (cache ctd)]"

definition ring_inv :: "CacheTxDecoder \<Rightarrow> bool" where
  "ring_inv ctd \<longleftrightarrow>
     (let n = unat (maxSize ctd); k = length (cache ctd) in
      0 < n \<and> length (window ctd) = n \<and> k \<le> n \<and> oldestIndex ctd < n \<and>
      insertIndex ctd = (oldestIndex ctd + k) mod n \<and>
      distinct (map fst (cache ctd)) \<and> distinct (live ctd) \<and>
      set (live ctd) = fst ` set (cache ctd))"

text \<open>The specification: a queue with room for \<open>n\<close> entries that drops its head when full.\<close>

definition fifo_push :: "nat \<Rightarrow> 'a \<Rightarrow> 'a list \<Rightarrow> 'a list" where
  "fifo_push n x q = (if length q < n then q @ [x] else tl q @ [x])"

lemma mod_offset_neq:
  fixes a i j n :: nat
  assumes "i < n" and "j < n" and "i \<noteq> j"
  shows "(a + i) mod n \<noteq> (a + j) mod n"
proof -
  have *: False if "i < j" "j < n" "(a + i) mod n = (a + j) mod n" for i j
  proof -
    have "n dvd (a + j) - (a + i)"
      using that by (intro mod_eq_dvd_iff_nat [THEN iffD1]) auto
    then have "n dvd j - i" by simp
    then show False using that by (auto dest: dvd_imp_le)
  qed
  show ?thesis using * [of i j] * [of j i] assms by (metis nat_neq_iff)
qed

lemma length_live [simp]: "length (live ctd) = length (cache ctd)"
  by (simp add: live_def)

lemma live_nth: "i < length (cache ctd) \<Longrightarrow>
  live ctd ! i = window ctd ! ((oldestIndex ctd + i) mod unat (maxSize ctd))"
  by (simp add: live_def)

lemma length_update_fresh: "k \<notin> fst ` set al \<Longrightarrow> length (AList.update k v al) = Suc (length al)"
  by (induction al) auto

lemma length_delete_key:
  assumes "distinct (map fst al)" and "k \<in> fst ` set al"
  shows "length (AList.delete k al) = length al - 1"
proof -
  have "length (AList.delete k al) = length (map fst (AList.delete k al))" by simp
  also have "\<dots> = length (remove1 k (map fst al))"
    using assms(1) by (simp add: AList.delete_keys distinct_remove1_removeAll del: length_map)
  also have "\<dots> = length al - 1" using assms(2) by (simp add: length_remove1)
  finally show ?thesis .
qed

lemma dom_delete_key: "fst ` set (AList.delete k al) = fst ` set al - {k}"
proof -
  have "fst ` set (AList.delete k al) = set (removeAll k (map fst al))"
    by (metis AList.delete_keys list.set_map)
  then show ?thesis by simp
qed

lemma ring_invD:
  assumes "ring_inv ctd"
  shows "0 < unat (maxSize ctd)" "length (window ctd) = unat (maxSize ctd)"
    "length (cache ctd) \<le> unat (maxSize ctd)" "oldestIndex ctd < unat (maxSize ctd)"
    "insertIndex ctd = (oldestIndex ctd + length (cache ctd)) mod unat (maxSize ctd)"
    "distinct (map fst (cache ctd))" "distinct (live ctd)" "set (live ctd) = fst ` set (cache ctd)"
  using assms by (auto simp: ring_inv_def Let_def)

lemma ring_inv_new:
  "NewCacheTxDecoder (Some d) n = Ret ctd \<Longrightarrow> 0 < n \<Longrightarrow> ring_inv ctd \<and> live ctd = []"
  by (auto simp: NewCacheTxDecoder_def ring_inv_def live_def unat_gt_0 split: if_splits)

text \<open>A full ring: the purge pops the head of the queue.\<close>

lemma purge_full:
  assumes inv: "ring_inv ctd" and full: "length (cache ctd) = unat (maxSize ctd)"
  obtains ctd1 where "purge_oldest ctd = Ret ctd1" "ring_inv ctd1" "live ctd1 = tl (live ctd)"
    "maxSize ctd1 = maxSize ctd" "decoder ctd1 = decoder ctd"
    "length (cache ctd1) < unat (maxSize ctd)"
    "cache ctd1 = AList.delete (hd (live ctd)) (cache ctd)"
proof -
  let ?n = "unat (maxSize ctd)" and ?o = "oldestIndex ctd"
  note i = ring_invD [OF inv]
  have hd: "window ctd ! ?o = hd (live ctd)"
  proof -
    have "live ctd \<noteq> []" using i(1) full by (metis length_live length_greater_0_conv)
    then have "hd (live ctd) = live ctd ! 0" by (rule hd_conv_nth)
    also have "\<dots> = window ctd ! ?o" using i(1,4) full by (subst live_nth) auto
    finally show ?thesis by simp
  qed
  have ne: "live ctd \<noteq> []" using i(1) full by (metis length_live length_greater_0_conv)
  then have mem: "hd (live ctd) \<in> fst ` set (cache ctd)" using i(8) by auto
  define c1 where "c1 = AList.delete (hd (live ctd)) (cache ctd)"
  define ctd1 where "ctd1 = ctd\<lparr> cache := c1, oldestIndex := (?o + 1) mod ?n \<rparr>"
  have len: "length c1 = ?n - 1" using length_delete_key [OF i(6) mem] full by (simp add: c1_def)
  have eq: "purge_oldest ctd = Ret ctd1"
    using i(2,4) hd by (simp add: purge_oldest_def ctd1_def c1_def)
  have tl: "live ctd1 = tl (live ctd)"
  proof (rule nth_equalityI)
    show "length (live ctd1) = length (tl (live ctd))" using len full by (simp add: ctd1_def)
    fix j assume "j < length (live ctd1)"
    then have j: "Suc j < ?n" using len by (simp add: ctd1_def)
    then have "live ctd1 ! j = window ctd ! (((?o + 1) mod ?n + j) mod ?n)"
      using len by (simp add: live_nth ctd1_def)
    also have "((?o + 1) mod ?n + j) mod ?n = (?o + Suc j) mod ?n" by (simp add: mod_simps)
    finally show "live ctd1 ! j = tl (live ctd) ! j"
      using j full by (simp add: nth_tl live_nth)
  qed
  have "ring_inv ctd1"
    unfolding ring_inv_def Let_def
  proof (intro conjI)
    show "insertIndex ctd1 = (oldestIndex ctd1 + length (cache ctd1)) mod unat (maxSize ctd1)"
    proof -
      have "((?o + 1) mod ?n + (?n - 1)) mod ?n = (?o + 1 + (?n - 1)) mod ?n" by (simp add: mod_simps)
      also have "?o + 1 + (?n - 1) = ?o + ?n" using i(1) by simp
      finally show ?thesis using i(5) full len by (simp add: ctd1_def)
    qed
    show "set (live ctd1) = fst ` set (cache ctd1)"
      using i(7,8) ne by (simp add: tl) (cases "live ctd", auto simp: ctd1_def c1_def dom_delete_key)
    show "distinct (live ctd1)" using i(7) by (simp add: tl distinct_tl)
    show "distinct (map fst (cache ctd1))"
      using i(6) by (simp add: ctd1_def c1_def AList.distinct_delete)
  qed (use i len in \<open>auto simp: ctd1_def\<close>)
  with eq tl len i(1) show thesis by (intro that [of ctd1]) (auto simp: ctd1_def c1_def)
qed

text \<open>A ring with room: storing a new hash pushes it at the end.\<close>

lemma store_fresh:
  assumes inv: "ring_inv ctd" and room: "length (cache ctd) < unat (maxSize ctd)"
    and fresh: "h \<notin> fst ` set (cache ctd)"
  obtains ctd1 where "store_entry h t ctd = Ret ctd1" "ring_inv ctd1" "live ctd1 = live ctd @ [h]"
    "maxSize ctd1 = maxSize ctd" "decoder ctd1 = decoder ctd"
    "cache ctd1 = AList.update h t (cache ctd)"
proof -
  let ?n = "unat (maxSize ctd)" and ?o = "oldestIndex ctd" and ?k = "length (cache ctd)"
  note i = ring_invD [OF inv]
  have ins: "insertIndex ctd < ?n" using i(1,5) by simp
  define ctd1 where "ctd1 = ctd\<lparr> cache := AList.update h t (cache ctd),
    window := (window ctd)[insertIndex ctd := h], insertIndex := (insertIndex ctd + 1) mod ?n \<rparr>"
  have len: "length (cache ctd1) = Suc ?k" using fresh by (simp add: ctd1_def length_update_fresh)
  have eq: "store_entry h t ctd = Ret ctd1" using ins i(2) by (simp add: store_entry_def ctd1_def)
  have lv: "live ctd1 = live ctd @ [h]"
  proof (rule nth_equalityI)
    show "length (live ctd1) = length (live ctd @ [h])" using len by simp
    fix j assume "j < length (live ctd1)"
    then have j: "j < Suc ?k" using len by simp
    then have at: "live ctd1 ! j = (window ctd)[(?o + ?k) mod ?n := h] ! ((?o + j) mod ?n)"
      using len i(5) by (simp add: live_nth) (simp add: ctd1_def)
    show "live ctd1 ! j = (live ctd @ [h]) ! j"
    proof (cases "j = ?k")
      case True
      then show ?thesis using at i(1,2) by (simp add: nth_append)
    next
      case False
      then have "(?o + ?k) mod ?n \<noteq> (?o + j) mod ?n"
        using j room by (intro mod_offset_neq) auto
      then show ?thesis using at j False by (simp add: nth_append live_nth)
    qed
  qed
  have "ring_inv ctd1"
    unfolding ring_inv_def Let_def
  proof (intro conjI)
    show "insertIndex ctd1 = (oldestIndex ctd1 + length (cache ctd1)) mod unat (maxSize ctd1)"
      using i(5) len by (simp add: ctd1_def mod_simps)
    show "set (live ctd1) = fst ` set (cache ctd1)"
      using i(8) by (simp add: lv) (simp add: ctd1_def AList.dom_update)
    show "distinct (live ctd1)" using i(7,8) fresh by (simp add: lv)
    show "distinct (map fst (cache ctd1))" using i(6) by (simp add: ctd1_def AList.distinct_update)
  qed (use i len room in \<open>auto simp: ctd1_def\<close>)
  with eq lv show thesis by (intro that [of ctd1]) (auto simp: ctd1_def)
qed

section \<open>One decode call\<close>

lemma full_test:
  assumes "ring_inv ctd"
  shows "maxSize ctd \<le> of_nat (length (cache ctd)) \<longleftrightarrow> length (cache ctd) = unat (maxSize ctd)"
proof -
  have "unat (maxSize ctd) < 2 ^ LENGTH(64)" by (rule unsigned_less)
  then have "length (cache ctd) < 2 ^ 64" using ring_invD(3) [OF assms] by simp
  then have "unat (of_nat (length (cache ctd)) :: 64 word) = length (cache ctd)"
    by (simp add: unat_of_nat take_bit_nat_eq_self)
  then show ?thesis using ring_invD(3) [OF assms] by (auto simp: word_le_nat_alt)
qed

text \<open>The step in one lemma: a hit, a decoding failure, or a miss that pushes the new hash.\<close>

lemma TxDecoder_cases:
  assumes inv: "ring_inv ctd"
  obtains (hit) t where "map_of (cache ctd) (TxHash H bz) = Some t" "TxDecoder H ctd bz = (ctd, Ret t)"
  | (fail) r where "map_of (cache ctd) (TxHash H bz) = None" "decoder ctd bz = r" "\<forall>t. r \<noteq> Ret t"
      "TxDecoder H ctd bz = (ctd, r)"
  | (miss) t ctd' where "map_of (cache ctd) (TxHash H bz) = None" "decoder ctd bz = Ret t"
      "TxDecoder H ctd bz = (ctd', Ret t)" "ring_inv ctd'" "maxSize ctd' = maxSize ctd"
      "decoder ctd' = decoder ctd"
      "live ctd' = fifo_push (unat (maxSize ctd)) (TxHash H bz) (live ctd)"
      "map_of (cache ctd') = (map_of (cache ctd) |` set (tl (live ctd)))(TxHash H bz \<mapsto> t) \<or>
       map_of (cache ctd') = (map_of (cache ctd))(TxHash H bz \<mapsto> t)"
proof -
  let ?h = "TxHash H bz" and ?n = "unat (maxSize ctd)"
  note i = ring_invD [OF inv]
  show thesis
  proof (cases "map_of (cache ctd) ?h")
    case (Some t)
    then show ?thesis by (intro hit) (simp_all add: TxDecoder_def Let_def)
  next
    case None
    then have fresh: "?h \<notin> fst ` set (cache ctd)" by (simp add: map_of_eq_None_iff)
    show ?thesis
    proof (cases "decoder ctd bz")
      case (Ret t)
      show ?thesis
      proof (cases "length (cache ctd) = ?n")
        case True
        from purge_full [OF inv True] obtain c1 where c1: "purge_oldest ctd = Ret c1" "ring_inv c1"
          "live c1 = tl (live ctd)" "maxSize c1 = maxSize ctd" "decoder c1 = decoder ctd"
          "length (cache c1) < ?n" "cache c1 = AList.delete (hd (live ctd)) (cache ctd)" by metis
        have "?h \<notin> fst ` set (cache c1)" using fresh by (simp add: c1(7) dom_delete_key)
        from store_fresh [OF c1(2) _ this] c1(4,6) obtain c2 where
          c2: "store_entry ?h t c1 = Ret c2" "ring_inv c2" "live c2 = live c1 @ [?h]"
          "maxSize c2 = maxSize c1" "decoder c2 = decoder c1" "cache c2 = AList.update ?h t (cache c1)"
          by metis
        have "map_of (cache c1) = map_of (cache ctd) |` set (tl (live ctd))"
        proof -
          have ne: "live ctd \<noteq> []" using i(1) True by (metis length_live length_greater_0_conv)
          have "dom (map_of (cache ctd)) = insert (hd (live ctd)) (set (tl (live ctd)))"
            using i(8) ne by (cases "live ctd") (auto simp: dom_map_of_conv_image_fst)
          moreover have "hd (live ctd) \<notin> set (tl (live ctd))" using i(7) ne by (cases "live ctd") auto
          ultimately show ?thesis
            by (auto simp: c1(7) AList.delete_conv' fun_eq_iff restrict_map_def domIff)
        qed
        then show ?thesis
          using True full_test [OF inv] c1 c2 None Ret
          by (intro miss [of t c2])
             (auto simp: TxDecoder_def Let_def fifo_push_def AList.update_conv')
      next
        case False
        then have room: "length (cache ctd) < ?n" using i(3) by simp
        from store_fresh [OF inv room fresh] obtain c2 where
          c2: "store_entry ?h t ctd = Ret c2" "ring_inv c2" "live c2 = live ctd @ [?h]"
          "maxSize c2 = maxSize ctd" "decoder c2 = decoder ctd" "cache c2 = AList.update ?h t (cache ctd)"
          by metis
        then show ?thesis
          using False room full_test [OF inv] None Ret
          by (intro miss [of t c2])
             (auto simp: TxDecoder_def Let_def fifo_push_def AList.update_conv')
      qed
    qed (use None in \<open>auto intro!: fail simp: TxDecoder_def Let_def\<close>)
  qed
qed

text \<open>C14: The decoder's ring buffer implements a bounded first-in first-out queue: every call keeps
  the window, the indices and the map consistent, a decoded miss pushes its hash and drops the
  oldest one exactly when the cache is full, and a hit or a failure changes nothing.\<close>

theorem TxDecoder_refines_fifo:
  assumes "ring_inv ctd" and "TxDecoder H ctd bz = (ctd', r)"
  shows "ring_inv ctd' \<and> Len ctd' \<le> unat (maxSize ctd) \<and>
    (if cache_Contains H ctd bz \<or> (\<forall>t. r \<noteq> Ret t) then ctd' = ctd
     else live ctd' = fifo_push (unat (maxSize ctd)) (TxHash H bz) (live ctd) \<and>
          cache_Contains H ctd' bz)"
  using assms(1)
proof (cases rule: TxDecoder_cases [where H = H and bz = bz])
  case (miss t c)
  then have "ctd' = c" "r = Ret t" using assms(2) by auto
  with miss show ?thesis
    using ring_invD(3) [of c] by (auto simp: Len_def cache_Contains_def)
qed (use assms ring_invD(3) [OF assms(1)] in \<open>auto simp: Len_def cache_Contains_def\<close>)

section \<open>Transparency\<close>

text \<open>Every entry is the decoding of some bytes of \<open>S\<close> with that hash.\<close>

definition cache_sound :: "(bytes \<Rightarrow> bytes) \<Rightarrow> bytes set \<Rightarrow> CacheTxDecoder \<Rightarrow> bool" where
  "cache_sound H S ctd \<longleftrightarrow>
     (\<forall>h t. map_of (cache ctd) h = Some t \<longrightarrow> (\<exists>bz \<in> S. TxHash H bz = h \<and> decoder ctd bz = Ret t))"

lemma TxDecoder_transparent:
  assumes "ring_inv ctd" and "cache_sound H S ctd" and "inj_on H S" and "bz \<in> S"
  shows "snd (TxDecoder H ctd bz) = decoder ctd bz \<and> ring_inv (fst (TxDecoder H ctd bz)) \<and>
    cache_sound H S (fst (TxDecoder H ctd bz)) \<and>
    decoder (fst (TxDecoder H ctd bz)) = decoder ctd \<and>
    maxSize (fst (TxDecoder H ctd bz)) = maxSize ctd"
  using assms(1)
proof (cases rule: TxDecoder_cases [where H = H and bz = bz])
  case (hit t)
  then obtain b where "b \<in> S" "TxHash H b = TxHash H bz" "decoder ctd b = Ret t"
    using assms(2) by (auto simp: cache_sound_def)
  moreover from this have "b = bz" using assms(3,4) by (auto simp: TxHash_eq_iff dest: inj_onD)
  ultimately show ?thesis using hit assms by simp
next
  case (fail r)
  then show ?thesis using assms by simp
next
  case (miss t c)
  have "cache_sound H S c"
    unfolding cache_sound_def
  proof (intro allI impI)
    fix h u assume "map_of (cache c) h = Some u"
    then have "h = TxHash H bz \<and> u = t \<or> map_of (cache ctd) h = Some u"
      using miss(8) by (auto simp: restrict_map_def split: if_splits)
    then show "\<exists>b \<in> S. TxHash H b = h \<and> decoder c b = Ret u"
      using assms(2,4) miss(2,6) by (auto simp: cache_sound_def)
  qed
  then show ?thesis using miss by simp
qed

text \<open>C15: The cache is transparent: started empty, any sequence of calls returns exactly what the
  wrapped decoder returns, errors included, provided the hash function has no collision among
  the transactions decoded; and the cache never holds more than its maximum.\<close>

theorem decode_all_transparent:
  assumes "NewCacheTxDecoder (Some dec) n = Ret ctd" and "0 < n" and "inj_on H (set bzs)"
  shows "snd (decode_all H ctd bzs) = map dec bzs \<and> Len (fst (decode_all H ctd bzs)) \<le> unat n"
proof -
  have gen: "snd (decode_all H c xs) = map (decoder c) xs \<and>
      Len (fst (decode_all H c xs)) \<le> unat (maxSize c)"
    if "ring_inv c" "cache_sound H (set bzs) c" "set xs \<subseteq> set bzs" for c xs
    using that
  proof (induction xs arbitrary: c)
    case Nil
    then show ?case using ring_invD(3) [of c] by (simp add: Len_def)
  next
    case (Cons x xs)
    then have "x \<in> set bzs" by simp
    from TxDecoder_transparent [OF Cons.prems(1,2) assms(3) this] Cons.IH [of "fst (TxDecoder H c x)"]
    show ?case using Cons.prems(3) by (auto simp: Let_def split: prod.splits)
  qed
  have "ring_inv ctd" using ring_inv_new [OF assms(1,2)] by simp
  moreover have "decoder ctd = dec" "maxSize ctd = n" "cache ctd = []"
    using assms(1) by (auto simp: NewCacheTxDecoder_def split: if_splits)
  ultimately show ?thesis using gen [of ctd bzs] by (simp add: cache_sound_def)
qed

definition sample_cache :: "nat \<Rightarrow> CacheTxDecoder" where
  "sample_cache n = \<lparr> decoder = (\<lambda>bz. Ret (sample_tx bz)), cache = [], window = replicate n '''',
     insertIndex = 0, oldestIndex = 0, maxSize = of_nat n \<rparr>"

theorem decode_all_transparent_witness:
  "snd (decode_all (\<lambda>bz. bz) (sample_cache 1) [[1], [2], [1]]) =
      map (\<lambda>bz. Ret (sample_tx bz)) [[1], [2], [1]] \<and>
   Len (fst (decode_all (\<lambda>bz. bz) (sample_cache 1) [[1], [2], [1]])) \<le> unat (1 :: u64)"
  by (rule decode_all_transparent) (simp_all add: NewCacheTxDecoder_def sample_cache_def)

theorem TxDecoder_refines_fifo_witness:
  "ring_inv (fst (TxDecoder (\<lambda>bz. bz) (sample_cache 1) [1])) \<and>
   live (fst (TxDecoder (\<lambda>bz. bz) (sample_cache 1) [1])) = fifo_push 1 (TxHash (\<lambda>bz. bz) [1]) []"
proof -
  have new: "NewCacheTxDecoder (Some (\<lambda>bz. Ret (sample_tx bz))) 1 = Ret (sample_cache 1)"
    by (simp add: NewCacheTxDecoder_def sample_cache_def)
  have "TxDecoder (\<lambda>bz. bz) (sample_cache 1) [1] =
      (fst (TxDecoder (\<lambda>bz. bz) (sample_cache 1) [1]), snd (TxDecoder (\<lambda>bz. bz) (sample_cache 1) [1]))"
    by simp
  from TxDecoder_refines_fifo [OF ring_inv_new [OF new, THEN conjunct1] this]
  show ?thesis
    using ring_inv_new [OF new]
    by (auto simp: cache_Contains_def TxDecoder_def sample_cache_def store_entry_def Let_def
        split: if_splits)
qed

text \<open>The constructor accepts a maximum size of 0, and such a decoder panics on the first
  transaction it decodes successfully.\<close>

lemma zero_size_cache_panics:
  assumes "NewCacheTxDecoder (Some dec) 0 = Ret ctd" and "dec bz = Ret t"
  shows "TxDecoder H ctd bz = (ctd, Panic)"
  using assms by (auto simp: NewCacheTxDecoder_def TxDecoder_def purge_oldest_def)

end
