(* ===== verification/Test_App.thy ===== *)
theory Test_App
  imports App_Run Tx_Cache
begin

text \<open>
  The application the repository tests itself with (\<open>tests/app\<close>), which applications copy: its three
  lanes (\<open>lanes.go\<close>) and its constructor (\<open>app.go\<close>): \<open>New\<close> is the part that builds the mempool and the
  proposal handlers from the lanes, \<open>NewTestApp\<close> the whole, with the checks of \<open>ante.go\<close>. What the
  application gets from the SDK (encoder, decoder, keepers, the outcome of its calls) is an argument.
  The lanes live at the references 0, 1 and 2.
\<close>

section \<open>The lanes\<close>

definition app_lane_config :: "tx_encoder \<Rightarrow> tx_decoder \<Rightarrow> LegacyDec \<Rightarrow> 'ctx LaneConfig" where
  "app_lane_config enc dec space =
     \<lparr> cfgLogger = Some (), cfgTxEncoder = Some enc, cfgTxDecoder = Some dec, cfgAnteHandler = None,
       cfgSignerExtractor = Some DefaultAdapter_GetSigners, cfgMaxBlockSpace = space, cfgMaxTxs = 1000 \<rparr>"

text \<open>A decimal is its number of units of \<open>10^-18\<close>.\<close>

definition CreateLanes ::
    "'ctx ctx_ops \<Rightarrow> dec_ops \<Rightarrow> coin_ops \<Rightarrow> (bytes \<Rightarrow> bytes) \<Rightarrow> addr_ops \<Rightarrow>
     ('sl, int) skiplist_ops \<Rightarrow> (('sl, 'ctx, int) Mempool \<Rightarrow> 'mp) \<Rightarrow> ('mp \<Rightarrow> ('sl, 'ctx, int) Mempool) \<Rightarrow>
     ('sl', string) skiplist_ops \<Rightarrow> (('sl', 'ctx, string) Mempool \<Rightarrow> 'mp) \<Rightarrow> ('mp \<Rightarrow> ('sl', 'ctx, string) Mempool) \<Rightarrow>
     tx_encoder \<Rightarrow> tx_decoder \<Rightarrow>
     ((('mp, 'ctx) MEVLane \<times> 'mp) \<times> (('mp, 'ctx) BaseLane \<times> 'mp) \<times> (('mp, 'ctx) BaseLane \<times> 'mp)) go" where
  "CreateLanes C D K H A SL box unbox SL' box' unbox' enc dec =
     (let mevConfig = app_lane_config enc dec (Dec 200000000000000000);
          freeConfig = app_lane_config enc dec (Dec 200000000000000000);
          defaultConfig = app_lane_config enc dec (Dec 600000000000000000);
          factory = NewDefaultAuctionFactory A (Some dec) (Some DefaultAdapter_GetSigners);
          mevMatchHandler = FactoryMatchHandler factory in
      go_bind (NewMEVLane C D K H SL A box unbox SL' box' unbox' 0 mevConfig factory (Some mevMatchHandler)) (\<lambda>mevLane.
      go_bind (NewFreeLane C D H SL A box unbox SL AnyInt box unbox 0 1 freeConfig DefaultTxPriority
          (Some Free_DefaultMatchHandler)) (\<lambda>freeLane.
      go_bind (NewDefaultLane C D H SL A box unbox 2 defaultConfig (Some DefaultMatchHandler)) (\<lambda>defaultLane.
        Ret (mevLane, freeLane, defaultLane)))))"

section \<open>The application\<close>

text \<open>The lanes of the application, in the order of the mempool, and the states of their mempools.\<close>

record ('mp, 'ctx) TestApp =
  AppMEVLane :: "('mp, 'ctx) MEVLane"
  AppFreeLane :: "('mp, 'ctx) BaseLane"
  AppDefaultLane :: "('mp, 'ctx) BaseLane"
  AppPools :: "'mp store"

text \<open>
  The mempool is validated before the lanes behind its pointers get their ante handler, which they
  all share.
\<close>

definition New ::
    "'ctx ctx_ops \<Rightarrow> dec_ops \<Rightarrow> coin_ops \<Rightarrow> (bytes \<Rightarrow> bytes) \<Rightarrow> addr_ops \<Rightarrow>
     ('sl, int) skiplist_ops \<Rightarrow> (('sl, 'ctx, int) Mempool \<Rightarrow> 'mp) \<Rightarrow> ('mp \<Rightarrow> ('sl, 'ctx, int) Mempool) \<Rightarrow>
     ('sl', string) skiplist_ops \<Rightarrow> (('sl', 'ctx, string) Mempool \<Rightarrow> 'mp) \<Rightarrow> ('mp \<Rightarrow> ('sl', 'ctx, string) Mempool) \<Rightarrow>
     tx_encoder \<Rightarrow> tx_decoder \<Rightarrow> 'ctx ante_handler \<Rightarrow> ('mp, 'ctx) TestApp go" where
  "New C D K H A SL box unbox SL' box' unbox' enc dec anteHandler =
     go_bind (CreateLanes C D K H A SL box unbox SL' box' unbox' enc dec) (\<lambda>((mevLane, mp0), (freeLane, mp1), (defaultLane, mp2)).
     go_bind (must (NewLanedMempool D (lanes_of D H [MevBaseLane mevLane, freeLane, defaultLane]))) (\<lambda>_.
     let opt = [WithAnteHandler (Some anteHandler)] in
     go_bind (WithOptions opt (MevBaseLane mevLane, mp0)) (\<lambda>(mevBase, mp0).
     go_bind (WithOptions opt (freeLane, mp1)) (\<lambda>(freeLane, mp1).
     go_bind (WithOptions opt (defaultLane, mp2)) (\<lambda>(defaultLane, mp2).
       Ret \<lparr> AppMEVLane = mevLane\<lparr>MevBaseLane := mevBase\<rparr>, AppFreeLane = freeLane, AppDefaultLane = defaultLane,
             AppPools = ((\<lambda>_. mp0)(1 := mp1, 2 := mp2)) \<rparr>)))))"

text \<open>
  The keepers that the dependency injection fills in, those whose absence the ante handler's
  construction checks; a nil interface is \<open>None\<close>. The chain of the SDK's decorators around the two of
  the repository is an argument.
\<close>

record ('ak, 'bk, 'sm) app_keepers =
  keepAccount :: "'ak option"
  keepBank :: "'bk option"
  keepSignMode :: "'sm option"

definition NewBSDKAnteHandler ::
    "('ak \<Rightarrow> 'bk \<Rightarrow> 'sm \<Rightarrow> 'ctx ante_handler) \<Rightarrow> ('ak, 'bk, 'sm) app_keepers \<Rightarrow> 'ctx ante_handler go" where
  "NewBSDKAnteHandler chain options =
     (case keepAccount options of
        None \<Rightarrow> Panic
      | Some ak \<Rightarrow>
          (case keepBank options of
             None \<Rightarrow> Panic
           | Some bk \<Rightarrow>
               (case keepSignMode options of
                  None \<Rightarrow> Panic
                | Some sm \<Rightarrow> Ret (chain ak bk sm))))"

text \<open>
  The whole constructor: the dependency injection (\<open>inject\<close>), the builder of the SDK's application
  (\<open>build\<close>) and the loading of the store (\<open>load\<close>) are calls of the SDK with the outcomes given; their errors
  become panics. The ante handler is made between two parts of \<open>New\<close>; as a panic leaves nothing behind, it
  stands before them here. The result holds the caching decoder of the \<open>CheckTx\<close> handlers too.
\<close>

definition NewTestApp ::
    "'ctx ctx_ops \<Rightarrow> dec_ops \<Rightarrow> coin_ops \<Rightarrow> (bytes \<Rightarrow> bytes) \<Rightarrow> addr_ops \<Rightarrow>
     ('sl, int) skiplist_ops \<Rightarrow> (('sl, 'ctx, int) Mempool \<Rightarrow> 'mp) \<Rightarrow> ('mp \<Rightarrow> ('sl, 'ctx, int) Mempool) \<Rightarrow>
     ('sl', string) skiplist_ops \<Rightarrow> (('sl', 'ctx, string) Mempool \<Rightarrow> 'mp) \<Rightarrow> ('mp \<Rightarrow> ('sl', 'ctx, string) Mempool) \<Rightarrow>
     tx_encoder \<Rightarrow> tx_decoder \<Rightarrow> ('ak \<Rightarrow> 'bk \<Rightarrow> 'sm \<Rightarrow> 'ctx ante_handler) \<Rightarrow> ('ak, 'bk, 'sm) app_keepers go \<Rightarrow> unit go \<Rightarrow> unit go \<Rightarrow>
     (('mp, 'ctx) TestApp \<times> CacheTxDecoder) go" where
  "NewTestApp C D K H A SL box unbox SL' box' unbox' enc dec chain inject build load =
     go_bind (must inject) (\<lambda>keepers.
     go_bind (must build) (\<lambda>_.
     go_bind (NewBSDKAnteHandler chain keepers) (\<lambda>anteHandler.
     go_bind (New C D K H A SL box unbox SL' box' unbox' enc dec anteHandler) (\<lambda>app.
     go_bind (must (NewDefaultCacheTxDecoder (Some dec))) (\<lambda>cacheDecoder.
     go_bind (must load) (\<lambda>_. Ret (app, cacheDecoder)))))))"

abbreviation app_lane_list :: "('mp, 'ctx) TestApp \<Rightarrow> ('mp, 'ctx) BaseLane list" where
  "app_lane_list app \<equiv> [MevBaseLane (AppMEVLane app), AppFreeLane app, AppDefaultLane app]"

text \<open>The handlers that \<open>abci.New\<close> makes of the mempool, with the process logic of the lanes.\<close>

definition TestApp_PrepareProposal ::
    "'ctx ctx_ops \<Rightarrow> dec_ops \<Rightarrow> (bytes \<Rightarrow> bytes) \<Rightarrow> ('mp, 'ctx) TestApp \<Rightarrow> 'mp store \<Rightarrow> 'ctx \<Rightarrow> RequestPrepareProposal \<Rightarrow>
     'mp store \<times> 'ctx \<times> bytes list \<times> error option" where
  "TestApp_PrepareProposal C D H app = PrepareProposalHandler D C (lanes_of D H (app_lane_list app))"

definition TestApp_ProcessProposal ::
    "'ctx ctx_ops \<Rightarrow> dec_ops \<Rightarrow> (bytes \<Rightarrow> bytes) \<Rightarrow> tx_decoder \<Rightarrow>
     ('ctx \<Rightarrow> RequestProcessProposal \<Rightarrow> 'ctx \<times> ProposalStatus \<times> error option) \<Rightarrow> ('mp, 'ctx) TestApp \<Rightarrow> 'mp store \<Rightarrow>
     'ctx \<Rightarrow> RequestProcessProposal \<Rightarrow> 'ctx \<times> ProposalStatus \<times> error option" where
  "TestApp_ProcessProposal C D H dec noop app =
     ProcessProposalHandler D C dec noop True (lanes_of D H (app_lane_list app))"

section \<open>What the application is made of\<close>

lemma app_lane_config_valid:
  assumes "dec_laws D" and "0 \<le> x" and "x \<le> dec_unit"
  shows "LaneConfig_ValidateBasic D (app_lane_config enc dec (Dec x)) = Ret ()"
  using assms by (simp add: LaneConfig_ValidateBasic_def app_lane_config_def dec_laws_def)

lemma app_configs_valid:
  assumes "dec_laws D"
  shows "LaneConfig_ValidateBasic D (app_lane_config enc dec (Dec 200000000000000000)) = Ret ()"
    and "LaneConfig_ValidateBasic D (app_lane_config enc dec (Dec 600000000000000000)) = Ret ()"
  by (intro app_lane_config_valid assms; simp)+

lemma app_shares:
  assumes "dec_laws D"
  shows "decZero D = Dec 0" and "decAdd D (Dec 0) (Dec 200000000000000000) = Ret (Dec 200000000000000000)"
    and "decAdd D (Dec 200000000000000000) (Dec 200000000000000000) = Ret (Dec 400000000000000000)"
    and "decAdd D (Dec 400000000000000000) (Dec 600000000000000000) = Ret (Dec 1000000000000000000)"
    and "decOne D = Dec 1000000000000000000" and "decGT D (Dec x) (Dec y) \<longleftrightarrow> x > y"
    and "decLT D (Dec x) (Dec y) \<longleftrightarrow> x < y" and "decIsZero D (Dec x) \<longleftrightarrow> x = 0"
  using assms by (simp_all add: dec_laws_def)

abbreviation app_factory :: "addr_ops \<Rightarrow> tx_decoder \<Rightarrow> 'ctx Factory" where
  "app_factory A dec \<equiv> NewDefaultAuctionFactory A (Some dec) (Some DefaultAdapter_GetSigners)"

definition app_lane :: "nat \<Rightarrow> string \<Rightarrow> 'ctx LaneConfig \<Rightarrow> 'ctx ante_handler \<Rightarrow> ('mp, 'ctx) LaneMempool \<Rightarrow> 'ctx MatchHandler \<Rightarrow>
    (('mp, 'ctx) lane_core \<Rightarrow> ('mp, 'ctx) PrepareLaneHandler) \<Rightarrow> (('mp, 'ctx) lane_core \<Rightarrow> ('mp, 'ctx) ProcessLaneHandler) \<Rightarrow>
    ('mp, 'ctx) BaseLane" where
  "app_lane ref name c ante m mh prep proc = \<lparr> laneRef = ref, cfg = c\<lparr>cfgAnteHandler := Some ante\<rparr>, laneName = name,
     laneMempool = Some m, matchHandler = Some mh, prepareLaneHandler = Some prep, processLaneHandler = Some proc \<rparr>"

text \<open>The constructor never panics, and these are its lanes.\<close>

lemma New_Ret:
  assumes D: "dec_laws D"
  shows "New C D K H A SL box unbox SL' box' unbox' enc dec ante = Ret
    \<lparr> AppMEVLane = \<lparr> MevBaseLane = app_lane 0 ''mev'' (app_lane_config enc dec (Dec 200000000000000000)) ante
          (Mempool_methods SL' A AnyString box' unbox' (Mev_TxPriority K (app_factory A dec)))
          (FactoryMatchHandler (app_factory A dec))
          (Mev_PrepareLaneHandler C H (app_factory A dec)) (Mev_ProcessLaneHandler C (app_factory A dec)),
        MevFactory = app_factory A dec \<rparr>,
      AppFreeLane = app_lane 1 ''free'' (app_lane_config enc dec (Dec 200000000000000000)) ante
        (Mempool_methods SL A AnyInt box unbox DefaultTxPriority) Free_DefaultMatchHandler
        (Default_PrepareLaneHandler C H) (Default_ProcessLaneHandler C),
      AppDefaultLane = app_lane 2 ''default'' (app_lane_config enc dec (Dec 600000000000000000)) ante
        (Mempool_methods SL A AnyInt box unbox DefaultTxPriority) DefaultMatchHandler
        (Default_PrepareLaneHandler C H) (Default_ProcessLaneHandler C),
      AppPools = (\<lambda>_. box' (NewMempool SL' '''' (Mev_TxPriority K (app_factory A dec)) DefaultAdapter_GetSigners 1000))
        (1 := box (NewMempool SL 0 DefaultTxPriority DefaultAdapter_GetSigners 1000),
         2 := box (NewMempool SL 0 DefaultTxPriority DefaultAdapter_GetSigners 1000)) \<rparr>"
proof -
  have conf: "call1 (cfgSignerExtractor (app_lane_config enc dec x)) = DefaultAdapter_GetSigners"
    "cfgMaxTxs (app_lane_config enc dec x) = 1000" "cfgMaxBlockSpace (app_lane_config enc dec x) = x" for x
    by (simp_all add: app_lane_config_def fun_eq_iff)
  show ?thesis
    by (simp add: New_def CreateLanes_def NewMEVLane_def NewFreeLane_def NewDefaultLane_def NewBaseLane_def Let_def
        WithMatchHandler_def WithMempoolConfigs_def WithPrepareLaneHandler_def WithProcessLaneHandler_def WithAnteHandler_def
        BaseLane_ValidateBasic_def app_configs_valid [OF D] conf NewLanedMempool_def Mempool_ValidateBasic_def base_lane_methods_def
        GetMaxBlockSpace_def app_shares [OF D] app_lane_def)
qed


lemma TestApp_node_lanes:
  assumes "dec_laws D" and "ctx_laws C" and "bid_encoder (app_factory A dec :: 'ctx Factory) enc"
    and new: "New C D K H A SL box unbox SL' box' unbox' enc dec ante = Ret (app :: ('mp, 'ctx) TestApp)"
  shows "node_lanes C H (app_factory A dec) enc (Mempool_methods SL A AnyInt box unbox DefaultTxPriority)
      [MevBaseLane (AppMEVLane app)] [AppFreeLane app, AppDefaultLane app]"
    and "\<forall>l \<in> set [AppFreeLane app, AppDefaultLane app].
      \<exists>n. AppPools app (laneRef l) = box (NewMempool SL 0 DefaultTxPriority DefaultAdapter_GetSigners n)"
proof -
  note app = new [unfolded New_Ret [OF assms(1)] go.inject, symmetric]
  have space: "valid_space (app_lane ref name (app_lane_config enc dec (Dec x)) ante m mh prep proc)"
    if "0 \<le> x" "x \<le> dec_unit" for ref name x and m :: "('mp, 'ctx) LaneMempool" and mh prep proc
    using that by (simp add: valid_space_def GetMaxBlockSpace_def app_lane_def app_lane_config_def)
  have sizes: "sizes_bounded (app_lane ref name (app_lane_config enc dec x) ante m mh prep proc)"
    for ref name x and m :: "('mp, 'ctx) LaneMempool" and mh prep proc
    using assms(3) by (fastforce simp: sizes_bounded_def app_lane_def app_lane_config_def bid_encoder_def)
  have mev: "mev_good C (app_factory A dec) enc (app_lane ref name (app_lane_config enc dec (Dec x)) ante m mh prep proc)"
    if "0 \<le> x" "x \<le> dec_unit" for ref name x and m :: "('mp, 'ctx) LaneMempool" and mh prep proc
    using assms(2,3) space [OF that] by (simp add: mev_good_def app_lane_def app_lane_config_def)
  have match: "stateless (app_lane ref name c ante m (FactoryMatchHandler (app_factory A dec)) prep proc)"
    "stateless (app_lane ref name c ante m Free_DefaultMatchHandler prep proc)"
    "stateless (app_lane ref name c ante m DefaultMatchHandler prep proc)"
    for ref name c and m :: "('mp, 'ctx) LaneMempool" and prep proc
    by (simp_all add: stateless_def Match_def app_lane_def NewDefaultAuctionFactory_def Default_MatchHandler_def
        Free_DefaultMatchHandler_def DefaultMatchHandler_def)
  have fields: "laneRef (app_lane ref name c ante m mh prep proc) = ref"
    "laneMempool (app_lane ref name c ante m mh prep proc) = Some m"
    "prepareLaneHandler (app_lane ref name c ante m mh prep proc) = Some prep"
    "processLaneHandler (app_lane ref name c ante m mh prep proc) = Some proc"
    "cfgTxEncoder (cfg (app_lane ref name (app_lane_config enc dec x) ante m mh prep proc)) = Some enc"
    for ref name c x and m :: "('mp, 'ctx) LaneMempool" and mh prep proc
    by (simp_all add: app_lane_def app_lane_config_def)
  show "node_lanes C H (app_factory A dec) enc (Mempool_methods SL A AnyInt box unbox DefaultTxPriority)
      [MevBaseLane (AppMEVLane app)] [AppFreeLane app, AppDefaultLane app]"
    by (simp add: node_lanes_def app space sizes mev match fields)
  show "\<forall>l \<in> set [AppFreeLane app, AppDefaultLane app].
      \<exists>n. AppPools app (laneRef l) = box (NewMempool SL 0 DefaultTxPriority DefaultAdapter_GetSigners n)"
    by (auto simp: app app_lane_def)
qed


text \<open>C2: Two nodes that run the application agree. Each starts from the application's constructor, with
  empty mempools, and then inserts, removes and prepares in its own order with its own transactions,
  bids included. Whatever proposal the first node returns from the mempools it has reached, the second
  accepts with the ones it has reached, from the same state of the chain, and both end in the same
  state. Nothing is assumed of the mempools.\<close>

theorem TestApp_nodes_agree:
  assumes "dec_laws D" and "ctx_laws C" and "codec_faithful enc dec" and "skiplist_laws SL" and "addr_laws A"
    and "\<forall>cm. unbox (box cm) = cm" and "bid_encoder (app_factory A dec :: 'ctx Factory) enc"
    and "New C D K H A SL box unbox SL' box' unbox' enc dec ante = Ret (app :: ('mp, 'ctx) TestApp)"
    and "mempool_run D C (lanes_of D H (app_lane_list app)) (AppPools app) mps"
    and "mempool_run D C (lanes_of D H (app_lane_list app)) (AppPools app) mps2"
    and "\<not> prepHeight req \<le>s 1" and "\<not> procHeight req' \<le>s 1" and "procTxs req' = txs"
    and "TestApp_PrepareProposal C D H app mps ctx req = (mps', ctx', txs, None)"
    and "ConsBlock C ctx = Some bp" and "0 \<le> sint (prepMaxTxBytes req)"
    and "sint (prepMaxTxBytes req) < 2 ^ 62" and "sint (prepMaxTxBytes req) \<le> sint (ParamMaxBytes bp)"
  shows "TestApp_ProcessProposal C D H dec noop app mps2 ctx req' = (ctx', ACCEPT, None)"
proof -
  note app = TestApp_node_lanes [OF assms(1,2,7,8)]
  note agree = nodes_agree [where D = D and C = C and H = H and enc = enc and dec = dec and mps = mps and
      ?mps2.0 = mps2 and req = req and req' = req' and ctx = ctx, OF assms(1-6) app(1) app(2) app(2),
      unfolded append_Cons append_Nil]
  show ?thesis
    unfolding TestApp_ProcessProposal_def
    by (rule agree [OF assms(9-13) assms(14) [unfolded TestApp_PrepareProposal_def] assms(15-18)])
qed

lemma new_pool_empty: "skiplist_laws SL \<Longrightarrow> PN_CountTx SL (index (NewMempool SL z P E n)) = 0"
  using skiplist_lawsD(1,3) [of SL] by (simp add: PN_CountTx_def NewMempool_def NewPriorityMempool_def)

text \<open>C19: The constructor of the application returns exactly when the calls of the SDK in it succeed (the
  dependency injection, the builder, the loading of the store) and the injection provides the three
  keepers that the ante handler needs; otherwise it panics. What the repository adds never fails: the
  lanes are the MEV, the free and the default lane, in this order; each is a valid lane with the
  application's ante handler, the laned mempool over them is valid and empty, and so is the cache of
  the decoder.\<close>

theorem TestApp_New:
  assumes "dec_laws D" and "skiplist_laws SL" and "skiplist_laws SL'" and "\<forall>cm. unbox (box cm) = cm"
    and "\<forall>cm. unbox' (box' cm) = cm"
  shows "if \<exists>ak bk sm. inject = Ret \<lparr> keepAccount = Some ak, keepBank = Some bk, keepSignMode = Some sm \<rparr> \<and>
      build = Ret () \<and> load = Ret ()
    then \<exists>(app :: ('mp, 'ctx) TestApp) ak bk sm cd.
      NewTestApp C D K H A SL box unbox SL' box' unbox' enc dec chain inject build load = Ret (app, cd) \<and>
      inject = Ret \<lparr> keepAccount = Some ak, keepBank = Some bk, keepSignMode = Some sm \<rparr> \<and>
      map laneName (app_lane_list app) = [''mev'', ''free'', ''default''] \<and>
      (\<forall>l \<in> set (app_lane_list app). BaseLane_ValidateBasic D l = Ret () \<and> cfgAnteHandler (cfg l) = Some (chain ak bk sm)) \<and>
      NewLanedMempool D (lanes_of D H (app_lane_list app)) = Ret (lanes_of D H (app_lane_list app)) \<and>
      CountTx D (lanes_of D H (app_lane_list app)) (AppPools app) = Ret 0 \<and>
      decoder cd = dec \<and> cache cd = []
    else NewTestApp C D K H A SL box unbox SL' box' unbox' enc dec chain inject build load = (Panic :: (('mp, 'ctx) TestApp \<times> _) go)"
proof -
  have same: "LaneConfig_ValidateBasic D (c\<lparr>cfgAnteHandler := Some ante\<rparr>) = LaneConfig_ValidateBasic D c"
    for c and ante :: "'ctx ante_handler"
    by (simp add: LaneConfig_ValidateBasic_def)
  have valid: "BaseLane_ValidateBasic D (app_lane ref name (app_lane_config enc dec x) ante m mh prep proc) = Ret ()"
    if "LaneConfig_ValidateBasic D (app_lane_config enc dec x :: 'ctx LaneConfig) = Ret ()" "name \<noteq> ''''"
    for ref name x and ante :: "'ctx ante_handler" and m :: "('mp, 'ctx) LaneMempool" and mh prep proc
    using that by (simp add: BaseLane_ValidateBasic_def app_lane_def same)
  have fields: "laneName (app_lane ref name (app_lane_config enc dec x) ante m mh prep proc) = name"
    "cfgAnteHandler (cfg (app_lane ref name (app_lane_config enc dec x) ante m mh prep proc)) = Some ante"
    "GetMaxBlockSpace (app_lane ref name (app_lane_config enc dec x) ante m mh prep proc) = x"
    "laneMempool (app_lane ref name (app_lane_config enc dec x) ante m mh prep proc) = Some m"
    "laneRef (app_lane ref name (app_lane_config enc dec x) ante m mh prep proc) = ref"
    for ref name x and ante :: "'ctx ante_handler" and m :: "('mp, 'ctx) LaneMempool" and mh prep proc
    by (simp_all add: app_lane_def app_lane_config_def GetMaxBlockSpace_def)
  have made: "\<exists>app :: ('mp, 'ctx) TestApp. New C D K H A SL box unbox SL' box' unbox' enc dec ante = Ret app \<and>
    map laneName (app_lane_list app) = [''mev'', ''free'', ''default''] \<and>
    (\<forall>l \<in> set (app_lane_list app). BaseLane_ValidateBasic D l = Ret () \<and> cfgAnteHandler (cfg l) = Some ante) \<and>
    NewLanedMempool D (lanes_of D H (app_lane_list app)) = Ret (lanes_of D H (app_lane_list app)) \<and>
    CountTx D (lanes_of D H (app_lane_list app)) (AppPools app) = Ret 0" for ante
    by (intro exI conjI, rule New_Ret [OF assms(1)])
       (simp_all add: fields valid app_configs_valid [OF assms(1)] NewLanedMempool_def Mempool_ValidateBasic_def
         base_lane_methods_def app_shares [OF assms(1)] Mempool_methods_def BaseMempool_CountTx_def assms(4,5)
         new_pool_empty [OF assms(2)] new_pool_empty [OF assms(3)])
  show ?thesis
  proof (cases "\<exists>ak bk sm. inject = Ret \<lparr> keepAccount = Some ak, keepBank = Some bk, keepSignMode = Some sm \<rparr> \<and>
      build = Ret () \<and> load = Ret ()")
    case True
    then obtain ak bk sm where k: "inject = Ret \<lparr> keepAccount = Some ak, keepBank = Some bk, keepSignMode = Some sm \<rparr>"
      "build = Ret ()" "load = Ret ()" by blast
    from made [of "chain ak bk sm"] obtain app :: "('mp, 'ctx) TestApp" where app:
      "New C D K H A SL box unbox SL' box' unbox' enc dec (chain ak bk sm) = Ret app"
      "map laneName (app_lane_list app) = [''mev'', ''free'', ''default'']"
      "\<forall>l \<in> set (app_lane_list app). BaseLane_ValidateBasic D l = Ret () \<and> cfgAnteHandler (cfg l) = Some (chain ak bk sm)"
      "NewLanedMempool D (lanes_of D H (app_lane_list app)) = Ret (lanes_of D H (app_lane_list app))"
      "CountTx D (lanes_of D H (app_lane_list app)) (AppPools app) = Ret 0" by (elim exE conjE) (rule that)
    obtain cd where cd: "NewDefaultCacheTxDecoder (Some dec) = Ret cd" "decoder cd = dec" "cache cd = []"
      by (simp add: NewDefaultCacheTxDecoder_def)
    have run: "NewTestApp C D K H A SL box unbox SL' box' unbox' enc dec chain inject build load = Ret (app, cd)"
      using k app(1) cd(1) by (simp add: NewTestApp_def NewBSDKAnteHandler_def)
    show ?thesis
      unfolding if_P [OF True]
      by (rule exI [of _ app], rule exI [of _ ak], rule exI [of _ bk], rule exI [of _ sm], rule exI [of _ cd])
        (intro conjI, fact run, fact k(1), fact app(2), fact app(3), fact app(4), fact app(5), fact cd(2), fact cd(3))
  next
    case False
    moreover have "NewTestApp C D K H A SL box unbox SL' box' unbox' enc dec chain inject build load = (Panic :: (('mp, 'ctx) TestApp \<times> _) go)"
    proof (cases inject)
      case (Ret keepers)
      have "keepers = \<lparr> keepAccount = keepAccount keepers, keepBank = keepBank keepers, keepSignMode = keepSignMode keepers \<rparr>"
        by simp
      with False Ret show ?thesis
        using made
        by (cases "keepAccount keepers"; cases "keepBank keepers"; cases "keepSignMode keepers"; cases build; cases load)
          (auto simp: NewTestApp_def NewBSDKAnteHandler_def NewDefaultCacheTxDecoder_def New_Ret [OF assms(1)])
    qed (simp_all add: NewTestApp_def)
    ultimately show ?thesis by (simp only: if_False)
  qed
qed

section \<open>An instance\<close>

type_synonym int_pool = "((int txMeta \<Rightarrow> int txMeta \<Rightarrow> int) \<times> int elem list, value_context, int) Mempool"
type_synonym bid_pool = "((string txMeta \<Rightarrow> string txMeta \<Rightarrow> int) \<times> string elem list, value_context, string) Mempool"

definition sample_app :: "(int_pool + bid_pool, value_context) TestApp go" where
  "sample_app = New value_ctx scaled_dec plain_coins (\<lambda>bz. bz) char_addr list_skiplist Inl projl
     list_skiplist Inr projr sample_encode sample_decode (\<lambda>ctx t simulate. (ctx, Ret ctx))"

lemmas sample_app_code = New_Ret [OF scaled_dec_laws, of value_ctx plain_coins "\<lambda>bz. bz" char_addr list_skiplist Inl projl
  list_skiplist Inr projr sample_encode sample_decode "\<lambda>ctx t simulate. (ctx, Ret ctx)", folded sample_app_def]

fun returned :: "'a go \<Rightarrow> 'a" where
  "returned (Ret x) = x"

abbreviation sample_insert :: "bytes \<Rightarrow> (int_pool + bid_pool) store \<Rightarrow> (int_pool + bid_pool) store" where
  "sample_insert bz mps \<equiv> fst (Insert scaled_dec (lanes_of scaled_dec (\<lambda>bz. bz) (app_lane_list (returned sample_app)))
     mps sample_ctx (sample_tx bz))"

lemma sample_app_new:
  "New value_ctx scaled_dec plain_coins (\<lambda>bz. bz) char_addr list_skiplist Inl projl
     list_skiplist Inr projr sample_encode sample_decode (\<lambda>ctx t simulate. (ctx, Ret ctx)) = Ret (returned sample_app)"
  by (simp add: sample_app_def New_Ret [OF scaled_dec_laws])

text \<open>The lanes of the instance, and their methods on its mempools.\<close>

definition sample_pool_after :: "bytes \<Rightarrow> int_pool" where
  "sample_pool_after bz = fst (BaseMempool_Insert list_skiplist char_addr
     (NewMempool list_skiplist 0 DefaultTxPriority DefaultAdapter_GetSigners 1000) sample_ctx (sample_tx bz))"

lemma sample_pool_selects: "snd (BaseMempool_Select list_skiplist (sample_pool_after [5]) sample_ctx) = Ret [sample_tx [5]]"
  by code_simp

lemma sample_no_bid: "GetAuctionBidInfo (app_factory char_addr sample_decode) (sample_tx bz) = Ret None"
  by (simp add: NewDefaultAuctionFactory_def Default_GetAuctionBidInfo_def GetMsgAuctionBidFromTx_def Let_def sample_tx_def)

lemmas sample_app_eval = sample_app_code app_lane_def app_lane_config_def base_lane_methods_def Match_def
  GetMaxBlockSpace_def Mempool_methods_def

lemma sample_no_match: "FactoryMatchHandler (app_factory char_addr sample_decode) ctx (sample_tx bz) = Ret False"
  using sample_no_bid [of bz] by (simp add: NewDefaultAuctionFactory_def Default_MatchHandler_def)

lemma sample_no_staking: "Free_DefaultMatchHandler ctx (sample_tx bz) = Ret False"
  by (simp add: Free_DefaultMatchHandler_def sample_tx_def)

lemma sample_inserted:
  "sample_insert bz (AppPools (returned sample_app)) = (AppPools (returned sample_app))(2 := Inl (sample_pool_after bz))"
  by (simp add: sample_app_eval sample_no_match sample_no_staking Insert_def DefaultMatchHandler_def
      sample_pool_after_def split_beta)

lemma sample_pool_select:
  "\<exists>i. \<forall>ctx. BaseMempool_Select list_skiplist (sample_pool_after [5]) ctx = (i, Ret [sample_tx [5]])"
proof -
  have "BaseMempool_Select list_skiplist (sample_pool_after [5]) ctx =
      (fst (BaseMempool_Select list_skiplist (sample_pool_after [5]) sample_ctx), Ret [sample_tx [5]])" for ctx
    using sample_pool_selects by (auto simp: BaseMempool_Select_def split: prod.splits)
  then show ?thesis by blast
qed

lemma new_pool_select:
  "skiplist_laws SL \<Longrightarrow> BaseMempool_Select SL (NewMempool SL z P E n) ctx = (NewMempool SL z P E n, Ret [])"
  using skiplist_lawsD(1,3) [of SL] by (simp add: BaseMempool_Select_def PN_Select_def NewMempool_def NewPriorityMempool_def)

lemma sample_app_prepares:
  "snd (snd (TestApp_PrepareProposal value_ctx scaled_dec (\<lambda>bz. bz) (returned sample_app)
     (sample_insert [5] (AppPools (returned sample_app))) sample_ctx sample_prepare)) = ([[5]], None)"
proof -
  obtain i where i: "\<forall>ctx. BaseMempool_Select list_skiplist (sample_pool_after [5]) ctx = (i, Ret [sample_tx [5]])"
    using sample_pool_select by blast
  show ?thesis
    unfolding sample_inserted TestApp_PrepareProposal_def
    by (simp add: sample_app_eval sample_eval PrepareProposalHandler_def PrepareProposal_body_def ChainPrepareLanes_def
      BaseLane_PrepareLane_def Default_PrepareLaneHandler_def maps_of_def with_maps_def
      remove_invalid_def Terminator_PrepareLane_def Mev_PrepareLaneHandler_def i new_pool_select list_skiplist_laws
      sample_no_match sample_no_staking GetTxInfo_def BaseMempool_Priority_def DefaultTxPriority_def VerifyTx_def)
qed

theorem TestApp_nodes_agree_witness:
  "snd (TestApp_ProcessProposal value_ctx scaled_dec (\<lambda>bz. bz) sample_decode (\<lambda>ctx req. (ctx, REJECT, None))
     (returned sample_app) (sample_insert [6] (AppPools (returned sample_app))) sample_ctx
     \<lparr> procHeight = 5, procTxs = [[5]] \<rparr>) = (ACCEPT, None)"
proof -
  let ?reg = "lanes_of scaled_dec (\<lambda>bz. bz) (app_lane_list (returned sample_app))"
  let ?mps = "AppPools (returned sample_app)"
  have run: "mempool_run scaled_dec value_ctx ?reg ?mps (sample_insert bz ?mps)" for bz
    by (rule mempool_run.insert [where ctx = sample_ctx and t = "sample_tx bz", OF mempool_run.start]) (rule prod.collapse [symmetric])
  have enc: "bid_encoder (app_factory char_addr sample_decode :: value_context Factory) sample_encode"
    unfolding bid_encoder_def
  proof (intro allI impI conjI)
    fix t bz b assume "sample_encode t = Ret bz"
    then have t: "t = sample_tx (TxRest t)" and bz: "length bz < 2 ^ 31" by (auto simp: sample_encode_def split: if_splits)
    show "length bz < 2 ^ 31" by (rule bz)
    assume "GetAuctionBidInfo (app_factory char_addr sample_decode :: value_context Factory) t = Ret (Some b)"
    then have False by (subst (asm) t) (simp add: sample_no_bid)
    then show "length (Transactions b) < 2 ^ 31" ..
  qed
  obtain mps' ctx' where prep: "TestApp_PrepareProposal value_ctx scaled_dec (\<lambda>bz. bz) (returned sample_app)
      (sample_insert [5] ?mps) sample_ctx sample_prepare = (mps', ctx', [[5]], None)"
    using sample_app_prepares by (metis prod.collapse)
  have "ConsBlock value_ctx sample_ctx = Some \<lparr> ParamMaxBytes = 100, ParamMaxGas = 100 \<rparr>"
    by (simp add: value_ctx_def sample_ctx_def)
  from TestApp_nodes_agree [OF scaled_dec_laws value_ctx_laws sample_codec_faithful list_skiplist_laws char_addr_laws _
      enc sample_app_new run run _ _ _ prep this]
  show ?thesis by (simp add: sample_prepare_def word_sle_eq)
qed

theorem TestApp_New_witness:
  "let app = NewTestApp value_ctx scaled_dec plain_coins (\<lambda>bz. bz) char_addr list_skiplist Inl projl
       list_skiplist Inr projr sample_encode sample_decode (\<lambda>() () () ctx t simulate. (ctx, Ret ctx)) in
   (\<exists>a cd. app (Ret \<lparr> keepAccount = Some (), keepBank = Some (), keepSignMode = Some () \<rparr>) (Ret ()) (Ret ()) =
      Ret (a :: (int_pool + bid_pool, value_context) TestApp, cd) \<and> map laneName (app_lane_list a) = [''mev'', ''free'', ''default'']) \<and>
   app (Ret \<lparr> keepAccount = Some (), keepBank = None, keepSignMode = Some () \<rparr>) (Ret ()) (Ret ()) = Panic"
  using TestApp_New [OF scaled_dec_laws list_skiplist_laws list_skiplist_laws, of projl Inl projr Inr
      "Ret \<lparr> keepAccount = Some (), keepBank = Some (), keepSignMode = Some () \<rparr>" "Ret ()" "Ret ()"
      value_ctx plain_coins "\<lambda>bz. bz" char_addr sample_encode sample_decode "\<lambda>() () () ctx t simulate. (ctx, Ret ctx)"]
    TestApp_New [OF scaled_dec_laws list_skiplist_laws list_skiplist_laws, of projl Inl projr Inr
      "Ret \<lparr> keepAccount = Some (), keepBank = None, keepSignMode = Some () \<rparr>" "Ret ()" "Ret ()"
      value_ctx plain_coins "\<lambda>bz. bz" char_addr sample_encode sample_decode "\<lambda>() () () ctx t simulate. (ctx, Ret ctx)"]
  by auto

end
