(* ===== verification/Check_Tx.thy ===== *)
theory Check_Tx
  imports Lane_Mempool
begin

text \<open>
  The two wrappers of the application's \<open>CheckTx\<close> (\<open>abci/checktx\<close>): the parity handler, which evicts
  transactions from the laned mempool that fail a re-check and refuses transactions larger than
  their lane, and the MEV handler, which verifies a bid with its bundle against the committed state
  and inserts it into the MEV lane. The lemmas show that a failed re-check leaves no trace of the
  transaction in the mempool, what an accepted bid satisfies, and that lanes without a limit accept
  nothing through the parity handler.
\<close>

section \<open>Requests, responses and the application\<close>

text \<open>The type of a request is an integer enumeration with two named values.\<close>

datatype CheckTxType = CheckTxType_New | CheckTxType_Recheck | CheckTxType_Other int

record RequestCheckTx =
  ReqTx :: bytes
  ReqType :: CheckTxType

record ResponseCheckTx =
  Code :: u32
  Log :: string
  GasWanted :: i64
  GasUsed :: i64

text \<open>
  A \<open>CheckTx\<close> function returns a pointer to a response and an error, either of which may be nil,
  and it may panic. It may change the mempools and the state of the application.
\<close>

datatype check_result = Returned "ResponseCheckTx option" "error option" | Panicked

record ('mp, 'app) check_state =
  pools :: "'mp store"
  app :: 'app

type_synonym ('mp, 'app) CheckTx =
  "('mp, 'app) check_state \<Rightarrow> RequestCheckTx \<Rightarrow> ('mp, 'app) check_state \<times> check_result"

text \<open>
  From the SDK and CometBFT: \<open>errResponse\<close> is \<open>ResponseCheckTxWithEvents\<close> without events (error, gas
  wanted, gas used), \<open>codeTypeOK\<close> the code of success.
\<close>

record response_ops =
  errResponse :: "error \<Rightarrow> u64 \<Rightarrow> u64 \<Rightarrow> ResponseCheckTx"
  codeTypeOK :: u32

text \<open>Documented: the code of success is zero, and the response to an error has another code.\<close>

definition response_laws :: "response_ops \<Rightarrow> bool" where
  "response_laws R \<longleftrightarrow> codeTypeOK R = 0 \<and> (\<forall>e w u. Code (errResponse R e w u) \<noteq> 0)"

text \<open>
  The interface \<open>BaseApp\<close> with the operations that build a context: \<open>CachedStore\<close> is
  \<open>CommitMultiStore().CacheMultiStore()\<close>; \<open>NewContext\<close> takes the store, the height and the chain id of
  the header and the check flag. A \<open>With\<close> operation replaces one field of a context.
\<close>

record ('app, 'ms, 'params, 'ctx) BaseApp =
  CachedStore :: "'app \<Rightarrow> 'ms"
  LastBlockHeight :: "'app \<Rightarrow> i64"
  ChainID :: "'app \<Rightarrow> string"
  GetConsensusParams :: "'app \<Rightarrow> 'ctx \<Rightarrow> 'params"
  NewContext :: "'ms \<Rightarrow> i64 \<Rightarrow> string \<Rightarrow> bool \<Rightarrow> 'ctx"
  WithIsCheckTx :: "bool \<Rightarrow> 'ctx \<Rightarrow> 'ctx"
  WithIsReCheckTx :: "bool \<Rightarrow> 'ctx \<Rightarrow> 'ctx"
  WithTxBytes :: "bytes \<Rightarrow> 'ctx \<Rightarrow> 'ctx"
  WithNewEventManager :: "'ctx \<Rightarrow> 'ctx"
  WithConsensusParams :: "'params \<Rightarrow> 'ctx \<Rightarrow> 'ctx"
  GasMeterLimit :: "'ctx \<Rightarrow> u64"
  GasMeterConsumed :: "'ctx \<Rightarrow> u64"

section \<open>The parity handler\<close>

definition isInvalidCheckTxExecution :: "ResponseCheckTx option \<Rightarrow> error option \<Rightarrow> bool" where
  "isInvalidCheckTxExecution resp checkTxErr \<longleftrightarrow>
     (case resp of None \<Rightarrow> True | Some r \<Rightarrow> Code r \<noteq> 0) \<or> checkTxErr \<noteq> None"

definition GetContextForTx ::
    "'ctx ctx_ops \<Rightarrow> ('app, 'ms, 'params, 'ctx) BaseApp \<Rightarrow> 'app \<Rightarrow> RequestCheckTx \<Rightarrow> 'ctx" where
  "GetContextForTx C B st req =
     (let ctx = CacheContext C (NewContext B (CachedStore B st) (LastBlockHeight B st) (ChainID B st) True) in
      WithConsensusParams B (GetConsensusParams B st ctx) (WithNewEventManager B (WithTxBytes B (ReqTx req) ctx)))"

fun matchLane :: "dec_ops \<Rightarrow> ('mp, 'ctx) registry \<Rightarrow> 'ctx \<Rightarrow> tx \<Rightarrow> ('mp, 'ctx) Lane go" where
  "matchLane D [] ctx t = Err (Errorf ''failed match tx to lane'')"
| "matchLane D (l # ls) ctx t =
     go_bind (vtMatch (methods D l) ctx t) (\<lambda>b. if b then Ret l else matchLane D ls ctx t)"

text \<open>
  The size of the lane: \<open>MulInt64\<close> by the byte limit of the consensus parameters (0 when they have no
  block parameters), then \<open>TruncateInt64\<close>, which panics when the result does not fit.
\<close>

definition lane_size :: "dec_ops \<Rightarrow> 'ctx ctx_ops \<Rightarrow> ('mp, 'ctx) Lane \<Rightarrow> 'ctx \<Rightarrow> i64 go" where
  "lane_size D C l ctx =
     go_bind (decMulInt64 D (vtGetMaxBlockSpace (methods D l))
       (case ConsBlock C ctx of None \<Rightarrow> 0 | Some b \<Rightarrow> ParamMaxBytes b)) (\<lambda>d.
     go_bind (decTruncateInt D d) (\<lambda>i. intInt64 D i))"

text \<open>
  The part of the handler after the wrapped call: its result, and whether it marks the transaction
  for removal. A panic that is not recovered leaves the mark as it was.
\<close>

definition parity_verdict ::
    "dec_ops \<Rightarrow> 'ctx ctx_ops \<Rightarrow> response_ops \<Rightarrow> ('mp, 'ctx) registry \<Rightarrow> 'ctx \<Rightarrow> tx \<Rightarrow> RequestCheckTx \<Rightarrow>
     ResponseCheckTx option \<Rightarrow> error option \<Rightarrow> bool \<Rightarrow> bool \<Rightarrow> bool \<times> check_result" where
  "parity_verdict D C R registry sdkCtx t req res checkTxError recheckIn removeTx =
     (case matchLane D registry sdkCtx t of
        Panic \<Rightarrow> (removeTx, Panicked)
      | Err e \<Rightarrow> (removeTx \<or> recheckIn, Returned (Some (errResponse R e 0 0)) None)
      | Ret lane \<Rightarrow>
          (case lane_size D C lane sdkCtx of
             Ret laneSize \<Rightarrow>
               if laneSize <s of_nat (length (ReqTx req))
               then (removeTx \<or> recheckIn,
                 Returned (Some (errResponse R (Errorf ''tx size exceeds max bytes for lane %s'') 0 0)) None)
               else (removeTx, Returned res checkTxError)
           | _ \<Rightarrow> (removeTx, Panicked)))"

text \<open>The deferred function removes a marked transaction; an error of the removal is only logged.\<close>

definition remove_if_marked ::
    "dec_ops \<Rightarrow> ('mp, 'ctx) registry \<Rightarrow> tx \<Rightarrow> bool \<Rightarrow> ('mp, 'app) check_state \<Rightarrow> ('mp, 'app) check_state" where
  "remove_if_marked D registry t removeTx st =
     (if removeTx then st\<lparr>pools := fst (Remove D registry (pools st) t)\<rparr> else st)"

definition Parity_CheckTx ::
    "dec_ops \<Rightarrow> 'ctx ctx_ops \<Rightarrow> response_ops \<Rightarrow> ('app, 'ms, 'params, 'ctx) BaseApp \<Rightarrow> tx_decoder \<Rightarrow>
     ('mp, 'ctx) registry \<Rightarrow> ('mp, 'app) CheckTx \<Rightarrow> ('mp, 'app) CheckTx" where
  "Parity_CheckTx D C R B txDecoder registry checkTxHandler st req =
     (case txDecoder (ReqTx req) of
        Panic \<Rightarrow> (st, Panicked)
      | Err e \<Rightarrow> (st, Returned (Some (errResponse R (Wrapf ''failed to decode tx'' e) 0 0)) None)
      | Ret t \<Rightarrow>
     (let isReCheck = (ReqType req = CheckTxType_Recheck);
          txInMempool = Mempool_Contains D registry (pools st) t in
      if isReCheck \<and> \<not> txInMempool
      then (st, Returned (Some (errResponse R (Errorf ''tx from comet mempool not found in app-side mempool'') 0 0)) None)
      else
        (case checkTxHandler st req of
           (st1, Panicked) \<Rightarrow> (st1, Panicked)
         | (st1, Returned res checkTxError) \<Rightarrow>
             (let removeTx = (isInvalidCheckTxExecution res checkTxError \<and> isReCheck \<and> txInMempool) in
              case parity_verdict D C R registry (GetContextForTx C B (app st1) req) t req res checkTxError
                (isReCheck \<and> txInMempool) removeTx of
                (removeTx, result) \<Rightarrow> (remove_if_marked D registry t removeTx st1, result)))))"

section \<open>The MEV handler\<close>

definition GetContextForBidTx ::
    "'ctx ctx_ops \<Rightarrow> ('app, 'ms, 'params, 'ctx) BaseApp \<Rightarrow> 'app \<Rightarrow> RequestCheckTx \<Rightarrow> 'ctx go" where
  "GetContextForBidTx C B st req =
     (let ctx = CacheContext C (NewContext B (CachedStore B st) (LastBlockHeight B st) (ChainID B st) True) in
      go_bind (case ReqType req of
          CheckTxType_New \<Rightarrow> Ret (WithIsCheckTx B True ctx)
        | CheckTxType_Recheck \<Rightarrow> Ret (WithIsReCheckTx B True ctx)
        | CheckTxType_Other _ \<Rightarrow> Panic) (\<lambda>ctx.
      Ret (WithConsensusParams B (GetConsensusParams B st ctx) (WithNewEventManager B (WithTxBytes B (ReqTx req) ctx)))))"

text \<open>The ante handler may be nil. Its result is the context it returns.\<close>

definition run_ante :: "'ctx ante_handler option \<Rightarrow> 'ctx \<Rightarrow> tx \<Rightarrow> 'ctx go" where
  "run_ante ante ctx t = (case ante of None \<Rightarrow> Panic | Some f \<Rightarrow> snd (f ctx t False))"

fun validate_bundle_txs :: "'ctx Factory \<Rightarrow> 'ctx ante_handler option \<Rightarrow> 'ctx \<Rightarrow> bytes list \<Rightarrow> 'ctx go" where
  "validate_bundle_txs F ante ctx [] = Ret ctx"
| "validate_bundle_txs F ante ctx (bz # bzs) =
     go_bind (wrap_err ''invalid bid tx; failed to decode bundled tx'' (WrapBundleTransaction F bz)) (\<lambda>bundledTx.
     go_bind (wrap_err ''invalid bid tx; failed to get bid info'' (GetAuctionBidInfo F bundledTx)) (\<lambda>bidInfo.
       if bidInfo \<noteq> None then Err (Errorf ''invalid bid tx; bundled tx cannot be a bid tx'')
       else go_bind (wrap_err ''invalid bid tx; failed to execute bundled transaction'' (run_ante ante ctx bundledTx)) (\<lambda>ctx.
         validate_bundle_txs F ante ctx bzs)))"

text \<open>
  The gas information, which is returned with every error, and the outcome. The contexts that the ante
  handler returns are threaded through; what its runs write into the store behind the context they are
  given is not, and the insertion after the checks sees that context as it was before them. The MEV
  lane's mempool reads only the transaction.
\<close>

definition ValidateBidTx ::
    "('app, 'ms, 'params, 'ctx) BaseApp \<Rightarrow> 'ctx Factory \<Rightarrow> 'ctx ante_handler option \<Rightarrow> 'ctx \<Rightarrow> tx \<Rightarrow> BidInfo \<Rightarrow>
     (u64 \<times> u64) \<times> unit go" where
  "ValidateBidTx B F ante ctx bidTx bidInfo =
     (case wrap_err ''invalid bid tx; failed to execute ante handler'' (run_ante ante ctx bidTx) of
        Panic \<Rightarrow> ((0, 0), Panic)
      | Err e \<Rightarrow> ((0, 0), Err e)
      | Ret ctx \<Rightarrow> ((GasMeterLimit B ctx, GasMeterConsumed B ctx),
          go_bind (validate_bundle_txs F ante ctx (Transactions bidInfo)) (\<lambda>_. Ret ())))"

text \<open>Removing an invalid bid from the lane, if it is there; an error of the removal is only logged.\<close>

definition drop_bid :: "('mp, 'ctx) LaneMethods \<Rightarrow> 'mp store \<Rightarrow> tx \<Rightarrow> 'mp store \<times> unit go" where
  "drop_bid mevLane mps t =
     (case vtContains mevLane mps t of
        Panic \<Rightarrow> (mps, Panic)
      | Ret True \<Rightarrow> (case vtRemove mevLane mps t of
          (mps', Panic) \<Rightarrow> (mps', Panic) | (mps', _) \<Rightarrow> (mps', Ret ()))
      | _ \<Rightarrow> (mps, Ret ()))"

text \<open>The body of the handler; \<open>Mev_CheckTx\<close> is the body with the deferred recovery.\<close>

definition mev_check_body ::
    "'ctx ctx_ops \<Rightarrow> response_ops \<Rightarrow> ('app, 'ms, 'params, 'ctx) BaseApp \<Rightarrow> tx_decoder \<Rightarrow> ('mp, 'ctx) LaneMethods \<Rightarrow>
     'ctx Factory \<Rightarrow> 'ctx ante_handler option \<Rightarrow> ('mp, 'app) CheckTx \<Rightarrow> ('mp, 'app) CheckTx" where
  "mev_check_body C R B txDecoder mevLane F ante checkTxHandler st req =
     (case txDecoder (ReqTx req) of
        Panic \<Rightarrow> (st, Panicked)
      | Err e \<Rightarrow> (st, Returned (Some (errResponse R (Wrapf ''failed to decode tx'' e) 0 0)) None)
      | Ret t \<Rightarrow>
     (case GetAuctionBidInfo F t of
        Panic \<Rightarrow> (st, Panicked)
      | Err e \<Rightarrow> (st, Returned (Some (errResponse R (Wrapf ''failed to get auction bid info'' e) 0 0)) None)
      | Ret None \<Rightarrow> checkTxHandler st req
      | Ret (Some bidInfo) \<Rightarrow>
     (case GetContextForBidTx C B (app st) req of
        Ret ctx \<Rightarrow>
          (case ValidateBidTx B F ante ctx t bidInfo of
             (_, Panic) \<Rightarrow> (st, Panicked)
           | ((gasWanted, gasUsed), Err e) \<Rightarrow>
               (case drop_bid mevLane (pools st) t of
                  (mps, Panic) \<Rightarrow> (st\<lparr>pools := mps\<rparr>, Panicked)
                | (mps, _) \<Rightarrow> (st\<lparr>pools := mps\<rparr>,
                    Returned (Some (errResponse R (Wrapf ''invalid bid tx'' e) gasWanted gasUsed)) None))
           | ((gasWanted, gasUsed), Ret _) \<Rightarrow>
               (case vtInsert mevLane (pools st) ctx t of
                  (mps, Panic) \<Rightarrow> (st\<lparr>pools := mps\<rparr>, Panicked)
                | (mps, Err e) \<Rightarrow> (st\<lparr>pools := mps\<rparr>, Returned (Some (errResponse R
                    (Wrapf ''invalid bid tx; failed to insert bid transaction into mempool'' e) gasWanted gasUsed)) None)
                | (mps, Ret _) \<Rightarrow> (st\<lparr>pools := mps\<rparr>, Returned (Some
                    \<lparr> Code = codeTypeOK R, Log = '''', GasWanted = gasWanted, GasUsed = gasUsed \<rparr>) None)))
      | _ \<Rightarrow> (st, Panicked))))"

definition Mev_CheckTx ::
    "'ctx ctx_ops \<Rightarrow> response_ops \<Rightarrow> ('app, 'ms, 'params, 'ctx) BaseApp \<Rightarrow> tx_decoder \<Rightarrow> ('mp, 'ctx) LaneMethods \<Rightarrow>
     'ctx Factory \<Rightarrow> 'ctx ante_handler option \<Rightarrow> ('mp, 'app) CheckTx \<Rightarrow> ('mp, 'app) CheckTx" where
  "Mev_CheckTx C R B txDecoder mevLane F ante checkTxHandler st req =
     (case mev_check_body C R B txDecoder mevLane F ante checkTxHandler st req of
        (st', Panicked) \<Rightarrow> (st', Returned (Some (errResponse R (Errorf ''panic in check tx handler: %s'') 0 0))
          (Some (Errorf ''panic in check tx handler: %s'')))
      | r \<Rightarrow> r)"


section \<open>The parity handler keeps the mempools in step\<close>

lemma matchLane_Ret: "matchLane D ls ctx t = Ret l \<Longrightarrow> l \<in> set ls \<and> vtMatch (methods D l) ctx t = Ret True"
  by (induction ls) (auto simp: go_simps split: if_splits)

lemma invalid_error_response [simp]:
  "response_laws R \<Longrightarrow> isInvalidCheckTxExecution (Some (errResponse R e w u)) err"
  by (simp add: isInvalidCheckTxExecution_def response_laws_def)

text \<open>The verdict: either the wrapped result stands and the lane has room, or it is an error.\<close>

lemma parity_verdict_cases:
  assumes "parity_verdict D C R registry ctx t req res err inPool rm = (rm', Returned resp e)"
  obtains (passed) lane sz where "matchLane D registry ctx t = Ret lane" and "lane_size D C lane ctx = Ret sz"
      and "\<not> sz <s of_nat (length (ReqTx req))" and "rm' = rm" and "resp = res" and "e = err"
  | (refused) er where "resp = Some (errResponse R er 0 0)" and "e = None" and "rm' \<longleftrightarrow> rm \<or> inPool"
  using assms by (auto simp: parity_verdict_def split: go.splits if_splits)

text \<open>A re-check ends in one of three ways; a refused transaction that was held is removed.\<close>

lemma Parity_recheck_cases:
  assumes laws: "response_laws R" and req: "txDecoder (ReqTx req) = Ret t" "ReqType req = CheckTxType_Recheck"
    and inner: "checkTxHandler st req = (st1, Returned res err)"
    and run: "Parity_CheckTx D C R B txDecoder registry checkTxHandler st req = (st', Returned resp e)"
  obtains (absent) "\<not> Mempool_Contains D registry (pools st) t" and "isInvalidCheckTxExecution resp e" and "st' = st"
  | (refused) "Mempool_Contains D registry (pools st) t" and "isInvalidCheckTxExecution resp e"
      and "st' = remove_if_marked D registry t True st1"
  | (accepted) lane sz where "Mempool_Contains D registry (pools st) t" and "\<not> isInvalidCheckTxExecution resp e"
      and "st' = st1" and "resp = res" and "e = err"
      and "matchLane D registry (GetContextForTx C B (app st1) req) t = Ret lane"
      and "lane_size D C lane (GetContextForTx C B (app st1) req) = Ret sz" and "\<not> sz <s of_nat (length (ReqTx req))"
proof (cases "Mempool_Contains D registry (pools st) t")
  case False
  then have "st' = st" "resp = Some (errResponse R (Errorf ''tx from comet mempool not found in app-side mempool'') 0 0)"
    using run req by (auto simp: Parity_CheckTx_def Let_def)
  with False absent laws show thesis by simp
next
  case True
  define rm where "rm = isInvalidCheckTxExecution res err"
  obtain rm' where verdict: "parity_verdict D C R registry (GetContextForTx C B (app st1) req) t req res err
      True rm = (rm', Returned resp e)" and st': "st' = remove_if_marked D registry t rm' st1"
    using run req inner True by (auto simp: Parity_CheckTx_def Let_def rm_def split: prod.splits)
  from verdict show thesis
  proof (cases rule: parity_verdict_cases)
    case (passed lane sz)
    show thesis
    proof (cases rm)
      case True
      with \<open>Mempool_Contains D registry (pools st) t\<close> refused passed st' show thesis by (simp add: rm_def)
    next
      case False
      with \<open>Mempool_Contains D registry (pools st) t\<close> accepted passed st' show thesis
        by (simp add: rm_def remove_if_marked_def)
    qed
  next
    case (refused er)
    with True that(2) laws st' show thesis by simp
  qed
qed

text \<open>The step of the parity handler, over any mempools that hold keys.\<close>

context keyed_store
begin

lemma recheck_parity:
  assumes laws: "response_laws R" and "txDecoder (ReqTx req) = Ret t" and "ReqType req = CheckTxType_Recheck"
    and inner: "checkTxHandler st req = (st1, Returned res err)"
    and lanes: "\<forall>l \<in> set ls. laneMempool l = Some (m (laneRef l)) \<and> ok (laneRef l) (pools st1 (laneRef l))"
    and key: "key_of t = Some k"
    and one: "\<forall>l \<in> set ls. \<forall>l' \<in> set ls. k \<in> keys_in (pools st1 (laneRef l)) \<and>
      k \<in> keys_in (pools st1 (laneRef l')) \<longrightarrow> laneRef l = laneRef l'"
    and run: "Parity_CheckTx D C R B txDecoder (base_registry D H ls) checkTxHandler st req = (st', Returned resp e)"
  shows "if isInvalidCheckTxExecution resp e then \<not> Mempool_Contains D (base_registry D H ls) (pools st') t
    else Mempool_Contains D (base_registry D H ls) (pools st) t \<and> st' = st1 \<and> resp = res \<and> e = err \<and>
      (\<exists>lane sz. matchLane D (base_registry D H ls) (GetContextForTx C B (app st1) req) t = Ret lane \<and>
        lane_size D C lane (GetContextForTx C B (app st1) req) = Ret sz \<and> \<not> sz <s of_nat (length (ReqTx req)))"
  using laws assms(2,3) inner run
proof (cases rule: Parity_recheck_cases)
  case refused
  obtain mps r where loop: "remove_loop D (base_registry D H ls) (pools st1) t = (mps, r)" by fastforce
  then have "pools st' = mps" using refused(3) by (simp add: remove_if_marked_def Remove_def)
  then show ?thesis
    using remove_absent [OF lanes key loop one] refused(2) by (simp add: Mempool_Contains_def)
qed auto

text \<open>
  What the removal does when several lanes may hold the key: the first of them loses it, the others
  keep it. The lanes are listed in the order of their references.
\<close>

lemma remove_first:
  assumes lanes: "\<forall>l \<in> set ls. laneMempool l = Some (m (laneRef l)) \<and> ok (laneRef l) (mps (laneRef l))"
    and key: "key_of t = Some k" and order: "map laneRef ls = [0..<length ls]" and i: "i < length ls"
  shows "keys_in (fst (Remove D (base_registry D H ls) mps t) i) =
    keys_in (mps i) - (if \<forall>j < i. k \<notin> keys_in (mps j) then {k} else {})"
proof -
  have ref: "laneRef (ls ! j) = j" if "j < length ls" for j
    using arg_cong [OF order, of "\<lambda>xs. xs ! j"] that by simp
  obtain mps' r where loop: "remove_loop D (base_registry D H ls) mps t = (mps', r)" by fastforce
  then have fst: "fst (Remove D (base_registry D H ls) mps t) = mps'" by (simp add: Remove_def)
  note rm = remove_registry [OF lanes key loop]
  show ?thesis
  proof (cases "find (\<lambda>l. k \<in> keys_in (mps (laneRef l))) ls")
    case None
    then have "k \<notin> keys_in (mps (laneRef (ls ! i)))" using i by (simp add: find_None_iff)
    then have "k \<notin> keys_in (mps i)" using i ref by simp
    then show ?thesis using rm None fst by simp
  next
    case (Some l)
    then obtain n where n: "n < length ls" "l = ls ! n" "k \<in> keys_in (mps (laneRef (ls ! n)))"
      "\<forall>j < n. k \<notin> keys_in (mps (laneRef (ls ! j)))" by (auto simp: find_Some_iff)
    then have n': "k \<in> keys_in (mps n)" "\<forall>j < n. k \<notin> keys_in (mps j)" using ref by auto
    from rm Some n(1,2) ref obtain mp' where mp': "mps' = mps(n := mp')" "keys_in mp' = keys_in (mps n) - {k}" by auto
    consider "i < n" | "i = n" | "n < i" by linarith
    then show ?thesis using n' mp' fst by cases auto
  qed
qed

end

text \<open>Re-checks keep the application's mempool in step. When the parity handler answers a re-check
  with an error, the transaction is not in the laned mempool afterwards (if at most one lane held
  it); when it accepts, the transaction was in the laned mempool, a lane matches it, it fits into
  that lane, and the answer and the state are those of the wrapped handler.\<close>

lemma recheck_keeps_parity:
  fixes st :: "(('sl, 'ctx, 'c) Mempool, 'app) check_state"
  assumes laws: "response_laws R" and "txDecoder (ReqTx req) = Ret t" and "ReqType req = CheckTxType_Recheck"
    and inner: "checkTxHandler st req = (st1, Returned res err)"
    and lanes: "\<forall>l \<in> set ls. laneMempool l = Some (Mempool_methods SL A dyn (\<lambda>x. x) (\<lambda>x. x) (P (laneRef l))) \<and>
      base_pool_ok SL E (pools st1 (laneRef l))"
    and key: "tx_key A E t = Some k"
    and one: "\<forall>l \<in> set ls. \<forall>l' \<in> set ls. k \<in> keys (index (pools st1 (laneRef l))) \<and>
      k \<in> keys (index (pools st1 (laneRef l'))) \<longrightarrow> laneRef l = laneRef l'"
    and run: "Parity_CheckTx D C R B txDecoder (base_registry D H ls) checkTxHandler st req = (st', Returned resp e)"
  shows "if isInvalidCheckTxExecution resp e then \<not> Mempool_Contains D (base_registry D H ls) (pools st') t
    else Mempool_Contains D (base_registry D H ls) (pools st) t \<and> st' = st1 \<and> resp = res \<and> e = err \<and>
      (\<exists>lane sz. matchLane D (base_registry D H ls) (GetContextForTx C B (app st1) req) t = Ret lane \<and>
        lane_size D C lane (GetContextForTx C B (app st1) req) = Ret sz \<and> \<not> sz <s of_nat (length (ReqTx req)))"
  by (rule base_pools.recheck_parity [OF assms])

text \<open>C40: A lane whose block space is zero has no limit when proposals are built, but the parity
  handler takes zero for its size: every transaction that matches such a lane is answered with an
  error, whatever the wrapped handler says, and on a re-check it is removed from the mempool.\<close>

theorem parity_refuses_unlimited_lane:
  assumes D: "dec_laws D" and R: "response_laws R"
    and dec: "txDecoder (ReqTx req) = Ret t" "ReqTx req \<noteq> []" "length (ReqTx req) < 2 ^ 63"
    and inner: "checkTxHandler st req = (st1, Returned res err)"
    and lane: "matchLane D registry (GetContextForTx C B (app st1) req) t = Ret lane"
      "vtGetMaxBlockSpace (methods D lane) = Dec 0"
  shows "(\<exists>st' r. Parity_CheckTx D C R B txDecoder registry checkTxHandler st req = (st', Returned (Some r) None) \<and>
      Code r \<noteq> 0 \<and>
      (ReqType req = CheckTxType_Recheck \<and> Mempool_Contains D registry (pools st) t \<longrightarrow>
        st' = st1\<lparr>pools := fst (Remove D registry (pools st1) t)\<rparr>)) \<and>
    GetLaneLimits D (NewProposal 1000 100) (vtGetMaxBlockSpace (methods D lane)) =
      Ret \<lparr> LimMaxTxBytes = 1000, LimMaxGasLimit = 100 \<rparr>"
proof -
  let ?ctx = "GetContextForTx C B (app st1) req"
  have mul: "decMulInt64 D (Dec 0) n = Ret (Dec 0)" and trunc: "decTruncateInt D (Dec 0) = Ret 0"
    and int64: "intInt64 D 0 = Ret 0" and zero: "decIsZero D (Dec 0)" for n
    using D by (simp_all add: dec_laws_def)
  have size: "lane_size D C lane ?ctx = Ret 0" by (simp add: lane_size_def lane(2) mul trunc int64)
  have "sint (of_nat (length (ReqTx req)) :: i64) = int (length (ReqTx req))"
    using dec(3) by (rule sint_of_nat_64)
  then have big: "(0 :: i64) <s of_nat (length (ReqTx req))" using dec(2) by (simp add: word_sless_alt)
  have verdict: "parity_verdict D C R registry ?ctx t req res err inPool rm =
      (rm \<or> inPool, Returned (Some (errResponse R (Errorf ''tx size exceeds max bytes for lane %s'') 0 0)) None)" for inPool rm
    using lane(1) size big by (simp add: parity_verdict_def)
  have codes: "Code (errResponse R e w u) \<noteq> 0" for e w u using R by (simp add: response_laws_def)
  have limits: "GetLaneLimits D (NewProposal 1000 100) (Dec 0) = Ret \<lparr> LimMaxTxBytes = 1000, LimMaxGasLimit = 100 \<rparr>"
    by (simp add: GetLaneLimits_def zero NewProposal_def Let_def word_sless_alt)
  show ?thesis
    using dec(1) inner verdict codes limits lane(2)
    by (auto simp: Parity_CheckTx_def Let_def remove_if_marked_def)
qed

section \<open>Bids\<close>

text \<open>The ante handler on one transaction after the other, from context to context.\<close>

fun ante_all :: "'ctx ante_handler option \<Rightarrow> 'ctx \<Rightarrow> tx list \<Rightarrow> 'ctx go" where
  "ante_all ante ctx [] = Ret ctx"
| "ante_all ante ctx (t # ts) = go_bind (run_ante ante ctx t) (\<lambda>ctx'. ante_all ante ctx' ts)"

lemma validate_bundle_txs_Ret:
  "validate_bundle_txs F ante ctx bzs = Ret ctx' \<longleftrightarrow>
   (\<exists>ts. go_map_list (WrapBundleTransaction F) bzs = Ret ts \<and> (\<forall>u \<in> set ts. GetAuctionBidInfo F u = Ret None) \<and>
     ante_all ante ctx ts = Ret ctx')"
  by (induction bzs arbitrary: ctx) (auto simp: go_simps split: if_splits)

lemma ValidateBidTx_Ret:
  "ValidateBidTx B F ante ctx t b = (g, Ret ()) \<longleftrightarrow>
   (\<exists>ctx1 ctx2 ts. run_ante ante ctx t = Ret ctx1 \<and> g = (GasMeterLimit B ctx1, GasMeterConsumed B ctx1) \<and>
     go_map_list (WrapBundleTransaction F) (Transactions b) = Ret ts \<and>
     (\<forall>u \<in> set ts. GetAuctionBidInfo F u = Ret None) \<and> ante_all ante ctx1 ts = Ret ctx2)"
proof (cases "run_ante ante ctx t")
  case (Ret ctx1)
  then show ?thesis by (auto simp: ValidateBidTx_def go_simps validate_bundle_txs_Ret)
qed (simp_all add: ValidateBidTx_def)

text \<open>C39: The MEV handler never panics and never changes the application's state for a bid. A bid is
  accepted exactly when a context can be built for the request, the bid and then each transaction of
  its bundle, none of them a bid itself, pass the ante handler one after the other, and the lane
  takes the bid, inserted with the context before these checks; the response carries the gas of the
  bid alone. A bid that fails the checks is removed from the lane.\<close>

theorem mev_check_accepts_iff:
  assumes laws: "response_laws R" and "txDecoder (ReqTx req) = Ret t" and "GetAuctionBidInfo F t = Ret (Some b)"
    and run: "Mev_CheckTx C R B txDecoder mevLane F ante checkTxHandler st req = (st', result)"
  shows "app st' = app st \<and>
    (\<exists>resp e. result = Returned resp e \<and>
      (\<not> isInvalidCheckTxExecution resp e \<longleftrightarrow>
        (\<exists>ctx ctx1 ctx2 ts. GetContextForBidTx C B (app st) req = Ret ctx \<and> run_ante ante ctx t = Ret ctx1 \<and>
          go_map_list (WrapBundleTransaction F) (Transactions b) = Ret ts \<and>
          (\<forall>u \<in> set ts. GetAuctionBidInfo F u = Ret None) \<and> ante_all ante ctx1 ts = Ret ctx2 \<and>
          vtInsert mevLane (pools st) ctx t = (pools st', Ret ()) \<and>
          resp = Some \<lparr> Code = 0, Log = [], GasWanted = GasMeterLimit B ctx1, GasUsed = GasMeterConsumed B ctx1 \<rparr>)) \<and>
      (\<forall>ctx w er. GetContextForBidTx C B (app st) req = Ret ctx \<and> ValidateBidTx B F ante ctx t b = (w, Err er) \<longrightarrow>
        pools st' = fst (drop_bid mevLane (pools st) t) \<and> isInvalidCheckTxExecution resp e))"
proof -
  let ?body = "mev_check_body C R B txDecoder mevLane F ante checkTxHandler st req"
  have ok: "codeTypeOK R = 0" using laws by (simp add: response_laws_def)
  have invalid: "isInvalidCheckTxExecution r (Some er)" for r er by (simp add: isInvalidCheckTxExecution_def)
  have valid: "\<not> isInvalidCheckTxExecution (Some \<lparr> Code = 0, Log = [], GasWanted = w, GasUsed = u \<rparr>) None" for w u
    by (simp add: isInvalidCheckTxExecution_def)
  show ?thesis
  proof (cases "GetContextForBidTx C B (app st) req")
    case cx: (Ret ctx)
    obtain w u r where v: "ValidateBidTx B F ante ctx t b = ((w, u), r)" by (metis surj_pair)
    show ?thesis
    proof (cases r)
      case [simp]: (Ret x)
      have checks: "ValidateBidTx B F ante ctx t b = ((w, u), Ret ())" using v by simp
      obtain mps r' where ins: "vtInsert mevLane (pools st) ctx t = (mps, r')" by fastforce
      show ?thesis
        using run assms(2,3) cx v ins ok laws checks [unfolded ValidateBidTx_Ret]
        by (cases r') (auto simp: Mev_CheckTx_def mev_check_body_def invalid valid)
    next
      case [simp]: (Err er)
      have no: "\<not> (\<exists>ctx1 ctx2 ts. run_ante ante ctx t = Ret ctx1 \<and>
          go_map_list (WrapBundleTransaction F) (Transactions b) = Ret ts \<and>
          (\<forall>u \<in> set ts. GetAuctionBidInfo F u = Ret None) \<and> ante_all ante ctx1 ts = Ret ctx2)"
        using ValidateBidTx_Ret [of B F ante ctx t b] v by auto
      obtain mps r' where rm: "drop_bid mevLane (pools st) t = (mps, r')" by fastforce
      show ?thesis
        using run assms(2,3) cx v rm laws no
        by (cases r') (auto simp: Mev_CheckTx_def mev_check_body_def invalid)
    next
      case [simp]: Panic
      have no: "\<not> (\<exists>ctx1 ctx2 ts. run_ante ante ctx t = Ret ctx1 \<and>
          go_map_list (WrapBundleTransaction F) (Transactions b) = Ret ts \<and>
          (\<forall>u \<in> set ts. GetAuctionBidInfo F u = Ret None) \<and> ante_all ante ctx1 ts = Ret ctx2)"
        using ValidateBidTx_Ret [of B F ante ctx t b] v by auto
      show ?thesis
        using run assms(2,3) cx v no
        by (auto simp: Mev_CheckTx_def mev_check_body_def invalid)
    qed
  qed (use run assms(2,3) in \<open>auto simp: Mev_CheckTx_def mev_check_body_def invalid\<close>)
qed


section \<open>Concrete instances\<close>

definition plain_responses :: response_ops where
  "plain_responses = \<lparr> errResponse = (\<lambda>e w u. \<lparr> Code = 1, Log = '''', GasWanted = w, GasUsed = u \<rparr>), codeTypeOK = 0 \<rparr>"

lemma plain_responses_laws: "response_laws plain_responses"
  by (simp add: response_laws_def plain_responses_def)

text \<open>An application whose committed state is a context.\<close>

definition value_app :: "(value_context, value_context, BlockParams option, value_context) BaseApp" where
  "value_app = \<lparr> CachedStore = (\<lambda>st. st), LastBlockHeight = VcHeight, ChainID = (\<lambda>_. ''chain''),
     GetConsensusParams = (\<lambda>st _. VcBlock st),
     NewContext = (\<lambda>ms h _ _. ms\<lparr>VcHeight := h, VcMode := ExecModeCheck\<rparr>),
     WithIsCheckTx = (\<lambda>_ ctx. ctx), WithIsReCheckTx = (\<lambda>_ ctx. ctx\<lparr>VcMode := ExecModeReCheck\<rparr>),
     WithTxBytes = (\<lambda>_ ctx. ctx), WithNewEventManager = (\<lambda>ctx. ctx),
     WithConsensusParams = (\<lambda>b ctx. ctx\<lparr>VcBlock := b\<rparr>), GasMeterLimit = (\<lambda>_. 10), GasMeterConsumed = (\<lambda>_. 5) \<rparr>"

definition recheck_of :: "bytes \<Rightarrow> RequestCheckTx" where
  "recheck_of bz = \<lparr> ReqTx = bz, ReqType = CheckTxType_Recheck \<rparr>"

text \<open>The two lanes of \<open>pool_lanes\<close>; the second holds one transaction.\<close>

definition recheck_state ::
    "(((int txMeta \<Rightarrow> int txMeta \<Rightarrow> int) \<times> int elem list, value_context, int) Mempool, value_context) check_state" where
  "recheck_state = \<lparr> pools = (\<lambda>ref. \<lparr> index = sample_pool default_config (if ref = 1 then [signed_tx [65] 0 [1]] else []),
     extractor = DefaultAdapter_GetSigners, txPriority = DefaultTxPriority \<rparr>), app = sample_ctx \<rparr>"

lemma sample_pool_ok:
  "base_pool_ok list_skiplist DefaultAdapter_GetSigners
     \<lparr> index = sample_pool default_config ts, extractor = E, txPriority = P \<rparr>"
  using pn_reach_ok [OF sample_pool_reach list_skiplist_laws default_config_order]
  by (simp add: base_pool_ok_def) (simp add: default_config_def)

lemma recheck_keeps_parity_witness:
  "let R = base_registry scaled_dec (\<lambda>bz. bz) pool_lanes;
       run = Parity_CheckTx scaled_dec value_ctx plain_responses value_app (\<lambda>bz. Ret (signed_tx [65] 0 bz)) R
         (\<lambda>st _. (st, Returned None None)) recheck_state (recheck_of [1]) in
   Mempool_Contains scaled_dec R (pools recheck_state) (signed_tx [65] 0 [1]) \<and>
   \<not> Mempool_Contains scaled_dec R (pools (fst run)) (signed_tx [65] 0 [1])"
proof -
  let ?R = "base_registry scaled_dec (\<lambda>bz. bz) pool_lanes" and ?t = "signed_tx [65] 0 [1]"
  let ?run = "Parity_CheckTx scaled_dec value_ctx plain_responses value_app (\<lambda>bz. Ret (signed_tx [65] 0 bz)) ?R
    (\<lambda>st _. (st, Returned None None)) recheck_state (recheck_of [1])"
  have before: "Mempool_Contains scaled_dec ?R (pools recheck_state) ?t" by code_simp
  have "case snd ?run of Returned resp e \<Rightarrow> isInvalidCheckTxExecution resp e | Panicked \<Rightarrow> False" by code_simp
  then obtain resp e where run: "?run = (fst ?run, Returned resp e)" and bad: "isInvalidCheckTxExecution resp e"
    by (cases "snd ?run") (auto simp: prod_eq_iff)
  have lanes: "\<forall>l \<in> set pool_lanes. laneMempool l = Some (Mempool_methods list_skiplist char_addr AnyInt (\<lambda>x. x) (\<lambda>x. x)
        ((\<lambda>_. DefaultTxPriority) (laneRef l))) \<and>
      base_pool_ok list_skiplist DefaultAdapter_GetSigners (pools recheck_state (laneRef l))"
    by (simp add: pool_lanes_def pool_lane_facts recheck_state_def sample_pool_ok)
  have key: "tx_key char_addr DefaultAdapter_GetSigners ?t = Some (0, ''A'')" by code_simp
  have none: "keys (index (pools recheck_state 0)) = {}"
    by (simp add: recheck_state_def sample_pool_def NewPriorityMempool_def)
  have one: "\<forall>l \<in> set pool_lanes. \<forall>l' \<in> set pool_lanes. (0, ''A'') \<in> keys (index (pools recheck_state (laneRef l))) \<and>
      (0, ''A'') \<in> keys (index (pools recheck_state (laneRef l'))) \<longrightarrow> laneRef l = laneRef l'"
    using none by (simp add: pool_lanes_def pool_lane_facts)
  have req: "ReqTx (recheck_of [1]) = [1]" "ReqType (recheck_of [1]) = CheckTxType_Recheck"
    by (simp_all add: recheck_of_def)
  have dec: "(\<lambda>bz. Ret (signed_tx [65] 0 bz)) (ReqTx (recheck_of [1])) = Ret ?t" by (simp add: req(1))
  have "\<not> Mempool_Contains scaled_dec ?R (pools (fst ?run)) ?t"
    using recheck_keeps_parity [OF plain_responses_laws dec req(2) refl lanes key one run] bad by simp
  with before show ?thesis by (simp add: Let_def)
qed

theorem parity_refuses_unlimited_lane_witness:
  "\<exists>st' r. Parity_CheckTx scaled_dec value_ctx plain_responses value_app (\<lambda>_. Ret (signed_tx [65] 0 []))
     (base_registry scaled_dec (\<lambda>bz. bz) pool_lanes)
     (\<lambda>st _. (st, Returned (Some \<lparr> Code = 0, Log = '''', GasWanted = 1, GasUsed = 1 \<rparr>) None)) recheck_state
     \<lparr> ReqTx = [1], ReqType = CheckTxType_New \<rparr> = (st', Returned (Some r) None) \<and> Code r \<noteq> 0"
proof -
  let ?R = "base_registry scaled_dec (\<lambda>bz. bz) pool_lanes" and ?t = "signed_tx [65] 0 []"
  let ?req = "\<lparr> ReqTx = [1], ReqType = CheckTxType_New \<rparr>"
  let ?lane = "LaneOf (base_lane_methods scaled_dec (\<lambda>bz. bz) (fst (pool_lane 0 (Dec 0) (\<lambda>_ t. Ret (TxRest t = [])))))"
  have dec: "(\<lambda>_. Ret ?t) (ReqTx ?req) = Ret ?t" "ReqTx ?req \<noteq> []" "length (ReqTx ?req) < 2 ^ 63" by simp_all
  have match: "matchLane scaled_dec ?R (GetContextForTx value_ctx value_app (app recheck_state) ?req) ?t = Ret ?lane"
    by (simp add: pool_lanes_def base_lane_methods_def Match_def pool_lane_facts signed_tx_def)
  have space: "vtGetMaxBlockSpace (methods scaled_dec ?lane) = Dec 0"
    by (simp add: base_lane_methods_def GetMaxBlockSpace_def pool_lane_facts pool_config_def NewLaneConfig_def)
  show ?thesis
    using parity_refuses_unlimited_lane [where txDecoder = "\<lambda>_. Ret ?t" and st = recheck_state and req = ?req and
        checkTxHandler = "\<lambda>st _. (st, Returned (Some \<lparr> Code = 0, Log = [], GasWanted = 1, GasUsed = 1 \<rparr>) None)",
      OF scaled_dec_laws plain_responses_laws dec refl match space]
    by blast
qed

text \<open>A bid with a bundle of two, checked by an ante handler that accepts everything.\<close>

theorem mev_check_accepts_iff_witness:
  "\<exists>st' resp e. Mev_CheckTx value_ctx plain_responses value_app sample_decode
     (base_lane_methods scaled_dec (\<lambda>bz. bz) (sample_mev_lane 2 (Dec 0))) sample_factory
     (Some (\<lambda>ctx _ _. (ctx, Ret ctx))) (\<lambda>st _. (st, Panicked)) \<lparr> pools = (\<lambda>_. []), app = sample_ctx \<rparr>
     \<lparr> ReqTx = [7], ReqType = CheckTxType_New \<rparr> = (st', Returned resp e) \<and>
   \<not> isInvalidCheckTxExecution resp e \<and> pools st' 2 = [sample_tx [7]] \<and> app st' = sample_ctx"
proof -
  let ?st = "\<lparr> pools = (\<lambda>_. []), app = sample_ctx \<rparr>" and ?req = "\<lparr> ReqTx = [7], ReqType = CheckTxType_New \<rparr>"
  let ?lane = "base_lane_methods scaled_dec (\<lambda>bz. bz) (sample_mev_lane 2 (Dec 0))"
  let ?ante = "Some (\<lambda>ctx _ _. (ctx, Ret ctx)) :: value_context ante_handler option"
  obtain st' result where run: "Mev_CheckTx value_ctx plain_responses value_app sample_decode ?lane sample_factory
      ?ante (\<lambda>st _. (st, Panicked)) ?st ?req = (st', result)" by fastforce
  have dec: "sample_decode (ReqTx ?req) = Ret (sample_tx [7])" by simp
  have bid: "GetAuctionBidInfo sample_factory (sample_tx [7]) = Ret (Some sample_bid)" by simp
  have ins: "vtInsert ?lane (\<lambda>_. []) ctx (sample_tx [7]) = ((\<lambda>_. [])(2 := [sample_tx [7]]), Ret ())" for ctx
    by (simp add: base_lane_methods_def)
  have gas: "GasMeterLimit value_app c = 10" "GasMeterConsumed value_app c = 5" for c by (simp_all add: value_app_def)
  have st': "pools st' = (\<lambda>_. [])(2 := [sample_tx [7]])"
    and result: "result = Returned (Some \<lparr> Code = 0, Log = [], GasWanted = 10, GasUsed = 5 \<rparr>) None"
    using run by (auto simp: Mev_CheckTx_def mev_check_body_def GetContextForBidTx_def ValidateBidTx_def run_ante_def ins
        Let_def gas plain_responses_def)
  obtain ctx where ctx: "GetContextForBidTx value_ctx value_app sample_ctx ?req = Ret ctx"
    by (simp add: GetContextForBidTx_def Let_def)
  have "run_ante ?ante ctx (sample_tx [7]) = Ret ctx" "ante_all ?ante ctx [sample_tx [1], sample_tx [2]] = Ret ctx"
    by (simp_all add: run_ante_def)
  moreover have "go_map_list (WrapBundleTransaction sample_factory) (Transactions sample_bid) = Ret [sample_tx [1], sample_tx [2]]"
    by simp
  ultimately have accepted: "\<exists>ctx ctx1 ctx2 ts. GetContextForBidTx value_ctx value_app (app ?st) ?req = Ret ctx \<and>
      run_ante ?ante ctx (sample_tx [7]) = Ret ctx1 \<and>
      go_map_list (WrapBundleTransaction sample_factory) (Transactions sample_bid) = Ret ts \<and>
      (\<forall>u \<in> set ts. GetAuctionBidInfo sample_factory u = Ret None) \<and> ante_all ?ante ctx1 ts = Ret ctx2 \<and>
      vtInsert ?lane (pools ?st) ctx (sample_tx [7]) = (pools st', Ret ()) \<and>
      Some \<lparr> Code = 0, Log = [], GasWanted = 10, GasUsed = 5 \<rparr> = Some \<lparr> Code = 0, Log = [],
        GasWanted = GasMeterLimit value_app ctx1, GasUsed = GasMeterConsumed value_app ctx1 \<rparr>"
    using ctx ins st' gas by (intro exI [of _ ctx] exI [of _ "[sample_tx [1], sample_tx [2]]"]) simp
  obtain resp e where "result = Returned resp e" "app st' = sample_ctx" "\<not> isInvalidCheckTxExecution resp e"
    using mev_check_accepts_iff [OF plain_responses_laws dec bid run] accepted result by auto
  with run st' show ?thesis by auto
qed

end
