(* ===== verification/App_Check.thy ===== *)
theory App_Check
  imports Test_App Check_Tx
begin

text \<open>
  The \<open>CheckTx\<close> of the application in \<open>tests/app\<close>: the parity handler around the MEV handler around
  the SDK's. Its mempool holds two kinds of lane mempools, with bids and with numbers as priorities;
  together they interpret the locale \<open>keyed_store\<close>. Bids of different denominations do not compare, so
  the order of the MEV lane's skip list is not assumed: the keys of a mempool are those of its scores,
  whatever the order of its index.
\<close>

section \<open>A mempool as a store of keys, whatever its order\<close>

definition stored_pool :: "adapter \<Rightarrow> ('sl, 'ctx, 'c) Mempool \<Rightarrow> bool" where
  "stored_pool E cm \<longleftrightarrow> pnExtractor (index cm) = E \<and> 0 \<le> cfgMaxTx (pnCfg (index cm)) \<and>
     snd ` dom (scores (index cm)) \<subseteq> dom (senderIndices (index cm))"

lemma new_stored_pool: "0 \<le> n \<Longrightarrow> stored_pool E (NewMempool SL z P E n)"
  and new_pool_keys: "keys (index (NewMempool SL z P E n)) = {}"
  by (simp_all add: stored_pool_def NewMempool_def NewPriorityMempool_def)

lemma insert_keyed_stores:
  assumes "insert_keyed SL mp key t = (mp', r)"
  shows "pnExtractor mp' = pnExtractor mp \<and> pnCfg mp' = pnCfg mp \<and>
    dom (scores mp') = (if r = Ret () then insert (nonce key, sender key) (dom (scores mp)) else dom (scores mp)) \<and>
    dom (senderIndices mp') = insert (sender key) (dom (senderIndices mp))"
  using assms
  by (auto simp: insert_keyed_def store_tx_def remove_score_def Let_def split: option.splits go.splits bool.splits)

lemma stored_pool_insert:
  assumes ok: "stored_pool E cm" and run: "BaseMempool_Insert SL A cm ctx t = (cm', r)"
  shows "stored_pool E cm' \<and> (if r = Ret () then \<exists>k. tx_key A E t = Some k \<and> keys (index cm') = insert k (keys (index cm))
    else keys (index cm') = keys (index cm))"
proof -
  obtain i r0 where pn: "PN_Insert SL A (index cm) ctx t = (i, r0)" by fastforce
  then have cm': "cm' = cm\<lparr>index := i\<rparr>" "r = Ret () \<longleftrightarrow> r0 = Ret ()"
    using run by (auto simp: BaseMempool_Insert_def)
  from pn show ?thesis
  proof (cases rule: PN_Insert_cases)
    case unchanged
    then show ?thesis using ok cm' by (auto simp: stored_pool_def)
  next
    case (keyed n s p)
    from insert_keyed_stores [OF keyed(4)] show ?thesis
      using ok cm' keyed(1) unfolding stored_pool_def by auto
  qed
qed

lemma PN_Remove_stores:
  assumes run: "PN_Remove SL A mp t = (mp', r)" and senders: "snd ` dom (scores mp) \<subseteq> dom (senderIndices mp)"
  shows "pnExtractor mp' = pnExtractor mp \<and> pnCfg mp' = pnCfg mp \<and> dom (senderIndices mp') = dom (senderIndices mp) \<and>
    dom (scores mp') = dom (scores mp) - set_option (tx_key A (pnExtractor mp) t) \<and>
    (tx_key A (pnExtractor mp) t \<noteq> None \<longrightarrow> r = Ret () \<or> r = Err ErrTxNotFound)"
proof (cases "tx_key A (pnExtractor mp) t")
  case None
  then show ?thesis using run by (auto simp: PN_Remove_def tx_key_def split: go.splits list.splits)
next
  case (Some k)
  then obtain sig sigs where sig: "pnExtractor mp t = Ret (sig # sigs)" "k = (Sequence sig, addrString A (Signer sig))"
    by (auto simp: tx_key_def split: go.splits list.splits)
  show ?thesis
  proof (cases "scores mp k")
    case None
    then show ?thesis using run sig Some by (auto simp: PN_Remove_def Let_def)
  next
    case (Some sc)
    then have "snd k \<in> dom (senderIndices mp)" using senders by force
    then obtain idx where "senderIndices mp (snd k) = Some idx" by blast
    then show ?thesis using run sig Some by (auto simp: PN_Remove_def tx_key_def Let_def split: if_splits)
  qed
qed

lemma stored_pool_remove:
  assumes ok: "stored_pool E cm" and run: "BaseMempool_Remove SL A cm t = (cm', r)"
  shows "stored_pool E cm' \<and> keys (index cm') = keys (index cm) - set_option (tx_key A E t) \<and>
    (tx_key A E t \<noteq> None \<longrightarrow> r = Ret ())"
proof -
  obtain i r0 where pn: "PN_Remove SL A (index cm) t = (i, r0)" by fastforce
  have stores: "snd ` dom (scores (index cm)) \<subseteq> dom (senderIndices (index cm))" using ok by (simp add: stored_pool_def)
  have "cm' = cm\<lparr>index := i\<rparr>" using run pn by (auto simp: BaseMempool_Remove_def split: go.splits)
  moreover have "r0 = Ret () \<or> r0 = Err ErrTxNotFound \<Longrightarrow> r = Ret ()" using run pn by (auto simp: BaseMempool_Remove_def)
  ultimately show ?thesis
    using PN_Remove_stores [OF pn stores] ok unfolding stored_pool_def by auto
qed

lemma stored_pool_contains:
  "stored_pool E cm \<Longrightarrow> tx_key A E t = Some k \<Longrightarrow> BaseMempool_Contains A cm t = Ret (k \<in> keys (index cm))"
  by (auto simp: BaseMempool_Contains_def PN_Contains_def tx_key_def stored_pool_def dom_def split: go.splits list.splits)

section \<open>The mempools of the application\<close>

text \<open>The mempools of the free and the default lane are on the left of the sum, that of the MEV lane on the right.\<close>

type_synonym ('sl, 'sl', 'ctx) app_pool = "('sl, 'ctx, int) Mempool + ('sl', 'ctx, string) Mempool"

definition app_mempool ::
    "('sl, int) skiplist_ops \<Rightarrow> ('sl', string) skiplist_ops \<Rightarrow> addr_ops \<Rightarrow> ('ctx, string) TxPriority \<Rightarrow> nat \<Rightarrow>
     (('sl, 'sl', 'ctx) app_pool, 'ctx) LaneMempool" where
  "app_mempool SL SL' A P i = (if i = 1 \<or> i = 2 then Mempool_methods SL A AnyInt Inl projl DefaultTxPriority
     else Mempool_methods SL' A AnyString Inr projr P)"

definition app_pool_ok :: "adapter \<Rightarrow> nat \<Rightarrow> ('sl, 'sl', 'ctx) app_pool \<Rightarrow> bool" where
  "app_pool_ok E i mp = (case mp of Inl cm \<Rightarrow> (i = 1 \<or> i = 2) \<and> stored_pool E cm
     | Inr cm \<Rightarrow> \<not> (i = 1 \<or> i = 2) \<and> stored_pool E cm)"

definition app_pool_keys :: "('sl, 'sl', 'ctx) app_pool \<Rightarrow> (u64 \<times> string) set" where
  "app_pool_keys = case_sum (\<lambda>cm. keys (index cm)) (\<lambda>cm. keys (index cm))"

lemma app_pool_cases:
  assumes "app_pool_ok E i mp"
  obtains (mev) cm where "\<not> (i = 1 \<or> i = 2)" "mp = Inr cm" "stored_pool E cm"
  | (other) cm where "i = 1 \<or> i = 2" "mp = Inl cm" "stored_pool E cm"
  using assms by (cases mp) (auto simp: app_pool_ok_def)

text \<open>An operation on either side does to the keys what it does to the mempool.\<close>

lemma app_pool_insert:
  assumes ok: "app_pool_ok E i mp" and run: "mpInsert (app_mempool SL SL' A P i) mp ctx t = (mp', r)"
  shows "app_pool_ok E i mp' \<and>
    (if r = Ret () then \<exists>k. tx_key A E t = Some k \<and> app_pool_keys mp' = insert k (app_pool_keys mp)
     else app_pool_keys mp' = app_pool_keys mp)"
  using ok
proof (cases rule: app_pool_cases)
  case (mev cm)
  obtain cm' where cm': "BaseMempool_Insert SL' A cm ctx t = (cm', r)" "mp' = Inr cm'"
    using run mev by (auto simp: app_mempool_def Mempool_methods_def split: prod.splits)
  from stored_pool_insert [OF mev(3) cm'(1)] show ?thesis
    using mev cm'(2) by (simp add: app_pool_ok_def app_pool_keys_def del: split_paired_Ex)
next
  case (other cm)
  obtain cm' where cm': "BaseMempool_Insert SL A cm ctx t = (cm', r)" "mp' = Inl cm'"
    using run other by (auto simp: app_mempool_def Mempool_methods_def split: prod.splits)
  from stored_pool_insert [OF other(3) cm'(1)] show ?thesis
    using other cm'(2) by (simp add: app_pool_ok_def app_pool_keys_def del: split_paired_Ex)
qed

lemma app_pool_remove:
  assumes ok: "app_pool_ok E i mp" and run: "mpRemove (app_mempool SL SL' A P i) mp t = (mp', r)"
  shows "app_pool_ok E i mp' \<and> app_pool_keys mp' = app_pool_keys mp - set_option (tx_key A E t) \<and>
    (tx_key A E t \<noteq> None \<longrightarrow> r = Ret ())"
  using ok
proof (cases rule: app_pool_cases)
  case (mev cm)
  obtain cm' where cm': "BaseMempool_Remove SL' A cm t = (cm', r)" "mp' = Inr cm'"
    using run mev by (auto simp: app_mempool_def Mempool_methods_def split: prod.splits)
  from stored_pool_remove [OF mev(3) cm'(1)] show ?thesis
    using mev cm'(2) by (simp add: app_pool_ok_def app_pool_keys_def)
next
  case (other cm)
  obtain cm' where cm': "BaseMempool_Remove SL A cm t = (cm', r)" "mp' = Inl cm'"
    using run other by (auto simp: app_mempool_def Mempool_methods_def split: prod.splits)
  from stored_pool_remove [OF other(3) cm'(1)] show ?thesis
    using other cm'(2) by (simp add: app_pool_ok_def app_pool_keys_def)
qed

interpretation app_pools: keyed_store "app_mempool SL SL' A P" "app_pool_ok E" app_pool_keys "tx_key A E"
  for SL SL' A P E
proof
  fix SL :: "('sl, int) skiplist_ops" and SL' :: "('sl', string) skiplist_ops" and A E i
    and mp :: "('sl, 'sl', 'ctx) app_pool" and P :: "('ctx, string) TxPriority" and ctx t mp' r k
  let ?m = "app_mempool SL SL' A P i"
  assume ok: "app_pool_ok E i mp"
  show "mpInsert ?m mp ctx t = (mp', r) \<Longrightarrow> app_pool_ok E i mp'"
    and "mpInsert ?m mp ctx t = (mp', Ret ()) \<Longrightarrow>
      \<exists>k. tx_key A E t = Some k \<and> app_pool_keys mp' = insert k (app_pool_keys mp)"
    and "mpInsert ?m mp ctx t = (mp', r) \<Longrightarrow> r \<noteq> Ret () \<Longrightarrow> app_pool_keys mp' = app_pool_keys mp"
    using app_pool_insert [OF ok, of SL SL' A P ctx t mp'] by fastforce+
  show "mpRemove ?m mp t = (mp', r) \<Longrightarrow> app_pool_ok E i mp'"
    and "mpRemove ?m mp t = (mp', r) \<Longrightarrow> app_pool_keys mp' = app_pool_keys mp - set_option (tx_key A E t)"
    and "mpRemove ?m mp t = (mp', r) \<Longrightarrow> tx_key A E t \<noteq> None \<Longrightarrow> r = Ret ()"
    using app_pool_remove [OF ok, of SL SL' A P t mp' r] by blast+
  show "tx_key A E t = Some k \<Longrightarrow> mpContains ?m mp t = Ret (k \<in> app_pool_keys mp)"
    using ok
    by (cases rule: app_pool_cases)
       (simp_all add: app_mempool_def Mempool_methods_def app_pool_keys_def stored_pool_contains)
qed

section \<open>What the MEV handler does to the mempools\<close>

text \<open>All mempools of a store are in order.\<close>

definition all_pools_ok :: "(nat \<Rightarrow> 'mp \<Rightarrow> bool) \<Rightarrow> 'mp store \<Rightarrow> bool" where
  "all_pools_ok ok mps \<longleftrightarrow> (\<forall>i. ok i (mps i))"

context keyed_store
begin

lemma update_ok: "all_pools_ok ok mps \<Longrightarrow> ok i mp \<Longrightarrow> all_pools_ok ok (mps(i := mp))"
  by (simp add: all_pools_ok_def)

lemma drop_bid_ok:
  assumes "laneMempool l = Some (m (laneRef l))" and "all_pools_ok ok mps"
    and "drop_bid (base_lane_methods D H l) mps t = (mps', r)"
  shows "all_pools_ok ok mps'"
proof -
  obtain mp r' where rm: "mpRemove (m (laneRef l)) (mps (laneRef l)) t = (mp, r')" by fastforce
  have "ok (laneRef l) mp" using assms(2) remove_ok [OF _ rm] by (simp add: all_pools_ok_def)
  then show ?thesis
    using assms rm update_ok [OF assms(2)]
    by (auto simp: drop_bid_def base_lane_methods_def split: go.splits bool.splits prod.splits)
qed

lemma mev_body_ok:
  assumes lane: "laneMempool l = Some (m (laneRef l))" and ok: "all_pools_ok ok (pools st)"
    and keep: "\<And>st1 res. checkTxHandler st req = (st1, res) \<Longrightarrow> all_pools_ok ok (pools st1)"
    and run: "mev_check_body C R B dec (base_lane_methods D H l) F ante checkTxHandler st req = (st', result)"
  shows "all_pools_ok ok (pools st')"
proof -
  have insert: "all_pools_ok ok mps" if "vtInsert (base_lane_methods D H l) (pools st) ctx t = (mps, r)" for ctx t mps r
  proof -
    obtain mp r' where ins: "mpInsert (m (laneRef l)) (pools st (laneRef l)) ctx t = (mp, r')" by fastforce
    have "ok (laneRef l) mp" using ok insert_ok [OF _ ins] by (simp add: all_pools_ok_def)
    then show ?thesis using that lane ins update_ok [OF ok] by (auto simp: base_lane_methods_def)
  qed
  have drop: "all_pools_ok ok mps" if "drop_bid (base_lane_methods D H l) (pools st) t = (mps, r)" for t mps r
    by (rule drop_bid_ok [OF lane ok that])
  show ?thesis
    using run ok keep insert drop
    unfolding mev_check_body_def
    by (auto split: go.splits option.splits prod.splits)
qed

lemma Remove_ok:
  assumes "\<forall>l \<in> set ls. laneMempool l = Some (m (laneRef l))" and "all_pools_ok ok mps"
    and "Remove D (lanes_of D H ls) mps t = (mps', r)"
  shows "all_pools_ok ok mps'"
proof -
  obtain r1 where "remove_loop D (lanes_of D H ls) mps t = (mps', r1)"
    using assms(3) by (auto simp: Remove_def split: prod.splits)
  from remove_loop_cases [OF this] show ?thesis
  proof (elim disjE bexE exE conjE)
    fix l m' assume l: "l \<in> set ls" "laneMempool l = Some m'"
      and mps': "mps' = mps(laneRef l := fst (mpRemove m' (mps (laneRef l)) t))"
    obtain mp r' where rm: "mpRemove (m (laneRef l)) (mps (laneRef l)) t = (mp, r')" by fastforce
    have "ok (laneRef l) mp" using assms(2) remove_ok [OF _ rm] by (simp add: all_pools_ok_def)
    then show ?thesis using update_ok [OF assms(2)] assms(1) l rm mps' by simp
  qed (use assms(2) in simp)
qed

lemma Mev_CheckTx_ok:
  assumes "laneMempool l = Some (m (laneRef l))" and "all_pools_ok ok (pools st)"
    and "\<And>st1 res. checkTxHandler st req = (st1, res) \<Longrightarrow> all_pools_ok ok (pools st1)"
    and "Mev_CheckTx C R B dec (base_lane_methods D H l) F ante checkTxHandler st req = (st', result)"
  shows "all_pools_ok ok (pools st')"
  using assms(4) mev_body_ok [OF assms(1-3)]
  by (auto simp: Mev_CheckTx_def split: prod.splits check_result.splits)

end

section \<open>The handler of the application\<close>

text \<open>
  Both handlers read transactions with the caching decoder, whose results are those of the decoder
  it wraps.
\<close>

definition TestApp_CheckTx ::
    "'ctx ctx_ops \<Rightarrow> dec_ops \<Rightarrow> (bytes \<Rightarrow> bytes) \<Rightarrow> response_ops \<Rightarrow> ('app, 'ms, 'params, 'ctx) BaseApp \<Rightarrow> tx_decoder \<Rightarrow>
     'ctx ante_handler \<Rightarrow> ('mp, 'ctx) TestApp \<Rightarrow> ('mp, 'app) CheckTx \<Rightarrow> ('mp, 'app) CheckTx" where
  "TestApp_CheckTx C D H R B cacheDecoder anteHandler ap checkTx =
     (let mevLane = AppMEVLane ap;
          mevCheckTx = Mev_CheckTx C R B cacheDecoder (base_lane_methods D H (MevBaseLane mevLane)) (MevFactory mevLane)
            (Some anteHandler) checkTx in
      Parity_CheckTx D C R B cacheDecoder (lanes_of D H (app_lane_list ap)) mevCheckTx)"

abbreviation app_ok :: "('sl, 'sl', 'ctx) app_pool store \<Rightarrow> bool" where
  "app_ok \<equiv> all_pools_ok (app_pool_ok DefaultAdapter_GetSigners)"

lemma TestApp_pools:
  fixes ap :: "(('sl, 'sl', 'ctx) app_pool, 'ctx) TestApp"
  assumes "dec_laws D" and "New C D K H A SL Inl projl SL' Inr projr enc dec ante = Ret ap"
  shows "\<forall>l \<in> set (app_lane_list ap). laneMempool l = Some (app_mempool SL SL' A (Mev_TxPriority K (app_factory A dec)) (laneRef l))"
    and "laneRef (MevBaseLane (AppMEVLane ap)) = 0" and "laneRef (AppFreeLane ap) = 1" and "laneRef (AppDefaultLane ap) = 2"
  using assms(2) [unfolded New_Ret [OF assms(1)] go.inject, symmetric] by (simp_all add: app_lane_def app_mempool_def)

lemma Mev_CheckTx_returns: "Mev_CheckTx C R B dec L F ante checkTx st req = (st1, res) \<Longrightarrow> res \<noteq> Panicked"
  by (auto simp: Mev_CheckTx_def split: prod.splits check_result.splits)

text \<open>C38: The \<open>CheckTx\<close> of the application on a re-check. If the SDK's handler keeps the lanes' mempools in
  order, so does the composition of the three handlers. If it accepts, the transaction was in the
  mempool, fits into the lane that matches it, and the answer and the state are those of the MEV handler.
  If it answers with an error, nothing changes if the transaction was not in the mempool; otherwise,
  of the lanes that hold the transaction's key (signer and nonce) after the MEV handler, the first loses
  it and the others keep it, so that the mempool still contains the refused transaction exactly if two
  of them held that key.\<close>

theorem TestApp_recheck:
  fixes ap :: "(('sl, 'sl', 'ctx) app_pool, 'ctx) TestApp"
  assumes laws: "dec_laws D" "response_laws R"
    and new: "New C D K H A SL Inl projl SL' Inr projr enc dec ante = Ret ap"
    and ok: "app_ok (pools st)"
    and keep: "\<And>st1 res. checkTx st req = (st1, res) \<Longrightarrow> app_ok (pools st1)"
    and req: "dec (ReqTx req) = Ret t" "ReqType req = CheckTxType_Recheck"
    and key: "tx_key A DefaultAdapter_GetSigners t = Some k"
    and mev: "Mev_CheckTx C R B dec (base_lane_methods D H (MevBaseLane (AppMEVLane ap))) (MevFactory (AppMEVLane ap))
      (Some ante) checkTx st req = (st1, res)"
    and run: "TestApp_CheckTx C D H R B dec ante ap checkTx st req = (st', Returned resp e)"
  shows "app_ok (pools st') \<and>
    (if \<not> isInvalidCheckTxExecution resp e
     then Mempool_Contains D (lanes_of D H (app_lane_list ap)) (pools st) t \<and> st' = st1 \<and> res = Returned resp e \<and>
       (\<exists>lane sz. matchLane D (lanes_of D H (app_lane_list ap)) (GetContextForTx C B (check_state.app st1) req) t = Ret lane \<and>
         lane_size D C lane (GetContextForTx C B (check_state.app st1) req) = Ret sz \<and> \<not> sz <s of_nat (length (ReqTx req)))
     else if \<not> Mempool_Contains D (lanes_of D H (app_lane_list ap)) (pools st) t then st' = st
     else (\<forall>i < 3. app_pool_keys (pools st' i) =
         app_pool_keys (pools st1 i) - (if \<forall>j < i. k \<notin> app_pool_keys (pools st1 j) then {k} else {})) \<and>
       (Mempool_Contains D (lanes_of D H (app_lane_list ap)) (pools st') t \<longleftrightarrow>
         (\<exists>i < 3. \<exists>j < i. k \<in> app_pool_keys (pools st1 i) \<and> k \<in> app_pool_keys (pools st1 j))))"
proof -
  let ?P = "Mev_TxPriority K (app_factory A dec)" and ?reg = "lanes_of D H (app_lane_list ap)"
  note lanes = TestApp_pools [OF laws(1) new]
  have reg: "?reg = base_registry D H (app_lane_list ap)" by (simp add: base_registry_def)
  obtain resp1 e1 where res: "res = Returned resp1 e1"
    using Mev_CheckTx_returns [OF mev] by (cases res) auto
  have ok1: "app_ok (pools st1)"
    by (rule app_pools.Mev_CheckTx_ok [OF _ ok keep mev]) (use lanes(1) in simp_all)
  have held: "\<forall>l \<in> set (app_lane_list ap). laneMempool l = Some (app_mempool SL SL' A ?P (laneRef l)) \<and>
      app_pool_ok DefaultAdapter_GetSigners (laneRef l) (mps (laneRef l))" if "app_ok mps" for mps
    using lanes(1) that by (simp add: all_pools_ok_def)
  have refs: "map laneRef (app_lane_list ap) = [0..<length (app_lane_list ap)]"
    using lanes(2-4) by (simp add: upt_rec)
  have parity: "Parity_CheckTx D C R B dec ?reg (Mev_CheckTx C R B dec
      (base_lane_methods D H (MevBaseLane (AppMEVLane ap))) (MevFactory (AppMEVLane ap)) (Some ante) checkTx) st req =
      (st', Returned resp e)"
    using run by (simp only: TestApp_CheckTx_def Let_def)
  have contains: "Mempool_Contains D ?reg mps t \<longleftrightarrow> (\<exists>i < 3. k \<in> app_pool_keys (mps i))" if "app_ok mps" for mps
  proof -
    have "contains_loop D ?reg mps t = Ret (\<exists>l \<in> set (app_lane_list ap). k \<in> app_pool_keys (mps (laneRef l)))"
      unfolding reg by (rule app_pools.contains_registry [OF held [OF that] key])
    moreover have "(\<exists>l \<in> set (app_lane_list ap). k \<in> app_pool_keys (mps (laneRef l))) \<longleftrightarrow> (\<exists>i < 3. k \<in> app_pool_keys (mps i))"
      using lanes(2-4) by (auto simp: numeral_3_eq_3 numeral_2_eq_2 less_Suc_eq)
    ultimately show ?thesis by (simp only: Mempool_Contains_def go.case)
  qed
  have removed: "app_ok (fst (Remove D ?reg (pools st1) t))"
    by (rule app_pools.Remove_ok [OF lanes(1) ok1 prod.collapse [symmetric]])
  from laws(2) req mev [unfolded res] parity show ?thesis
  proof (cases rule: Parity_recheck_cases)
    case absent
    then show ?thesis using ok by simp
  next
    case refused
    then have st': "pools st' = fst (Remove D ?reg (pools st1) t)" by (simp add: remove_if_marked_def)
    then have ok': "app_ok (pools st')" using removed by simp
    have keys: "app_pool_keys (pools st' i) =
        app_pool_keys (pools st1 i) - (if \<forall>j < i. k \<notin> app_pool_keys (pools st1 j) then {k} else {})" if "i < 3" for i
      unfolding st' reg by (rule app_pools.remove_first [OF held [OF ok1] key refs]) (use that in simp)
    have "Mempool_Contains D ?reg (pools st') t \<longleftrightarrow> (\<exists>i < 3. k \<in> app_pool_keys (pools st' i))"
      by (rule contains [OF ok'])
    also have "\<dots> \<longleftrightarrow> (\<exists>i < 3. \<exists>j < i. k \<in> app_pool_keys (pools st1 i) \<and> k \<in> app_pool_keys (pools st1 j))"
      by (intro ex_cong conj_cong refl) (auto simp: keys)
    finally have "Mempool_Contains D ?reg (pools st') t \<longleftrightarrow>
        (\<exists>i < 3. \<exists>j < i. k \<in> app_pool_keys (pools st1 i) \<and> k \<in> app_pool_keys (pools st1 j))" .
    then show ?thesis using refused ok' keys by simp
  next
    case (accepted lane sz)
    then show ?thesis using ok1 res by auto
  qed
qed

text \<open>A transaction in the default lane whose re-check fails.\<close>

definition app_recheck_state :: "(int_pool + bid_pool, value_context) check_state" where
  "app_recheck_state = \<lparr> pools = sample_insert [5] (AppPools (returned sample_app)), app = sample_ctx \<rparr>"

lemma sample_key: "tx_key char_addr DefaultAdapter_GetSigners (sample_tx bz) = Some (1, [char_of (7 :: nat)])"
  by (simp add: tx_key_def char_addr_def)

lemma sample_pool_stored:
  "stored_pool DefaultAdapter_GetSigners (sample_pool_after [5])"
  "keys (index (sample_pool_after [5])) = {(1, [char_of (7 :: nat)])}"
proof -
  let ?new = "NewMempool list_skiplist 0 DefaultTxPriority DefaultAdapter_GetSigners 1000 :: int_pool"
  have new: "stored_pool DefaultAdapter_GetSigners ?new" "keys (index ?new) = {}"
    by (simp_all add: new_stored_pool new_pool_keys del: dom_eq_empty_conv)
  have "snd (BaseMempool_Insert list_skiplist char_addr ?new sample_ctx (sample_tx [5])) = Ret ()" by code_simp
  then have "BaseMempool_Insert list_skiplist char_addr ?new sample_ctx (sample_tx [5]) = (sample_pool_after [5], Ret ())"
    by (simp add: sample_pool_after_def prod_eq_iff)
  from stored_pool_insert [OF new(1) this]
  show "stored_pool DefaultAdapter_GetSigners (sample_pool_after [5])"
    "keys (index (sample_pool_after [5])) = {(1, [char_of (7 :: nat)])}"
    using new(2) by (auto simp: sample_key)
qed

lemma app_recheck_pools:
  "app_ok (pools app_recheck_state)"
  "app_pool_keys (pools app_recheck_state i) = (if i = 2 then {(1, [char_of (7 :: nat)])} else {})"
  unfolding app_recheck_state_def check_state.simps sample_inserted
  by (simp_all add: sample_app_code all_pools_ok_def app_pool_ok_def app_pool_keys_def
      new_stored_pool sample_pool_stored new_pool_keys del: dom_eq_empty_conv)

theorem TestApp_recheck_witness:
  "let reg = lanes_of scaled_dec (\<lambda>bz. bz) (app_lane_list (returned sample_app));
       run = TestApp_CheckTx value_ctx scaled_dec (\<lambda>bz. bz) plain_responses value_app sample_decode
         (\<lambda>ctx t simulate. (ctx, Ret ctx)) (returned sample_app) (\<lambda>st _. (st, Returned None None))
         app_recheck_state (recheck_of [5]) in
   Mempool_Contains scaled_dec reg (pools app_recheck_state) (sample_tx [5]) \<and>
   \<not> Mempool_Contains scaled_dec reg (pools (fst run)) (sample_tx [5])"
proof -
  let ?ap = "returned sample_app" and ?reg = "lanes_of scaled_dec (\<lambda>bz. bz) (app_lane_list (returned sample_app))"
  let ?check = "\<lambda>st _. (st, Returned None None)" and ?ante = "\<lambda>ctx t simulate. (ctx, Ret ctx)"
  let ?t = "sample_tx [5]" and ?req = "recheck_of [5]"
  note lanes = TestApp_pools [OF scaled_dec_laws sample_app_new]
  have req: "ReqTx ?req = [5]" "ReqType ?req = CheckTxType_Recheck" by (simp_all add: recheck_of_def)
  have dec: "sample_decode (ReqTx ?req) = Ret ?t" by (simp add: req)
  have held: "\<forall>l \<in> set (app_lane_list ?ap). laneMempool l = Some (app_mempool list_skiplist list_skiplist char_addr
        (Mev_TxPriority plain_coins (app_factory char_addr sample_decode)) (laneRef l)) \<and>
      app_pool_ok DefaultAdapter_GetSigners (laneRef l) (pools app_recheck_state (laneRef l))"
    using lanes(1) app_recheck_pools(1) unfolding all_pools_ok_def by blast
  have before: "Mempool_Contains scaled_dec ?reg (pools app_recheck_state) ?t"
    using app_pools.contains_registry [OF held sample_key, of scaled_dec "\<lambda>bz. bz"] lanes(4) app_recheck_pools(2)
    by (simp add: Mempool_Contains_def base_registry_def)
  have mev: "Mev_CheckTx value_ctx plain_responses value_app sample_decode
      (base_lane_methods scaled_dec (\<lambda>bz. bz) (MevBaseLane (AppMEVLane ?ap))) (MevFactory (AppMEVLane ?ap))
      (Some ?ante) ?check app_recheck_state ?req = (app_recheck_state, Returned None None)"
    by (simp add: Mev_CheckTx_def mev_check_body_def req sample_app_code sample_no_bid)
  have matched: "matchLane scaled_dec ?reg ctx ?t = Ret (LaneOf (base_lane_methods scaled_dec (\<lambda>bz. bz) (AppDefaultLane ?ap)))"
    for ctx
    by (simp add: sample_app_eval sample_no_match sample_no_staking DefaultMatchHandler_def)
  have size: "lane_size scaled_dec value_ctx (LaneOf (base_lane_methods scaled_dec (\<lambda>bz. bz) (AppDefaultLane ?ap)))
      (GetContextForTx value_ctx value_app sample_ctx ?req) = Ret 60"
    by (simp add: lane_size_def sample_app_eval value_app_def GetContextForTx_def value_ctx_def sample_ctx_def scaled_dec_def)
  have verdict: "parity_verdict scaled_dec value_ctx plain_responses ?reg
      (GetContextForTx value_ctx value_app (check_state.app app_recheck_state) ?req) ?t ?req None None True True = (True, Returned None None)"
    unfolding parity_verdict_def matched
    by (simp add: app_recheck_state_def size req word_sless_alt)
  obtain st' where run: "TestApp_CheckTx value_ctx scaled_dec (\<lambda>bz. bz) plain_responses value_app sample_decode ?ante ?ap
      ?check app_recheck_state ?req = (st', Returned None None)"
    using mev verdict before dec req(2)
    by (simp add: TestApp_CheckTx_def Parity_CheckTx_def Let_def isInvalidCheckTxExecution_def del: list.map)
  have "\<not> Mempool_Contains scaled_dec ?reg (pools st') ?t"
    using TestApp_recheck [OF scaled_dec_laws plain_responses_laws sample_app_new app_recheck_pools(1) _ dec req(2)
        sample_key mev run] app_recheck_pools before
    by (auto simp: isInvalidCheckTxExecution_def split: if_splits)
  with before run show ?thesis by (simp add: Let_def)
qed

end
