(* ===== verification/Proto_Codec.thy ===== *)
theory Proto_Codec
  imports Sdk_Interface "HOL-Library.Sublist"
begin

text \<open>
  The wire format of the generated protobuf code (\<open>*.pb.go\<close>): the helpers that every generated
  file repeats (\<open>encodeVarint\<close>, \<open>sov\<close>, \<open>skip\<close>, the varint loops of \<open>Unmarshal\<close>). The generated
  marshallers fill a buffer from its end; here the written suffix of the buffer is a list and
  writing in front of it is prepending. An unmarshaller is a loop over an index into the input.
  Maps are read and written entry by entry. The lemmas give the length of an encoded varint, the
  round trip of varints at any width and of fields and maps, and the progress of every loop.
\<close>

unbundle bit_operations_syntax

abbreviation ErrUnexpectedEOF :: error where
  "ErrUnexpectedEOF \<equiv> Errorf ''unexpected EOF''"

abbreviation ErrIntOverflow :: error where
  "ErrIntOverflow \<equiv> Errorf ''proto: integer overflow''"

abbreviation ErrInvalidLength :: error where
  "ErrInvalidLength \<equiv> Errorf ''proto: negative length found during unmarshaling''"

abbreviation ErrUnexpectedEndOfGroup :: error where
  "ErrUnexpectedEndOfGroup \<equiv> Errorf ''proto: unexpected end of group''"

section \<open>Varints\<close>

text \<open>\<open>math/bits.Len64\<close> of the standard library.\<close>

fun bit_len :: "nat \<Rightarrow> nat" where
  "bit_len n = (if n = 0 then 0 else Suc (bit_len (n div 2)))"

declare bit_len.simps [simp del]

definition sov :: "u64 \<Rightarrow> nat" where
  "sov x = (bit_len (unat (x OR 1)) + 6) div 7"

function encode_varint :: "u64 \<Rightarrow> bytes" where
  "encode_varint v =
     (if 128 \<le> v then ucast (v AND 0x7F OR 0x80) # encode_varint (drop_bit 7 v) else [ucast v])"
  by pat_completeness auto
termination
proof (relation "measure unat")
  fix v :: u64
  assume "128 \<le> v"
  then have "128 \<le> unat v" by (simp add: word_le_nat_alt)
  then have "unat v div 128 < unat v" by (intro div_less_dividend) auto
  then show "(drop_bit 7 v, v) \<in> measure unat"
    by (simp add: drop_bit_eq_div unat_div)
qed simp

declare encode_varint.simps [simp del]

text \<open>The loop that reads a varint into a variable of type \<open>'a word\<close>, at \<open>shift\<close>.\<close>

fun decode_varint :: "nat \<Rightarrow> 'a::len word \<Rightarrow> bytes \<Rightarrow> ('a word \<times> bytes) go" where
  "decode_varint shift acc [] = (if 64 \<le> shift then Err ErrIntOverflow else Err ErrUnexpectedEOF)"
| "decode_varint shift acc (b # bs) =
     (if 64 \<le> shift then Err ErrIntOverflow
      else let acc' = acc OR push_bit shift (ucast (b AND 0x7F)) in
           if b < 0x80 then Ret (acc', bs) else decode_varint (shift + 7) acc' bs)"

text \<open>Reading at an index: the value and the index after it.\<close>

definition read_varint :: "bytes \<Rightarrow> nat \<Rightarrow> ('a::len word \<times> nat) go" where
  "read_varint dAtA i =
     go_bind (decode_varint 0 0 (drop i dAtA)) (\<lambda>(v, rest). Ret (v, length dAtA - length rest))"

lemma decode_varint_length: "decode_varint s acc bs = Ret (v, rest) \<Longrightarrow> length rest < length bs"
  by (induction bs arbitrary: s acc) (auto simp: Let_def less_SucI split: if_splits)

lemma read_varint_progress:
  "read_varint dAtA i = Ret (v, j) \<Longrightarrow> i < j \<and> j \<le> length dAtA"
  by (auto simp: read_varint_def go_simps dest!: decode_varint_length)

section \<open>Skipping unknown fields\<close>

text \<open>
  One iteration of \<open>skip\<close>: the next index and depth. Indices are kept as natural numbers; for
  slices shorter than \<open>2^63\<close> bytes a 64-bit index turns negative exactly when it reaches \<open>2^63\<close>.
\<close>

definition skip_step :: "bytes \<Rightarrow> nat \<Rightarrow> nat \<Rightarrow> (nat \<times> nat) go" where
  "skip_step dAtA i depth =
     go_bind (read_varint dAtA i) (\<lambda>(wire :: u64, j).
       let wireType = wire AND 7 in
       if wireType = 0 then go_bind (read_varint dAtA j) (\<lambda>(_ :: u64, k). Ret (k, depth))
       else if wireType = 1 then Ret (j + 8, depth)
       else if wireType = 2 then
         go_bind (read_varint dAtA j) (\<lambda>(len :: i64, k).
           if len <s 0 then Err ErrInvalidLength else Ret (k + unat len, depth))
       else if wireType = 3 then Ret (j, Suc depth)
       else if wireType = 4 then
         (if depth = 0 then Err ErrUnexpectedEndOfGroup else Ret (j, depth - 1))
       else if wireType = 5 then Ret (j + 4, depth)
       else Err (Errorf ''proto: illegal wireType %d''))"

lemma skip_step_progress: "skip_step dAtA i depth = Ret (k, d) \<Longrightarrow> i < k"
  by (fastforce simp: skip_step_def go_simps Let_def split: if_splits dest!: read_varint_progress)

function skip_loop :: "bytes \<Rightarrow> nat \<Rightarrow> nat \<Rightarrow> nat go" where
  "skip_loop dAtA i depth =
     (if i < length dAtA then
        (case skip_step dAtA i depth of
           Err e \<Rightarrow> Err e
         | Panic \<Rightarrow> Panic
         | Ret (k, depth') \<Rightarrow>
             if 2 ^ 63 \<le> k then Err ErrInvalidLength
             else if depth' = 0 then Ret k
             else skip_loop dAtA k depth')
      else Err ErrUnexpectedEOF)"
  by pat_completeness auto
termination
  by (relation "measure (\<lambda>(dAtA, i, depth). length dAtA - i)") (auto dest!: skip_step_progress)

declare skip_loop.simps [simp del]

definition skip_field :: "bytes \<Rightarrow> nat go" where
  "skip_field dAtA = skip_loop dAtA 0 0"

lemma skip_loop_progress: "skip_loop dAtA i depth = Ret n \<Longrightarrow> i < n"
proof (induction dAtA i depth rule: skip_loop.induct)
  case (1 dAtA i depth)
  from "1.prems" have "i < length dAtA" by (subst (asm) skip_loop.simps) (simp split: if_splits)
  moreover obtain k d where step: "skip_step dAtA i depth = Ret (k, d)"
    and cont: "\<not> 2 ^ 63 \<le> k" "if d = 0 then n = k else skip_loop dAtA k d = Ret n"
    using "1.prems" \<open>i < length dAtA\<close>
    by (subst (asm) skip_loop.simps) (auto split: go.splits if_splits)
  ultimately show ?case
    using "1.IH" [OF _ step] skip_step_progress [OF step] by (auto split: if_splits)
qed

section \<open>Fields\<close>

text \<open>
  The header of a field: its number (an \<open>int32\<close>), its wire type and the index after it; \<open>name\<close> is
  the message's name, part of the error texts.
\<close>

definition read_header :: "string \<Rightarrow> bytes \<Rightarrow> nat \<Rightarrow> (u32 \<times> nat \<times> nat) go" where
  "read_header name dAtA i =
     go_bind (read_varint dAtA i) (\<lambda>(wire :: u64, j).
       let fieldNum = ucast (drop_bit 3 wire); wireType = unat (wire AND 7) in
       if wireType = 4 then Err (Errorf (''proto: '' @ name @ '': wiretype end group for non-group''))
       else if fieldNum \<le>s 0 then Err (Errorf (''proto: '' @ name @ '': illegal tag %d (wire type %d)''))
       else Ret (fieldNum, wireType, j))"

text \<open>A length-delimited field: its contents and the index after it.\<close>

definition read_bytes :: "bytes \<Rightarrow> nat \<Rightarrow> (bytes \<times> nat) go" where
  "read_bytes dAtA i =
     go_bind (read_varint dAtA i) (\<lambda>(len :: i64, j).
       if len <s 0 then Err ErrInvalidLength
       else if 2 ^ 63 \<le> j + unat len then Err ErrInvalidLength
       else if length dAtA < j + unat len then Err ErrUnexpectedEOF
       else Ret (take (unat len) (drop j dAtA), j + unat len))"

text \<open>The default case of the dispatch: skip the field that starts at \<open>preIndex\<close>.\<close>

definition skip_unknown :: "bytes \<Rightarrow> nat \<Rightarrow> nat go" where
  "skip_unknown dAtA preIndex =
     go_bind (skip_field (drop preIndex dAtA)) (\<lambda>skippy.
       if 2 ^ 63 \<le> preIndex + skippy then Err ErrInvalidLength
       else if length dAtA < preIndex + skippy then Err ErrUnexpectedEOF
       else Ret (preIndex + skippy))"

lemma read_header_progress: "read_header name dAtA i = Ret (f, w, j) \<Longrightarrow> i < j"
  by (auto simp: read_header_def go_simps Let_def split: if_splits dest!: read_varint_progress)

lemma read_bytes_progress: "read_bytes dAtA i = Ret (bz, j) \<Longrightarrow> i < j"
  by (fastforce simp: read_bytes_def go_simps split: if_splits dest!: read_varint_progress)

lemma skip_unknown_progress: "skip_unknown dAtA i = Ret j \<Longrightarrow> i < j"
  by (auto simp: skip_unknown_def skip_field_def go_simps split: if_splits dest!: skip_loop_progress)

section \<open>Map entries\<close>

text \<open>Go strings are byte strings; a \<open>char\<close> is a byte.\<close>

definition string_bytes :: "string \<Rightarrow> bytes" where
  "string_bytes s = map of_char s"

definition bytes_string :: "bytes \<Rightarrow> string" where
  "bytes_string bz = map (\<lambda>b. char_of (unat b)) bz"

lemma char_of_unat_of_char [simp]: "char_of (unat (of_char c :: 8 word)) = (c :: char)"
proof -
  have "(of_char c :: 8 word) = of_nat (of_char c)" by (simp add: of_char_def)
  moreover have "(of_char c :: nat) < 2 ^ 8" by simp
  ultimately have "unat (of_char c :: 8 word) = of_char c"
    by (simp add: unsigned_of_nat take_bit_nat_eq_self)
  then show ?thesis by simp
qed

text \<open>
  An entry of a map with string keys and \<open>uint64\<close> values, a nested message between \<open>i\<close> and \<open>post\<close>. Its
  loop looks at the field number only, reads up to the end of the whole input, and reads a value
  into \<open>mapvalue\<close> without clearing it.
\<close>

definition read_varint_into :: "u64 \<Rightarrow> bytes \<Rightarrow> nat \<Rightarrow> (u64 \<times> nat) go" where
  "read_varint_into acc dAtA i =
     go_bind (decode_varint 0 acc (drop i dAtA)) (\<lambda>(v, rest). Ret (v, length dAtA - length rest))"

definition entry_step :: "bytes \<Rightarrow> nat \<Rightarrow> nat \<Rightarrow> string \<Rightarrow> u64 \<Rightarrow> (string \<times> u64 \<times> nat) go" where
  "entry_step dAtA post i mapkey mapvalue =
     go_bind (read_varint dAtA i) (\<lambda>(wire :: u64, j).
       let fieldNum = ucast (drop_bit 3 wire) :: u32 in
       if fieldNum = 1 then go_bind (read_bytes dAtA j) (\<lambda>(bz, k). Ret (bytes_string bz, mapvalue, k))
       else if fieldNum = 2 then
         go_bind (read_varint_into mapvalue dAtA j) (\<lambda>(v, k). Ret (mapkey, v, k))
       else go_bind (skip_field (drop i dAtA)) (\<lambda>skippy.
         if 2 ^ 63 \<le> i + skippy then Err ErrInvalidLength
         else if post < i + skippy then Err ErrUnexpectedEOF
         else Ret (mapkey, mapvalue, i + skippy)))"

lemma read_varint_into_progress: "read_varint_into acc dAtA i = Ret (v, j) \<Longrightarrow> i < j"
  by (auto simp: read_varint_into_def go_simps dest!: decode_varint_length)

lemma entry_step_progress: "entry_step dAtA post i key val = Ret (key', val', k) \<Longrightarrow> i < k"
  by (fastforce simp: entry_step_def skip_field_def go_simps Let_def split: if_splits
      dest!: read_varint_progress read_bytes_progress read_varint_into_progress skip_loop_progress)

function entry_loop :: "bytes \<Rightarrow> nat \<Rightarrow> nat \<Rightarrow> string \<Rightarrow> u64 \<Rightarrow> (string \<times> u64) go" where
  "entry_loop dAtA post i mapkey mapvalue =
     (if i < post then
        (case entry_step dAtA post i mapkey mapvalue of
           Err e \<Rightarrow> Err e
         | Panic \<Rightarrow> Panic
         | Ret (mapkey', mapvalue', k) \<Rightarrow> entry_loop dAtA post k mapkey' mapvalue')
      else Ret (mapkey, mapvalue))"
  by pat_completeness auto
termination
  by (relation "measure (\<lambda>(dAtA, post, i, key, val). post - i)") (auto dest!: entry_step_progress)

declare entry_loop.simps [simp del]

text \<open>The field of an entry: its length, the entry, and the index after it, whatever the loop read.\<close>

definition read_entry :: "bytes \<Rightarrow> nat \<Rightarrow> ((string \<times> u64) \<times> nat) go" where
  "read_entry dAtA i =
     go_bind (read_bytes dAtA i) (\<lambda>(bz, post).
       go_bind (entry_loop dAtA post (post - length bz) [] 0) (\<lambda>e. Ret (e, post)))"

lemma read_entry_progress: "read_entry dAtA i = Ret (e, j) \<Longrightarrow> i < j"
  by (auto simp: read_entry_def go_simps dest!: read_bytes_progress)

section \<open>The loop of Unmarshal\<close>

text \<open>
  What the \<open>switch\<close> of a generated \<open>Unmarshal\<close> does with a field: read a varint into a 64-bit or a
  32-bit variable, read a length-delimited payload, read an entry of a map, skip the field
  (\<open>default\<close>), or reject its wire type. The function says what the message becomes.
\<close>

datatype 'm action =
    ReadVarint "u64 \<Rightarrow> 'm"
  | ReadUint32 "u32 \<Rightarrow> 'm"
  | ReadPayload "bytes \<Rightarrow> 'm go"
  | ReadEntry "string \<times> u64 \<Rightarrow> 'm"
  | SkipUnknown
  | WrongWireType string

fun run_action :: "'m action \<Rightarrow> bytes \<Rightarrow> nat \<Rightarrow> nat \<Rightarrow> 'm \<Rightarrow> ('m \<times> nat) go" where
  "run_action (ReadVarint f) dAtA preIndex j m = go_bind (read_varint dAtA j) (\<lambda>(v, k). Ret (f v, k))"
| "run_action (ReadUint32 f) dAtA preIndex j m = go_bind (read_varint dAtA j) (\<lambda>(v, k). Ret (f v, k))"
| "run_action (ReadPayload f) dAtA preIndex j m =
     go_bind (read_bytes dAtA j) (\<lambda>(bz, k). go_bind (f bz) (\<lambda>m'. Ret (m', k)))"
| "run_action (ReadEntry f) dAtA preIndex j m = go_bind (read_entry dAtA j) (\<lambda>(e, k). Ret (f e, k))"
| "run_action SkipUnknown dAtA preIndex j m = go_bind (skip_unknown dAtA preIndex) (\<lambda>k. Ret (m, k))"
| "run_action (WrongWireType name) dAtA preIndex j m =
     Err (Errorf (''proto: wrong wireType = %d for field '' @ name))"

definition unmarshal_step ::
  "string \<Rightarrow> ('m \<Rightarrow> u32 \<Rightarrow> nat \<Rightarrow> 'm action) \<Rightarrow> bytes \<Rightarrow> 'm \<Rightarrow> nat \<Rightarrow> ('m \<times> nat) go" where
  "unmarshal_step name dispatch dAtA m i =
     go_bind (read_header name dAtA i) (\<lambda>(fieldNum, wireType, j).
       run_action (dispatch m fieldNum wireType) dAtA i j m)"

lemma unmarshal_step_progress:
  assumes "unmarshal_step name dispatch dAtA m i = Ret (m', k)"
  shows "i < k"
proof -
  from assms obtain f w j where h: "read_header name dAtA i = Ret (f, w, j)"
    and a: "run_action (dispatch m f w) dAtA i j m = Ret (m', k)"
    by (auto simp: unmarshal_step_def go_simps)
  from a read_header_progress [OF h] show ?thesis
    by (cases "dispatch m f w")
       (auto simp: go_simps dest!: read_varint_progress read_bytes_progress read_entry_progress skip_unknown_progress)
qed

function unmarshal_loop ::
  "string \<Rightarrow> ('m \<Rightarrow> u32 \<Rightarrow> nat \<Rightarrow> 'm action) \<Rightarrow> bytes \<Rightarrow> 'm \<Rightarrow> nat \<Rightarrow> 'm go" where
  "unmarshal_loop name dispatch dAtA m i =
     (if i < length dAtA then
        (case unmarshal_step name dispatch dAtA m i of
           Err e \<Rightarrow> Err e
         | Panic \<Rightarrow> Panic
         | Ret (m', k) \<Rightarrow> unmarshal_loop name dispatch dAtA m' k)
      else if length dAtA < i then Err ErrUnexpectedEOF
      else Ret m)"
  by pat_completeness auto
termination
  by (relation "measure (\<lambda>(name, dispatch, dAtA, m, i). length dAtA - i)")
     (auto dest!: unmarshal_step_progress)

declare unmarshal_loop.simps [simp del]

definition unmarshal :: "string \<Rightarrow> ('m \<Rightarrow> u32 \<Rightarrow> nat \<Rightarrow> 'm action) \<Rightarrow> 'm \<Rightarrow> bytes \<Rightarrow> 'm go" where
  "unmarshal name dispatch m dAtA = unmarshal_loop name dispatch dAtA m 0"

text \<open>
  \<open>Marshal\<close>: a buffer of \<open>Size()\<close> bytes, filled from its end with \<open>out\<close> (a write in front of the
  buffer panics), of which the first \<open>len(out)\<close> bytes are returned.
\<close>

definition marshal_sized :: "nat \<Rightarrow> bytes go \<Rightarrow> bytes go" where
  "marshal_sized sz body = go_bind body (\<lambda>out.
     if sz < length out then Panic
     else Ret (take (length out) (replicate (sz - length out) 0 @ out)))"

text \<open>A payload with its length in front, and a field with its tag in front.\<close>

definition length_prefixed :: "bytes \<Rightarrow> bytes" where
  "length_prefixed bz = encode_varint (of_nat (length bz)) @ bz"

definition field_size :: "nat \<Rightarrow> nat" where
  "field_size l = 1 + l + sov (of_nat l)"

lemma marshal_sized_exact: "length out = sz \<Longrightarrow> marshal_sized sz (Ret out) = Ret out"
  by (simp add: marshal_sized_def)

section \<open>Encoded varints\<close>

lemma bit_len_0 [simp]: "bit_len 0 = 0"
  by (simp add: bit_len.simps)

lemma bit_len_half: "0 < n \<Longrightarrow> bit_len n = Suc (bit_len (n div 2))"
  by (subst bit_len.simps) simp

lemma bit_len_le: "n < 2 ^ k \<Longrightarrow> bit_len n \<le> k"
proof (induction k arbitrary: n)
  case 0
  then show ?case by simp
next
  case (Suc k)
  then show ?case by (cases "n = 0") (auto simp: bit_len_half)
qed

lemma bit_len_shift: "2 ^ k \<le> n \<Longrightarrow> bit_len n = k + bit_len (n div 2 ^ k)"
proof (induction k arbitrary: n)
  case 0
  then show ?case by simp
next
  case (Suc k)
  have half: "2 ^ k \<le> n div 2" using Suc.prems by (simp add: less_eq_div_iff_mult_less_eq mult.commute)
  have "0 < n" using Suc.prems by (metis gr0I not_less power_not_zero zero_less_numeral zero_less_power le_zero_eq)
  then have "bit_len n = Suc (k + bit_len (n div 2 div 2 ^ k))"
    using bit_len_half Suc.IH [OF half] by simp
  then show ?case by (simp only: power_Suc div_mult2_eq add_Suc)
qed

lemma sov_eq: "sov v = Suc (bit_len (unat v div 2) div 7)"
proof -
  have "unat (v OR 1) div 2 = unat v div 2"
  proof -
    have "drop_bit 1 (v OR 1) = drop_bit 1 v" by (rule bit_eqI) (auto simp: bit_simps)
    then have "unat (drop_bit 1 (v OR 1)) = unat (drop_bit 1 v)" by simp
    then show ?thesis by (simp add: drop_bit_eq_div unat_div)
  qed
  moreover have "v OR 1 \<noteq> 0"
  proof
    assume "v OR 1 = 0"
    then have "bit (v OR 1) 0 = bit (0 :: u64) 0" by simp
    then show False by (simp add: bit_simps)
  qed
  then have "0 < unat (v OR 1)" by (simp add: unat_gt_0)
  ultimately show ?thesis by (simp add: sov_def bit_len_half)
qed

lemma length_encode_varint: "length (encode_varint v) = sov v"
proof (induction v rule: encode_varint.induct)
  case (1 v)
  show ?case
  proof (cases "128 \<le> v")
    case True
    then have n: "128 \<le> unat v" by (simp add: word_le_nat_alt)
    have len: "length (encode_varint v) = Suc (sov (drop_bit 7 v))"
      using True 1 by (subst encode_varint.simps) simp
    have "sov (drop_bit 7 v) = Suc (bit_len (unat v div 256) div 7)"
      by (simp add: sov_eq drop_bit_eq_div unat_div div_mult2_eq [symmetric])
    moreover have "bit_len (unat v div 256) div 7 + 1 = bit_len (unat v div 2) div 7"
    proof (cases "256 \<le> unat v")
      case True
      then have "2 ^ 7 \<le> unat v div 2" by simp
      from bit_len_shift [OF this] show ?thesis by (simp add: div_mult2_eq [symmetric])
    next
      case False
      then have "unat v div 2 div 2 ^ 6 = 1" using n by (simp add: div_mult2_eq [symmetric])
      moreover have "2 ^ 6 \<le> unat v div 2" using n by simp
      ultimately have "bit_len (unat v div 2) = 7"
        using bit_len_shift [of 6 "unat v div 2"] bit_len_half [of 1] by simp
      then show ?thesis using False by simp
    qed
    ultimately show ?thesis using len by (simp add: sov_eq)
  next
    case False
    then have "unat v div 2 < 2 ^ 6" by (simp add: word_le_nat_alt)
    from bit_len_le [OF this] False show ?thesis
      by (subst encode_varint.simps) (simp add: sov_eq)
  qed
qed

section \<open>Reading back a varint\<close>

lemma bit_127: "bit (127 :: int) n \<longleftrightarrow> n < 7"
proof -
  have "(127 :: int) = mask 7" by (simp add: mask_eq_exp_minus_1)
  then show ?thesis by (simp only: bit_mask_iff possible_bit_def) simp
qed

lemma bit_128: "bit (128 :: int) n \<longleftrightarrow> n = 7"
proof -
  have "(128 :: int) = 2 ^ 7" by simp
  then show ?thesis by (simp only: bit_exp_iff possible_bit_def) auto
qed

lemma byte_less_128: "(b :: 8 word) < 0x80 \<Longrightarrow> \<not> bit b 7"
  by (simp add: bit_iff_odd div_word_less)

lemma less_128_bits: "(v :: u64) < 128 \<Longrightarrow> 7 \<le> n \<Longrightarrow> \<not> bit v n"
proof -
  assume "v < 128" "7 \<le> n"
  then have "drop_bit 7 v = 0" by (simp add: drop_bit_eq_div div_word_less)
  then have "bit (drop_bit 7 v) (n - 7) = False" by simp
  then show ?thesis using \<open>7 \<le> n\<close> by (simp add: bit_simps)
qed

text \<open>The bytes of a varint: seven payload bits, and the top bit when more bytes follow.\<close>

lemma continued_byte:
  "(ucast (v AND 0x7F OR 0x80) :: 8 word) AND 0x7F = ucast (v AND 0x7F)"
  "\<not> (ucast (v AND 0x7F OR 0x80) :: 8 word) < 0x80" for v :: u64
proof -
  show "(ucast (v AND 0x7F OR 0x80) :: 8 word) AND 0x7F = ucast (v AND 0x7F)"
    by (rule bit_word_eqI) (auto simp: bit_simps bit_127 bit_128)
  have "bit (ucast (v AND 0x7F OR 0x80) :: 8 word) 7" by (simp add: bit_simps bit_128)
  then show "\<not> (ucast (v AND 0x7F OR 0x80) :: 8 word) < 0x80" using byte_less_128 by blast
qed

lemma last_byte:
  fixes v :: u64
  assumes "v < 128"
  shows "(ucast v :: 8 word) AND 0x7F = ucast v" and "(ucast v :: 8 word) < 0x80"
proof -
  show "(ucast v :: 8 word) AND 0x7F = ucast v"
  proof (rule bit_word_eqI)
    fix n
    show "bit ((ucast v :: 8 word) AND 0x7F) n = bit (ucast v :: 8 word) n"
      by (cases "n < 7") (use less_128_bits [OF assms, of n] in \<open>auto simp: bit_simps bit_127\<close>)
  qed
  have "unat v < 128" using assms by (simp add: word_less_nat_alt)
  then show "(ucast v :: 8 word) < 0x80"
    by (simp add: word_less_nat_alt unsigned_ucast_eq take_bit_nat_eq_self)
qed

lemma ucast_payload: "ucast (ucast (v AND 0x7F) :: 8 word) = (ucast (v AND 0x7F) :: 'a::len word)"
  for v :: u64
  by (rule bit_word_eqI) (auto simp: bit_simps bit_127)

lemma varint_split:
  "push_bit s (ucast v :: 'a::len word) =
     push_bit s (ucast (v AND 0x7F)) OR push_bit (s + 7) (ucast (drop_bit 7 v))" for v :: u64
proof (rule bit_word_eqI)
  fix n assume "n < LENGTH('a)"
  then show "bit (push_bit s (ucast v :: 'a word)) n =
      bit (push_bit s (ucast (v AND 0x7F) :: 'a word) OR push_bit (s + 7) (ucast (drop_bit 7 v))) n"
    by (cases "s + 7 \<le> n") (auto simp: bit_simps bit_127 dest: bit_imp_le_length)
qed

lemma decode_encode_varint:
  "s < 64 \<Longrightarrow> unat v < 2 ^ (64 - s) \<Longrightarrow>
   decode_varint s acc (encode_varint v @ rest) = Ret (acc OR push_bit s (ucast v :: 'a::len word), rest)"
proof (induction v arbitrary: s acc rule: encode_varint.induct)
  case (1 v)
  show ?case
  proof (cases "128 \<le> v")
    case True
    then have n: "128 \<le> unat v" by (simp add: word_le_nat_alt)
    have s: "s + 7 < 64"
    proof (rule ccontr)
      assume "\<not> s + 7 < 64"
      then have "(2 :: nat) ^ (64 - s) \<le> 2 ^ 7" by (intro power_increasing) auto
      with "1.prems"(2) n show False by simp
    qed
    then have eq: "64 - s = 7 + (64 - (s + 7))" using "1.prems"(1) by simp
    have "(2 :: nat) ^ (64 - s) = 128 * 2 ^ (64 - (s + 7))"
      unfolding eq by (simp add: power_add)
    with "1.prems"(2) have "unat v < 128 * 2 ^ (64 - (s + 7))" by simp
    then have "unat (drop_bit 7 v) < 2 ^ (64 - (s + 7))"
      by (simp add: drop_bit_eq_div unat_div less_mult_imp_div_less mult.commute)
    from "1.IH" [OF True s this] show ?thesis
      using True "1.prems"(1) continued_byte [of v]
      by (subst encode_varint.simps) (simp add: Let_def ucast_payload varint_split [of s v] or.assoc)
  next
    case False
    then have v: "v < 128" by simp
    have "v AND 0x7F = v"
      by (rule bit_word_eqI) (metis (mono_tags, lifting) bit_127 bit_and_iff bit_numeral_word_iff less_128_bits not_less v)
    with ucast_payload [of v] have "ucast (ucast v :: 8 word) = (ucast v :: 'a word)" by simp
    then show ?thesis
      using False "1.prems"(1) last_byte [OF v]
      by (subst encode_varint.simps) (simp add: Let_def)
  qed
qed

lemma read_encoded_varint:
  assumes "drop i dAtA = encode_varint v @ rest" and "i \<le> length dAtA"
  shows "read_varint dAtA i = Ret (ucast v :: 'a::len word, i + length (encode_varint v))"
proof -
  have "unat v < 2 ^ (64 - 0)" using unsigned_less [of v] by simp
  from decode_encode_varint [OF _ this, of 0 rest] have
    "decode_varint 0 0 (drop i dAtA) = Ret (ucast v :: 'a word, rest)" by (simp add: assms(1))
  moreover have "length dAtA = i + length (encode_varint v) + length rest"
    using arg_cong [OF assms(1), of length] assms(2) by simp
  ultimately show ?thesis by (simp add: read_varint_def)
qed

section \<open>Reading back a field\<close>

lemma length_prefixed_size: "length (length_prefixed bz) + 1 = field_size (length bz)"
  by (simp add: length_prefixed_def field_size_def length_encode_varint)

text \<open>A tag below 128 is read as its field number and its wire type.\<close>

lemma encode_small: "v < 128 \<Longrightarrow> encode_varint v = [ucast v]"
  by (subst encode_varint.simps) auto

lemma sov_small: "v < 128 \<Longrightarrow> sov v = 1"
  using length_encode_varint [of v] by (simp add: encode_small)

lemma read_payload_encoded:
  assumes "drop i dAtA = length_prefixed bz @ rest" and "i \<le> length dAtA" and "length dAtA < 2 ^ 63"
  shows "read_bytes dAtA i = Ret (bz, i + length (length_prefixed bz))"
proof -
  let ?e = "encode_varint (of_nat (length bz))"
  have d: "drop i dAtA = ?e @ bz @ rest" using assms(1) by (simp add: length_prefixed_def)
  have len: "length dAtA = i + length ?e + length bz + length rest"
    using arg_cong [OF d, of length] assms(2) by simp
  then have small: "length bz < 2 ^ 63" using assms(3) by simp
  have v: "read_varint dAtA i = Ret (of_nat (length bz) :: i64, i + length ?e)"
    using read_encoded_varint [OF d assms(2), where 'a = 64] by simp
  have nonneg: "\<not> (of_nat (length bz) :: i64) <s 0"
    using sint_of_nat_64 [OF small] by (simp add: word_sless_alt)
  have un: "unat (of_nat (length bz) :: i64) = length bz"
    using small by (simp add: unsigned_of_nat take_bit_nat_eq_self)
  have "drop (i + length ?e) dAtA = bz @ rest"
    using d by (metis add.commute append_eq_conv_conj drop_drop)
  then show ?thesis
    using v nonneg un len assms(3)
    by (simp add: read_bytes_def length_prefixed_def)
qed

lemma read_header_encoded:
  assumes "drop i dAtA = ucast v # rest" and "v < 128" and "8 \<le> v" and "v AND 7 \<noteq> (4 :: u64)"
  shows "read_header name dAtA i = Ret (ucast (drop_bit 3 v), unat (v AND 7), Suc i)"
proof -
  have "i < length dAtA" using assms(1) by (metis drop_all list.distinct(1) not_le)
  then have v: "read_varint dAtA i = Ret (v, Suc i)"
    using read_encoded_varint [of i dAtA v rest, where 'a = 64] assms(1,2) by (simp add: encode_small)
  have u: "8 \<le> unat v" "unat v < 128"
    using assms(2,3) by (auto simp: word_le_nat_alt word_less_nat_alt)
  have d: "unat (ucast (drop_bit 3 v) :: u32) = unat v div 8"
    using u by (simp add: unsigned_ucast_eq drop_bit_eq_div unat_div take_bit_nat_eq_self)
  have "1 \<le> unat v div 8" "unat v div 8 < 16" using u by auto
  then have "sint (ucast (drop_bit 3 v) :: u32) = int (unat v div 8)"
  proof -
    have "uint (ucast (drop_bit 3 v) :: u32) = int (unat v div 8)"
      using d by (metis of_nat_unat)
    with \<open>unat v div 8 < 16\<close> show ?thesis
      by (simp only: sint_uint) (rule signed_take_bit_int_eq_self, auto)
  qed
  then have "\<not> (ucast (drop_bit 3 v) :: u32) \<le>s 0"
    using \<open>1 \<le> unat v div 8\<close> by (simp add: word_sle_eq)
  moreover have "unat (v AND 7) \<noteq> 4"
  proof
    assume "unat (v AND 7) = 4"
    then have "(of_nat (unat (v AND 7)) :: u64) = of_nat 4" by (rule arg_cong)
    then have "v AND 7 = of_nat 4" by (simp only: of_nat_unat ucast_id)
    with assms(4) show False by simp
  qed
  ultimately show ?thesis using v by (simp add: read_header_def)
qed

text \<open>
  \<open>resume\<close>: the loop when \<open>rest\<close> is what remains of the input. A well-formed field in front of it
  is consumed by one iteration.
\<close>

definition resume :: "string \<Rightarrow> ('m \<Rightarrow> u32 \<Rightarrow> nat \<Rightarrow> 'm action) \<Rightarrow> bytes \<Rightarrow> 'm \<Rightarrow> bytes \<Rightarrow> 'm go" where
  "resume name dispatch dAtA m rest = unmarshal_loop name dispatch dAtA m (length dAtA - length rest)"

lemma resume_done [simp]: "resume name dispatch dAtA m [] = Ret m"
  by (simp add: resume_def unmarshal_loop.simps)

lemma suffix_drop: "suffix rest dAtA \<Longrightarrow> drop (length dAtA - length rest) dAtA = rest"
  by (auto simp: suffix_def)

lemma resume_step:
  assumes "suffix (ucast v # field @ rest) dAtA" and "v < 128" and "8 \<le> v" and "v AND 7 \<noteq> (4 :: u64)"
    and "run_action (dispatch m (ucast (drop_bit 3 v)) (unat (v AND 7))) dAtA
      (length dAtA - length (ucast v # field @ rest)) (length dAtA - length (field @ rest)) m =
      Ret (m', length dAtA - length rest)"
  shows "resume name dispatch dAtA m (ucast v # field @ rest) = resume name dispatch dAtA m' rest"
proof -
  let ?i = "length dAtA - length (ucast v # field @ rest)"
  have len: "length (ucast v # field @ rest) \<le> length dAtA"
    using suffix_length_le [OF assms(1)] .
  then have i: "?i < length dAtA" and j: "Suc ?i = length dAtA - length (field @ rest)" by auto
  from read_header_encoded [OF suffix_drop [OF assms(1)] assms(2-4), of name] j
  have "unmarshal_step name dispatch dAtA m ?i = Ret (m', length dAtA - length rest)"
    using assms(5) by (simp add: unmarshal_step_def)
  then show ?thesis
    unfolding resume_def using i by (subst unmarshal_loop.simps) simp
qed

lemma resume_payload:
  assumes "suffix (ucast v # length_prefixed bz @ rest) dAtA" and "length dAtA < 2 ^ 63"
    and "v < 128" and "8 \<le> v" and "v AND 7 \<noteq> (4 :: u64)"
    and "dispatch m (ucast (drop_bit 3 v)) (unat (v AND 7)) = ReadPayload f" and "f bz = Ret m'"
  shows "resume name dispatch dAtA m (ucast v # length_prefixed bz @ rest) = resume name dispatch dAtA m' rest"
proof (rule resume_step [OF assms(1,3-5)])
  let ?tail = "length_prefixed bz @ rest"
  have tail: "suffix ?tail dAtA" using assms(1) by (rule suffix_ConsD)
  from read_payload_encoded [OF suffix_drop [OF tail] _ assms(2)] suffix_length_le [OF tail]
  have "read_bytes dAtA (length dAtA - length ?tail) = Ret (bz, length dAtA - length rest)" by simp
  then show "run_action (dispatch m (ucast (drop_bit 3 v)) (unat (v AND 7))) dAtA
      (length dAtA - length (ucast v # ?tail)) (length dAtA - length ?tail) m =
      Ret (m', length dAtA - length rest)"
    using assms(6,7) by simp
qed

lemma suffix_appendD: "suffix (xs @ ys) zs \<Longrightarrow> suffix ys zs"
  by (auto simp: suffix_def)

text \<open>A varint field, read into a 64-bit or a 32-bit variable.\<close>

lemma resume_varint:
  assumes "suffix (ucast v # encode_varint x @ rest) dAtA"
    and "v < 128" and "8 \<le> v" and "v AND 7 \<noteq> (4 :: u64)"
    and "dispatch m (ucast (drop_bit 3 v)) (unat (v AND 7)) = ReadVarint f \<and> m' = f x \<or>
      dispatch m (ucast (drop_bit 3 v)) (unat (v AND 7)) = ReadUint32 g \<and> m' = g (ucast x)"
  shows "resume name dispatch dAtA m (ucast v # encode_varint x @ rest) = resume name dispatch dAtA m' rest"
proof (rule resume_step [OF assms(1-4)])
  let ?tail = "encode_varint x @ rest"
  have tail: "suffix ?tail dAtA" using assms(1) by (rule suffix_ConsD)
  have le: "length dAtA - length ?tail \<le> length dAtA" by simp
  have read: "read_varint dAtA (length dAtA - length ?tail) = Ret (ucast x :: u64, length dAtA - length rest)"
    "read_varint dAtA (length dAtA - length ?tail) = Ret (ucast x :: u32, length dAtA - length rest)"
    using read_encoded_varint [OF suffix_drop [OF tail] le, where 'a = 64]
      read_encoded_varint [OF suffix_drop [OF tail] le, where 'a = 32]
      suffix_length_le [OF tail] by simp_all
  then show "run_action (dispatch m (ucast (drop_bit 3 v)) (unat (v AND 7))) dAtA
      (length dAtA - length (ucast v # ?tail)) (length dAtA - length ?tail) m =
      Ret (m', length dAtA - length rest)"
    using assms(5) by auto
qed


section \<open>Maps\<close>

text \<open>
  The entries of a map are written in front of the buffer in the order in which \<open>range\<close> visits its
  keys, which the language leaves open: \<open>order\<close> is that order, a list of all keys.
\<close>

definition range_order :: "string list \<Rightarrow> (string \<rightharpoonup> u64) \<Rightarrow> bool" where
  "range_order order M \<longleftrightarrow> distinct order \<and> set order = dom M"

definition map_entry :: "string \<Rightarrow> u64 \<Rightarrow> bytes" where
  "map_entry k v = 0xa # length_prefixed (string_bytes k) @ 0x10 # encode_varint v"

definition map_entries :: "string list \<Rightarrow> (string \<rightharpoonup> u64) \<Rightarrow> bytes \<Rightarrow> bytes" where
  "map_entries order M out = fold (\<lambda>k out. 0xa # length_prefixed (map_entry k (the (M k))) @ out) order out"

definition map_size :: "string list \<Rightarrow> (string \<rightharpoonup> u64) \<Rightarrow> nat" where
  "map_size order M =
     (\<Sum>k\<leftarrow>order. field_size (1 + length k + sov (of_nat (length k)) + 1 + sov (the (M k))))"

lemma bytes_string_bytes [simp]: "bytes_string (string_bytes s) = s"
  by (induction s) (simp_all add: bytes_string_def string_bytes_def)

lemma string_bytes_string [simp]: "string_bytes (bytes_string bz) = bz"
proof -
  have "of_char (char_of (unat b) :: char) = (b :: 8 word)" for b
  proof -
    have "of_char (char_of (unat b) :: char) = (of_nat (of_char (char_of (unat b) :: char)) :: 8 word)"
      by (simp add: of_char_def)
    also have "(of_char (char_of (unat b) :: char) :: nat) = unat b"
      using unsigned_less [of b, where 'a = nat] by simp
    finally show ?thesis by simp
  qed
  then show ?thesis by (simp add: string_bytes_def bytes_string_def comp_def)
qed

lemma length_string_bytes [simp]: "length (string_bytes s) = length s"
  by (simp add: string_bytes_def)

lemma length_map_entry: "length (map_entry k v) = 1 + length k + sov (of_nat (length k)) + 1 + sov v"
  using length_prefixed_size [of "string_bytes k"]
  by (simp add: map_entry_def length_encode_varint field_size_def)

lemma length_map_entries: "length (map_entries order M out) = map_size order M + length out"
  using length_prefixed_size
  by (induction order arbitrary: out) (simp_all add: map_entries_def map_size_def length_map_entry)

text \<open>The size does not depend on the order of a range.\<close>

lemma map_size_order:
  assumes "range_order order M" and "range_order order' M"
  shows "map_size order M = map_size order' M"
proof -
  have "map_size ks M = (\<Sum>k\<in>dom M. field_size (1 + length k + sov (of_nat (length k)) + 1 + sov (the (M k))))"
    if "range_order ks M" for ks
    using that by (simp add: map_size_def range_order_def sum_list_distinct_conv_sum_set)
  then show ?thesis using assms by simp
qed

lemma read_tag:
  assumes "drop i dAtA = ucast v # rest" and "v < (128 :: u64)"
  shows "read_varint dAtA i = Ret (v, Suc i)" and "i < length dAtA" and "drop (Suc i) dAtA = rest"
proof -
  show i: "i < length dAtA" using assms(1) by (metis drop_all list.distinct(1) not_le)
  then show "read_varint dAtA i = Ret (v, Suc i)"
    using read_encoded_varint [of i dAtA v rest, where 'a = 64] assms by (simp add: encode_small)
  show "drop (Suc i) dAtA = rest" using arg_cong [OF assms(1), of tl] by (simp add: drop_Suc tl_drop)
qed

lemma drop_append_at: "drop i xs = ys @ zs \<Longrightarrow> drop (i + length ys) xs = zs"
  by (metis add.commute append_eq_conv_conj drop_drop)

lemma read_entry_encoded:
  assumes at: "drop i dAtA = length_prefixed (map_entry k v) @ rest" and "i \<le> length dAtA"
    and short: "length dAtA < 2 ^ 63"
  shows "read_entry dAtA i = Ret ((k, v), i + length (length_prefixed (map_entry k v)))"
proof -
  let ?post = "i + length (length_prefixed (map_entry k v))"
  let ?k = "length_prefixed (string_bytes k)"
  define p where "p = i + length (encode_varint (of_nat (length (map_entry k v))))"
  have post: "?post = p + length (map_entry k v)" by (simp add: p_def length_prefixed_def)
  have "drop p dAtA = map_entry k v @ rest"
    using at unfolding p_def length_prefixed_def by (auto intro: drop_append_at)
  then have tag1: "drop p dAtA = ucast (0xa :: u64) # ?k @ 0x10 # encode_varint v @ rest"
    by (simp add: map_entry_def)
  note r1 = read_tag [OF tag1]
  have s1: "read_bytes dAtA (Suc p) = Ret (string_bytes k, Suc p + length ?k)"
    by (rule read_payload_encoded [OF r1(3) _ short]) (use r1(2) in simp_all)
  define q where "q = Suc p + length ?k"
  have tag2: "drop q dAtA = ucast (0x10 :: u64) # encode_varint v @ rest"
    using drop_append_at [OF r1(3)] by (simp add: q_def)
  note r2 = read_tag [OF tag2]
  have qpost: "q < ?post" "Suc q + length (encode_varint v) = ?post"
    unfolding post by (simp_all add: q_def map_entry_def)
  have "read_varint_into 0 dAtA (Suc q) = Ret (v, Suc q + length (encode_varint v))"
    using read_encoded_varint [OF r2(3), where 'a = 64] r2(2)
    by (simp add: read_varint_into_def read_varint_def)
  with qpost r2(1) have "entry_step dAtA ?post q k 0 = Ret (k, v, ?post)"
    by (simp add: entry_step_def)
  then have "entry_loop dAtA ?post q k 0 = Ret (k, v)"
    using qpost(1) by (subst entry_loop.simps, simp, subst entry_loop.simps, simp)
  moreover have "entry_step dAtA ?post p [] 0 = Ret (k, 0, q)"
    using r1(1) s1 by (simp add: entry_step_def q_def)
  moreover have "p < ?post" using qpost(1) by (simp add: q_def)
  ultimately have "entry_loop dAtA ?post p [] 0 = Ret (k, v)"
    by (subst entry_loop.simps) simp
  moreover have "read_bytes dAtA i = Ret (map_entry k v, ?post)"
    by (rule read_payload_encoded [OF at assms(2) short])
  ultimately show ?thesis by (simp add: read_entry_def post)
qed

lemma resume_entry:
  assumes "suffix (ucast v # length_prefixed (map_entry key x) @ rest) dAtA" and "length dAtA < 2 ^ 63"
    and "v < 128" and "8 \<le> v" and "v AND 7 \<noteq> (4 :: u64)"
    and "dispatch m (ucast (drop_bit 3 v)) (unat (v AND 7)) = ReadEntry f"
  shows "resume name dispatch dAtA m (ucast v # length_prefixed (map_entry key x) @ rest) =
    resume name dispatch dAtA (f (key, x)) rest"
proof (rule resume_step [OF assms(1,3-5)])
  let ?tail = "length_prefixed (map_entry key x) @ rest"
  have tail: "suffix ?tail dAtA" using assms(1) by (rule suffix_ConsD)
  from read_entry_encoded [OF suffix_drop [OF tail] _ assms(2)] suffix_length_le [OF tail]
  have "read_entry dAtA (length dAtA - length ?tail) = Ret ((key, x), length dAtA - length rest)" by simp
  then show "run_action (dispatch m (ucast (drop_bit 3 v)) (unat (v AND 7))) dAtA
      (length dAtA - length (ucast v # ?tail)) (length dAtA - length ?tail) m =
      Ret (f (key, x), length dAtA - length rest)"
    using assms(6) by simp
qed

lemma suffix_map_entries: "suffix out (map_entries order M out)"
proof (induction order arbitrary: out)
  case (Cons k order)
  from Cons.IH [of "0xa # length_prefixed (map_entry k (the (M k))) @ out"]
  have "suffix out (map_entries order M (0xa # length_prefixed (map_entry k (the (M k))) @ out))"
    by (rule suffix_appendD [OF suffix_ConsD])
  then show ?case by (simp add: map_entries_def)
qed (simp add: map_entries_def)

text \<open>Reading the entries of a map: one update per key, in the order on the wire.\<close>

lemma resume_entries:
  assumes "length dAtA < 2 ^ 63" and "\<And>m. dispatch m 1 2 = ReadEntry (upd m)"
    and "suffix (map_entries order M rest) dAtA"
  shows "resume name dispatch dAtA m (map_entries order M rest) =
    resume name dispatch dAtA (foldr (\<lambda>k m. upd m (k, the (M k))) order m) rest"
  using assms(3)
proof (induction order arbitrary: rest m)
  case Nil
  then show ?case by (simp add: map_entries_def)
next
  case (Cons k order)
  let ?rest = "0xa # length_prefixed (map_entry k (the (M k))) @ rest"
  have split: "map_entries (k # order) M rest = map_entries order M ?rest" by (simp add: map_entries_def)
  have suf: "suffix (ucast (0xa :: u64) # length_prefixed (map_entry k (the (M k))) @ rest) dAtA"
    using suffix_order.trans [OF suffix_map_entries Cons.prems [unfolded split]] by simp
  have "resume name dispatch dAtA m' ?rest = resume name dispatch dAtA (upd m' (k, the (M k))) rest" for m'
    using resume_entry [OF suf assms(1), where dispatch = dispatch and m = m' and f = "upd m'" and name = name]
      assms(2) by simp
  then show ?case using Cons.IH [OF Cons.prems [unfolded split]] split by simp
qed

lemma map_from_entries:
  assumes "range_order order M"
  shows "foldr (\<lambda>k N. N(k \<mapsto> the (M k))) order Map.empty = M"
proof -
  have "foldr (\<lambda>k N. N(k \<mapsto> the (M k))) ks Map.empty x = (if x \<in> set ks then Some (the (M x)) else None)"
    for ks x by (induction ks) auto
  then show ?thesis using assms by (fastforce simp: range_order_def)
qed

text \<open>
  The value of an entry is not cleared before another one is read into it: the bits of a repeated
  value field accumulate, where the format says that the last one counts. Here 1 and 2 give 3.
\<close>

lemma repeated_values_accumulate:
  "read_entry [4, 0x10, 1, 0x10, 2] 0 = Ret (([], 3), 5)"
proof -
  note eval = entry_step_def read_varint_def read_varint_into_def Let_def
  have "read_bytes [4, 0x10, 1, 0x10, 2] 0 = Ret ([0x10, 1, 0x10, 2], 5)"
    by (simp add: read_bytes_def read_varint_def Let_def word_sless_alt)
  moreover have "entry_loop [4, 0x10, 1, 0x10, 2] 5 1 [] 0 = Ret ([], 3)"
    by (subst entry_loop.simps, simp add: eval, subst entry_loop.simps, simp add: eval,
        subst entry_loop.simps, simp)
  ultimately show ?thesis by (simp add: read_entry_def)
qed

end
