(* ===== verification/Auction_Params.thy ===== *)
theory Auction_Params
  imports Proto_Codec
begin

text \<open>
  The parameters and the genesis state of the auction module: their types and wire format
  (\<open>x/auction/types/genesis.pb.go\<close>), defaults and validation (\<open>params.go\<close>, \<open>genesis.go\<close>). The
  codecs of \<open>sdk.Coin\<close> and \<open>math.LegacyDec\<close> belong to the SDK and are parameters. The lemmas show
  that parameters survive a round trip through the store, and that the buffer is filled exactly.
\<close>

section \<open>Messages\<close>

text \<open>A byte slice that may be nil is an option.\<close>

record Params =
  MaxBundleSize :: u32
  EscrowAccountAddress :: "bytes option"
  ReserveFee :: Coin
  MinBidIncrement :: Coin
  FrontRunningProtection :: bool
  ProposerFee :: LegacyDec

record GenesisState =
  GenParams :: Params

record MsgUpdateParams =
  UpdAuthority :: string
  UpdParams :: Params

record QueryParamsResponse =
  RespParams :: Params
  EscrowAddressString :: string

definition zero_coin :: Coin where
  "zero_coin = \<lparr> Denom = '''', Amount = None \<rparr>"

definition zero_params :: Params where
  "zero_params = \<lparr> MaxBundleSize = 0, EscrowAccountAddress = None, ReserveFee = zero_coin,
     MinBidIncrement = zero_coin, FrontRunningProtection = False, ProposerFee = DecNil \<rparr>"

definition zero_genesis :: GenesisState where
  "zero_genesis = \<lparr> GenParams = zero_params \<rparr>"

definition NewParams :: "u32 \<Rightarrow> bytes option \<Rightarrow> Coin \<Rightarrow> Coin \<Rightarrow> bool \<Rightarrow> LegacyDec \<Rightarrow> Params" where
  "NewParams maxBundleSize escrowAccountAddress reserveFee minBidIncrement frontRunningProtection proposerFee =
     \<lparr> MaxBundleSize = maxBundleSize, EscrowAccountAddress = escrowAccountAddress,
       ReserveFee = reserveFee, MinBidIncrement = minBidIncrement,
       FrontRunningProtection = frontRunningProtection, ProposerFee = proposerFee \<rparr>"

text \<open>The module address of the auction module is computed by the SDK: the argument \<open>escrow\<close>.\<close>

definition DefaultParams :: "coin_ops \<Rightarrow> dec_ops \<Rightarrow> bytes option \<Rightarrow> Params go" where
  "DefaultParams K D escrow =
     go_bind (newCoin K ''stake'' 1) (\<lambda>reserve. go_bind (newCoin K ''stake'' 1) (\<lambda>increment.
       Ret (NewParams 2 escrow reserve increment True (decZero D))))"

definition NewGenesisState :: "Params \<Rightarrow> GenesisState" where
  "NewGenesisState params = \<lparr> GenParams = params \<rparr>"

definition DefaultGenesisState :: "coin_ops \<Rightarrow> dec_ops \<Rightarrow> bytes option \<Rightarrow> GenesisState go" where
  "DefaultGenesisState K D escrow = go_bind (DefaultParams K D escrow) (\<lambda>p. Ret (NewGenesisState p))"

section \<open>Validation\<close>

definition validateFee :: "coin_ops \<Rightarrow> Coin \<Rightarrow> unit go" where
  "validateFee K fee =
     (if coinIsNil K fee then Err (Errorf ''fee cannot be nil: %s'') else coinValidate K fee)"

definition validateProposerFee :: "dec_ops \<Rightarrow> LegacyDec \<Rightarrow> unit go" where
  "validateProposerFee D v =
     (if decIsNil D v then Err (Errorf ''proposer fee cannot be nil: %s'')
      else if decIsNegative D v then Err (Errorf ''proposer fee cannot be negative: %s'')
      else if decGT D v (decOne D) then Err (Errorf ''proposer fee too large: %s'')
      else Ret ())"

text \<open>\<open>rename_err s m\<close>: an error is replaced by a new one with its text (\<open>%s\<close>, not wrapped).\<close>

fun rename_err :: "string \<Rightarrow> 'a go \<Rightarrow> 'a go" where
  "rename_err s (Ret x) = Ret x"
| "rename_err s (Err e) = Err (Errorf s)"
| "rename_err s Panic = Panic"

definition Params_Validate :: "coin_ops \<Rightarrow> dec_ops \<Rightarrow> Params \<Rightarrow> unit go" where
  "Params_Validate K D p =
     (if EscrowAccountAddress p = None then Err (Errorf ''escrow account address cannot be nil'')
      else
        go_bind (rename_err ''invalid reserve fee (%s)'' (validateFee K (ReserveFee p))) (\<lambda>_.
        go_bind (rename_err ''invalid minimum bid increment (%s)'' (validateFee K (MinBidIncrement p))) (\<lambda>_.
        go_bind (newCoin K (Denom (MinBidIncrement p)) 0) (\<lambda>zero.
        go_bind (coinIsLTE K (MinBidIncrement p) zero) (\<lambda>lte.
          if lte then Err (Errorf ''minimum bid increment cannot be zero'')
          else if card {Denom (ReserveFee p), Denom (MinBidIncrement p)} \<noteq> 1
          then Err (Errorf ''mismatched auction fee denoms: minimum bid increment (%s), reserve fee (%s)'')
          else validateProposerFee D (ProposerFee p))))))"

definition GenesisState_Validate :: "coin_ops \<Rightarrow> dec_ops \<Rightarrow> GenesisState \<Rightarrow> unit go" where
  "GenesisState_Validate K D gs = Params_Validate K D (GenParams gs)"

lemma rename_err_Ret_iff [simp]: "rename_err s m = Ret x \<longleftrightarrow> m = Ret x"
  by (cases m) auto

text \<open>Parameters pass validation exactly when they say what the auction needs: an escrow
  account, valid fees of one denomination, a positive increment and a proposer fee between 0 and
  1.\<close>

lemma Params_Validate_iff:
  assumes "coin_laws K" and "dec_laws D"
  shows "Params_Validate K D p = Ret () \<longleftrightarrow>
    EscrowAccountAddress p \<noteq> None \<and> coinValidate K (ReserveFee p) = Ret () \<and>
    coinValidate K (MinBidIncrement p) = Ret () \<and> Denom (ReserveFee p) = Denom (MinBidIncrement p) \<and>
    (\<exists>a > 0. Amount (MinBidIncrement p) = Some a) \<and>
    (\<exists>f. ProposerFee p = Dec f \<and> 0 \<le> f \<and> f \<le> dec_unit)"
proof -
  have fee: "validateFee K c = Ret () \<longleftrightarrow> coinValidate K c = Ret ()" for c
    using coin_lawsD(1,5) [OF assms(1), of c] by (auto simp: validateFee_def)
  have pf: "validateProposerFee D v = Ret () \<longleftrightarrow> (\<exists>f. v = Dec f \<and> 0 \<le> f \<and> f \<le> dec_unit)" for v
    using assms(2) by (cases v) (auto simp: validateProposerFee_def dec_laws_def)
  have card: "card {a, b} = Suc 0 \<longleftrightarrow> a = b" for a b :: string by (cases "a = b") auto
  show ?thesis
  proof (cases "coinValidate K (MinBidIncrement p) = Ret ()")
    case False
    then show ?thesis by (auto simp: Params_Validate_def go_simps fee)
  next
    case True
    from coin_lawsD(5) [OF assms(1) True] obtain a where a: "Amount (MinBidIncrement p) = Some a" by auto
    then have m: "MinBidIncrement p = coin_of (Denom (MinBidIncrement p)) a" by simp
    with True have v: "coinValidate K (coin_of (Denom (MinBidIncrement p)) a) = Ret ()" by simp
    have zero: "newCoin K (Denom (MinBidIncrement p)) 0 = Ret (coin_of (Denom (MinBidIncrement p)) 0)"
      by (rule coin_lawsD(7) [OF assms(1) v])
    have lte: "coinIsLTE K (MinBidIncrement p) (coin_of (Denom (MinBidIncrement p)) 0) = Ret (a \<le> 0)"
      by (subst m) (rule coin_lawsD(3) [OF assms(1)])
    show ?thesis
      using True a by (auto simp: Params_Validate_def go_simps fee pf card zero lte)
  qed
qed

lemma Params_Validate_iff_witness:
  "Params_Validate plain_coins scaled_dec (NewParams 2 (Some [1]) (coin_of ''stake'' 1) (coin_of ''stake'' 1)
     True (Dec 0)) = Ret ()"
  by (subst Params_Validate_iff [OF plain_coins_laws scaled_dec_laws])
     (simp add: NewParams_def plain_coins_def plain_valid_def)

section \<open>Wire format\<close>

text \<open>
  The codecs of the embedded messages: the size of the encoding, the bytes that
  \<open>MarshalToSizedBuffer\<close> (\<open>MarshalTo\<close> for the decimal) writes, and \<open>Unmarshal\<close> into an existing value.
\<close>

record wire_ops =
  coinSize :: "Coin \<Rightarrow> nat"
  coinMarshal :: "Coin \<Rightarrow> bytes go"
  coinUnmarshal :: "Coin \<Rightarrow> bytes \<Rightarrow> Coin go"
  decSize :: "LegacyDec \<Rightarrow> nat"
  decMarshal :: "LegacyDec \<Rightarrow> bytes go"
  decUnmarshal :: "LegacyDec \<Rightarrow> bytes \<Rightarrow> LegacyDec go"

text \<open>
  Documented: values within the bit limit that are not nil are written in as many bytes as their
  size says, and read back into an empty value unchanged.
\<close>

definition wire_laws :: "wire_ops \<Rightarrow> bool" where
  "wire_laws W \<longleftrightarrow>
     (\<forall>d a. \<bar>a\<bar> < 2 ^ 255 \<longrightarrow> (\<exists>bz. coinMarshal W (coin_of d a) = Ret bz \<and>
        length bz = coinSize W (coin_of d a) \<and> coinUnmarshal W zero_coin bz = Ret (coin_of d a))) \<and>
     (\<forall>x. \<bar>x\<bar> < 2 ^ 255 \<longrightarrow> (\<exists>bz. decMarshal W (Dec x) = Ret bz \<and>
        length bz = decSize W (Dec x) \<and> decUnmarshal W DecNil bz = Ret (Dec x)))"

text \<open>A concrete codec: a sign, the absolute value in strokes, and the denomination.\<close>

definition stroke_bytes :: "int \<Rightarrow> bytes" where
  "stroke_bytes a = (if a < 0 then 1 else 0) # replicate (nat \<bar>a\<bar>) 1 @ [0]"

fun read_strokes :: "bytes \<Rightarrow> (int \<times> bytes) go" where
  "read_strokes [] = Err (ExternalError 4)"
| "read_strokes (s # bs) =
     (let n = int (length (takeWhile (\<lambda>b. b = 1) bs)) in
      Ret (if s = 1 then - n else n, drop 1 (dropWhile (\<lambda>b. b = 1) bs)))"

lemma takeWhile_replicate_stop:
  "takeWhile (\<lambda>b. b = 1) (replicate n (1 :: 8 word) @ 0 # xs) = replicate n 1"
  "dropWhile (\<lambda>b. b = 1) (replicate n (1 :: 8 word) @ 0 # xs) = 0 # xs"
  by (induction n) auto

lemma read_strokes_append [simp]: "read_strokes (stroke_bytes a @ rest) = Ret (a, rest)"
  by (auto simp: stroke_bytes_def Let_def takeWhile_replicate_stop)

definition stroke_wire :: wire_ops where
  "stroke_wire = \<lparr>
     coinSize = (\<lambda>c. case Amount c of None \<Rightarrow> 0 | Some a \<Rightarrow> length (stroke_bytes a) + length (Denom c)),
     coinMarshal = (\<lambda>c. case Amount c of None \<Rightarrow> Err (ExternalError 4)
       | Some a \<Rightarrow> Ret (stroke_bytes a @ map of_char (Denom c))),
     coinUnmarshal = (\<lambda>c bz. go_bind (read_strokes bz) (\<lambda>(a, rest).
       Ret (coin_of (map (\<lambda>b. char_of (unat b)) rest) a))),
     decSize = (\<lambda>d. case d of DecNil \<Rightarrow> 0 | Dec x \<Rightarrow> length (stroke_bytes x)),
     decMarshal = (\<lambda>d. case d of DecNil \<Rightarrow> Err (ExternalError 4) | Dec x \<Rightarrow> Ret (stroke_bytes x)),
     decUnmarshal = (\<lambda>d bz. go_bind (read_strokes bz) (\<lambda>(x, _). Ret (Dec x))) \<rparr>"

lemma stroke_wire_laws: "wire_laws stroke_wire"
proof -
  have "read_strokes (stroke_bytes x) = Ret (x, [])" for x
    using read_strokes_append [of x "[]"] by simp
  then show ?thesis by (auto simp: wire_laws_def stroke_wire_def comp_def)
qed

section \<open>Marshal\<close>

definition Params_Size :: "wire_ops \<Rightarrow> Params \<Rightarrow> nat" where
  "Params_Size W m =
     (if MaxBundleSize m \<noteq> 0 then 1 + sov (ucast (MaxBundleSize m)) else 0) +
     (case EscrowAccountAddress m of
        None \<Rightarrow> 0 | Some a \<Rightarrow> if 0 < length a then field_size (length a) else 0) +
     field_size (coinSize W (ReserveFee m)) +
     field_size (coinSize W (MinBidIncrement m)) +
     (if FrontRunningProtection m then 2 else 0) +
     field_size (decSize W (ProposerFee m))"

text \<open>The optional fields, as written in front of the buffer.\<close>

definition max_bundle_field :: "u32 \<Rightarrow> bytes" where
  "max_bundle_field v = (if v \<noteq> 0 then 0x8 # encode_varint (ucast v) else [])"

definition escrow_field :: "bytes option \<Rightarrow> bytes" where
  "escrow_field v = (case v of None \<Rightarrow> []
     | Some a \<Rightarrow> if 0 < length a then 0x12 # length_prefixed a else [])"

definition protection_field :: "bool \<Rightarrow> bytes" where
  "protection_field b = (if b then [0x28, 1] else [])"

text \<open>
  The decimal is copied into a window of its size; the fields are written from the last to the
  first, and the two coins may fail.
\<close>

definition Params_MarshalToSizedBuffer :: "wire_ops \<Rightarrow> Params \<Rightarrow> bytes go" where
  "Params_MarshalToSizedBuffer W m =
     go_bind (decMarshal W (ProposerFee m)) (\<lambda>d.
       let sz = decSize W (ProposerFee m);
           out = 0x32 # encode_varint (of_nat sz) @ take sz (d @ replicate sz 0);
           out = protection_field (FrontRunningProtection m) @ out in
       go_bind (coinMarshal W (MinBidIncrement m)) (\<lambda>c.
         let out = 0x22 # length_prefixed c @ out in
         go_bind (coinMarshal W (ReserveFee m)) (\<lambda>c.
           let out = 0x1a # length_prefixed c @ out;
               out = escrow_field (EscrowAccountAddress m) @ out in
           Ret (max_bundle_field (MaxBundleSize m) @ out))))"

definition Params_Marshal :: "wire_ops \<Rightarrow> Params \<Rightarrow> bytes go" where
  "Params_Marshal W m = marshal_sized (Params_Size W m) (Params_MarshalToSizedBuffer W m)"

definition GenesisState_Size :: "wire_ops \<Rightarrow> GenesisState \<Rightarrow> nat" where
  "GenesisState_Size W m = field_size (Params_Size W (GenParams m))"

definition GenesisState_MarshalToSizedBuffer :: "wire_ops \<Rightarrow> GenesisState \<Rightarrow> bytes go" where
  "GenesisState_MarshalToSizedBuffer W m =
     go_bind (Params_MarshalToSizedBuffer W (GenParams m)) (\<lambda>p. Ret (0xa # length_prefixed p))"

definition GenesisState_Marshal :: "wire_ops \<Rightarrow> GenesisState \<Rightarrow> bytes go" where
  "GenesisState_Marshal W m = marshal_sized (GenesisState_Size W m) (GenesisState_MarshalToSizedBuffer W m)"

section \<open>Unmarshal\<close>

definition Params_fields :: "wire_ops \<Rightarrow> Params \<Rightarrow> u32 \<Rightarrow> nat \<Rightarrow> Params action" where
  "Params_fields W m fieldNum wireType =
     (if fieldNum = 1 then
        (if wireType \<noteq> 0 then WrongWireType ''MaxBundleSize''
         else ReadUint32 (\<lambda>v. m\<lparr>MaxBundleSize := v\<rparr>))
      else if fieldNum = 2 then
        (if wireType \<noteq> 2 then WrongWireType ''EscrowAccountAddress''
         else ReadPayload (\<lambda>bz. Ret (m\<lparr>EscrowAccountAddress := Some bz\<rparr>)))
      else if fieldNum = 3 then
        (if wireType \<noteq> 2 then WrongWireType ''ReserveFee''
         else ReadPayload (\<lambda>bz. go_bind (coinUnmarshal W (ReserveFee m) bz) (\<lambda>c. Ret (m\<lparr>ReserveFee := c\<rparr>))))
      else if fieldNum = 4 then
        (if wireType \<noteq> 2 then WrongWireType ''MinBidIncrement''
         else ReadPayload (\<lambda>bz. go_bind (coinUnmarshal W (MinBidIncrement m) bz)
           (\<lambda>c. Ret (m\<lparr>MinBidIncrement := c\<rparr>))))
      else if fieldNum = 5 then
        (if wireType \<noteq> 0 then WrongWireType ''FrontRunningProtection''
         else ReadVarint (\<lambda>v. m\<lparr>FrontRunningProtection := (v \<noteq> 0)\<rparr>))
      else if fieldNum = 6 then
        (if wireType \<noteq> 2 then WrongWireType ''ProposerFee''
         else ReadPayload (\<lambda>bz. go_bind (decUnmarshal W (ProposerFee m) bz) (\<lambda>d. Ret (m\<lparr>ProposerFee := d\<rparr>))))
      else SkipUnknown)"

definition Params_Unmarshal :: "wire_ops \<Rightarrow> Params \<Rightarrow> bytes \<Rightarrow> Params go" where
  "Params_Unmarshal W = unmarshal ''Params'' (Params_fields W)"

definition GenesisState_fields :: "wire_ops \<Rightarrow> GenesisState \<Rightarrow> u32 \<Rightarrow> nat \<Rightarrow> GenesisState action" where
  "GenesisState_fields W m fieldNum wireType =
     (if fieldNum = 1 then
        (if wireType \<noteq> 2 then WrongWireType ''Params''
         else ReadPayload (\<lambda>bz. go_bind (Params_Unmarshal W (GenParams m) bz) (\<lambda>p. Ret (m\<lparr>GenParams := p\<rparr>))))
      else SkipUnknown)"

definition GenesisState_Unmarshal :: "wire_ops \<Rightarrow> GenesisState \<Rightarrow> bytes \<Rightarrow> GenesisState go" where
  "GenesisState_Unmarshal W = unmarshal ''GenesisState'' (GenesisState_fields W)"

section \<open>Round trip\<close>

text \<open>Parameters that the store can hold: amounts present and within the bit limit.\<close>

definition storable :: "Params \<Rightarrow> bool" where
  "storable p \<longleftrightarrow> EscrowAccountAddress p \<noteq> Some [] \<and>
     (\<exists>a. Amount (ReserveFee p) = Some a \<and> \<bar>a\<bar> < 2 ^ 255) \<and>
     (\<exists>a. Amount (MinBidIncrement p) = Some a \<and> \<bar>a\<bar> < 2 ^ 255) \<and>
     (\<exists>x. ProposerFee p = Dec x \<and> \<bar>x\<bar> < 2 ^ 255)"

lemma wire_lawsD:
  assumes "wire_laws W"
  shows "\<bar>a\<bar> < 2 ^ 255 \<Longrightarrow> Amount c = Some a \<Longrightarrow> \<exists>bz. coinMarshal W c = Ret bz \<and>
      length bz = coinSize W c \<and> coinUnmarshal W zero_coin bz = Ret c"
    and "\<bar>x\<bar> < 2 ^ 255 \<Longrightarrow> \<exists>bz. decMarshal W (Dec x) = Ret bz \<and>
      length bz = decSize W (Dec x) \<and> decUnmarshal W DecNil bz = Ret (Dec x)"
proof -
  show "\<bar>a\<bar> < 2 ^ 255 \<Longrightarrow> Amount c = Some a \<Longrightarrow> \<exists>bz. coinMarshal W c = Ret bz \<and>
      length bz = coinSize W c \<and> coinUnmarshal W zero_coin bz = Ret c"
    using assms unfolding wire_laws_def by (cases c) force
  show "\<bar>x\<bar> < 2 ^ 255 \<Longrightarrow> \<exists>bz. decMarshal W (Dec x) = Ret bz \<and>
      length bz = decSize W (Dec x) \<and> decUnmarshal W DecNil bz = Ret (Dec x)"
    using assms unfolding wire_laws_def by blast
qed

text \<open>Every field in front of the rest of the input, optional or not, sets its part of the message.\<close>

lemma ucast_up_down: "ucast (ucast v :: u64) = (v :: u32)"
  by (rule bit_word_eqI) (auto simp: bit_simps)

lemma Params_update_same:
  "MaxBundleSize m = v \<Longrightarrow> m\<lparr>MaxBundleSize := v\<rparr> = m"
  "EscrowAccountAddress m = e \<Longrightarrow> m\<lparr>EscrowAccountAddress := e\<rparr> = m"
  "FrontRunningProtection m = b \<Longrightarrow> m\<lparr>FrontRunningProtection := b\<rparr> = m" for m :: Params
  by auto

lemma resume_Params_fields:
  assumes "length dAtA < 2 ^ 63"
  shows "suffix (max_bundle_field v @ rest) dAtA \<Longrightarrow> MaxBundleSize m = 0 \<Longrightarrow>
      resume nm (Params_fields W) dAtA m (max_bundle_field v @ rest) =
      resume nm (Params_fields W) dAtA (m\<lparr>MaxBundleSize := v\<rparr>) rest"
    and "suffix (escrow_field e @ rest) dAtA \<Longrightarrow> EscrowAccountAddress m = None \<Longrightarrow> e \<noteq> Some [] \<Longrightarrow>
      resume nm (Params_fields W) dAtA m (escrow_field e @ rest) =
      resume nm (Params_fields W) dAtA (m\<lparr>EscrowAccountAddress := e\<rparr>) rest"
    and "suffix (protection_field b @ rest) dAtA \<Longrightarrow> \<not> FrontRunningProtection m \<Longrightarrow>
      resume nm (Params_fields W) dAtA m (protection_field b @ rest) =
      resume nm (Params_fields W) dAtA (m\<lparr>FrontRunningProtection := b\<rparr>) rest"
    and "suffix (0x1a # length_prefixed bz @ rest) dAtA \<Longrightarrow> coinUnmarshal W (ReserveFee m) bz = Ret c \<Longrightarrow>
      resume nm (Params_fields W) dAtA m (0x1a # length_prefixed bz @ rest) =
      resume nm (Params_fields W) dAtA (m\<lparr>ReserveFee := c\<rparr>) rest"
    and "suffix (0x22 # length_prefixed bz @ rest) dAtA \<Longrightarrow> coinUnmarshal W (MinBidIncrement m) bz = Ret c \<Longrightarrow>
      resume nm (Params_fields W) dAtA m (0x22 # length_prefixed bz @ rest) =
      resume nm (Params_fields W) dAtA (m\<lparr>MinBidIncrement := c\<rparr>) rest"
    and "suffix (0x32 # length_prefixed bz @ rest) dAtA \<Longrightarrow> decUnmarshal W (ProposerFee m) bz = Ret d \<Longrightarrow>
      resume nm (Params_fields W) dAtA m (0x32 # length_prefixed bz @ rest) =
      resume nm (Params_fields W) dAtA (m\<lparr>ProposerFee := d\<rparr>) rest"
proof -
  note payload = resume_payload [OF _ assms, where dispatch = "Params_fields W" and name = nm]
  note varint = resume_varint [where dispatch = "Params_fields W" and name = nm and dAtA = dAtA]
  show "suffix (max_bundle_field v @ rest) dAtA \<Longrightarrow> MaxBundleSize m = 0 \<Longrightarrow>
      resume nm (Params_fields W) dAtA m (max_bundle_field v @ rest) =
      resume nm (Params_fields W) dAtA (m\<lparr>MaxBundleSize := v\<rparr>) rest"
    using varint [where v = "0x8" and x = "ucast v" and m = m and rest = rest]
    by (cases "v = 0") (simp_all add: max_bundle_field_def Params_fields_def ucast_up_down Params_update_same)
  show "suffix (escrow_field e @ rest) dAtA \<Longrightarrow> EscrowAccountAddress m = None \<Longrightarrow> e \<noteq> Some [] \<Longrightarrow>
      resume nm (Params_fields W) dAtA m (escrow_field e @ rest) =
      resume nm (Params_fields W) dAtA (m\<lparr>EscrowAccountAddress := e\<rparr>) rest"
    using payload [where v = "0x12" and m = m and rest = rest and bz = "the e"]
    by (cases e) (simp_all add: escrow_field_def Params_fields_def Params_update_same)
  show "suffix (protection_field b @ rest) dAtA \<Longrightarrow> \<not> FrontRunningProtection m \<Longrightarrow>
      resume nm (Params_fields W) dAtA m (protection_field b @ rest) =
      resume nm (Params_fields W) dAtA (m\<lparr>FrontRunningProtection := b\<rparr>) rest"
    using varint [where v = "0x28" and x = 1 and m = m and rest = rest]
    by (cases b) (simp_all add: protection_field_def Params_fields_def encode_small Params_update_same)
  show "suffix (0x1a # length_prefixed bz @ rest) dAtA \<Longrightarrow> coinUnmarshal W (ReserveFee m) bz = Ret c \<Longrightarrow>
      resume nm (Params_fields W) dAtA m (0x1a # length_prefixed bz @ rest) =
      resume nm (Params_fields W) dAtA (m\<lparr>ReserveFee := c\<rparr>) rest"
    using payload [where v = "0x1a" and m = m and rest = rest and bz = bz]
    by (simp add: Params_fields_def)
  show "suffix (0x22 # length_prefixed bz @ rest) dAtA \<Longrightarrow> coinUnmarshal W (MinBidIncrement m) bz = Ret c \<Longrightarrow>
      resume nm (Params_fields W) dAtA m (0x22 # length_prefixed bz @ rest) =
      resume nm (Params_fields W) dAtA (m\<lparr>MinBidIncrement := c\<rparr>) rest"
    using payload [where v = "0x22" and m = m and rest = rest and bz = bz]
    by (simp add: Params_fields_def)
  show "suffix (0x32 # length_prefixed bz @ rest) dAtA \<Longrightarrow> decUnmarshal W (ProposerFee m) bz = Ret d \<Longrightarrow>
      resume nm (Params_fields W) dAtA m (0x32 # length_prefixed bz @ rest) =
      resume nm (Params_fields W) dAtA (m\<lparr>ProposerFee := d\<rparr>) rest"
    using payload [where v = "0x32" and m = m and rest = rest and bz = bz]
    by (simp add: Params_fields_def)
qed

lemma length_optional_fields:
  "length (max_bundle_field v) = (if v \<noteq> 0 then 1 + sov (ucast v) else 0)"
  "length (escrow_field e) = (case e of None \<Rightarrow> 0 | Some a \<Rightarrow> if 0 < length a then field_size (length a) else 0)"
  "length (protection_field b) = (if b then 2 else 0)"
  using length_prefixed_size
  by (auto simp: max_bundle_field_def escrow_field_def protection_field_def length_encode_varint split: option.split)

text \<open>The encoding of storable parameters, field by field.\<close>

lemma Params_encoding:
  assumes "wire_laws W" and "storable p"
  obtains r c d where "coinUnmarshal W zero_coin r = Ret (ReserveFee p)"
    and "coinUnmarshal W zero_coin c = Ret (MinBidIncrement p)"
    and "decUnmarshal W DecNil d = Ret (ProposerFee p)"
    and "Params_MarshalToSizedBuffer W p = Ret (max_bundle_field (MaxBundleSize p) @
      escrow_field (EscrowAccountAddress p) @ 0x1a # length_prefixed r @ 0x22 # length_prefixed c @
      protection_field (FrontRunningProtection p) @ 0x32 # length_prefixed d @ [])"
    and "length (max_bundle_field (MaxBundleSize p) @
      escrow_field (EscrowAccountAddress p) @ 0x1a # length_prefixed r @ 0x22 # length_prefixed c @
      protection_field (FrontRunningProtection p) @ 0x32 # length_prefixed d @ []) = Params_Size W p"
proof -
  from assms(2) obtain a b x where "Amount (ReserveFee p) = Some a" "\<bar>a\<bar> < 2 ^ 255"
    "Amount (MinBidIncrement p) = Some b" "\<bar>b\<bar> < 2 ^ 255" "ProposerFee p = Dec x" "\<bar>x\<bar> < 2 ^ 255"
    by (auto simp: storable_def)
  with wire_lawsD [OF assms(1)] obtain r c d where
    r: "coinMarshal W (ReserveFee p) = Ret r" "length r = coinSize W (ReserveFee p)"
      "coinUnmarshal W zero_coin r = Ret (ReserveFee p)" and
    c: "coinMarshal W (MinBidIncrement p) = Ret c" "length c = coinSize W (MinBidIncrement p)"
      "coinUnmarshal W zero_coin c = Ret (MinBidIncrement p)" and
    d: "decMarshal W (ProposerFee p) = Ret d" "length d = decSize W (ProposerFee p)"
      "decUnmarshal W DecNil d = Ret (ProposerFee p)"
    by metis
  show thesis
  proof (rule that [OF r(3) c(3) d(3)])
    show "Params_MarshalToSizedBuffer W p = Ret (max_bundle_field (MaxBundleSize p) @
      escrow_field (EscrowAccountAddress p) @ 0x1a # length_prefixed r @ 0x22 # length_prefixed c @
      protection_field (FrontRunningProtection p) @ 0x32 # length_prefixed d @ [])"
      using r c d by (simp add: Params_MarshalToSizedBuffer_def Let_def length_prefixed_def)
    show "length (max_bundle_field (MaxBundleSize p) @
      escrow_field (EscrowAccountAddress p) @ 0x1a # length_prefixed r @ 0x22 # length_prefixed c @
      protection_field (FrontRunningProtection p) @ 0x32 # length_prefixed d @ []) = Params_Size W p"
      using r(2) c(2) d(2) length_prefixed_size [of r] length_prefixed_size [of c] length_prefixed_size [of d]
      by (simp add: Params_Size_def length_optional_fields)
  qed
qed

lemma Params_store_roundtrip:
  assumes "wire_laws W" and "storable p" and "Params_Size W p < 2 ^ 63"
  shows "\<exists>bz. Params_Marshal W p = Ret bz \<and> length bz = Params_Size W p \<and>
    Params_Unmarshal W zero_params bz = Ret p"
proof -
  obtain r c d where dec: "coinUnmarshal W zero_coin r = Ret (ReserveFee p)"
      "coinUnmarshal W zero_coin c = Ret (MinBidIncrement p)"
      "decUnmarshal W DecNil d = Ret (ProposerFee p)"
    and enc: "Params_MarshalToSizedBuffer W p = Ret (max_bundle_field (MaxBundleSize p) @
      escrow_field (EscrowAccountAddress p) @ 0x1a # length_prefixed r @ 0x22 # length_prefixed c @
      protection_field (FrontRunningProtection p) @ 0x32 # length_prefixed d @ [])"
    and len: "length (max_bundle_field (MaxBundleSize p) @
      escrow_field (EscrowAccountAddress p) @ 0x1a # length_prefixed r @ 0x22 # length_prefixed c @
      protection_field (FrontRunningProtection p) @ 0x32 # length_prefixed d @ []) = Params_Size W p"
    by (rule Params_encoding [OF assms(1,2)])
  define t5 where "t5 = 0x32 # length_prefixed d @ []"
  define t4 where "t4 = protection_field (FrontRunningProtection p) @ t5"
  define t3 where "t3 = 0x22 # length_prefixed c @ t4"
  define t2 where "t2 = 0x1a # length_prefixed r @ t3"
  define t1 where "t1 = escrow_field (EscrowAccountAddress p) @ t2"
  define t0 where "t0 = max_bundle_field (MaxBundleSize p) @ t1"
  define bz where "bz = t0"
  note defs = bz_def t0_def t1_def t2_def t3_def t4_def t5_def
  have enc': "Params_MarshalToSizedBuffer W p = Ret bz" and len': "length bz = Params_Size W p"
    using enc len by (simp_all only: defs)
  have s0: "suffix t0 bz" by (simp add: bz_def)
  then have s1: "suffix t1 bz" unfolding t0_def by (rule suffix_appendD)
  then have s2: "suffix t2 bz" unfolding t1_def by (rule suffix_appendD)
  then have s3: "suffix t3 bz" unfolding t2_def by (rule suffix_appendD [OF suffix_ConsD])
  then have s4: "suffix t4 bz" unfolding t3_def by (rule suffix_appendD [OF suffix_ConsD])
  then have s5: "suffix t5 bz" unfolding t4_def by (rule suffix_appendD)
  have short: "length bz < 2 ^ 63" using len' assms(3) by simp
  note steps = resume_Params_fields [OF short, where nm = "''Params''" and W = W]
  have esc: "EscrowAccountAddress p \<noteq> Some []" using assms(2) by (simp add: storable_def)
  let ?u = "resume ''Params'' (Params_fields W) bz"
  have e0: "?u m t0 = ?u (m\<lparr>MaxBundleSize := MaxBundleSize p\<rparr>) t1" if "MaxBundleSize m = 0" for m
    using steps(1) [OF s0 [unfolded t0_def] that] by (simp only: t0_def)
  have e1: "?u m t1 = ?u (m\<lparr>EscrowAccountAddress := EscrowAccountAddress p\<rparr>) t2"
    if "EscrowAccountAddress m = None" for m
    using steps(2) [OF s1 [unfolded t1_def] that esc] by (simp only: t1_def)
  have e2: "?u m t2 = ?u (m\<lparr>ReserveFee := ReserveFee p\<rparr>) t3" if "ReserveFee m = zero_coin" for m
    using steps(4) [OF s2 [unfolded t2_def], of m] dec(1) that by (simp add: t2_def)
  have e3: "?u m t3 = ?u (m\<lparr>MinBidIncrement := MinBidIncrement p\<rparr>) t4" if "MinBidIncrement m = zero_coin" for m
    using steps(5) [OF s3 [unfolded t3_def], of m] dec(2) that by (simp add: t3_def)
  have e4: "?u m t4 = ?u (m\<lparr>FrontRunningProtection := FrontRunningProtection p\<rparr>) t5"
    if "\<not> FrontRunningProtection m" for m
    using steps(3) [OF s4 [unfolded t4_def] that] by (simp only: t4_def)
  have e5: "?u m t5 = Ret (m\<lparr>ProposerFee := ProposerFee p\<rparr>)" if "ProposerFee m = DecNil" for m
    using steps(6) [OF s5 [unfolded t5_def], of m] dec(3) that by (simp add: t5_def)
  have "Params_Unmarshal W zero_params bz = ?u zero_params t0"
    by (simp add: Params_Unmarshal_def unmarshal_def resume_def bz_def)
  also have "\<dots> = Ret p"
    by (subst e0 e1 e2 e3 e4 e5, simp add: zero_params_def)+ (simp add: zero_params_def)
  finally have "Params_Unmarshal W zero_params bz = Ret p" .
  moreover have "Params_Marshal W p = Ret bz"
    using enc' len' by (simp add: Params_Marshal_def marshal_sized_exact)
  ultimately show ?thesis using len' by blast
qed

text \<open>The parameters as part of another message.\<close>

lemma Params_body:
  assumes "wire_laws W" and "storable p" and "Params_Size W p < 2 ^ 63"
  obtains bz where "Params_MarshalToSizedBuffer W p = Ret bz" and "length bz = Params_Size W p"
    and "Params_Unmarshal W zero_params bz = Ret p"
proof -
  obtain bz where bz: "Params_Marshal W p = Ret bz" "length bz = Params_Size W p"
      "Params_Unmarshal W zero_params bz = Ret p"
    using Params_store_roundtrip [OF assms] by blast
  obtain bz' where "Params_MarshalToSizedBuffer W p = Ret bz'" "length bz' = Params_Size W p"
    using Params_encoding [OF assms(1,2)] by metis
  then show thesis using that bz by (simp add: Params_Marshal_def marshal_sized_exact)
qed

text \<open>A genesis state with storable parameters is written in exactly the bytes its size
  announces, and reading them back gives the same genesis state.\<close>

lemma GenesisState_roundtrip:
  assumes "wire_laws W" and "storable (GenParams g)" and "GenesisState_Size W g < 2 ^ 63"
  shows "\<exists>bz. GenesisState_Marshal W g = Ret bz \<and> length bz = GenesisState_Size W g \<and>
    GenesisState_Unmarshal W zero_genesis bz = Ret g"
proof -
  have sz: "Params_Size W (GenParams g) < 2 ^ 63"
    using assms(3) by (simp add: GenesisState_Size_def field_size_def)
  obtain p where body: "Params_MarshalToSizedBuffer W (GenParams g) = Ret p"
    and p: "length p = Params_Size W (GenParams g)" "Params_Unmarshal W zero_params p = Ret (GenParams g)"
    by (rule Params_body [OF assms(1,2) sz])
  define bz where "bz = 0xa # length_prefixed p @ []"
  have len: "length bz = GenesisState_Size W g"
    using length_prefixed_size [of p] p(1) by (simp add: bz_def GenesisState_Size_def)
  have suf: "suffix (ucast (0xa :: u64) # length_prefixed p @ []) bz" by (simp add: bz_def)
  have "resume ''GenesisState'' (GenesisState_fields W) bz zero_genesis (ucast (0xa :: u64) # length_prefixed p @ []) =
      resume ''GenesisState'' (GenesisState_fields W) bz (zero_genesis\<lparr>GenParams := GenParams g\<rparr>) []"
    by (rule resume_payload [OF suf, where f = "\<lambda>bz. go_bind (Params_Unmarshal W (GenParams zero_genesis) bz)
          (\<lambda>p. Ret (zero_genesis\<lparr>GenParams := p\<rparr>))"])
       (use len assms(3) p(2) in \<open>simp_all add: GenesisState_fields_def zero_genesis_def\<close>)
  then have "resume ''GenesisState'' (GenesisState_fields W) bz zero_genesis bz =
      Ret (zero_genesis\<lparr>GenParams := GenParams g\<rparr>)"
    by (simp only: resume_done bz_def) simp
  then have "GenesisState_Unmarshal W zero_genesis bz = Ret g"
    by (simp add: GenesisState_Unmarshal_def unmarshal_def resume_def zero_genesis_def)
  moreover have "GenesisState_Marshal W g = Ret bz"
    using body len by (simp add: GenesisState_Marshal_def GenesisState_MarshalToSizedBuffer_def
      marshal_sized_exact bz_def)
  ultimately show ?thesis using len by blast
qed

lemma GenesisState_roundtrip_sample:
  "\<exists>bz. GenesisState_Marshal stroke_wire (NewGenesisState (NewParams 2 (Some [1]) (coin_of ''stake'' 1)
       (coin_of ''stake'' 1) True (Dec 0))) = Ret bz \<and>
     length bz = GenesisState_Size stroke_wire (NewGenesisState (NewParams 2 (Some [1]) (coin_of ''stake'' 1)
       (coin_of ''stake'' 1) True (Dec 0))) \<and>
     GenesisState_Unmarshal stroke_wire zero_genesis bz = Ret (NewGenesisState (NewParams 2 (Some [1])
       (coin_of ''stake'' 1) (coin_of ''stake'' 1) True (Dec 0)))"
  by (rule GenesisState_roundtrip [OF stroke_wire_laws])
     (simp_all add: NewGenesisState_def NewParams_def storable_def GenesisState_Size_def Params_Size_def
       field_size_def sov_small stroke_wire_def stroke_bytes_def)

end
