(* ===== verification/Auction_Keeper.thy ===== *)
theory Auction_Keeper
  imports Mev_Lane Auction_Params
begin

text \<open>
  The auction module (\<open>x/auction/keeper\<close>, \<open>ante\<close>, \<open>rewards\<close>, \<open>types/msgs.go\<close>): its parameters in the
  store, the checks a bid has to pass, the payment of a bid, the messages, queries and genesis, and
  the ante decorator that ties them to the MEV lane. The store, the bank, the account keeper and
  the rewards provider's modules are parameters (\<open>keeper_env\<close>). The lemmas characterise accepted
  bids, show that a payment splits the bid without remainder, decide which bundles the
  front-running check admits, and show what the timeout check misses because of the check before it.
\<close>

section \<open>The environment\<close>

text \<open>
  \<open>kvGet\<close> and \<open>kvSet\<close> are the store of the module, the bank's operations return the context with the
  store after the call; \<open>moduleAddress\<close> is \<open>GetModuleAddress\<close> of the auction module.
\<close>

record 'ctx keeper_env =
  kvGet :: "'ctx \<Rightarrow> bytes \<Rightarrow> bytes option"
  kvSet :: "'ctx \<Rightarrow> bytes \<Rightarrow> bytes \<Rightarrow> 'ctx"
  moduleAddress :: "string \<Rightarrow> bytes option"
  sendCoinsToModule :: "'ctx \<Rightarrow> bytes \<Rightarrow> string \<Rightarrow> Coin list \<Rightarrow> 'ctx \<times> unit go"
  sendCoins :: "'ctx \<Rightarrow> bytes \<Rightarrow> bytes \<Rightarrow> Coin list \<Rightarrow> 'ctx \<times> unit go"
  GetRewardsAddress :: "'ctx \<Rightarrow> bytes go"
  emitEvent :: "'ctx \<Rightarrow> string \<Rightarrow> (string \<times> string) list \<Rightarrow> 'ctx"

text \<open>The keeper: its environment, the libraries it calls and the authority.\<close>

record 'ctx Keeper =
  kEnv :: "'ctx keeper_env"
  kCoins :: coin_ops
  kDecs :: dec_ops
  kAddrs :: addr_ops
  kWire :: wire_ops
  kAuthority :: string

definition ModuleName :: string where
  "ModuleName = ''auction''"

definition KeyParams :: bytes where
  "KeyParams = [1]"

text \<open>A nil slice has no elements.\<close>

definition slice_bytes :: "bytes option \<Rightarrow> bytes" where
  "slice_bytes v = (case v of None \<Rightarrow> [] | Some bz \<Rightarrow> bz)"

text \<open>Sequencing of calls that change the context, also when they fail.\<close>

fun and_then :: "'ctx \<times> 'a go \<Rightarrow> ('ctx \<Rightarrow> 'a \<Rightarrow> 'ctx \<times> 'b go) \<Rightarrow> 'ctx \<times> 'b go" where
  "and_then (ctx, Ret x) f = f ctx x"
| "and_then (ctx, Err e) f = (ctx, Err e)"
| "and_then (ctx, Panic) f = (ctx, Panic)"

lemma and_then_Ret_iff [go_simps]:
  "and_then m f = (c, Ret y) \<longleftrightarrow> (\<exists>c1 x. m = (c1, Ret x) \<and> f c1 x = (c, Ret y))"
  by (cases m; cases "snd m") auto

definition NewKeeperWithRewardsAddressProvider ::
    "'ctx keeper_env \<Rightarrow> coin_ops \<Rightarrow> dec_ops \<Rightarrow> addr_ops \<Rightarrow> wire_ops \<Rightarrow> string \<Rightarrow> 'ctx Keeper go" where
  "NewKeeperWithRewardsAddressProvider E K D A W authority =
     (case addrFromBech32 A authority of
        Panic \<Rightarrow> Panic
      | Err _ \<Rightarrow> Panic
      | Ret _ \<Rightarrow>
          if moduleAddress E ModuleName = None then Panic
          else Ret \<lparr> kEnv = E, kCoins = K, kDecs = D, kAddrs = A, kWire = W, kAuthority = authority \<rparr>)"

text \<open>The two rewards providers, as instances of \<open>GetRewardsAddress\<close>.\<close>

definition Fixed_GetRewardsAddress :: "bytes \<Rightarrow> 'ctx \<Rightarrow> bytes go" where
  "Fixed_GetRewardsAddress rewardsAddress ctx =
     (if length rewardsAddress = 0 then Err (Errorf ''rewards address is empty'') else Ret rewardsAddress)"

text \<open>
  The modules behind the proposer's provider: the consensus address of the previous proposer, and
  the operator address of a validator.
\<close>

definition Proposer_GetRewardsAddress ::
    "addr_ops \<Rightarrow> ('ctx \<Rightarrow> bytes go) \<Rightarrow> ('ctx \<Rightarrow> bytes \<Rightarrow> string go) \<Rightarrow> 'ctx \<Rightarrow> bytes go" where
  "Proposer_GetRewardsAddress A getPreviousProposerConsAddr getOperatorByConsAddr ctx =
     go_bind (getPreviousProposerConsAddr ctx) (\<lambda>prevPropConsAddr.
     go_bind (getOperatorByConsAddr ctx prevPropConsAddr) (\<lambda>operator.
       addrFromBech32 A operator))"

definition NewKeeper ::
    "'ctx keeper_env \<Rightarrow> coin_ops \<Rightarrow> dec_ops \<Rightarrow> addr_ops \<Rightarrow> wire_ops \<Rightarrow> ('ctx \<Rightarrow> bytes go) \<Rightarrow>
     ('ctx \<Rightarrow> bytes \<Rightarrow> string go) \<Rightarrow> string \<Rightarrow> 'ctx Keeper go" where
  "NewKeeper E K D A W distr staking authority =
     NewKeeperWithRewardsAddressProvider
       (E\<lparr>GetRewardsAddress := Proposer_GetRewardsAddress A distr staking\<rparr>) K D A W authority"

section \<open>Parameters in the store\<close>

definition GetParams :: "'ctx Keeper \<Rightarrow> 'ctx \<Rightarrow> Params go" where
  "GetParams k ctx =
     (let bz = slice_bytes (kvGet (kEnv k) ctx KeyParams) in
      if length bz = 0 then Err (Errorf ''no params found for the auction module'')
      else Params_Unmarshal (kWire k) zero_params bz)"

definition SetParams :: "'ctx Keeper \<Rightarrow> 'ctx \<Rightarrow> Params \<Rightarrow> 'ctx \<times> unit go" where
  "SetParams k ctx params =
     (case Params_Marshal (kWire k) params of
        Panic \<Rightarrow> (ctx, Panic)
      | Err e \<Rightarrow> (ctx, Err e)
      | Ret bz \<Rightarrow> (kvSet (kEnv k) ctx KeyParams bz, Ret ()))"

definition GetMaxBundleSize :: "'ctx Keeper \<Rightarrow> 'ctx \<Rightarrow> u32 go" where
  "GetMaxBundleSize k ctx = go_bind (GetParams k ctx) (\<lambda>p. Ret (MaxBundleSize p))"

definition GetEscrowAccount :: "'ctx Keeper \<Rightarrow> 'ctx \<Rightarrow> bytes go" where
  "GetEscrowAccount k ctx = go_bind (GetParams k ctx) (\<lambda>p. Ret (slice_bytes (EscrowAccountAddress p)))"

definition GetReserveFee :: "'ctx Keeper \<Rightarrow> 'ctx \<Rightarrow> Coin go" where
  "GetReserveFee k ctx = go_bind (GetParams k ctx) (\<lambda>p. Ret (ReserveFee p))"

definition GetMinBidIncrement :: "'ctx Keeper \<Rightarrow> 'ctx \<Rightarrow> Coin go" where
  "GetMinBidIncrement k ctx = go_bind (GetParams k ctx) (\<lambda>p. Ret (MinBidIncrement p))"

definition GetProposerFee :: "'ctx Keeper \<Rightarrow> 'ctx \<Rightarrow> LegacyDec go" where
  "GetProposerFee k ctx = go_bind (GetParams k ctx) (\<lambda>p. Ret (ProposerFee p))"

definition FrontRunningProtectionEnabled :: "'ctx Keeper \<Rightarrow> 'ctx \<Rightarrow> bool go" where
  "FrontRunningProtectionEnabled k ctx = go_bind (GetParams k ctx) (\<lambda>p. Ret (FrontRunningProtection p))"

definition Auction_InitGenesis :: "'ctx Keeper \<Rightarrow> 'ctx \<Rightarrow> GenesisState \<Rightarrow> 'ctx \<times> unit go" where
  "Auction_InitGenesis k ctx gs =
     (case SetParams k ctx (GenParams gs) of
        (ctx', Ret _) \<Rightarrow> (ctx', Ret ())
      | (ctx', _) \<Rightarrow> (ctx', Panic))"

definition Auction_ExportGenesis :: "'ctx Keeper \<Rightarrow> 'ctx \<Rightarrow> GenesisState go" where
  "Auction_ExportGenesis k ctx =
     (case GetParams k ctx of Ret params \<Rightarrow> Ret (NewGenesisState params) | _ \<Rightarrow> Panic)"

text \<open>The response of the query: the parameters and the escrow account in textual form.\<close>

definition Query_Params :: "'ctx Keeper \<Rightarrow> 'ctx \<Rightarrow> QueryParamsResponse go" where
  "Query_Params k ctx =
     go_bind (GetParams k ctx) (\<lambda>params.
       Ret \<lparr> RespParams = params,
         EscrowAddressString = addrString (kAddrs k) (slice_bytes (EscrowAccountAddress params)) \<rparr>)"

section \<open>Paying a bid\<close>

definition SendBid :: "'ctx Keeper \<Rightarrow> 'ctx \<Rightarrow> bytes \<Rightarrow> bytes \<Rightarrow> Coin list \<Rightarrow> 'ctx \<times> unit go" where
  "SendBid k ctx from to bid =
     (if addrEquals (kAddrs k) (slice_bytes (moduleAddress (kEnv k) ModuleName)) to
      then sendCoinsToModule (kEnv k) ctx from ModuleName bid
      else sendCoins (kEnv k) ctx from to bid)"

text \<open>\<open>IsZero\<close> of a nil decimal dereferences a nil pointer.\<close>

definition dec_IsZero :: "dec_ops \<Rightarrow> LegacyDec \<Rightarrow> bool go" where
  "dec_IsZero D d = (case d of DecNil \<Rightarrow> Panic | Dec _ \<Rightarrow> Ret (decIsZero D d))"

text \<open>The share of the proposer, and what is left for the escrow account.\<close>

definition proposer_reward :: "coin_ops \<Rightarrow> DecCoin list \<Rightarrow> LegacyDec \<Rightarrow> Coin list go" where
  "proposer_reward K bid fee =
     go_bind (decCoinsMulDecTruncate K bid fee) (\<lambda>share.
     go_bind (decCoinsTruncate K share) (\<lambda>(reward, _). Ret reward))"

definition escrow_reward :: "coin_ops \<Rightarrow> DecCoin list \<Rightarrow> Coin list \<Rightarrow> Coin list go" where
  "escrow_reward K bid proposerReward =
     go_bind (newDecCoinsFromCoins K proposerReward) (\<lambda>paid.
     go_bind (decCoinsSub K bid paid) (\<lambda>escrowTotal.
     go_bind (decCoinsTruncate K escrowTotal) (\<lambda>(reward, _). Ret reward)))"

definition ExtractBid :: "'ctx Keeper \<Rightarrow> 'ctx \<Rightarrow> bytes \<Rightarrow> Coin \<Rightarrow> 'ctx \<times> unit go" where
  "ExtractBid k ctx bidder bid =
     and_then (ctx, GetParams k ctx) (\<lambda>ctx params.
     let escrowAddress = slice_bytes (EscrowAccountAddress params) in
     and_then (ctx, dec_IsZero (kDecs k) (ProposerFee params)) (\<lambda>ctx zero.
       if zero then
         and_then (ctx, newCoins (kCoins k) [bid]) (\<lambda>ctx coins. SendBid k ctx bidder escrowAddress coins)
       else
         and_then (ctx, case GetRewardsAddress (kEnv k) ctx of
             Ret a \<Rightarrow> Ret a | Err _ \<Rightarrow> Ret escrowAddress | Panic \<Rightarrow> Panic) (\<lambda>ctx rewardsAddress.
         and_then (ctx, newDecCoinsFromCoins (kCoins k) [bid]) (\<lambda>ctx decBid.
         and_then (ctx, proposer_reward (kCoins k) decBid (ProposerFee params)) (\<lambda>ctx proposerReward.
         and_then (SendBid k ctx bidder rewardsAddress proposerReward) (\<lambda>ctx _.
         and_then (ctx, escrow_reward (kCoins k) decBid proposerReward) (\<lambda>ctx escrowReward.
           SendBid k ctx bidder escrowAddress escrowReward)))))))"

section \<open>Validating a bid\<close>

definition ValidateAuctionBid :: "'ctx Keeper \<Rightarrow> 'ctx \<Rightarrow> bytes \<Rightarrow> Coin \<Rightarrow> Coin \<Rightarrow> 'ctx \<times> unit go" where
  "ValidateAuctionBid k ctx bidder bid highestBid =
     (if coinIsNil (kCoins k) bid then (ctx, Err (Errorf ''bid amount cannot be nil''))
      else
        and_then (ctx, GetReserveFee k ctx) (\<lambda>ctx reserveFee.
        if Denom bid \<noteq> Denom reserveFee
        then (ctx, Err (Errorf ''bid denom (%s) does not match the reserve fee denom (%s)''))
        else
          and_then (ctx, coinIsGTE (kCoins k) bid reserveFee) (\<lambda>ctx gte.
          if \<not> gte then (ctx, Err (Errorf ''bid amount (%s) is less than the reserve fee (%s)''))
          else if \<not> coinIsNil (kCoins k) highestBid then
            and_then (ctx, GetMinBidIncrement k ctx) (\<lambda>ctx minBidIncrement.
            if Denom minBidIncrement \<noteq> Denom bid
            then (ctx, Err (Errorf ''min bid increment denom (%s) does not match the bid denom (%s)''))
            else
              and_then (ctx, coinAdd (kCoins k) highestBid minBidIncrement) (\<lambda>ctx minBid.
              and_then (ctx, coinIsGTE (kCoins k) bid minBid) (\<lambda>ctx gte.
              if \<not> gte
              then (ctx, Err (Errorf ''bid amount (%s) is less than the highest bid (%s) + min bid increment (%s); smallest acceptable bid is (%s)''))
              else ExtractBid k ctx bidder bid)))
          else ExtractBid k ctx bidder bid)))"

text \<open>\<open>filterSigners\<close> deletes keys of its first argument: the result is that map afterwards.\<close>

definition filterSigners :: "string set \<Rightarrow> string set \<Rightarrow> string set" where
  "filterSigners currentSigners txSigners = Set.filter (\<lambda>s. s \<in> txSigners) currentSigners"

text \<open>
  \<open>prevSigners\<close> is at first the map \<open>bundleSigners[0]\<close> itself, so that filtering it changes the
  caller's bundle; once all signers are gone it becomes a new map. \<open>aliased\<close> says that it still is
  the caller's map, whose contents are \<open>first\<close>. The loop returns the contents of that map in the end.
\<close>

fun bundle_signers_loop ::
    "string \<Rightarrow> string set \<Rightarrow> string set \<Rightarrow> bool \<Rightarrow> bool \<Rightarrow> string set list \<Rightarrow> string set \<times> unit go" where
  "bundle_signers_loop bidder first prevSigners aliased seenBidder [] = (first, Ret ())"
| "bundle_signers_loop bidder first prevSigners aliased seenBidder (txSigners # rest) =
     (let prevSigners = filterSigners prevSigners txSigners;
          first = (if aliased then prevSigners else first) in
      if prevSigners = {} then
        (if seenBidder then (first, Err FrontRunningError)
         else
           let prevSigners = filterSigners {bidder} txSigners in
           if prevSigners = {} then (first, Err FrontRunningError)
           else bundle_signers_loop bidder first prevSigners False True rest)
      else bundle_signers_loop bidder first prevSigners aliased seenBidder rest)"

text \<open>The signers of the bundle after the call, and its result.\<close>

definition ValidateAuctionBundle ::
    "'ctx Keeper \<Rightarrow> bytes \<Rightarrow> string set list \<Rightarrow> string set list \<times> unit go" where
  "ValidateAuctionBundle k bidder bundleSigners =
     (case bundleSigners of
        s0 # s1 # rest \<Rightarrow>
          (let b = addrString (kAddrs k) bidder;
               (first, r) = bundle_signers_loop b s0 s0 True (b \<in> s0) (s1 # rest) in
           (first # s1 # rest, r))
      | _ \<Rightarrow> (bundleSigners, Ret ()))"

text \<open>The loop over the timeouts; indexing past the signers panics.\<close>

fun bundle_timeouts_loop :: "string \<Rightarrow> u64 \<Rightarrow> string set list \<Rightarrow> u64 list \<Rightarrow> unit go" where
  "bundle_timeouts_loop bidder bidTimeout signers [] = Ret ()"
| "bundle_timeouts_loop bidder bidTimeout [] (t # ts) = Panic"
| "bundle_timeouts_loop bidder bidTimeout (s # ss) (t # ts) =
     (if bidder \<notin> s then bundle_timeouts_loop bidder bidTimeout ss ts
      else if t \<noteq> bidTimeout
      then Err (Errorf ''searchers must set the timeout of all of their transactions in the bundle to be the same as the bid timeout; got %d, expected %d'')
      else bundle_timeouts_loop bidder bidTimeout ss ts)"

definition ValidateBundleTimeouts :: "'ctx Keeper \<Rightarrow> BidInfo \<Rightarrow> unit go" where
  "ValidateBundleTimeouts k bidInfo =
     bundle_timeouts_loop (addrString (kAddrs k) (Bidder bidInfo)) (Timeout bidInfo)
       (BidSigners bidInfo) (TransactionTimeouts bidInfo)"

text \<open>The checks of the bundle, after the payment.\<close>

definition bundle_checks :: "'ctx Keeper \<Rightarrow> bool \<Rightarrow> BidInfo \<Rightarrow> unit go" where
  "bundle_checks k protectionEnabled bidInfo =
     (if protectionEnabled then
        (case ValidateAuctionBundle k (Bidder bidInfo) (BidSigners bidInfo) of
           (signers, Ret _) \<Rightarrow> ValidateBundleTimeouts k (bidInfo\<lparr>BidSigners := signers\<rparr>)
         | (signers, Err e) \<Rightarrow> Err e
         | (signers, Panic) \<Rightarrow> Panic)
      else ValidateBundleTimeouts k bidInfo)"

definition ValidateBidInfo :: "'ctx Keeper \<Rightarrow> 'ctx \<Rightarrow> Coin \<Rightarrow> BidInfo \<Rightarrow> 'ctx \<times> unit go" where
  "ValidateBidInfo k ctx highestBid bidInfo =
     and_then (ctx, GetMaxBundleSize k ctx) (\<lambda>ctx maxBundleSize.
     if maxBundleSize < of_nat (length (Transactions bidInfo))
     then (ctx, Err (Errorf ''bundle size (%d) exceeds max bundle size (%d)''))
     else
       and_then (ValidateAuctionBid k ctx (Bidder bidInfo) (Bid bidInfo) highestBid) (\<lambda>ctx _.
       and_then (ctx, FrontRunningProtectionEnabled k ctx) (\<lambda>ctx protectionEnabled.
         (ctx, bundle_checks k protectionEnabled bidInfo))))"

section \<open>Messages\<close>

definition MsgUpdateParams_ValidateBasic :: "coin_ops \<Rightarrow> dec_ops \<Rightarrow> addr_ops \<Rightarrow> MsgUpdateParams \<Rightarrow> unit go" where
  "MsgUpdateParams_ValidateBasic K D A m =
     go_bind (wrap_err ''invalid authority address'' (addrFromBech32 A (UpdAuthority m))) (\<lambda>_.
       Params_Validate K D (UpdParams m))"

definition NewMsgAuctionBid :: "addr_ops \<Rightarrow> bytes \<Rightarrow> Coin \<Rightarrow> bytes list \<Rightarrow> MsgAuctionBidData" where
  "NewMsgAuctionBid A bidder bid transactions =
     \<lparr> MsgBidder = addrString A bidder, MsgBid = bid, MsgTransactions = transactions \<rparr>"

text \<open>The error of the parser is dropped: the address is then nil.\<close>

definition msg_signer :: "addr_ops \<Rightarrow> string \<Rightarrow> bytes list go" where
  "msg_signer A s = (case addrFromBech32 A s of Ret a \<Rightarrow> Ret [a] | Err _ \<Rightarrow> Ret [[]] | Panic \<Rightarrow> Panic)"

definition MsgUpdateParams_GetSigners :: "addr_ops \<Rightarrow> MsgUpdateParams \<Rightarrow> bytes list go" where
  "MsgUpdateParams_GetSigners A m = msg_signer A (UpdAuthority m)"

definition MsgAuctionBid_GetSigners :: "addr_ops \<Rightarrow> MsgAuctionBidData \<Rightarrow> bytes list go" where
  "MsgAuctionBid_GetSigners A m = msg_signer A (MsgBidder m)"

fun nonempty_txs :: "bytes list \<Rightarrow> unit go" where
  "nonempty_txs [] = Ret ()"
| "nonempty_txs (t # ts) =
     (if length t = 0 then Err (Errorf ''empty transaction included'') else nonempty_txs ts)"

definition MsgAuctionBid_ValidateBasic :: "coin_ops \<Rightarrow> addr_ops \<Rightarrow> MsgAuctionBidData \<Rightarrow> unit go" where
  "MsgAuctionBid_ValidateBasic K A m =
     go_bind (wrap_err ''invalid bidder address'' (addrFromBech32 A (MsgBidder m))) (\<lambda>_.
       if coinIsNil K (MsgBid m) then Err (Errorf ''no bid included'')
       else
         go_bind (wrap_err ''invalid bid'' (coinValidate K (MsgBid m))) (\<lambda>_.
           if length (MsgTransactions m) = 0 then Err (Errorf ''no transactions included'')
           else nonempty_txs (MsgTransactions m)))"

fun join_strings :: "string \<Rightarrow> string list \<Rightarrow> string" where
  "join_strings sep [] = ''''"
| "join_strings sep [s] = s"
| "join_strings sep (s # t # ss) = s @ sep @ join_strings sep (t # ss)"

text \<open>\<open>H\<close> is SHA-256.\<close>

definition Msg_AuctionBid :: "(bytes \<Rightarrow> bytes) \<Rightarrow> 'ctx Keeper \<Rightarrow> 'ctx \<Rightarrow> MsgAuctionBidData \<Rightarrow> 'ctx \<times> unit go" where
  "Msg_AuctionBid H k ctx m =
     (let bundledTxHashes = map (\<lambda>bz. EncodeToString (H bz)) (MsgTransactions m) in
      (emitEvent (kEnv k) ctx ''auction_bid''
         [(''bidder'', MsgBidder m), (''bid'', coinString (kCoins k) (MsgBid m)),
          (''bundled_txs'', join_strings '','' bundledTxHashes)], Ret ()))"

definition Msg_UpdateParams :: "'ctx Keeper \<Rightarrow> 'ctx \<Rightarrow> MsgUpdateParams \<Rightarrow> 'ctx \<times> unit go" where
  "Msg_UpdateParams k ctx m =
     (if UpdAuthority m \<noteq> kAuthority k
      then (ctx, Err (Errorf ''this message can only be executed by the authority; expected %s, got %s''))
      else SetParams k ctx (UpdParams m))"

section \<open>The ante decorator\<close>

definition nextHeightExecModes :: "ExecMode set" where
  "nextHeightExecModes = {ExecModeCheck, ExecModeReCheck, ExecModeSimulate}"

definition ValidateTimeout :: "'ctx ctx_ops \<Rightarrow> 'ctx \<Rightarrow> i64 \<Rightarrow> unit go" where
  "ValidateTimeout C ctx timeout =
     (let height = BlockHeight C ctx;
          height = (if CtxExecMode C ctx \<in> nextHeightExecModes then height + 1 else height) in
      if height \<noteq> timeout
      then Err (Errorf ''you must set the timeout height to be the next block height got %d, expected %d'')
      else Ret ())"

text \<open>
  The decorator holds the encoder, the keeper behind the interface \<open>AuctionKeeper\<close> (its one method is
  the argument \<open>validateBidInfo\<close>) and the MEV lane: its factory \<open>F\<close> and its state \<open>l\<close>,
  whose mempool \<open>mp\<close> \<open>GetTopAuctionTx\<close> looks at. \<open>top_bid\<close> is the block that finds the highest bid
  the new one has to be compared with (the empty coin when there is none).
\<close>

definition top_bid ::
    "'ctx ctx_ops \<Rightarrow> tx_encoder option \<Rightarrow> 'ctx Factory \<Rightarrow> ('mp, 'ctx, 'z) lane_core_scheme \<Rightarrow> 'mp \<Rightarrow> 'ctx \<Rightarrow>
     tx \<Rightarrow> 'mp \<times> Coin go" where
  "top_bid C txEncoder F l mp ctx t =
     (if CtxExecMode C ctx \<in> nextHeightExecModes then
        (case GetTopAuctionTx l mp ctx of
           (mp', Panic) \<Rightarrow> (mp', Panic)
         | (mp', Err e) \<Rightarrow> (mp', Err e)
         | (mp', Ret None) \<Rightarrow> (mp', Ret zero_coin)
         | (mp', Ret (Some topBidTx)) \<Rightarrow>
             (mp', go_bind (call1 txEncoder topBidTx) (\<lambda>topBidBz.
                   go_bind (call1 txEncoder t) (\<lambda>currentTxBz.
                     if topBidBz \<noteq> currentTxBz then
                       go_bind (GetAuctionBidInfo F topBidTx) (\<lambda>topBidInfo.
                         (case topBidInfo of None \<Rightarrow> Panic | Some b \<Rightarrow> Ret (Bid b)))
                     else Ret zero_coin))))
      else (mp, Ret zero_coin))"

definition Auction_AnteHandle ::
    "'ctx ctx_ops \<Rightarrow> ('ctx \<Rightarrow> Coin \<Rightarrow> BidInfo \<Rightarrow> 'ctx \<times> unit go) \<Rightarrow> tx_encoder option \<Rightarrow> 'ctx Factory \<Rightarrow>
     ('mp, 'ctx, 'z) lane_core_scheme \<Rightarrow> 'mp \<Rightarrow> 'ctx \<Rightarrow> tx \<Rightarrow> bool \<Rightarrow> 'ctx ante_handler \<Rightarrow> 'mp \<times> 'ctx \<times> 'ctx go" where
  "Auction_AnteHandle C validateBidInfo txEncoder F l mp ctx t simulate nxt =
     (case GetAuctionBidInfo F t of
        Panic \<Rightarrow> (mp, ctx, Panic)
      | Err e \<Rightarrow> (mp, ctx, Err e)
      | Ret None \<Rightarrow> (mp, nxt ctx t simulate)
      | Ret (Some bidInfo) \<Rightarrow>
          (case ValidateTimeout C ctx (Timeout bidInfo) of
             Panic \<Rightarrow> (mp, ctx, Panic)
           | Err e \<Rightarrow> (mp, ctx, Err e)
           | Ret _ \<Rightarrow>
               (case top_bid C txEncoder F l mp ctx t of
                  (mp', Panic) \<Rightarrow> (mp', ctx, Panic)
                | (mp', Err e) \<Rightarrow> (mp', ctx, Err e)
                | (mp', Ret topBid) \<Rightarrow>
                    (case validateBidInfo ctx topBid bidInfo of
                       (ctx', Panic) \<Rightarrow> (mp', ctx', Panic)
                     | (ctx', Err e) \<Rightarrow> (mp', ctx', Err (Wrapf ''failed to validate auction bid'' e))
                     | (ctx', Ret _) \<Rightarrow> (mp', nxt ctx' t simulate)))))"

section \<open>The order of a bundle\<close>

text \<open>
  The abstract rule: a non-empty first part of the bundle has a signer in common, everything after
  it is signed by the bidder, and then the bidder is not among the signers of the first transaction.
\<close>

definition bundle_ordered :: "string \<Rightarrow> string set list \<Rightarrow> bool" where
  "bundle_ordered b S \<longleftrightarrow> S = [] \<or> (\<exists>n. 1 \<le> n \<and> n \<le> length S \<and>
     (n = 1 \<or> (\<exists>s. \<forall>X \<in> set (take n S). s \<in> X)) \<and>
     (\<forall>X \<in> set (drop n S). b \<in> X) \<and> (n < length S \<longrightarrow> b \<notin> S ! 0))"

lemma in_filterSigners [simp]: "s \<in> filterSigners P X \<longleftrightarrow> s \<in> P \<and> s \<in> X"
  by (auto simp: filterSigners_def)

lemma filterSigners_empty_iff: "filterSigners P X = {} \<longleftrightarrow> (\<forall>s \<in> P. s \<notin> X)"
  by (auto simp: filterSigners_def)

text \<open>After the bidder has taken over, the loop wants the bidder among all signers.\<close>

lemma bidder_phase:
  "bundle_signers_loop b first {b} False True rest =
     (first, if \<forall>X \<in> set rest. b \<in> X then Ret () else Err FrontRunningError)"
proof (induction rest)
  case Nil
  then show ?case by simp
next
  case (Cons X rest)
  have "filterSigners {b} X = (if b \<in> X then {b} else {})" by (auto simp: filterSigners_def)
  then show ?case using Cons by simp
qed

definition tail_ordered :: "string \<Rightarrow> string set \<Rightarrow> bool \<Rightarrow> string set list \<Rightarrow> bool" where
  "tail_ordered b P seen rest \<longleftrightarrow> (\<exists>n \<le> length rest. (n = 0 \<or> (\<exists>s \<in> P. \<forall>X \<in> set (take n rest). s \<in> X)) \<and>
     (\<forall>X \<in> set (drop n rest). b \<in> X) \<and> (n < length rest \<longrightarrow> \<not> seen))"

lemma tail_ordered_Cons_disjoint:
  assumes "\<forall>s \<in> P. s \<notin> X"
  shows "tail_ordered b P seen (X # rest) \<longleftrightarrow> \<not> seen \<and> (\<forall>Y \<in> set (X # rest). b \<in> Y)"
proof
  assume "tail_ordered b P seen (X # rest)"
  then obtain n where n: "n = 0 \<or> (\<exists>s \<in> P. \<forall>Y \<in> set (take n (X # rest)). s \<in> Y)"
    "\<forall>Y \<in> set (drop n (X # rest)). b \<in> Y" "n < length (X # rest) \<longrightarrow> \<not> seen"
    unfolding tail_ordered_def by blast
  from n(1) assms have "n = 0" by (cases n) auto
  with n(2,3) show "\<not> seen \<and> (\<forall>Y \<in> set (X # rest). b \<in> Y)" by simp
next
  assume "\<not> seen \<and> (\<forall>Y \<in> set (X # rest). b \<in> Y)"
  then show "tail_ordered b P seen (X # rest)"
    unfolding tail_ordered_def by (intro exI [of _ 0]) simp
qed

lemma tail_ordered_Cons_common:
  assumes "s0 \<in> P" and "s0 \<in> X"
  shows "tail_ordered b P seen (X # rest) \<longleftrightarrow> tail_ordered b (filterSigners P X) seen rest"
proof
  assume "tail_ordered b P seen (X # rest)"
  then obtain n where n: "n \<le> length (X # rest)" "n = 0 \<or> (\<exists>s \<in> P. \<forall>Y \<in> set (take n (X # rest)). s \<in> Y)"
    "\<forall>Y \<in> set (drop n (X # rest)). b \<in> Y" "n < length (X # rest) \<longrightarrow> \<not> seen"
    unfolding tail_ordered_def by blast
  show "tail_ordered b (filterSigners P X) seen rest"
    unfolding tail_ordered_def by (rule exI [of _ "n - 1"], cases n) (use n in auto)
next
  assume "tail_ordered b (filterSigners P X) seen rest"
  then obtain n where n: "n \<le> length rest" "n = 0 \<or> (\<exists>s \<in> filterSigners P X. \<forall>Y \<in> set (take n rest). s \<in> Y)"
    "\<forall>Y \<in> set (drop n rest). b \<in> Y" "n < length rest \<longrightarrow> \<not> seen"
    unfolding tail_ordered_def by blast
  show "tail_ordered b P seen (X # rest)"
    unfolding tail_ordered_def by (rule exI [of _ "Suc n"]) (use n assms in auto)
qed

lemma signer_phase:
  "snd (bundle_signers_loop b P P True seen rest) =
     (if tail_ordered b P seen rest then Ret () else Err FrontRunningError)"
proof (induction rest arbitrary: P)
  case Nil
  then show ?case by (simp add: tail_ordered_def)
next
  case (Cons X rest)
  show ?case
  proof (cases "filterSigners P X = {}")
    case True
    have "filterSigners {b} X = (if b \<in> X then {b} else {})" by (auto simp: filterSigners_def)
    with True show ?thesis
      by (simp add: bidder_phase tail_ordered_Cons_disjoint [OF True [unfolded filterSigners_empty_iff]])
  next
    case False
    then obtain s0 where "s0 \<in> P" "s0 \<in> X" by (auto simp: filterSigners_empty_iff)
    with False Cons show ?thesis by (simp add: tail_ordered_Cons_common Let_def)
  qed
qed

lemma bundle_ordered_Cons: "bundle_ordered b (s0 # rest) \<longleftrightarrow> tail_ordered b s0 (b \<in> s0) rest"
proof
  assume "bundle_ordered b (s0 # rest)"
  then obtain n where n: "1 \<le> n" "n \<le> length (s0 # rest)"
    "n = 1 \<or> (\<exists>s. \<forall>X \<in> set (take n (s0 # rest)). s \<in> X)"
    "\<forall>X \<in> set (drop n (s0 # rest)). b \<in> X" "n < length (s0 # rest) \<longrightarrow> b \<notin> s0"
    by (auto simp: bundle_ordered_def)
  show "tail_ordered b s0 (b \<in> s0) rest"
    unfolding tail_ordered_def by (rule exI [of _ "n - 1"], cases n) (use n in auto)
next
  assume "tail_ordered b s0 (b \<in> s0) rest"
  then obtain n where n: "n \<le> length rest" "n = 0 \<or> (\<exists>s \<in> s0. \<forall>X \<in> set (take n rest). s \<in> X)"
    "\<forall>X \<in> set (drop n rest). b \<in> X" "n < length rest \<longrightarrow> b \<notin> s0"
    unfolding tail_ordered_def by blast
  show "bundle_ordered b (s0 # rest)"
    unfolding bundle_ordered_def by (rule disjI2, rule exI [of _ "Suc n"]) (use n in auto)
qed

lemma ValidateAuctionBundle_snd:
  "snd (ValidateAuctionBundle k bidder S) =
     (if bundle_ordered (addrString (kAddrs k) bidder) S then Ret () else Err FrontRunningError)"
proof (cases S rule: list.exhaust [case_names Nil Cons])
  case Nil
  then show ?thesis by (simp add: ValidateAuctionBundle_def bundle_ordered_def)
next
  case (Cons s0 rest)
  show ?thesis
  proof (cases rest)
    case Nil
    with Cons show ?thesis by (simp add: ValidateAuctionBundle_def bundle_ordered_def)
  next
    case (Cons s1 rest')
    then show ?thesis
      using signer_phase [of "addrString (kAddrs k) bidder" s0 "addrString (kAddrs k) bidder \<in> s0" rest]
      unfolding \<open>S = s0 # rest\<close> bundle_ordered_Cons
      by (simp only: ValidateAuctionBundle_def Let_def list.case case_prod_beta snd_conv)
  qed
qed

text \<open>C30: The front-running check accepts a bundle exactly when it satisfies the abstract rule: a
  first part of it has a common signer, and the bidder signs all of the rest, which is empty when
  the bidder signs the first transaction.\<close>

theorem ValidateAuctionBundle_iff:
  "snd (ValidateAuctionBundle k bidder S) = Ret () \<longleftrightarrow> S = [] \<or>
     (\<exists>n. 1 \<le> n \<and> n \<le> length S \<and> (n = 1 \<or> (\<exists>s. \<forall>X \<in> set (take n S). s \<in> X)) \<and>
       (\<forall>X \<in> set (drop n S). addrString (kAddrs k) bidder \<in> X) \<and>
       (n < length S \<longrightarrow> addrString (kAddrs k) bidder \<notin> S ! 0))"
  unfolding ValidateAuctionBundle_snd bundle_ordered_def by simp

section \<open>The laws of the environment\<close>

text \<open>
  Documented: the store returns what was written under a key and keeps the other keys; a transfer
  does not touch the store of the module, and a successful one moves the amount from the sender to
  the receiver. \<open>bal\<close> reads the balance of an address in a denomination.
\<close>

definition env_laws :: "'ctx keeper_env \<Rightarrow> ('ctx \<Rightarrow> bytes \<Rightarrow> string \<Rightarrow> int) \<Rightarrow> bool" where
  "env_laws E bal \<longleftrightarrow>
     (\<forall>c key v key'. kvGet E (kvSet E c key v) key' = (if key' = key then Some v else kvGet E c key')) \<and>
     (\<forall>c a b cs. kvGet E (fst (sendCoins E c a b cs)) = kvGet E c) \<and>
     (\<forall>c a m cs. kvGet E (fst (sendCoinsToModule E c a m cs)) = kvGet E c) \<and>
     (\<forall>c from to d n c'. 0 \<le> n \<and> sendCoins E c from to (one_coin d n) = (c', Ret ()) \<longrightarrow>
        (\<forall>x d'. bal c' x d' = bal c x d' + (if d' = d \<and> x = to then n else 0) - (if d' = d \<and> x = from then n else 0))) \<and>
     (\<forall>c from m d n c'. 0 \<le> n \<and> sendCoinsToModule E c from m (one_coin d n) = (c', Ret ()) \<longrightarrow>
        (\<forall>x d'. bal c' x d' = bal c x d' + (if d' = d \<and> x = slice_bytes (moduleAddress E m) then n else 0)
           - (if d' = d \<and> x = from then n else 0)))"

definition keeper_laws :: "'ctx Keeper \<Rightarrow> ('ctx \<Rightarrow> bytes \<Rightarrow> string \<Rightarrow> int) \<Rightarrow> bool" where
  "keeper_laws k bal \<longleftrightarrow> coin_laws (kCoins k) \<and> dec_laws (kDecs k) \<and> addr_laws (kAddrs k) \<and>
     wire_laws (kWire k) \<and> env_laws (kEnv k) bal"

text \<open>A concrete environment: a store and a ledger; transfers fail when the balance is too small.\<close>

record ledger = value_context +
  LgStore :: "bytes \<Rightarrow> bytes option"
  LgBalance :: "bytes \<Rightarrow> string \<Rightarrow> int"

definition ledger_move :: "bytes \<Rightarrow> bytes \<Rightarrow> Coin \<Rightarrow> ledger \<Rightarrow> ledger" where
  "ledger_move from to c g = (case Amount c of None \<Rightarrow> g | Some n \<Rightarrow>
     g\<lparr>LgBalance := (\<lambda>x d. LgBalance g x d + (if d = Denom c \<and> x = to then n else 0)
        - (if d = Denom c \<and> x = from then n else 0))\<rparr>)"

definition ledger_send :: "ledger \<Rightarrow> bytes \<Rightarrow> bytes \<Rightarrow> Coin list \<Rightarrow> ledger \<times> unit go" where
  "ledger_send g from to cs =
     (if list_all (\<lambda>c. case Amount c of None \<Rightarrow> False | Some n \<Rightarrow> n \<le> LgBalance g from (Denom c)) cs
      then (fold (ledger_move from to) cs g, Ret ()) else (g, Err (ExternalError 5)))"

definition ledger_env :: "bytes option \<Rightarrow> (ledger \<Rightarrow> bytes go) \<Rightarrow> ledger keeper_env" where
  "ledger_env module rewards = \<lparr> kvGet = LgStore, kvSet = (\<lambda>g key v. g\<lparr>LgStore := (LgStore g)(key := Some v)\<rparr>),
     moduleAddress = (\<lambda>_. module),
     sendCoinsToModule = (\<lambda>g from _ cs. ledger_send g from (slice_bytes module) cs),
     sendCoins = ledger_send, GetRewardsAddress = rewards, emitEvent = (\<lambda>g _ _. g) \<rparr>"

definition ledger_ctx :: "ledger ctx_ops" where
  "ledger_ctx = \<lparr> CacheContext = (\<lambda>c. c), WriteCache = (\<lambda>_ c'. c'), ConsBlock = VcBlock,
     BlockHeight = VcHeight, CtxExecMode = VcMode, CtxPriority = VcPriority \<rparr>"

lemma ledger_move_store: "LgStore (fold (ledger_move a b) cs g) = LgStore g"
  by (induction cs arbitrary: g) (auto simp: ledger_move_def split: option.split)

lemma ledger_env_laws: "env_laws (ledger_env module rewards) LgBalance"
  by (auto simp: env_laws_def ledger_env_def ledger_send_def ledger_move_store one_coin_def ledger_move_def
      split: if_splits)

section \<open>Parameters survive the store\<close>

lemma SetParams_GetParams:
  assumes "keeper_laws k bal" and "storable p" and "Params_Size (kWire k) p < 2 ^ 63"
  shows "\<exists>ctx'. SetParams k ctx p = (ctx', Ret ()) \<and> GetParams k ctx' = Ret p"
proof -
  have laws: "wire_laws (kWire k)" "env_laws (kEnv k) bal" using assms(1) by (auto simp: keeper_laws_def)
  from Params_store_roundtrip [OF laws(1) assms(2,3)] obtain bz where
    bz: "Params_Marshal (kWire k) p = Ret bz" "length bz = Params_Size (kWire k) p"
      "Params_Unmarshal (kWire k) zero_params bz = Ret p" by blast
  have "0 < length bz" using bz(2) by (simp add: Params_Size_def field_size_def)
  moreover have "kvGet (kEnv k) (kvSet (kEnv k) ctx KeyParams bz) KeyParams = Some bz"
    using laws(2) by (simp add: env_laws_def)
  ultimately show ?thesis
    using bz(1,3) by (simp add: SetParams_def GetParams_def slice_bytes_def)
qed

text \<open>Exporting the genesis state right after initialising the module from it gives it back.\<close>

lemma genesis_export_import:
  assumes "keeper_laws k bal" and "storable (GenParams g)" and "Params_Size (kWire k) (GenParams g) < 2 ^ 63"
  shows "\<exists>ctx'. Auction_InitGenesis k ctx g = (ctx', Ret ()) \<and> Auction_ExportGenesis k ctx' = Ret g"
  using SetParams_GetParams [OF assms, of ctx]
  by (auto simp: Auction_InitGenesis_def Auction_ExportGenesis_def NewGenesisState_def)

section \<open>A bid is split without remainder\<close>

lemma SendBid_frame: "env_laws (kEnv k) bal \<Longrightarrow> kvGet (kEnv k) (fst (SendBid k ctx a b cs)) = kvGet (kEnv k) ctx"
  by (simp add: SendBid_def env_laws_def)

lemma SendBid_moves:
  assumes "keeper_laws k bal" and "0 \<le> n" and "SendBid k ctx from to (one_coin d n) = (ctx', Ret ())"
  shows "bal ctx' x d' = bal ctx x d' + (if d' = d \<and> x = to then n else 0) - (if d' = d \<and> x = from then n else 0)"
proof -
  have E: "env_laws (kEnv k) bal" and A: "addr_laws (kAddrs k)" using assms(1) by (auto simp: keeper_laws_def)
  show ?thesis
  proof (cases "slice_bytes (moduleAddress (kEnv k) ModuleName) = to")
    case True
    then have "sendCoinsToModule (kEnv k) ctx from ModuleName (one_coin d n) = (ctx', Ret ())"
      using assms(3) A by (simp add: SendBid_def addr_laws_def)
    with E assms(2) True show ?thesis unfolding env_laws_def by metis
  next
    case False
    then have "sendCoins (kEnv k) ctx from to (one_coin d n) = (ctx', Ret ())"
      using assms(3) A by (simp add: SendBid_def addr_laws_def)
    with E assms(2) show ?thesis unfolding env_laws_def by metis
  qed
qed

text \<open>The shares of a positive bid: the truncated fee, and exactly the rest.\<close>

lemma coin_laws_dec:
  assumes "coin_laws K"
  shows "newDecCoinsFromCoins K [] = Ret []"
    and "0 < a \<Longrightarrow> a < 2 ^ 128 \<Longrightarrow> newDecCoinsFromCoins K [coin_of d a] = Ret (one_dec_coin d (a * dec_unit))"
    and "0 < x \<Longrightarrow> x < 2 ^ 128 * dec_unit \<Longrightarrow> 0 < f \<Longrightarrow> f \<le> dec_unit \<Longrightarrow>
      decCoinsMulDecTruncate K [dec_coin_of d x] (Dec f) = Ret (one_dec_coin d (x * f div dec_unit))"
    and "0 \<le> x \<Longrightarrow> x < 2 ^ 128 * dec_unit \<Longrightarrow>
      \<exists>change. decCoinsTruncate K (one_dec_coin d x) = Ret (one_coin d (x div dec_unit), change)"
    and "0 < x \<Longrightarrow> 0 \<le> y \<Longrightarrow> y \<le> x \<Longrightarrow> x < 2 ^ 128 * dec_unit \<Longrightarrow>
      decCoinsSub K [dec_coin_of d x] (one_dec_coin d y) = Ret (one_dec_coin d (x - y))"
  using assms unfolding coin_laws_def by (elim conjE, metis)+

lemma bid_shares:
  assumes K: "coin_laws K" and a: "0 < a" "a < 2 ^ 128" and f: "0 < f" "f \<le> dec_unit"
  shows "newDecCoinsFromCoins K [coin_of d a] = Ret [dec_coin_of d (a * dec_unit)]"
    and "proposer_reward K [dec_coin_of d (a * dec_unit)] (Dec f) = Ret (one_coin d (a * f div dec_unit))"
    and "0 \<le> s \<Longrightarrow> s \<le> a \<Longrightarrow>
      escrow_reward K [dec_coin_of d (a * dec_unit)] (one_coin d s) = Ret (one_coin d (a - s))"
proof -
  have x: "0 < a * dec_unit" "a * dec_unit < 2 ^ 128 * dec_unit" using a by simp_all
  show "newDecCoinsFromCoins K [coin_of d a] = Ret [dec_coin_of d (a * dec_unit)]"
    using coin_laws_dec(2) [OF K a, of d] a by (simp add: one_dec_coin_def)
  have eq: "a * dec_unit * f div dec_unit = a * f" by simp
  have "decCoinsMulDecTruncate K [dec_coin_of d (a * dec_unit)] (Dec f) = Ret (one_dec_coin d (a * f))"
    using coin_laws_dec(3) [OF K x f, of d] by (simp only: eq)
  moreover have le: "a * f \<le> a * dec_unit" using a(1) f(2) by simp
  have af: "0 \<le> a * f" "a * f < 2 ^ 128 * dec_unit"
    using a(1) f(1) le_less_trans [OF le x(2)] by simp_all
  ultimately show "proposer_reward K [dec_coin_of d (a * dec_unit)] (Dec f) = Ret (one_coin d (a * f div dec_unit))"
    using coin_laws_dec(4) [OF K af, of d] by (auto simp: proposer_reward_def)
  show "escrow_reward K [dec_coin_of d (a * dec_unit)] (one_coin d s) = Ret (one_coin d (a - s))"
    if s: "0 \<le> s" "s \<le> a"
  proof -
    have paid: "newDecCoinsFromCoins K (one_coin d s) = Ret (one_dec_coin d (s * dec_unit))"
    proof (cases "s = 0")
      case True
      then show ?thesis using coin_laws_dec(1) [OF K] by (simp add: one_coin_def one_dec_coin_def)
    next
      case False
      then show ?thesis using coin_laws_dec(2) [OF K, of s d] s a by (simp add: one_coin_def)
    qed
    have "decCoinsSub K [dec_coin_of d (a * dec_unit)] (one_dec_coin d (s * dec_unit)) =
        Ret (one_dec_coin d (a * dec_unit - s * dec_unit))"
      by (rule coin_laws_dec(5) [OF K]) (use s x in simp_all)
    moreover have rem: "0 \<le> a * dec_unit - s * dec_unit" "a * dec_unit - s * dec_unit < 2 ^ 128 * dec_unit"
      using s(1) mult_right_mono [OF s(2), of dec_unit] x(2) by linarith+
    obtain change where "decCoinsTruncate K (one_dec_coin d (a * dec_unit - s * dec_unit)) =
        Ret (one_coin d ((a * dec_unit - s * dec_unit) div dec_unit), change)"
      using coin_laws_dec(4) [OF K rem, of d] by blast
    moreover have "(a * dec_unit - s * dec_unit) div dec_unit = a - s"
      unfolding left_diff_distrib [symmetric] by (rule nonzero_mult_div_cancel_right) simp
    ultimately show ?thesis using paid by (simp add: escrow_reward_def)
  qed
qed

text \<open>The receiver of the proposer's share: without a rewards address it is the escrow account.\<close>

definition payee :: "'ctx Keeper \<Rightarrow> 'ctx \<Rightarrow> Params \<Rightarrow> bytes" where
  "payee k ctx p = (case GetRewardsAddress (kEnv k) ctx of
     Ret a \<Rightarrow> a | _ \<Rightarrow> slice_bytes (EscrowAccountAddress p))"

lemma dec_IsZero_iff: "dec_laws D \<Longrightarrow> dec_IsZero D (Dec f) = Ret (f = 0)"
  by (simp add: dec_IsZero_def dec_laws_def)

lemma ExtractBid_steps:
  assumes laws: "keeper_laws k bal" and p: "GetParams k ctx = Ret p" "ProposerFee p = Dec f" "0 \<le> f" "f \<le> dec_unit"
    and bid: "coinValidate (kCoins k) (coin_of d a) = Ret ()" "0 < a" "a < 2 ^ 128"
    and run: "ExtractBid k ctx bidder (coin_of d a) = (ctx', Ret ())"
  obtains (whole) "f = 0"
      "SendBid k ctx bidder (slice_bytes (EscrowAccountAddress p)) (one_coin d a) = (ctx', Ret ())"
    | (split) ctx1 where
      "SendBid k ctx bidder (payee k ctx p) (one_coin d (a * f div dec_unit)) = (ctx1, Ret ())"
      "SendBid k ctx1 bidder (slice_bytes (EscrowAccountAddress p)) (one_coin d (a - a * f div dec_unit)) = (ctx', Ret ())"
proof (cases "f = 0")
  case True
  have "newCoins (kCoins k) [coin_of d a] = Ret (one_coin d a)"
    using coin_lawsD(6) [OF _ bid(1)] laws by (simp add: keeper_laws_def)
  with True p run laws show thesis
    by (intro whole) (auto simp: ExtractBid_def dec_IsZero_iff keeper_laws_def)
next
  case False
  with p(3) have f: "0 < f" by simp
  have K: "coin_laws (kCoins k)" using laws by (simp add: keeper_laws_def)
  let ?s = "a * f div dec_unit"
  have "a * f \<le> a * dec_unit" using bid(2) p(4) by simp
  then have s: "0 \<le> ?s" "?s \<le> a"
    using bid(2) f zdiv_mono1 [of "a * f" "a * dec_unit" dec_unit] by (simp_all add: pos_imp_zdiv_nonneg_iff)
  note shares = bid_shares(1,2) [OF K bid(2,3) f p(4), of d] bid_shares(3) [OF K bid(2,3) f p(4) s, of d]
  have "\<exists>r. GetRewardsAddress (kEnv k) ctx = Ret r \<or> (\<exists>e. GetRewardsAddress (kEnv k) ctx = Err e)"
    using run p f laws by (cases "GetRewardsAddress (kEnv k) ctx")
      (auto simp: ExtractBid_def dec_IsZero_iff keeper_laws_def)
  then have "\<exists>ctx1. SendBid k ctx bidder (payee k ctx p) (one_coin d ?s) = (ctx1, Ret ()) \<and>
      SendBid k ctx1 bidder (slice_bytes (EscrowAccountAddress p)) (one_coin d (a - ?s)) = (ctx', Ret ())"
    using run p f laws shares
    by (auto simp: ExtractBid_def dec_IsZero_iff keeper_laws_def go_simps payee_def Let_def)
  with split show thesis by blast
qed

text \<open>A payment keeps the parameters.\<close>

lemma GetParams_frame: "kvGet (kEnv k) ctx' = kvGet (kEnv k) ctx \<Longrightarrow> GetParams k ctx' = GetParams k ctx"
  by (simp add: GetParams_def)

lemma fst_and_then_SendBid:
  "env_laws (kEnv k) bal \<Longrightarrow> (\<And>c x. kvGet (kEnv k) (fst (g c x)) = kvGet (kEnv k) c) \<Longrightarrow>
   kvGet (kEnv k) (fst (and_then m g)) = kvGet (kEnv k) (fst m)"
  by (cases m; cases "snd m") auto

lemma ExtractBid_frame:
  assumes "env_laws (kEnv k) bal"
  shows "kvGet (kEnv k) (fst (ExtractBid k ctx bidder bid)) = kvGet (kEnv k) ctx"
proof -
  note frame = fst_and_then_SendBid [OF assms] SendBid_frame [OF assms]
  show ?thesis
    unfolding ExtractBid_def Let_def
    by (subst frame(1), auto simp: frame)
qed

text \<open>C29: A paid bid leaves the bidder with exactly the bid less: the proposer's share is the fee
  on the bid, rounded down, the escrow account receives the rest, and nothing else moves.\<close>

theorem ExtractBid_conserves:
  assumes "keeper_laws k bal" and "GetParams k ctx = Ret p" and "ProposerFee p = Dec f"
    and "0 \<le> f" and "f \<le> dec_unit" and "coinValidate (kCoins k) (coin_of d a) = Ret ()"
    and "0 < a" and "a < 2 ^ 128" and "ExtractBid k ctx bidder (coin_of d a) = (ctx', Ret ())"
  shows "bal ctx' x d' = bal ctx x d' + (if d' = d then
      (if x = payee k ctx p then a * f div dec_unit else 0) +
      (if x = slice_bytes (EscrowAccountAddress p) then a - a * f div dec_unit else 0) -
      (if x = bidder then a else 0) else 0)"
  using assms
proof (cases rule: ExtractBid_steps)
  case whole
  from SendBid_moves [OF assms(1) _ whole(2)] assms(7) whole(1) show ?thesis by simp
next
  case (split ctx1)
  have "a * f \<le> a * dec_unit" using assms(5,7) by simp
  then have s: "0 \<le> a * f div dec_unit" "a * f div dec_unit \<le> a"
    using assms(4,7) zdiv_mono1 [of "a * f" "a * dec_unit" dec_unit] by (simp_all add: pos_imp_zdiv_nonneg_iff)
  show ?thesis
    using SendBid_moves [OF assms(1) s(1) split(1)] SendBid_moves [OF assms(1) _ split(2)] s by simp
qed

section \<open>What an accepted bid satisfies\<close>

lemma ValidateAuctionBid_frame:
  assumes "env_laws (kEnv k) bal"
  shows "kvGet (kEnv k) (fst (ValidateAuctionBid k ctx bidder bid best)) = kvGet (kEnv k) ctx"
proof -
  have step: "(\<And>c x. kvGet (kEnv k) (fst (g c x)) = kvGet (kEnv k) c) \<Longrightarrow>
      kvGet (kEnv k) (fst (and_then (ctx, m) g)) = kvGet (kEnv k) ctx"
    for g :: "'a \<Rightarrow> 'b \<Rightarrow> 'a \<times> unit go" and m ctx
    using fst_and_then_SendBid [OF assms, of g "(ctx, m)"] by simp
  note steps = fst_and_then_SendBid [OF assms] ExtractBid_frame [OF assms]
  show ?thesis
    unfolding ValidateAuctionBid_def by (auto simp: steps)
qed

text \<open>The fees of one denomination, as the validation of the parameters requires.\<close>

definition fees :: "Params \<Rightarrow> string \<Rightarrow> int \<Rightarrow> int \<Rightarrow> bool" where
  "fees p d r m \<longleftrightarrow> ReserveFee p = coin_of d r \<and> MinBidIncrement p = coin_of d m \<and> 0 \<le> m \<and> m < 2 ^ 128"

lemma ValidateAuctionBid_Ret_iff:
  assumes K: "coin_laws (kCoins k)" and p: "GetParams k ctx = Ret p" "fees p d r m"
    and h: "\<And>h. best = Some h \<Longrightarrow> 0 \<le> h \<and> h < 2 ^ 128"
  shows "ValidateAuctionBid k ctx bidder bid (case best of None \<Rightarrow> zero_coin | Some h \<Rightarrow> coin_of d h) = (ctx', Ret ()) \<longleftrightarrow>
    (\<exists>a. bid = coin_of d a \<and> r \<le> a \<and> (\<forall>h. best = Some h \<longrightarrow> h + m \<le> a)) \<and> ExtractBid k ctx bidder bid = (ctx', Ret ())"
proof -
  note laws = coin_lawsD(1-3) [OF K]
  have getters: "GetReserveFee k ctx = Ret (coin_of d r)" "GetMinBidIncrement k ctx = Ret (coin_of d m)"
    using p by (auto simp: GetReserveFee_def GetMinBidIncrement_def fees_def)
  show ?thesis
  proof (cases "Amount bid")
    case None
    then have "coinIsNil (kCoins k) bid" by (simp add: laws)
    with None show ?thesis by (auto simp: ValidateAuctionBid_def)
  next
    case (Some a)
    then have bid: "bid = coin_of (Denom bid) a" by simp
    then obtain e where bid: "bid = coin_of e a" by blast
    show ?thesis
    proof (cases best)
      case None
      then show ?thesis using getters by (auto simp: ValidateAuctionBid_def bid laws zero_coin_def)
    next
      case (Some h0)
      have "coinAdd (kCoins k) (coin_of d h0) (coin_of d m) = Ret (coin_of d (h0 + m))"
        using coin_lawsD(4) [OF K] h [OF Some] p(2) by (simp add: fees_def)
      then show ?thesis using getters Some by (auto simp: ValidateAuctionBid_def bid laws)
    qed
  qed
qed

text \<open>C31: A bid amount is accepted exactly when it is in the denomination of the reserve fee, covers
  the reserve fee, beats the highest bid by the minimum increment when there is one, and can be
  paid.\<close>

theorem ValidateAuctionBid_iff:
  assumes "coin_laws (kCoins k)" and "GetParams k ctx = Ret p" and "fees p d r m"
    and "\<And>h. best = Some h \<Longrightarrow> 0 \<le> h \<and> h < 2 ^ 128"
  shows "ValidateAuctionBid k ctx bidder bid (case best of None \<Rightarrow> zero_coin | Some h \<Rightarrow> coin_of d h) = (ctx', Ret ()) \<longleftrightarrow>
    (\<exists>a. bid = coin_of d a \<and> r \<le> a \<and> (\<forall>h. best = Some h \<longrightarrow> h + m \<le> a)) \<and> ExtractBid k ctx bidder bid = (ctx', Ret ())"
  by (rule ValidateAuctionBid_Ret_iff [OF assms])

lemma bundle_timeouts_Ret_iff:
  "bundle_timeouts_loop b T ss ts = Ret () \<longleftrightarrow>
     length ts \<le> length ss \<and> (\<forall>j < length ts. b \<in> ss ! j \<longrightarrow> ts ! j = T)"
proof (induction b T ss ts rule: bundle_timeouts_loop.induct)
  case (3 b T s ss t ts)
  have "(\<forall>j < length (t # ts). b \<in> (s # ss) ! j \<longrightarrow> (t # ts) ! j = T) \<longleftrightarrow>
      (b \<in> s \<longrightarrow> t = T) \<and> (\<forall>j < length ts. b \<in> ss ! j \<longrightarrow> ts ! j = T)"
    by (auto simp: less_Suc_eq_0_disj)
  with 3 show ?case by auto
qed auto

lemma ValidateAuctionBundle_Ret:
  assumes "ValidateAuctionBundle k bidder S = (S', Ret ())"
  shows "bundle_ordered (addrString (kAddrs k) bidder) S"
  using ValidateAuctionBundle_snd [of k bidder S] assms by (auto split: if_splits)

text \<open>The bundle check changes at most the first map; it keeps the bidder when all are his.\<close>

lemma first_map_keeps_bidder:
  "b \<in> P \<Longrightarrow> \<forall>X \<in> set rest. b \<in> X \<Longrightarrow> b \<in> fst (bundle_signers_loop b P P True seen rest)"
proof (induction rest arbitrary: P)
  case Nil
  then show ?case by simp
next
  case (Cons X rest)
  then have b: "b \<in> filterSigners P X" by simp
  then have "filterSigners P X \<noteq> {}" by blast
  with b Cons.IH [OF b] Cons.prems show ?case by (simp add: Let_def)
qed

lemma ValidateAuctionBundle_fst:
  assumes "ValidateAuctionBundle k bidder S = (S', r)"
  shows "length S' = length S" and "1 \<le> j \<Longrightarrow> S' ! j = S ! j"
    and "\<forall>X \<in> set S. addrString (kAddrs k) bidder \<in> X \<Longrightarrow> j < length S \<Longrightarrow>
      addrString (kAddrs k) bidder \<in> S' ! j"
proof -
  let ?b = "addrString (kAddrs k) bidder"
  consider "S' = S" | s0 s1 rest where "S = s0 # s1 # rest"
    "S' = fst (bundle_signers_loop ?b s0 s0 True (?b \<in> s0) (s1 # rest)) # s1 # rest"
    using assms unfolding ValidateAuctionBundle_def Let_def
    by (simp split: list.splits) (metis (no_types, lifting) case_prod_beta prod.inject)+
  note cases = this
  from cases show "length S' = length S" by cases auto
  from cases show "1 \<le> j \<Longrightarrow> S' ! j = S ! j" by cases (auto simp: nth_Cons')
  from cases show "\<forall>X \<in> set S. ?b \<in> X \<Longrightarrow> j < length S \<Longrightarrow> ?b \<in> S' ! j"
  proof cases
    case 1
    then show "\<forall>X \<in> set S. ?b \<in> X \<Longrightarrow> j < length S \<Longrightarrow> ?b \<in> S' ! j" by auto
  next
    case (2 s0 s1 rest)
    show "?b \<in> S' ! j" if all: "\<forall>X \<in> set S. ?b \<in> X" and j: "j < length S"
    proof (cases j)
      case 0
      then show ?thesis
        using first_map_keeps_bidder [of ?b s0 "s1 # rest"] all 2 by (simp del: bundle_signers_loop.simps)
    next
      case (Suc i)
      then have "S' ! j = S ! j" using 2 by simp
      then show ?thesis using all j by (metis nth_mem)
    qed
  qed
qed

lemma ValidateBidInfo_RetD:
  assumes run: "ValidateBidInfo k ctx best b = (ctx', Ret ())"
  obtains p p1 where "GetParams k ctx = Ret p"
    and "\<not> MaxBundleSize p < of_nat (length (Transactions b))"
    and "ValidateAuctionBid k ctx (Bidder b) (Bid b) best = (ctx', Ret ())"
    and "GetParams k ctx' = Ret p1"
    and "if FrontRunningProtection p1
      then \<exists>s. ValidateAuctionBundle k (Bidder b) (BidSigners b) = (s, Ret ()) \<and>
        ValidateBundleTimeouts k (b\<lparr>BidSigners := s\<rparr>) = Ret ()
      else ValidateBundleTimeouts k b = Ret ()"
proof -
  from run obtain p p1 where 1: "GetParams k ctx = Ret p" "\<not> MaxBundleSize p < of_nat (length (Transactions b))"
    "ValidateAuctionBid k ctx (Bidder b) (Bid b) best = (ctx', Ret ())"
    "GetParams k ctx' = Ret p1" "bundle_checks k (FrontRunningProtection p1) b = Ret ()"
    by (auto simp: ValidateBidInfo_def GetMaxBundleSize_def FrontRunningProtectionEnabled_def go_simps
        split: if_splits)
  from 1(5) have "if FrontRunningProtection p1
      then \<exists>s. ValidateAuctionBundle k (Bidder b) (BidSigners b) = (s, Ret ()) \<and>
        ValidateBundleTimeouts k (b\<lparr>BidSigners := s\<rparr>) = Ret ()
      else ValidateBundleTimeouts k b = Ret ()"
    by (auto simp: bundle_checks_def split: prod.splits go.splits)
  with 1 show thesis by (intro that)
qed

text \<open>C32: Once a bid is accepted, every transaction of the bundle that its bidder signed carries the
  timeout of the bid, with the possible exception of the first one, and of the first one too when
  the bidder signed the whole bundle.\<close>

theorem accepted_timeouts:
  assumes "ValidateBidInfo k ctx best b = (ctx', Ret ())" and "j < length (TransactionTimeouts b)"
    and "addrString (kAddrs k) (Bidder b) \<in> BidSigners b ! j"
    and "1 \<le> j \<or> (\<forall>X \<in> set (BidSigners b). addrString (kAddrs k) (Bidder b) \<in> X)"
  shows "TransactionTimeouts b ! j = Timeout b"
proof -
  let ?b = "addrString (kAddrs k) (Bidder b)"
  from assms(1) obtain signers where v: "ValidateBundleTimeouts k (b\<lparr>BidSigners := signers\<rparr>) = Ret ()"
    and s: "signers = BidSigners b \<or> (\<exists>r. ValidateAuctionBundle k (Bidder b) (BidSigners b) = (signers, r))"
    by (rule ValidateBidInfo_RetD) (cases b, fastforce split: if_splits)
  have "?b \<in> signers ! j"
  proof (cases "signers = BidSigners b")
    case True
    then show ?thesis using assms(3) by simp
  next
    case False
    with s obtain r where r: "ValidateAuctionBundle k (Bidder b) (BidSigners b) = (signers, r)" by blast
    note bundle_facts = ValidateAuctionBundle_fst [OF r]
    have "j < length (BidSigners b)"
      using v assms(2) bundle_facts(1) by (simp add: ValidateBundleTimeouts_def bundle_timeouts_Ret_iff)
    with assms(3,4) bundle_facts(2,3) [of j] show ?thesis by auto
  qed
  then show ?thesis
    using v assms(2) by (auto simp: ValidateBundleTimeouts_def bundle_timeouts_Ret_iff)
qed

text \<open>The bidder is left in the first map only if every transaction carries his signature.\<close>

lemma bundle_signers_loop_shrinks: "fst (bundle_signers_loop b P P True seen rest) \<subseteq> P"
proof (induction rest arbitrary: P)
  case Nil
  then show ?case by simp
next
  case (Cons X rest)
  have "filterSigners P X \<subseteq> P" "filterSigners {b} X = (if b \<in> X then {b} else {})"
    by (auto simp: filterSigners_def)
  with Cons [of "filterSigners P X"] show ?case by (auto simp: Let_def bidder_phase)
qed

lemma bidder_stays_iff:
  "snd (bundle_signers_loop b P P True True rest) = Ret () \<Longrightarrow>
   b \<in> fst (bundle_signers_loop b P P True True rest) \<longleftrightarrow> b \<in> P \<and> (\<forall>X \<in> set rest. b \<in> X)"
proof (induction rest arbitrary: P)
  case Nil
  then show ?case by simp
next
  case (Cons X rest)
  then show ?case by (auto simp: Let_def split: if_splits)
qed

lemma ValidateAuctionBundle_first_iff:
  assumes "ValidateAuctionBundle k bidder S = (S', Ret ())" and "S \<noteq> []"
  defines "b \<equiv> addrString (kAddrs k) bidder"
  shows "b \<in> S' ! 0 \<longleftrightarrow> (\<forall>X \<in> set S. b \<in> X)"
proof -
  obtain s0 rest where S: "S = s0 # rest" using assms(2) by (cases S) auto
  show ?thesis
  proof (cases rest)
    case Nil
    with S assms(1) have "S' = [s0]" by (simp add: ValidateAuctionBundle_def)
    with S Nil show ?thesis by simp
  next
    case (Cons s1 rest')
    obtain first r where run: "bundle_signers_loop b s0 s0 True (b \<in> s0) rest = (first, r)" by fastforce
    have "S' = first # rest \<and> r = Ret ()"
      using assms(1) run S Cons unfolding b_def
      by (simp add: ValidateAuctionBundle_def Let_def del: bundle_signers_loop.simps)
    then show ?thesis
      using bidder_stays_iff [of b s0 rest] bundle_signers_loop_shrinks [of b s0 "b \<in> s0" rest] run S
      by (cases "b \<in> s0") auto
  qed
qed

text \<open>The bidder is among the signers of a transaction of the bundle.\<close>

definition bidder_signed :: "'ctx Keeper \<Rightarrow> BidInfo \<Rightarrow> nat \<Rightarrow> bool" where
  "bidder_signed k b j \<longleftrightarrow> addrString (kAddrs k) (Bidder b) \<in> BidSigners b ! j"

text \<open>The checks of a bundle under front-running protection, as a condition on the bid alone.\<close>

lemma protected_bundle_checks_iff:
  "bundle_checks k True b = Ret () \<longleftrightarrow>
    bundle_ordered (addrString (kAddrs k) (Bidder b)) (BidSigners b) \<and>
    length (TransactionTimeouts b) \<le> length (BidSigners b) \<and>
    (\<forall>j < length (TransactionTimeouts b). bidder_signed k b j \<and> (j = 0 \<longrightarrow> (\<forall>i < length (BidSigners b). bidder_signed k b i)) \<longrightarrow>
      TransactionTimeouts b ! j = Timeout b)"
proof -
  let ?in = "\<lambda>X. addrString (kAddrs k) (Bidder b) \<in> X"
  obtain S r where run: "ValidateAuctionBundle k (Bidder b) (BidSigners b) = (S, r)" by fastforce
  have r: "r = (if bundle_ordered (addrString (kAddrs k) (Bidder b)) (BidSigners b) then Ret () else Err FrontRunningError)"
    using ValidateAuctionBundle_snd [of k "Bidder b" "BidSigners b"] run by simp
  note facts = ValidateAuctionBundle_fst(1,2) [OF run]
  show ?thesis
  proof (cases "bundle_ordered (addrString (kAddrs k) (Bidder b)) (BidSigners b)")
    case True
    then have run: "ValidateAuctionBundle k (Bidder b) (BidSigners b) = (S, Ret ())" using run r by simp
    have kept: "?in (S ! j) \<longleftrightarrow> bidder_signed k b j \<and> (j = 0 \<longrightarrow> (\<forall>i < length (BidSigners b). bidder_signed k b i))"
      if "j < length (BidSigners b)" for j
      using ValidateAuctionBundle_first_iff [OF run] facts(2) [of j] that
      by (cases j) (auto simp: bidder_signed_def all_set_conv_all_nth)
    have "bundle_checks k True b = Ret () \<longleftrightarrow> length (TransactionTimeouts b) \<le> length (BidSigners b) \<and>
        (\<forall>j < length (TransactionTimeouts b). ?in (S ! j) \<longrightarrow> TransactionTimeouts b ! j = Timeout b)"
      using run facts(1)
      by (simp add: bundle_checks_def ValidateBundleTimeouts_def bundle_timeouts_Ret_iff bidder_signed_def)
    then show ?thesis using True kept by auto
  next
    case False
    with run r show ?thesis by (simp add: bundle_checks_def)
  qed
qed

text \<open>C33: A bid is accepted, and paid, exactly when its bundle is within the size limit, its amount is
  accepted, there is a map of signers for every timeout, and the rest depends on the protection: without
  it, every transaction signed by the bidder has the timeout of the bid; with it, the bundle is in order
  and every transaction signed by the bidder has that timeout, except that the first one is held to it
  only if the bidder signed the whole bundle. For the order check has deleted the bidder from the signers
  of the first transaction by then: the timeout of a first transaction that he signed together with the
  owner of the following ones is not looked at.\<close>

theorem ValidateBidInfo_iff:
  assumes "env_laws (kEnv k) bal" and "GetParams k ctx = Ret p"
  shows "ValidateBidInfo k ctx best b = (ctx', Ret ()) \<longleftrightarrow>
    of_nat (length (Transactions b)) \<le> MaxBundleSize p \<and>
    ValidateAuctionBid k ctx (Bidder b) (Bid b) best = (ctx', Ret ()) \<and>
    length (TransactionTimeouts b) \<le> length (BidSigners b) \<and>
    (if FrontRunningProtection p
     then bundle_ordered (addrString (kAddrs k) (Bidder b)) (BidSigners b) \<and>
       (\<forall>j < length (TransactionTimeouts b).
          bidder_signed k b j \<and> (j = 0 \<longrightarrow> (\<forall>i < length (BidSigners b). bidder_signed k b i)) \<longrightarrow>
          TransactionTimeouts b ! j = Timeout b)
     else (\<forall>j < length (TransactionTimeouts b).
          bidder_signed k b j \<longrightarrow> TransactionTimeouts b ! j = Timeout b))"
proof -
  have p: "GetParams k (fst (ValidateAuctionBid k ctx (Bidder b) (Bid b) best)) = Ret p"
    using GetParams_frame [OF ValidateAuctionBid_frame [OF assms(1)]] assms(2) by simp
  have "ValidateBidInfo k ctx best b = (ctx', Ret ()) \<longleftrightarrow>
      of_nat (length (Transactions b)) \<le> MaxBundleSize p \<and>
      ValidateAuctionBid k ctx (Bidder b) (Bid b) best = (ctx', Ret ()) \<and>
      bundle_checks k (FrontRunningProtection p) b = Ret ()"
    using p assms(2)
    by (cases "ValidateAuctionBid k ctx (Bidder b) (Bid b) best")
      (auto simp: ValidateBidInfo_def GetMaxBundleSize_def FrontRunningProtectionEnabled_def go_simps not_less)
  moreover have "bundle_checks k False b = Ret () \<longleftrightarrow> length (TransactionTimeouts b) \<le> length (BidSigners b) \<and>
      (\<forall>j < length (TransactionTimeouts b). bidder_signed k b j \<longrightarrow> TransactionTimeouts b ! j = Timeout b)"
    by (simp add: bundle_checks_def ValidateBundleTimeouts_def bundle_timeouts_Ret_iff bidder_signed_def)
  ultimately show ?thesis
    using protected_bundle_checks_iff [of k b] by (cases "FrontRunningProtection p") auto
qed

section \<open>The decorator in front of the keeper\<close>

text \<open>
  The interface \<open>AuctionKeeper\<close> that the decorator uses: what it accepts is acceptable, by whatever
  standard the provider fixes.
\<close>

locale bid_validator =
  fixes validate :: "'ctx \<Rightarrow> Coin \<Rightarrow> BidInfo \<Rightarrow> 'ctx \<times> unit go"
    and acceptable :: "'ctx \<Rightarrow> Coin \<Rightarrow> BidInfo \<Rightarrow> bool"
  assumes accepted: "validate ctx best b = (ctx', Ret ()) \<Longrightarrow> acceptable ctx best b"
begin

lemma ante_accepts:
  assumes "Auction_AnteHandle C validate enc F l mp ctx t simulate nxt = (mp', ctx', Ret c)"
    and "GetAuctionBidInfo F t = Ret (Some b)"
  obtains best ctx1 where "ValidateTimeout C ctx (Timeout b) = Ret ()"
    and "top_bid C enc F l mp ctx t = (mp', Ret best)" and "acceptable ctx best b"
    and "validate ctx best b = (ctx1, Ret ())" and "nxt ctx1 t simulate = (ctx', Ret c)"
  using assms accepted
  by (fastforce simp: Auction_AnteHandle_def split: go.splits prod.splits)

lemma ante_without_bid:
  "GetAuctionBidInfo F t = Ret None \<Longrightarrow>
   Auction_AnteHandle C validate enc F l mp ctx t simulate nxt = (mp, nxt ctx t simulate)"
  by (simp add: Auction_AnteHandle_def)

end

text \<open>The standard of the keeper.\<close>

definition acceptable_bid :: "'ctx Keeper \<Rightarrow> 'ctx \<Rightarrow> Coin \<Rightarrow> BidInfo \<Rightarrow> bool" where
  "acceptable_bid k ctx best b \<longleftrightarrow> (\<exists>p p1 ctx1. GetParams k ctx = Ret p \<and>
     \<not> MaxBundleSize p < of_nat (length (Transactions b)) \<and>
     ValidateAuctionBid k ctx (Bidder b) (Bid b) best = (ctx1, Ret ()) \<and> GetParams k ctx1 = Ret p1 \<and>
     (FrontRunningProtection p1 \<longrightarrow> bundle_ordered (addrString (kAddrs k) (Bidder b)) (BidSigners b)))"

interpretation auction_keeper: bid_validator "ValidateBidInfo k" "acceptable_bid k" for k :: "'ctx Keeper"
proof
  fix ctx best b ctx'
  assume run: "ValidateBidInfo k ctx best b = (ctx', Ret ())"
  then show "acceptable_bid k ctx best b"
    by (rule ValidateBidInfo_RetD)
       (auto simp: acceptable_bid_def dest: ValidateAuctionBundle_Ret split: if_splits)
qed

lemma ValidateTimeout_Ret_iff:
  "ValidateTimeout C ctx T = Ret () \<longleftrightarrow>
     T = (if CtxExecMode C ctx \<in> nextHeightExecModes then BlockHeight C ctx + 1 else BlockHeight C ctx)"
  by (auto simp: ValidateTimeout_def Let_def)

text \<open>C28: A bid that passes the ante decorator expires exactly at the height it is checked for (the
  comment on \<open>ValidateTimeout\<close> and the documentation for searchers allow any later height); its
  bundle is within the configured size and, with protection enabled, in an order that rules out
  front-running; its amount covers the reserve fee and beats the highest bid of the mempool by the
  minimum increment; and the rest of the ante chain runs after the payment.\<close>

theorem ante_accepts_bid:
  assumes laws: "keeper_laws k bal" and p: "GetParams k ctx = Ret p" "fees p d r m"
    and "Auction_AnteHandle C (ValidateBidInfo k) enc F l mp ctx t simulate nxt = (mp', ctx', Ret c)"
    and "GetAuctionBidInfo F t = Ret (Some b)"
  shows "Timeout b = (if CtxExecMode C ctx \<in> nextHeightExecModes then BlockHeight C ctx + 1 else BlockHeight C ctx) \<and>
    of_nat (length (Transactions b)) \<le> MaxBundleSize p \<and>
    (FrontRunningProtection p \<longrightarrow> bundle_ordered (addrString (kAddrs k) (Bidder b)) (BidSigners b)) \<and>
    (\<exists>best. top_bid C enc F l mp ctx t = (mp', Ret best) \<and>
      (best = zero_coin \<or> (\<exists>h. 0 \<le> h \<and> h < 2 ^ 128 \<and> best = coin_of d h) \<longrightarrow>
       (\<exists>a ctx1 ctx2. Bid b = coin_of d a \<and> r \<le> a \<and> (\<forall>h. best = coin_of d h \<longrightarrow> h + m \<le> a) \<and>
         ExtractBid k ctx (Bidder b) (Bid b) = (ctx1, Ret ()) \<and>
         ValidateBidInfo k ctx best b = (ctx2, Ret ()) \<and> nxt ctx2 t simulate = (ctx', Ret c))))"
proof -
  from assms(4,5) obtain best ctx2 where
    T: "ValidateTimeout C ctx (Timeout b) = Ret ()" and best: "top_bid C enc F l mp ctx t = (mp', Ret best)"
    and ok: "acceptable_bid k ctx best b" and v: "ValidateBidInfo k ctx best b = (ctx2, Ret ())"
      "nxt ctx2 t simulate = (ctx', Ret c)"
    by (rule auction_keeper.ante_accepts)
  from ok p(1) obtain p1 ctx1 where a: "\<not> MaxBundleSize p < of_nat (length (Transactions b))"
    "ValidateAuctionBid k ctx (Bidder b) (Bid b) best = (ctx1, Ret ())" "GetParams k ctx1 = Ret p1"
    "FrontRunningProtection p1 \<longrightarrow> bundle_ordered (addrString (kAddrs k) (Bidder b)) (BidSigners b)"
    by (auto simp: acceptable_bid_def)
  have E: "env_laws (kEnv k) bal" and K: "coin_laws (kCoins k)" using laws by (auto simp: keeper_laws_def)
  from ValidateAuctionBid_frame [OF E, of ctx "Bidder b" "Bid b" best] a(2)
  have "p1 = p" using GetParams_frame [of k ctx1 ctx] a(3) p(1) by simp
  moreover have "\<exists>a. Bid b = coin_of d a \<and> r \<le> a \<and> (\<forall>h. best = coin_of d h \<longrightarrow> h + m \<le> a) \<and>
      ExtractBid k ctx (Bidder b) (Bid b) = (ctx1, Ret ())"
    if best: "best = zero_coin \<or> (\<exists>h. 0 \<le> h \<and> h < 2 ^ 128 \<and> best = coin_of d h)"
  proof -
    define v where "v = Amount best"
    have coin: "(case v of None \<Rightarrow> zero_coin | Some h \<Rightarrow> coin_of d h) = best"
      and h: "\<And>h. v = Some h \<Longrightarrow> 0 \<le> h \<and> h < 2 ^ 128"
      using best by (auto simp: v_def zero_coin_def)
    from ValidateAuctionBid_Ret_iff [OF K p h, of v "Bidder b" "Bid b" ctx1, unfolded coin] a(2)
    obtain a' where "Bid b = coin_of d a'" "r \<le> a'" "\<forall>h. v = Some h \<longrightarrow> h + m \<le> a'"
      "ExtractBid k ctx (Bidder b) (Bid b) = (ctx1, Ret ())" by blast
    then show ?thesis by (intro exI [of _ a'] conjI) (simp_all add: v_def)
  qed
  ultimately show ?thesis
    using a(1,4) best v T unfolding ValidateTimeout_Ret_iff not_less by fast
qed

section \<open>Witnesses\<close>

text \<open>
  A keeper over the ledger: a reserve fee of 10, an increment of 5, a proposer fee of a tenth, the
  module account 9 and the rewards address 8. In the sample states every account holds 1000.
\<close>

definition sample_params :: Params where
  "sample_params = NewParams 3 (Some [9]) (coin_of ''stake'' 10) (coin_of ''stake'' 5) True (Dec 100000000000000000)"

definition sample_keeper :: "ledger Keeper" where
  "sample_keeper = \<lparr> kEnv = ledger_env (Some [9]) (\<lambda>_. Ret [8]), kCoins = plain_coins, kDecs = scaled_dec,
     kAddrs = char_addr, kWire = stroke_wire, kAuthority = ''gov'' \<rparr>"

lemma sample_keeper_simps [simp]:
  "kEnv sample_keeper = ledger_env (Some [9]) (\<lambda>_. Ret [8])" "kCoins sample_keeper = plain_coins"
  "kDecs sample_keeper = scaled_dec" "kAddrs sample_keeper = char_addr" "kWire sample_keeper = stroke_wire"
  by (simp_all add: sample_keeper_def)

lemma sample_params_simps [simp]:
  "MaxBundleSize sample_params = 3" "EscrowAccountAddress sample_params = Some [9]"
  "ReserveFee sample_params = coin_of ''stake'' 10" "MinBidIncrement sample_params = coin_of ''stake'' 5"
  "FrontRunningProtection sample_params" "ProposerFee sample_params = Dec 100000000000000000"
  by (simp_all add: sample_params_def NewParams_def)

lemma sample_keeper_laws: "keeper_laws sample_keeper LgBalance"
  by (simp add: keeper_laws_def plain_coins_laws scaled_dec_laws char_addr_laws stroke_wire_laws ledger_env_laws)

lemma sov_le: "sov v \<le> 10"
proof -
  have "unat v < 2 ^ LENGTH(64)" by (rule unsigned_less)
  then have "unat v div 2 < 2 ^ 63" by (simp add: less_mult_imp_div_less)
  from bit_len_le [OF this] show ?thesis by (simp add: sov_eq)
qed

lemma sample_params_storable: "storable sample_params" "Params_Size (kWire sample_keeper) sample_params < 2 ^ 63"
proof -
  show "storable sample_params" by (simp add: storable_def)
  have "sov v + n < 9223372036854775808" if "n < 9223372036854775790" for v n
    using sov_le [of v] that by simp
  moreover have "Params_Size stroke_wire sample_params =
      sov (of_nat (nat 100000000000000000 + 2)) + (1 + (nat 100000000000000000 + 2) + 40)"
    by (simp add: Params_Size_def field_size_def stroke_wire_def stroke_bytes_def sov_small)
  ultimately show "Params_Size (kWire sample_keeper) sample_params < 2 ^ 63"
    by (simp del: of_nat_add)
qed

lemma sample_ledger:
  obtains g where "GetParams sample_keeper g = Ret sample_params" and "VcHeight g = 7"
    and "VcMode g = ExecModeCheck" and "LgBalance g = (\<lambda>_ _. 1000)"
proof -
  let ?g = "\<lparr> VcBlock = None, VcHeight = 7, VcMode = ExecModeCheck, VcPriority = 0, VcStore = (\<lambda>_. 0),
    LgStore = (\<lambda>_. None), LgBalance = (\<lambda>_ _. 1000) \<rparr>"
  obtain g where g: "SetParams sample_keeper ?g sample_params = (g, Ret ())" "GetParams sample_keeper g = Ret sample_params"
    using SetParams_GetParams [OF sample_keeper_laws sample_params_storable, of ?g] by blast
  from g(1) obtain bz where "g = ?g\<lparr>LgStore := (LgStore ?g)(KeyParams := Some bz)\<rparr>"
    by (auto simp: SetParams_def ledger_env_def split: go.splits)
  then show thesis by (intro that [of g] g(2)) simp_all
qed

lemma sample_extract:
  assumes "GetParams sample_keeper g = Ret sample_params" and "LgBalance g = (\<lambda>_ _. 1000)"
  obtains g' where "ExtractBid sample_keeper g [1] (coin_of ''stake'' 100) = (g', Ret ())"
proof -
  note K = plain_coins_laws
  note shares = bid_shares(1,2) [OF K, of 100 100000000000000000 "''stake''"]
    bid_shares(3) [OF K, of 100 100000000000000000 10 "''stake''"]
  have "\<exists>g'. ExtractBid sample_keeper g [1] (coin_of ''stake'' 100) = (g', Ret ())"
    using assms shares
    by (simp add: ExtractBid_def dec_IsZero_iff [OF scaled_dec_laws] SendBid_def ledger_env_def ledger_send_def
        one_coin_def ledger_move_def char_addr_def slice_bytes_def)
  then show thesis using that by blast
qed

text \<open>
  A bid of bidder 1 with a bundle of two transactions: the first is signed by the bidder and by 2
  and expires at height 5, the second is signed by 2 only; the bid expires at height 8.
\<close>

definition sample_bid_info :: BidInfo where
  "sample_bid_info = \<lparr> Bidder = [1], Bid = coin_of ''stake'' 100, Transactions = [[1], [2]], Timeout = 8,
     BidSigners = [{addrString char_addr [1], addrString char_addr [2]}, {addrString char_addr [2]}],
     TransactionTimeouts = [5, 8] \<rparr>"

lemma sample_bid_info_simps [simp]:
  "Bidder sample_bid_info = [1]" "Bid sample_bid_info = coin_of ''stake'' 100"
  "Transactions sample_bid_info = [[1], [2]]" "Timeout sample_bid_info = 8"
  "BidSigners sample_bid_info = [{addrString char_addr [1], addrString char_addr [2]}, {addrString char_addr [2]}]"
  "TransactionTimeouts sample_bid_info = [5, 8]"
  by (simp_all add: sample_bid_info_def)

lemma sample_addrs: "addrString char_addr [1] \<noteq> addrString char_addr [2]"
proof
  assume "addrString char_addr [1] = addrString char_addr [2]"
  then have "[1] = ([2] :: bytes)" using char_addr_laws unfolding addr_laws_def by blast
  then show False by simp
qed

text \<open>The check of the order takes the bidder out of the first map, and the timeouts pass.\<close>

lemma sample_bundle_checks: "bundle_checks sample_keeper True sample_bid_info = Ret ()"
proof -
  let ?a = "addrString char_addr [1]" and ?b = "addrString char_addr [2]"
  have "filterSigners {?a, ?b} {?b} = {?b}" by (auto simp: filterSigners_def)
  then have "ValidateAuctionBundle sample_keeper [1] [{?a, ?b}, {?b}] = ([{?b}, {?b}], Ret ())"
    by (simp add: ValidateAuctionBundle_def Let_def)
  then show ?thesis
    using sample_addrs by (simp add: bundle_checks_def ValidateBundleTimeouts_def)
qed

lemma sample_ValidateBidInfo:
  assumes g: "GetParams sample_keeper g = Ret sample_params" "LgBalance g = (\<lambda>_ _. 1000)"
    and b: "Bidder b = [1]" "Bid b = coin_of ''stake'' 100" "Transactions b = [[1], [2]]"
      "bundle_checks sample_keeper True b = Ret ()"
  obtains g' where "ValidateBidInfo sample_keeper g zero_coin b = (g', Ret ())"
proof -
  from sample_extract [OF g] obtain g' where g': "ExtractBid sample_keeper g [1] (coin_of ''stake'' 100) = (g', Ret ())" .
  have fees: "fees sample_params ''stake'' 10 5" by (simp add: fees_def)
  have E: "env_laws (kEnv sample_keeper) LgBalance" by (simp add: ledger_env_laws)
  have "ValidateAuctionBid sample_keeper g [1] (coin_of ''stake'' 100) zero_coin = (g', Ret ())"
    using ValidateAuctionBid_Ret_iff [OF _ g(1) fees, of None "[1]" "coin_of ''stake'' 100" g'] g' plain_coins_laws
    by simp
  moreover have "GetParams sample_keeper g' = Ret sample_params"
    using GetParams_frame [of sample_keeper g' g] ExtractBid_frame [OF E, of g "[1]" "coin_of ''stake'' 100"] g' g(1)
    by simp
  ultimately have "ValidateBidInfo sample_keeper g zero_coin b = (g', Ret ())"
    using g(1) b by (simp add: ValidateBidInfo_def GetMaxBundleSize_def FrontRunningProtectionEnabled_def)
  with that show thesis by blast
qed

theorem ValidateBidInfo_iff_witness:
  "\<exists>g g'. GetParams sample_keeper g = Ret sample_params \<and>
     ValidateBidInfo sample_keeper g zero_coin sample_bid_info = (g', Ret ()) \<and>
     addrString char_addr (Bidder sample_bid_info) \<in> BidSigners sample_bid_info ! 0 \<and>
     TransactionTimeouts sample_bid_info ! 0 \<noteq> Timeout sample_bid_info"
proof -
  obtain g where g: "GetParams sample_keeper g = Ret sample_params" "LgBalance g = (\<lambda>_ _. 1000)"
    by (rule sample_ledger)
  have "bundle_checks sample_keeper True sample_bid_info = Ret ()" by (rule sample_bundle_checks)
  from sample_ValidateBidInfo [OF g _ _ _ this] obtain g' where
    run: "ValidateBidInfo sample_keeper g zero_coin sample_bid_info = (g', Ret ())" by auto
  from run have paid:
    "ValidateAuctionBid sample_keeper g (Bidder sample_bid_info) (Bid sample_bid_info) zero_coin = (g', Ret ())"
    by (rule ValidateBidInfo_RetD)
  have env: "env_laws (kEnv sample_keeper) LgBalance" using sample_keeper_laws by (simp add: keeper_laws_def)
  have "bundle_ordered (addrString char_addr [1]) (BidSigners sample_bid_info)"
    by (auto simp: bundle_ordered_def intro: exI [of _ 2])
  moreover have "\<not> bidder_signed sample_keeper sample_bid_info 1"
    using sample_addrs by (simp add: bidder_signed_def)
  ultimately have "ValidateBidInfo sample_keeper g zero_coin sample_bid_info = (g', Ret ())"
    using ValidateBidInfo_iff [OF env g(1), of zero_coin sample_bid_info g'] paid
    by (auto simp: less_2_cases_iff)
  with g(1) show ?thesis by auto
qed

theorem ValidateAuctionBundle_iff_witness:
  "snd (ValidateAuctionBundle sample_keeper [1] [{addrString char_addr [2]}, {addrString char_addr [1]}]) = Ret () \<and>
   snd (ValidateAuctionBundle sample_keeper [1] [{addrString char_addr [1]}, {addrString char_addr [2]}]) \<noteq> Ret ()"
proof
  show "snd (ValidateAuctionBundle sample_keeper [1] [{addrString char_addr [2]}, {addrString char_addr [1]}]) = Ret ()"
    unfolding ValidateAuctionBundle_iff using sample_addrs by (intro disjI2 exI [of _ 1]) auto
  have "1 \<le> n \<Longrightarrow> n \<le> 2 \<Longrightarrow> n = 1 \<or> n = 2" for n :: nat by linarith
  then show "snd (ValidateAuctionBundle sample_keeper [1] [{addrString char_addr [1]}, {addrString char_addr [2]}]) \<noteq> Ret ()"
    unfolding ValidateAuctionBundle_iff using sample_addrs by fastforce
qed

lemma genesis_export_import_witness:
  "\<forall>g. \<exists>ctx'. Auction_InitGenesis sample_keeper g (NewGenesisState sample_params) = (ctx', Ret ()) \<and>
     Auction_ExportGenesis sample_keeper ctx' = Ret (NewGenesisState sample_params)"
  using genesis_export_import [OF sample_keeper_laws, of "NewGenesisState sample_params"] sample_params_storable
  by (auto simp: NewGenesisState_def)

theorem ExtractBid_conserves_witness:
  "\<exists>g g'. ExtractBid sample_keeper g [1] (coin_of ''stake'' 100) = (g', Ret ()) \<and>
     LgBalance g' [1] ''stake'' = 900 \<and> LgBalance g' [8] ''stake'' = 1010 \<and> LgBalance g' [9] ''stake'' = 1090"
proof -
  obtain g where g: "GetParams sample_keeper g = Ret sample_params" "LgBalance g = (\<lambda>_ _. 1000)"
    by (rule sample_ledger)
  from sample_extract [OF g] obtain g' where g': "ExtractBid sample_keeper g [1] (coin_of ''stake'' 100) = (g', Ret ())" .
  have "payee sample_keeper g sample_params = [8]" by (simp add: payee_def ledger_env_def)
  moreover have "coinValidate (kCoins sample_keeper) (coin_of ''stake'' 100) = Ret ()"
    by (simp add: plain_coins_def plain_valid_def)
  ultimately show ?thesis
    using ExtractBid_conserves [OF sample_keeper_laws g(1) _ _ _ _ _ _ g', of 100000000000000000] g(2) g'
    by (intro exI [of _ g] exI [of _ g'] conjI) (simp_all add: slice_bytes_def)
qed

theorem ValidateAuctionBid_iff_witness:
  "\<exists>g g'. ValidateAuctionBid sample_keeper g [1] (coin_of ''stake'' 100)
     (case Some 95 of None \<Rightarrow> zero_coin | Some h \<Rightarrow> coin_of ''stake'' h) = (g', Ret ())"
proof -
  obtain g where g: "GetParams sample_keeper g = Ret sample_params" "LgBalance g = (\<lambda>_ _. 1000)"
    by (rule sample_ledger)
  from sample_extract [OF g] obtain g' where g': "ExtractBid sample_keeper g [1] (coin_of ''stake'' 100) = (g', Ret ())" .
  have "fees sample_params ''stake'' 10 5" by (simp add: fees_def)
  from ValidateAuctionBid_iff [OF _ g(1) this, of "Some 95" "[1]" "coin_of ''stake'' 100" g'] g' plain_coins_laws
  show ?thesis by auto
qed

text \<open>The same bid with a bundle whose second transaction the bidder signed.\<close>

definition backrun_bid :: BidInfo where
  "backrun_bid = sample_bid_info\<lparr>BidSigners := [{addrString char_addr [2]}, {addrString char_addr [1]}]\<rparr>"

lemma backrun_bid_simps [simp]:
  "Bidder backrun_bid = [1]" "Bid backrun_bid = coin_of ''stake'' 100"
  "Transactions backrun_bid = [[1], [2]]" "Timeout backrun_bid = 8"
  "BidSigners backrun_bid = [{addrString char_addr [2]}, {addrString char_addr [1]}]"
  "TransactionTimeouts backrun_bid = [5, 8]"
  by (simp_all add: backrun_bid_def)

lemma backrun_checks: "bundle_checks sample_keeper True backrun_bid = Ret ()"
proof -
  let ?a = "addrString char_addr [1]" and ?b = "addrString char_addr [2]"
  have "filterSigners {?b} {?a} = {}" "filterSigners {?a} {?a} = {?a}"
    using sample_addrs by (auto simp: filterSigners_def)
  then have "ValidateAuctionBundle sample_keeper [1] [{?b}, {?a}] = ([{}, {?a}], Ret ())"
    using sample_addrs by (simp add: ValidateAuctionBundle_def Let_def)
  then show ?thesis by (simp add: bundle_checks_def ValidateBundleTimeouts_def)
qed

theorem accepted_timeouts_witness:
  "\<exists>g g'. ValidateBidInfo sample_keeper g zero_coin backrun_bid = (g', Ret ()) \<and>
     TransactionTimeouts backrun_bid ! 1 = Timeout backrun_bid"
proof -
  obtain g where g: "GetParams sample_keeper g = Ret sample_params" "LgBalance g = (\<lambda>_ _. 1000)"
    by (rule sample_ledger)
  have "bundle_checks sample_keeper True backrun_bid = Ret ()" by (rule backrun_checks)
  from sample_ValidateBidInfo [OF g _ _ _ this] obtain g' where
    run: "ValidateBidInfo sample_keeper g zero_coin backrun_bid = (g', Ret ())" by auto
  from accepted_timeouts [OF run, of 1] run show ?thesis by auto
qed

text \<open>The decorator over the ledger, with an empty mempool.\<close>

definition ledger_factory :: "ledger Factory" where
  "ledger_factory = \<lparr> WrapBundleTransaction = sample_decode, GetAuctionBidInfo = (\<lambda>_. Ret (Some backrun_bid)),
     FactoryMatchHandler = (\<lambda>_ _. Ret True) \<rparr>"

definition ledger_lane :: "(tx list, ledger) lane_core" where
  "ledger_lane = \<lparr> laneRef = 0,
     cfg = NewLaneConfig (Some ()) (Some sample_encode) (Some sample_decode) None (Some DefaultAdapter_GetSigners) (Dec 0),
     laneName = ''mev'', laneMempool = Some list_mempool, matchHandler = Some (\<lambda>_ _. Ret True) \<rparr>"

theorem ante_accepts_bid_witness:
  "\<exists>g g'. Auction_AnteHandle ledger_ctx (ValidateBidInfo sample_keeper) (Some sample_encode) ledger_factory ledger_lane
     [] g (sample_tx [1]) False (\<lambda>c _ _. (c, Ret c)) = ([], g', Ret g') \<and>
     Timeout backrun_bid = BlockHeight ledger_ctx g + 1 \<and>
     bundle_ordered (addrString char_addr (Bidder backrun_bid)) (BidSigners backrun_bid)"
proof -
  obtain g where g: "GetParams sample_keeper g = Ret sample_params" "VcHeight g = 7" "VcMode g = ExecModeCheck"
    "LgBalance g = (\<lambda>_ _. 1000)"
    by (rule sample_ledger)
  have "bundle_checks sample_keeper True backrun_bid = Ret ()" by (rule backrun_checks)
  from sample_ValidateBidInfo [OF g(1,4) _ _ _ this] obtain g' where
    v: "ValidateBidInfo sample_keeper g zero_coin backrun_bid = (g', Ret ())" by auto
  have f: "GetAuctionBidInfo ledger_factory (sample_tx [1]) = Ret (Some backrun_bid)"
    by (simp add: ledger_factory_def)
  have run: "Auction_AnteHandle ledger_ctx (ValidateBidInfo sample_keeper) (Some sample_encode) ledger_factory ledger_lane
     [] g (sample_tx [1]) False (\<lambda>c _ _. (c, Ret c)) = ([], g', Ret g')"
    using v g f by (simp add: Auction_AnteHandle_def ValidateTimeout_def ledger_ctx_def nextHeightExecModes_def
      top_bid_def GetTopAuctionTx_def ledger_lane_def)
  have fees: "fees sample_params ''stake'' 10 5" by (simp add: fees_def)
  from ante_accepts_bid [OF sample_keeper_laws g(1) fees run f] run g(3)
  show ?thesis by (auto simp: ledger_ctx_def nextHeightExecModes_def)
qed

end
