(* ===== verification/Auction_Module.thy ===== *)
theory Auction_Module
  imports Auction_Keeper
begin

text \<open>
  What an operator sees of the auction module: the genesis file (\<open>x/auction/module.go\<close>), the module's
  construction from its configuration, and the command that places a bid (\<open>x/auction/client/cli/tx.go\<close>).
  The JSON codec is a parameter, and so are the SDK's command line context and its parser of coins.
  Splitting at commas and decoding hexadecimal text are Go's own \<open>strings.Split\<close> and \<open>hex.DecodeString\<close>.
\<close>

section \<open>The genesis file\<close>

record json_ops =
  marshalJSON :: "GenesisState \<Rightarrow> string go"
  unmarshalJSON :: "string \<Rightarrow> GenesisState go"

text \<open>Documented: what the codec writes, it reads back.\<close>

definition json_laws :: "json_ops \<Rightarrow> bool" where
  "json_laws J \<longleftrightarrow>
     (\<forall>g bz. storable (GenParams g) \<longrightarrow> marshalJSON J g = Ret bz \<longrightarrow> unmarshalJSON J bz = Ret g)"

text \<open>The variants of the codec's functions that panic on an error.\<close>

definition must :: "'a go \<Rightarrow> 'a go" where
  "must r = (case r of Ret x \<Rightarrow> Ret x | _ \<Rightarrow> Panic)"

lemma must_Ret [simp]: "must (Ret x) = Ret x"
  by (simp add: must_def)

definition AppModule_DefaultGenesis :: "json_ops \<Rightarrow> coin_ops \<Rightarrow> dec_ops \<Rightarrow> bytes option \<Rightarrow> string go" where
  "AppModule_DefaultGenesis J K D escrow =
     go_bind (DefaultGenesisState K D escrow) (\<lambda>g. must (marshalJSON J g))"

definition AppModule_ValidateGenesis :: "json_ops \<Rightarrow> coin_ops \<Rightarrow> dec_ops \<Rightarrow> string \<Rightarrow> unit go" where
  "AppModule_ValidateGenesis J K D bz =
     go_bind (wrap_err ''failed to unmarshal %s genesis state'' (unmarshalJSON J bz)) (GenesisState_Validate K D)"

definition AppModule_InitGenesis :: "json_ops \<Rightarrow> 'ctx Keeper \<Rightarrow> 'ctx \<Rightarrow> string \<Rightarrow> 'ctx \<times> unit go" where
  "AppModule_InitGenesis J k ctx gs =
     and_then (ctx, must (unmarshalJSON J gs)) (Auction_InitGenesis k)"

definition AppModule_ExportGenesis :: "json_ops \<Rightarrow> 'ctx Keeper \<Rightarrow> 'ctx \<Rightarrow> string go" where
  "AppModule_ExportGenesis J k ctx = go_bind (Auction_ExportGenesis k ctx) (\<lambda>g. must (marshalJSON J g))"

text \<open>
  The authority is the configured one, or the governance module's; the two functions of the SDK give the
  addresses.
\<close>

definition ProvideModule ::
    "(string \<Rightarrow> bytes) \<Rightarrow> (string \<Rightarrow> bytes) \<Rightarrow> 'ctx keeper_env \<Rightarrow> coin_ops \<Rightarrow> dec_ops \<Rightarrow> addr_ops \<Rightarrow> wire_ops \<Rightarrow>
     ('ctx \<Rightarrow> bytes go) \<Rightarrow> ('ctx \<Rightarrow> bytes \<Rightarrow> string go) \<Rightarrow> string \<Rightarrow> 'ctx Keeper go" where
  "ProvideModule newModuleAddress newModuleAddressOrBech32 E K D A W distr staking configAuthority =
     (let authority = newModuleAddress ''gov'';
          authority = if configAuthority \<noteq> '''' then newModuleAddressOrBech32 configAuthority else authority in
      NewKeeper E K D A W distr staking (addrString A authority))"

lemma ProvideModule_authority:
  assumes "ProvideModule f b E K D A W distr staking c = Ret k"
  shows "kAuthority k = addrString A (if c \<noteq> '''' then b c else f ''gov'') \<and> moduleAddress E ModuleName \<noteq> None"
  using assms by (auto simp: ProvideModule_def Let_def NewKeeper_def NewKeeperWithRewardsAddressProvider_def
    split: go.splits if_splits)

text \<open>
  An empty escrow address is written like none, so the store gives none back: \<open>stored\<close> is the genesis state
  that the store holds.
\<close>

definition stored :: "GenesisState \<Rightarrow> GenesisState" where
  "stored g = (if EscrowAccountAddress (GenParams g) = Some []
     then g\<lparr>GenParams := (GenParams g)\<lparr>EscrowAccountAddress := None\<rparr>\<rparr> else g)"

definition amounts_fit :: "Params \<Rightarrow> bool" where
  "amounts_fit p \<longleftrightarrow> storable (p\<lparr>EscrowAccountAddress := None\<rparr>)"

lemma amounts_fit_stored: "amounts_fit (GenParams g) \<Longrightarrow> storable (GenParams (stored g))"
  by (auto simp: amounts_fit_def stored_def storable_def)

lemma SetParams_stored: "SetParams k ctx (GenParams g) = SetParams k ctx (GenParams (stored g))"
  by (simp add: SetParams_def Params_Marshal_def Params_Size_def Params_MarshalToSizedBuffer_def stored_def
    escrow_field_def)

lemma Params_Size_stored: "Params_Size W (GenParams (stored g)) = Params_Size W (GenParams g)"
  by (simp add: Params_Size_def stored_def)

text \<open>C16: A genesis file that passes validation initialises the module, and exporting the state right after
  writes a file that reads back as what the store holds. The exported file passes validation again unless
  the escrow address of the first one was empty: validation accepts an empty address but refuses the absent
  one that the store makes of it.\<close>

theorem exported_genesis_valid_iff:
  assumes "keeper_laws k bal" and "json_laws J" and "unmarshalJSON J bz = Ret g"
    and "AppModule_ValidateGenesis J (kCoins k) (kDecs k) bz = Ret ()"
    and "amounts_fit (GenParams g)" and "Params_Size (kWire k) (GenParams g) < 2 ^ 63"
    and "marshalJSON J (stored g) = Ret out"
  shows "\<exists>ctx'. AppModule_InitGenesis J k ctx bz = (ctx', Ret ()) \<and>
    AppModule_ExportGenesis J k ctx' = Ret out \<and> unmarshalJSON J out = Ret (stored g) \<and>
    (AppModule_ValidateGenesis J (kCoins k) (kDecs k) out = Ret () \<longleftrightarrow>
       EscrowAccountAddress (GenParams g) \<noteq> Some [])"
proof -
  have fits: "storable (GenParams (stored g))" by (rule amounts_fit_stored [OF assms(5)])
  have size: "Params_Size (kWire k) (GenParams (stored g)) < 2 ^ 63" using assms(6) by (simp add: Params_Size_stored)
  obtain ctx' where ctx': "Auction_InitGenesis k ctx g = (ctx', Ret ())" "Auction_ExportGenesis k ctx' = Ret (stored g)"
    using genesis_export_import [OF assms(1) fits size, of ctx] SetParams_stored [of k ctx g]
    by (auto simp: Auction_InitGenesis_def)
  have read: "unmarshalJSON J out = Ret (stored g)"
    using assms(2,7) fits unfolding json_laws_def by blast
  have valid: "GenesisState_Validate (kCoins k) (kDecs k) g = Ret ()"
    using assms(3,4) by (simp add: AppModule_ValidateGenesis_def)
  have "GenesisState_Validate (kCoins k) (kDecs k) (stored g) = Ret () \<longleftrightarrow> EscrowAccountAddress (GenParams g) \<noteq> Some []"
  proof (cases "EscrowAccountAddress (GenParams g) = Some []")
    case True
    then show ?thesis by (simp add: GenesisState_Validate_def Params_Validate_def stored_def)
  next
    case False
    then show ?thesis using valid by (simp add: stored_def)
  qed
  then show ?thesis
    using ctx' assms(3,7) read
    by (auto simp: AppModule_InitGenesis_def AppModule_ExportGenesis_def AppModule_ValidateGenesis_def)
qed

text \<open>A concrete codec: the bytes of the wire format, behind a mark that can say that the escrow address is empty.\<close>

definition marked_json :: json_ops where
  "marked_json = \<lparr>
     marshalJSON = (\<lambda>g. if GenesisState_Size stroke_wire g < 2 ^ 63
       then go_bind (GenesisState_Marshal stroke_wire g) (\<lambda>bz. Ret (CHR ''p'' # bytes_string bz))
       else Err (ExternalError 5)),
     unmarshalJSON = (\<lambda>s. case s of [] \<Rightarrow> Err (ExternalError 5)
       | c # s \<Rightarrow> go_bind (GenesisState_Unmarshal stroke_wire zero_genesis (string_bytes s)) (\<lambda>g.
           Ret (if c = CHR ''e'' then g\<lparr>GenParams := (GenParams g)\<lparr>EscrowAccountAddress := Some []\<rparr>\<rparr> else g))) \<rparr>"

lemma marked_json_laws: "json_laws marked_json"
  unfolding json_laws_def
proof (intro allI impI)
  fix g bz
  assume "storable (GenParams g)" and m: "marshalJSON marked_json g = Ret bz"
  then have "GenesisState_Size stroke_wire g < 2 ^ 63" by (simp add: marked_json_def split: if_splits)
  with \<open>storable (GenParams g)\<close> obtain w where
    "GenesisState_Marshal stroke_wire g = Ret w" "GenesisState_Unmarshal stroke_wire zero_genesis w = Ret g"
    using GenesisState_roundtrip [OF stroke_wire_laws] by blast
  with m show "unmarshalJSON marked_json bz = Ret g"
    by (auto simp: marked_json_def split: if_splits)
qed


definition small_params :: "bytes option \<Rightarrow> Params" where
  "small_params escrow = NewParams 2 escrow (coin_of ''stake'' 1) (coin_of ''stake'' 1) True (Dec 0)"

lemma small_params_facts:
  "escrow \<noteq> Some [] \<Longrightarrow> storable (small_params escrow)" "amounts_fit (small_params escrow)"
  "EscrowAccountAddress (small_params escrow) = escrow"
  "Params_Size stroke_wire (small_params escrow) = (case escrow of None \<Rightarrow> 28 | Some a \<Rightarrow> if a = [] then 28 else 28 + field_size (length a))"
  "stored (NewGenesisState (small_params (Some []))) = NewGenesisState (small_params None)"
  by (simp_all add: small_params_def NewParams_def storable_def amounts_fit_def Params_Size_def field_size_def
    stroke_wire_def stroke_bytes_def sov_small NewGenesisState_def stored_def split: option.split)

theorem exported_genesis_valid_iff_witness:
  "\<forall>ctx. \<exists>bz out ctx'. AppModule_ValidateGenesis marked_json plain_coins scaled_dec bz = Ret () \<and>
    AppModule_InitGenesis marked_json sample_keeper ctx bz = (ctx', Ret ()) \<and>
    AppModule_ExportGenesis marked_json sample_keeper ctx' = Ret out \<and>
    AppModule_ValidateGenesis marked_json plain_coins scaled_dec out \<noteq> Ret ()"
proof
  fix ctx :: ledger
  let ?g = "NewGenesisState (small_params (Some []))" and ?s = "NewGenesisState (small_params None)"
  have size: "GenesisState_Size stroke_wire ?s < 2 ^ 63"
    by (simp add: GenesisState_Size_def NewGenesisState_def small_params_facts field_size_def sov_small)
  have "storable (GenParams ?s)" by (simp add: NewGenesisState_def small_params_facts)
  then obtain w where w: "GenesisState_Marshal stroke_wire ?s = Ret w"
    "GenesisState_Unmarshal stroke_wire zero_genesis w = Ret ?s"
    using GenesisState_roundtrip [OF stroke_wire_laws _ size] by blast
  let ?bz = "CHR ''e'' # bytes_string w"
  have read: "unmarshalJSON marked_json ?bz = Ret ?g"
    using w(2) by (simp add: marked_json_def NewGenesisState_def small_params_def NewParams_def)
  have "GenesisState_Validate plain_coins scaled_dec ?g = Ret ()"
    unfolding GenesisState_Validate_def Params_Validate_iff [OF plain_coins_laws scaled_dec_laws]
    by (simp add: NewGenesisState_def small_params_def NewParams_def plain_coins_def plain_valid_def)
  then have valid: "AppModule_ValidateGenesis marked_json plain_coins scaled_dec ?bz = Ret ()"
    using read by (simp add: AppModule_ValidateGenesis_def)
  have "marshalJSON marked_json (stored ?g) = Ret (CHR ''p'' # bytes_string w)"
    using w(1) size by (simp add: small_params_facts marked_json_def)
  from exported_genesis_valid_iff [OF sample_keeper_laws marked_json_laws read _ _ _ this, of ctx] valid
  show "\<exists>bz out ctx'. AppModule_ValidateGenesis marked_json plain_coins scaled_dec bz = Ret () \<and>
    AppModule_InitGenesis marked_json sample_keeper ctx bz = (ctx', Ret ()) \<and>
    AppModule_ExportGenesis marked_json sample_keeper ctx' = Ret out \<and>
    AppModule_ValidateGenesis marked_json plain_coins scaled_dec out \<noteq> Ret ()"
    by (auto simp: small_params_facts NewGenesisState_def)
qed

section \<open>The command that places a bid\<close>

text \<open>\<open>strings.Split\<close>: a text without the separator is one piece, the empty text as well.\<close>

fun split_at_char :: "char \<Rightarrow> string \<Rightarrow> string list" where
  "split_at_char sep [] = [[]]"
| "split_at_char sep (c # s) =
     (if c = sep then [] # split_at_char sep s
      else (case split_at_char sep s of [] \<Rightarrow> [[c]] | t # ts \<Rightarrow> (c # t) # ts))"

text \<open>\<open>hex.DecodeString\<close>: the errors are the first character that is no digit, and an odd length.\<close>

definition hex_digits :: string where
  "hex_digits = ''0123456789abcdef''"

definition hex_value :: "char \<Rightarrow> 8 word option" where
  "hex_value c =
     (let n = of_char c :: nat in
      if 48 \<le> n \<and> n \<le> 57 then Some (of_nat (n - 48))
      else if 97 \<le> n \<and> n \<le> 102 then Some (of_nat (n - 87))
      else if 65 \<le> n \<and> n \<le> 70 then Some (of_nat (n - 55))
      else None)"

fun hex_decode :: "string \<Rightarrow> bytes go" where
  "hex_decode [] = Ret []"
| "hex_decode [p] =
     (if hex_value p = None then Err (Errorf ''encoding/hex: invalid byte: %#U'')
      else Err (Errorf ''encoding/hex: odd length hex string''))"
| "hex_decode (p # q # s) =
     (case (hex_value p, hex_value q) of
        (Some a, Some b) \<Rightarrow> go_bind (hex_decode s) (\<lambda>bz. Ret ((push_bit 4 a OR b) # bz))
      | _ \<Rightarrow> Err (Errorf ''encoding/hex: invalid byte: %#U''))"

fun decode_bundle :: "string list \<Rightarrow> bytes list go" where
  "decode_bundle [] = Ret []"
| "decode_bundle (token # tokens) =
     go_bind (wrap_err ''failed to HEX decode bundled transaction %d'' (hex_decode token)) (\<lambda>rawTx.
       go_bind (decode_bundle tokens) (\<lambda>txs. Ret (rawTx # txs)))"

text \<open>
  \<open>fromAddress\<close> is what the flag and the client context make of the first argument, \<open>broadcast\<close> is
  \<open>tx.GenerateOrBroadcastTxCLI\<close>.
\<close>

definition NewAuctionBidTx ::
    "addr_ops \<Rightarrow> (string \<Rightarrow> bytes go) \<Rightarrow> (string \<Rightarrow> Coin go) \<Rightarrow> u64 \<Rightarrow> (MsgAuctionBidData \<Rightarrow> unit go) \<Rightarrow> string list \<Rightarrow>
     unit go" where
  "NewAuctionBidTx A fromAddress parseCoin timeoutHeight broadcast args =
     (case args of
        [bidder, bid, bundle] \<Rightarrow>
          go_bind (fromAddress bidder) (\<lambda>from. go_bind (parseCoin bid) (\<lambda>bid.
            if timeoutHeight = 0 then Err (Errorf ''timeout height must be greater than 0'')
            else go_bind (decode_bundle (split_at_char CHR '','' bundle)) (\<lambda>bundledTxs.
              broadcast (NewMsgAuctionBid A from bid bundledTxs))))
      | _ \<Rightarrow> Err (Errorf ''accepts %d arg(s), received %d''))"


text \<open>The text of a bundle: the bytes of each transaction in hexadecimal digits, separated by commas.\<close>

definition hex_encode :: "bytes \<Rightarrow> string" where
  "hex_encode bz = concat (map (\<lambda>b. [hex_digits ! unat (drop_bit 4 b), hex_digits ! unat (b AND 15)]) bz)"

fun join_commas :: "string list \<Rightarrow> string" where
  "join_commas [] = []"
| "join_commas [t] = t"
| "join_commas (t # ts) = t @ CHR '','' # join_commas ts"

lemma hex_digit: "n < 16 \<Longrightarrow> hex_value (hex_digits ! n) = Some (of_nat n) \<and> hex_digits ! n \<noteq> CHR '',''"
  by (auto simp: numeral_eq_Suc less_Suc_eq hex_digits_def hex_value_def)

lemma hex_nibbles:
  "hex_value (hex_digits ! unat (drop_bit 4 b)) = Some (drop_bit 4 b)"
  "hex_value (hex_digits ! unat (b AND 15)) = Some (b AND 15)"
  "hex_digits ! unat (drop_bit 4 b) \<noteq> CHR '',''" "hex_digits ! unat (b AND 15) \<noteq> CHR '',''"
  for b :: "8 word"
proof -
  have "unat b < 2 ^ LENGTH(8)" by (rule unsigned_less)
  moreover have "unat (drop_bit 4 b) = unat b div 16"
    by (simp add: drop_bit_eq_div unat_div)
  ultimately have "unat (drop_bit 4 b) < 16" by (simp add: less_mult_imp_div_less)
  moreover have "unat (b AND 15) < 16"
    using word_and_le1 [of b 15] by (simp add: word_le_nat_alt)
  ultimately show "hex_value (hex_digits ! unat (drop_bit 4 b)) = Some (drop_bit 4 b)"
    "hex_value (hex_digits ! unat (b AND 15)) = Some (b AND 15)"
    "hex_digits ! unat (drop_bit 4 b) \<noteq> CHR '',''" "hex_digits ! unat (b AND 15) \<noteq> CHR '',''"
    using hex_digit by simp_all
qed

lemma byte_nibbles: "push_bit 4 (drop_bit 4 b) OR (b AND 15) = (b :: 8 word)"
proof -
  have "b AND 15 = take_bit 4 b" by (simp add: take_bit_eq_mask mask_eq_exp_minus_1)
  then show ?thesis by (auto intro!: bit_word_eqI simp: bit_simps)
qed

lemma hex_decode_encode: "hex_decode (hex_encode bz) = Ret bz"
proof (induction bz)
  case (Cons b bz)
  then show ?case by (simp add: hex_encode_def hex_nibbles byte_nibbles)
qed (simp add: hex_encode_def)

lemma hex_encode_no_comma: "CHR '','' \<notin> set (hex_encode bz)"
  by (auto simp: hex_encode_def) (metis hex_nibbles(3,4))+

lemma split_one: "sep \<notin> set t \<Longrightarrow> split_at_char sep t = [t]"
  by (induction t) auto

lemma split_first: "sep \<notin> set t \<Longrightarrow> split_at_char sep (t @ sep # s) = t # split_at_char sep s"
  by (induction t) auto

lemma split_join:
  "ts \<noteq> [] \<Longrightarrow> \<forall>t \<in> set ts. CHR '','' \<notin> set t \<Longrightarrow> split_at_char CHR '','' (join_commas ts) = ts"
  by (induction ts rule: join_commas.induct) (simp_all add: split_one split_first)

lemma decode_bundle_encoded: "decode_bundle (map hex_encode txs) = Ret txs"
  by (induction txs) (simp_all add: hex_decode_encode)

lemma split_bundle:
  assumes "txs \<noteq> []" and "CHR '','' \<notin> set pre"
  shows "split_at_char CHR '','' (join_commas (map (\<lambda>tx. pre @ hex_encode tx) txs)) = map (\<lambda>tx. pre @ hex_encode tx) txs"
  by (rule split_join) (use assms hex_encode_no_comma in auto)

text \<open>C17: The bid command broadcasts exactly the bundle whose text it is given, hexadecimal digits separated by
  commas. With the prefix \<open>0x\<close> on every transaction, as the command's own example has it, nothing is
  broadcast: \<open>x\<close> is no digit.\<close>

theorem NewAuctionBidTx_bundle:
  assumes "fromAddress bidder = Ret from" and "parseCoin bid = Ret c" and "timeoutHeight \<noteq> 0" and "txs \<noteq> []"
  shows "NewAuctionBidTx A fromAddress parseCoin timeoutHeight broadcast
      [bidder, bid, join_commas (map hex_encode txs)] = broadcast (NewMsgAuctionBid A from c txs) \<and>
    NewAuctionBidTx A fromAddress parseCoin timeoutHeight broadcast
      [bidder, bid, join_commas (map (\<lambda>tx. ''0x'' @ hex_encode tx) txs)] =
      Err (Wrapf ''failed to HEX decode bundled transaction %d'' (Errorf ''encoding/hex: invalid byte: %#U''))"
proof
  show "NewAuctionBidTx A fromAddress parseCoin timeoutHeight broadcast
      [bidder, bid, join_commas (map hex_encode txs)] = broadcast (NewMsgAuctionBid A from c txs)"
    using assms split_bundle [of txs "[]"] by (simp add: NewAuctionBidTx_def decode_bundle_encoded)
  have "decode_bundle (map (\<lambda>tx. ''0x'' @ hex_encode tx) txs) =
      Err (Wrapf ''failed to HEX decode bundled transaction %d'' (Errorf ''encoding/hex: invalid byte: %#U''))"
    using assms(4) by (cases txs) (simp_all add: hex_value_def)
  then show "NewAuctionBidTx A fromAddress parseCoin timeoutHeight broadcast
      [bidder, bid, join_commas (map (\<lambda>tx. ''0x'' @ hex_encode tx) txs)] =
      Err (Wrapf ''failed to HEX decode bundled transaction %d'' (Errorf ''encoding/hex: invalid byte: %#U''))"
    using assms split_bundle [of txs "''0x''"] by (simp add: NewAuctionBidTx_def)
qed

theorem NewAuctionBidTx_bundle_witness:
  "NewAuctionBidTx char_addr (\<lambda>s. Ret [1]) (\<lambda>s. Ret (coin_of ''stake'' 100)) 7 (\<lambda>msg. Err (ExternalError 1))
     [''ann'', ''100stake'', ''01ff,80''] = Err (ExternalError 1)"
proof -
  have "join_commas (map hex_encode [[1, 255], [128]]) = ''01ff,80''"
    by (simp add: hex_encode_def hex_digits_def)
  then show ?thesis
    using NewAuctionBidTx_bundle [of "\<lambda>s. Ret [1]" "''ann''" "[1]" "\<lambda>s. Ret (coin_of ''stake'' 100)" "''100stake''"
      "coin_of ''stake'' 100" 7 "[[1, 255], [128]]" char_addr "\<lambda>msg. Err (ExternalError 1)"] by simp
qed

end
