(* ===== verification/Info_Codec.thy ===== *)
theory Info_Codec
  imports Laned_Mempool Proto_Codec
begin

text \<open>
  The wire format of the messages that hold a map (\<open>block/proposals/types/types.pb.go\<close> and
  \<open>block/service/types/query.pb.go\<close>): the metadata of a proposal, which \<open>GetProposalWithInfo\<close> puts
  in front of its transactions, and the response of the query for the distribution of transactions.
  The order in which \<open>range\<close> visits a map is a parameter of \<open>Size\<close> and one of \<open>Marshal\<close>: two
  ranges over one map may differ. The lemmas show that the message comes back whatever the orders.
\<close>

section \<open>ProposalInfo\<close>

definition zero_info :: ProposalInfo where
  "zero_info = \<lparr> TxsByLane = Map.empty, MaxBlockSize = 0, MaxGasLimit = 0, BlockSize = 0, GasLimit = 0 \<rparr>"

text \<open>A field of a varint, left out when it is zero.\<close>

definition varint_field :: "8 word \<Rightarrow> u64 \<Rightarrow> bytes" where
  "varint_field tag v = (if v \<noteq> 0 then tag # encode_varint v else [])"

definition varint_field_size :: "u64 \<Rightarrow> nat" where
  "varint_field_size v = (if v \<noteq> 0 then 1 + sov v else 0)"

definition ProposalInfo_Size :: "string list \<Rightarrow> ProposalInfo \<Rightarrow> nat" where
  "ProposalInfo_Size order m =
     map_size order (TxsByLane m) + varint_field_size (MaxBlockSize m) +
     varint_field_size (MaxGasLimit m) + varint_field_size (BlockSize m) + varint_field_size (GasLimit m)"

definition ProposalInfo_MarshalToSizedBuffer :: "string list \<Rightarrow> ProposalInfo \<Rightarrow> bytes" where
  "ProposalInfo_MarshalToSizedBuffer order m =
     (let out = varint_field 0x28 (GasLimit m);
          out = varint_field 0x20 (BlockSize m) @ out;
          out = varint_field 0x18 (MaxGasLimit m) @ out;
          out = varint_field 0x10 (MaxBlockSize m) @ out in
      map_entries order (TxsByLane m) out)"

definition ProposalInfo_Marshal :: "string list \<Rightarrow> string list \<Rightarrow> ProposalInfo \<Rightarrow> bytes go" where
  "ProposalInfo_Marshal sizeOrder order m =
     marshal_sized (ProposalInfo_Size sizeOrder m) (Ret (ProposalInfo_MarshalToSizedBuffer order m))"

definition ProposalInfo_fields :: "ProposalInfo \<Rightarrow> u32 \<Rightarrow> nat \<Rightarrow> ProposalInfo action" where
  "ProposalInfo_fields m fieldNum wireType =
     (if fieldNum = 1 then
        (if wireType \<noteq> 2 then WrongWireType ''TxsByLane''
         else ReadEntry (\<lambda>(mapkey, mapvalue). m\<lparr>TxsByLane := (TxsByLane m)(mapkey \<mapsto> mapvalue)\<rparr>))
      else if fieldNum = 2 then
        (if wireType \<noteq> 0 then WrongWireType ''MaxBlockSize'' else ReadVarint (\<lambda>v. m\<lparr>MaxBlockSize := v\<rparr>))
      else if fieldNum = 3 then
        (if wireType \<noteq> 0 then WrongWireType ''MaxGasLimit'' else ReadVarint (\<lambda>v. m\<lparr>MaxGasLimit := v\<rparr>))
      else if fieldNum = 4 then
        (if wireType \<noteq> 0 then WrongWireType ''BlockSize'' else ReadVarint (\<lambda>v. m\<lparr>BlockSize := v\<rparr>))
      else if fieldNum = 5 then
        (if wireType \<noteq> 0 then WrongWireType ''GasLimit'' else ReadVarint (\<lambda>v. m\<lparr>GasLimit := v\<rparr>))
      else SkipUnknown)"

definition ProposalInfo_Unmarshal :: "ProposalInfo \<Rightarrow> bytes \<Rightarrow> ProposalInfo go" where
  "ProposalInfo_Unmarshal = unmarshal ''ProposalInfo'' ProposalInfo_fields"

definition GetProposalWithInfo :: "string list \<Rightarrow> string list \<Rightarrow> Proposal \<Rightarrow> bytes list go" where
  "GetProposalWithInfo sizeOrder order p =
     go_bind (ProposalInfo_Marshal sizeOrder order (Info p)) (\<lambda>infoBz. Ret (infoBz # Txs p))"

text \<open>The encoding has the announced size, whatever the two orders.\<close>

lemma ProposalInfo_encoding:
  assumes "range_order sizeOrder (TxsByLane m)" and "range_order order (TxsByLane m)"
  shows "length (ProposalInfo_MarshalToSizedBuffer order m) = ProposalInfo_Size sizeOrder m"
    and "ProposalInfo_Marshal sizeOrder order m = Ret (ProposalInfo_MarshalToSizedBuffer order m)"
proof -
  have "length (varint_field tag v) = varint_field_size v" for tag v
    by (simp add: varint_field_def varint_field_size_def length_encode_varint)
  then show len: "length (ProposalInfo_MarshalToSizedBuffer order m) = ProposalInfo_Size sizeOrder m"
    using map_size_order [OF assms]
    by (simp add: ProposalInfo_MarshalToSizedBuffer_def ProposalInfo_Size_def length_map_entries)
  show "ProposalInfo_Marshal sizeOrder order m = Ret (ProposalInfo_MarshalToSizedBuffer order m)"
    unfolding ProposalInfo_Marshal_def by (rule marshal_sized_exact [OF len])
qed

text \<open>A field in front of the rest of the input sets its part of the message.\<close>

lemma resume_varint_field:
  assumes "suffix (varint_field (ucast v) x @ rest) dAtA"
    and "v < 128" and "8 \<le> v" and "v AND 7 \<noteq> (4 :: u64)"
    and "dispatch m (ucast (drop_bit 3 v)) (unat (v AND 7)) = ReadVarint f" and "x = 0 \<Longrightarrow> f 0 = m"
  shows "resume name dispatch dAtA m (varint_field (ucast v) x @ rest) = resume name dispatch dAtA (f x) rest"
  using assms resume_varint [of v x rest dAtA dispatch m f "f x", where name = name]
  by (cases "x = 0") (simp_all add: varint_field_def)

lemma ProposalInfo_update_same:
  "MaxBlockSize m = s \<Longrightarrow> m\<lparr>MaxBlockSize := s\<rparr> = m"
  "MaxGasLimit m = g \<Longrightarrow> m\<lparr>MaxGasLimit := g\<rparr> = m"
  "BlockSize m = s \<Longrightarrow> m\<lparr>BlockSize := s\<rparr> = m"
  "GasLimit m = g \<Longrightarrow> m\<lparr>GasLimit := g\<rparr> = m" for m :: ProposalInfo
  by auto

lemma ProposalInfo_roundtrip:
  assumes "range_order order (TxsByLane m)"
    and "length (ProposalInfo_MarshalToSizedBuffer order m) < 2 ^ 63"
  shows "ProposalInfo_Unmarshal zero_info (ProposalInfo_MarshalToSizedBuffer order m) = Ret m"
proof -
  define t5 where "t5 = varint_field 0x28 (GasLimit m) @ []"
  define t4 where "t4 = varint_field 0x20 (BlockSize m) @ t5"
  define t3 where "t3 = varint_field 0x18 (MaxGasLimit m) @ t4"
  define t2 where "t2 = varint_field 0x10 (MaxBlockSize m) @ t3"
  define bz where "bz = map_entries order (TxsByLane m) t2"
  have enc: "ProposalInfo_MarshalToSizedBuffer order m = bz"
    by (simp add: ProposalInfo_MarshalToSizedBuffer_def bz_def t2_def t3_def t4_def t5_def)
  let ?u = "resume ''ProposalInfo'' ProposalInfo_fields bz"
  let ?upd = "\<lambda>m (k, v). m\<lparr>TxsByLane := (TxsByLane m)(k \<mapsto> v)\<rparr>"
  have s2: "suffix t2 bz" unfolding bz_def by (rule suffix_map_entries)
  then have s3: "suffix t3 bz" unfolding t2_def by (rule suffix_appendD)
  then have s4: "suffix t4 bz" unfolding t3_def by (rule suffix_appendD)
  then have s5: "suffix t5 bz" unfolding t4_def by (rule suffix_appendD)
  note step = resume_varint_field [where dispatch = ProposalInfo_fields and name = "''ProposalInfo''"]
  have e2: "?u i t2 = ?u (i\<lparr>MaxBlockSize := MaxBlockSize m\<rparr>) t3" if "MaxBlockSize i = 0" for i
    using step [where v = "0x10" and m = i and dAtA = bz] s2 that
    by (simp add: t2_def ProposalInfo_fields_def ProposalInfo_update_same)
  have e3: "?u i t3 = ?u (i\<lparr>MaxGasLimit := MaxGasLimit m\<rparr>) t4" if "MaxGasLimit i = 0" for i
    using step [where v = "0x18" and m = i and dAtA = bz] s3 that
    by (simp add: t3_def ProposalInfo_fields_def ProposalInfo_update_same)
  have e4: "?u i t4 = ?u (i\<lparr>BlockSize := BlockSize m\<rparr>) t5" if "BlockSize i = 0" for i
    using step [where v = "0x20" and m = i and dAtA = bz] s4 that
    by (simp add: t4_def ProposalInfo_fields_def ProposalInfo_update_same)
  have e5: "?u i t5 = Ret (i\<lparr>GasLimit := GasLimit m\<rparr>)" if "GasLimit i = 0" for i
    using step [where v = "0x28" and m = i and dAtA = bz and rest = "[]"] s5 that
    by (simp add: t5_def ProposalInfo_fields_def ProposalInfo_update_same)
  have e1: "?u i bz = ?u (foldr (\<lambda>k i. ?upd i (k, the (TxsByLane m k))) order i) t2" for i
    using resume_entries [where upd = ?upd and dispatch = ProposalInfo_fields and order = order and
        M = "TxsByLane m" and rest = t2 and dAtA = bz and name = "''ProposalInfo''"] assms(2) enc
    by (simp add: bz_def ProposalInfo_fields_def case_prod_beta)
  have folded: "foldr (\<lambda>k i. ?upd i (k, the (TxsByLane m k))) ks i =
      i\<lparr>TxsByLane := foldr (\<lambda>k N. N(k \<mapsto> the (TxsByLane m k))) ks (TxsByLane i)\<rparr>" for ks i
    by (induction ks) (simp_all del: fun_upd_apply)
  have "ProposalInfo_Unmarshal zero_info bz = ?u zero_info bz"
    by (simp add: ProposalInfo_Unmarshal_def unmarshal_def resume_def)
  also have "\<dots> = ?u (zero_info\<lparr>TxsByLane := TxsByLane m\<rparr>) t2"
    using map_from_entries [OF assms(1)] by (simp only: e1 folded) (simp add: zero_info_def)
  also have "\<dots> = Ret m"
    by (subst e2 e3 e4 e5, simp add: zero_info_def)+ (simp add: zero_info_def)
  finally show ?thesis by (simp add: enc)
qed

text \<open>C27: Whatever the orders in which the ranges over the lane counts visit them,
  \<open>GetProposalWithInfo\<close> returns the transactions with one slot in front, of as many bytes as
  \<open>Size\<close> announces, from which \<open>Unmarshal\<close> reads the metadata of the proposal back.\<close>

theorem GetProposalWithInfo_recovers:
  assumes "range_order sizeOrder (TxsByLane (Info p))" and "range_order order (TxsByLane (Info p))"
    and "ProposalInfo_Size sizeOrder (Info p) < 2 ^ 63"
  shows "\<exists>bz. GetProposalWithInfo sizeOrder order p = Ret (bz # Txs p) \<and>
    length bz = ProposalInfo_Size sizeOrder (Info p) \<and> ProposalInfo_Unmarshal zero_info bz = Ret (Info p)"
  using ProposalInfo_encoding [OF assms(1,2)] ProposalInfo_roundtrip [OF assms(2)] assms(3)
  by (simp add: GetProposalWithInfo_def)

definition two_lanes :: Proposal where
  "two_lanes = \<lparr> Txs = [[1], [2, 3]], Cache = {},
     Info = \<lparr> TxsByLane = [''mev'' \<mapsto> 1, ''default'' \<mapsto> 2], MaxBlockSize = 100, MaxGasLimit = 300,
       BlockSize = 3, GasLimit = 0 \<rparr> \<rparr>"

lemma two_lanes_orders:
  "range_order [''default'', ''mev''] (TxsByLane (Info two_lanes))"
  "range_order [''mev'', ''default''] (TxsByLane (Info two_lanes))"
  by (auto simp: range_order_def two_lanes_def)

lemma two_lanes_size: "ProposalInfo_Size [''default'', ''mev''] (Info two_lanes) < 2 ^ 63"
proof -
  have "ProposalInfo_Size [''default'', ''mev''] (Info two_lanes) = 29" by code_simp
  then show ?thesis by simp
qed

theorem GetProposalWithInfo_recovers_witness:
  "\<exists>bz. GetProposalWithInfo [''default'', ''mev''] [''mev'', ''default''] two_lanes = Ret (bz # [[1], [2, 3]]) \<and>
    length bz = ProposalInfo_Size [''default'', ''mev''] (Info two_lanes) \<and>
    ProposalInfo_Unmarshal zero_info bz = Ret (Info two_lanes)"
  using GetProposalWithInfo_recovers [OF two_lanes_orders two_lanes_size] by (simp add: two_lanes_def)

section \<open>The response of the query\<close>

definition GetTxDistributionResponse_Size :: "string list \<Rightarrow> GetTxDistributionResponse \<Rightarrow> nat" where
  "GetTxDistributionResponse_Size order m = map_size order (Distribution m)"

definition GetTxDistributionResponse_MarshalToSizedBuffer ::
    "string list \<Rightarrow> GetTxDistributionResponse \<Rightarrow> bytes" where
  "GetTxDistributionResponse_MarshalToSizedBuffer order m = map_entries order (Distribution m) []"

definition GetTxDistributionResponse_Marshal ::
    "string list \<Rightarrow> string list \<Rightarrow> GetTxDistributionResponse \<Rightarrow> bytes go" where
  "GetTxDistributionResponse_Marshal sizeOrder order m =
     marshal_sized (GetTxDistributionResponse_Size sizeOrder m)
       (Ret (GetTxDistributionResponse_MarshalToSizedBuffer order m))"

definition GetTxDistributionResponse_fields ::
    "GetTxDistributionResponse \<Rightarrow> u32 \<Rightarrow> nat \<Rightarrow> GetTxDistributionResponse action" where
  "GetTxDistributionResponse_fields m fieldNum wireType =
     (if fieldNum = 1 then
        (if wireType \<noteq> 2 then WrongWireType ''Distribution''
         else ReadEntry (\<lambda>(mapkey, mapvalue). m\<lparr>Distribution := (Distribution m)(mapkey \<mapsto> mapvalue)\<rparr>))
      else SkipUnknown)"

definition GetTxDistributionResponse_Unmarshal ::
    "GetTxDistributionResponse \<Rightarrow> bytes \<Rightarrow> GetTxDistributionResponse go" where
  "GetTxDistributionResponse_Unmarshal =
     unmarshal ''GetTxDistributionResponse'' GetTxDistributionResponse_fields"

text \<open>What the service answers is what the client reads.\<close>

lemma distribution_over_wire:
  assumes "range_order sizeOrder (Distribution m)" and "range_order order (Distribution m)"
    and "GetTxDistributionResponse_Size sizeOrder m < 2 ^ 63"
  shows "\<exists>bz. GetTxDistributionResponse_Marshal sizeOrder order m = Ret bz \<and>
    GetTxDistributionResponse_Unmarshal \<lparr> Distribution = Map.empty \<rparr> bz = Ret m"
proof -
  define bz where "bz = map_entries order (Distribution m) []"
  let ?upd = "\<lambda>m (k, v). m\<lparr>Distribution := (Distribution m)(k \<mapsto> v)\<rparr>"
  let ?u = "resume ''GetTxDistributionResponse'' GetTxDistributionResponse_fields bz"
  have len: "length bz = GetTxDistributionResponse_Size sizeOrder m"
    using map_size_order [OF assms(1,2)]
    by (simp add: bz_def length_map_entries GetTxDistributionResponse_Size_def)
  have read: "?u i bz = Ret (foldr (\<lambda>k i. ?upd i (k, the (Distribution m k))) order i)" for i
    using resume_entries [where upd = ?upd and dispatch = GetTxDistributionResponse_fields and order = order and
        M = "Distribution m" and rest = "[]" and dAtA = bz and name = "''GetTxDistributionResponse''"]
      len assms(3)
    by (simp add: bz_def GetTxDistributionResponse_fields_def case_prod_beta)
  have folded: "foldr (\<lambda>k i. ?upd i (k, the (Distribution m k))) ks i =
      i\<lparr>Distribution := foldr (\<lambda>k N. N(k \<mapsto> the (Distribution m k))) ks (Distribution i)\<rparr>" for ks i
    by (induction ks) (simp_all del: fun_upd_apply)
  have "?u \<lparr> Distribution = Map.empty \<rparr> bz = Ret m"
    using map_from_entries [OF assms(2)] by (simp only: read folded) simp
  then show ?thesis using len
    by (simp add: GetTxDistributionResponse_Marshal_def GetTxDistributionResponse_MarshalToSizedBuffer_def
      marshal_sized_exact GetTxDistributionResponse_Unmarshal_def unmarshal_def resume_def bz_def)
qed

end
