(* ===== verification/Pulsar_Runtime.thy ===== *)
theory Pulsar_Runtime
  imports Proto_Codec
begin

text \<open>
  What the code generated by \<open>protoc-gen-go-pulsar\<close> (\<open>api/sdk/auction\<close>) runs on. Messages there are
  pointers: a heap maps addresses to typed objects, a nil pointer is \<open>None\<close>, and writing through a
  reference is seen by everyone who holds it.
  \<^item> \<open>value_ops\<close> is \<open>protoreflect.Value\<close>. It is not in the repository: it is a parameter, with its
    documented behaviour as \<open>value_laws\<close>, and a concrete instance \<open>plain_values\<close>.
  \<^item> the locale \<open>typed_objects\<close> holds the laws of loading and storing objects of one type; the locale
    \<open>message_reflection\<close> is the contract of \<open>protoreflect.Message\<close>.
  Byte slices are values: two slices that share an array are not modelled.
\<close>

section \<open>The heap\<close>

type_synonym addr = nat
type_synonym ptr = "addr option"

record 'o heap =
  next_addr :: addr
  objects :: "addr \<rightharpoonup> 'o"

text \<open>A Go type of heap objects: how its values are tagged, and how the tag is checked.\<close>

record ('m, 'o) object_type =
  wrap :: "'m \<Rightarrow> 'o"
  unwrap :: "'o \<Rightarrow> 'm option"

definition alloc :: "('m, 'o) object_type \<Rightarrow> 'o heap \<Rightarrow> 'm \<Rightarrow> addr \<times> 'o heap" where
  "alloc T h m = (next_addr h, h\<lparr>next_addr := Suc (next_addr h), objects := (objects h)(next_addr h \<mapsto> wrap T m)\<rparr>)"

text \<open>Reading or writing through a nil pointer panics.\<close>

definition load :: "('m, 'o) object_type \<Rightarrow> 'o heap \<Rightarrow> ptr \<Rightarrow> 'm go" where
  "load T h x =
     (case x of None \<Rightarrow> Panic
      | Some a \<Rightarrow> (case objects h a of None \<Rightarrow> Panic
          | Some ob \<Rightarrow> (case unwrap T ob of None \<Rightarrow> Panic | Some m \<Rightarrow> Ret m)))"

definition store :: "('m, 'o) object_type \<Rightarrow> 'o heap \<Rightarrow> ptr \<Rightarrow> 'm \<Rightarrow> 'o heap go" where
  "store T h x m = (case x of None \<Rightarrow> Panic | Some a \<Rightarrow> Ret (h\<lparr>objects := (objects h)(a \<mapsto> wrap T m)\<rparr>))"

definition update :: "('m, 'o) object_type \<Rightarrow> 'o heap \<Rightarrow> ptr \<Rightarrow> ('m \<Rightarrow> 'm) \<Rightarrow> 'o heap go" where
  "update T h x f = go_bind (load T h x) (\<lambda>m. store T h x (f m))"

text \<open>The next free address is above every object.\<close>

definition heap_ok :: "'o heap \<Rightarrow> bool" where
  "heap_ok h \<longleftrightarrow> dom (objects h) \<subseteq> {..<next_addr h}"

lemma load_nil [simp]: "load T h None = Panic"
  by (simp add: load_def)

lemma store_nil [simp]: "store T h None m = Panic"
  by (simp add: store_def)

lemma update_nil [simp]: "update T h None f = Panic"
  by (simp add: update_def)

lemma load_pointer: "load T h x = Ret m \<Longrightarrow> \<exists>a. x = Some a \<and> a \<in> dom (objects h)"
  by (auto simp: load_def split: option.splits)

lemma load_below: "heap_ok h \<Longrightarrow> load T h (Some a) = Ret m \<Longrightarrow> a < next_addr h"
  using load_pointer [of T h "Some a" m] by (auto simp: heap_ok_def)

lemma update_loaded: "load T h x = Ret m \<Longrightarrow> update T h x f = store T h x (f m)"
  by (simp add: update_def)

lemma heap_ok_alloc [simp]: "heap_ok h \<Longrightarrow> heap_ok (snd (alloc T h m))"
  by (fastforce simp: heap_ok_def alloc_def dom_def)

lemma heap_ok_store: "heap_ok h \<Longrightarrow> a < next_addr h \<Longrightarrow> store T h (Some a) m = Ret h' \<Longrightarrow> heap_ok h'"
  unfolding heap_ok_def store_def by (fastforce simp: dom_def)

lemma next_store: "store T h x m = Ret h' \<Longrightarrow> next_addr h' = next_addr h"
  by (auto simp: store_def split: option.splits)

lemma fst_alloc [simp]: "fst (alloc T h m) = next_addr h"
  by (simp add: alloc_def)

lemma next_alloc [simp]: "next_addr (snd (alloc T h m)) = Suc (next_addr h)"
  by (simp add: alloc_def)

text \<open>Other addresses keep their objects, whatever their types.\<close>

lemma load_store_other: "store T h (Some a) m = Ret h' \<Longrightarrow> b \<noteq> a \<Longrightarrow> load T' h' (Some b) = load T' h (Some b)"
  by (auto simp: store_def load_def)

lemma load_alloc_other: "b \<noteq> next_addr h \<Longrightarrow> load T' (snd (alloc T h m)) (Some b) = load T' h (Some b)"
  by (simp add: alloc_def load_def)

locale typed_objects =
  fixes T :: "('m, 'o) object_type"
  assumes unwrap_wrap: "unwrap T (wrap T m) = Some m"
    and wrap_unwrap: "unwrap T ob = Some m \<Longrightarrow> ob = wrap T m"
begin

lemma load_store_same: "store T h x m = Ret h' \<Longrightarrow> load T h' x = Ret m"
  by (auto simp: store_def load_def unwrap_wrap split: option.splits)

lemma load_alloc_same: "load T (snd (alloc T h m)) (Some (next_addr h)) = Ret m"
  by (simp add: alloc_def load_def unwrap_wrap)

lemma load_update_same: "update T h x f = Ret h' \<Longrightarrow> load T h' x = go_bind (load T h x) (\<lambda>m. Ret (f m))"
  by (auto simp: update_def go_simps dest!: load_store_same)

lemma update_Ret: "load T h x = Ret m \<Longrightarrow> \<exists>h'. update T h x f = Ret h' \<and> load T h' x = Ret (f m)"
  by (cases x) (auto simp: update_def store_def load_def unwrap_wrap)

lemma update_clears:
  assumes "load T h x = Ret m" and "\<not> c (f m)"
  shows "\<exists>h'. update T h x f = Ret h' \<and> (\<exists>m'. load T h' x = Ret m') \<and>
    go_bind (load T h' x) (\<lambda>m. Ret (c m)) = Ret False"
  using update_Ret [OF assms(1), of f] assms(2) by auto

lemma update_dest: "update T h x f = Ret h' \<Longrightarrow> \<exists>m. load T h x = Ret m \<and> load T h' x = Ret (f m)"
  using load_store_same by (fastforce simp: update_def go_simps)

lemma update_Ret_iff: "(\<exists>h'. update T h x f = Ret h') \<longleftrightarrow> (\<exists>m. load T h x = Ret m)"
  by (cases x) (auto simp: update_def store_def go_simps)

lemma load_update_iff:
  "update T h (Some a) f = Ret h' \<Longrightarrow>
   load T h' (Some b) = (if b = a then go_bind (load T h (Some b)) (\<lambda>m. Ret (f m)) else load T h (Some b))"
  using load_update_same [of h "Some a" f h']
  by (auto simp: update_def go_simps load_store_other)

end

text \<open>
  A field of message type made non-nil: \<open>if x.F == nil { x.F = new(M) }\<close>; the pointer in the field.
\<close>

definition ensure_message ::
  "('m, 'o) object_type \<Rightarrow> ('m \<Rightarrow> ptr) \<Rightarrow> (ptr \<Rightarrow> 'm \<Rightarrow> 'm) \<Rightarrow> ('n, 'o) object_type \<Rightarrow> 'n \<Rightarrow> 'o heap \<Rightarrow> ptr \<Rightarrow>
   (ptr \<times> 'o heap) go" where
  "ensure_message T field set_field T' new_object h x =
     go_bind (load T h x) (\<lambda>m.
       if field m = None then
         (case alloc T' h new_object of (p, h') \<Rightarrow>
            go_bind (update T h' x (set_field (Some p))) (\<lambda>h''. Ret (Some p, h'')))
       else Ret (field m, h))"

text \<open>The items of a slice that may be nil.\<close>

definition slice_items :: "'a list option \<Rightarrow> 'a list" where
  "slice_items xs = (case xs of None \<Rightarrow> [] | Some ys \<Rightarrow> ys)"

lemma slice_items_simps [simp]: "slice_items None = []" "slice_items (Some ys) = ys"
  by (simp_all add: slice_items_def)

section \<open>Descriptors and values\<close>

text \<open>The full name of a field is its message's full name, a dot, and its own name.\<close>

record field_descriptor =
  FullName :: string
  IsExtension :: bool

definition full_name :: "string \<Rightarrow> string \<Rightarrow> string" where
  "full_name msg field = msg @ CHR ''.'' # field"

definition field_of :: "string \<Rightarrow> string \<Rightarrow> field_descriptor" where
  "field_of msg field = \<lparr> FullName = full_name msg field, IsExtension = False \<rparr>"

lemma full_name_eq [simp]: "full_name msg f = full_name msg g \<longleftrightarrow> f = g"
  by (simp add: full_name_def)

lemma FullName_field_of [simp]: "FullName (field_of msg f) = full_name msg f"
  by (simp add: field_of_def)

lemma field_of_eq [simp]: "field_of msg f = field_of msg g \<longleftrightarrow> f = g"
  by (simp add: field_of_def)

text \<open>The dynamic type of a message: the types of the generated package, the coin, or another one.\<close>

datatype message_type =
    CoinType | GenesisStateType | ParamsType | MsgAuctionBidType | MsgAuctionBidResponseType
  | MsgUpdateParamsType | MsgUpdateParamsResponseType | QueryParamsRequestType
  | QueryParamsResponseType | ModuleType | ForeignType nat

type_synonym message = "message_type \<times> ptr"

text \<open>
  The only list type of the package points to a slice variable: the field of the bid at an address, or
  a variable of its own. A value may also hold a list of another Go type.
\<close>

datatype slice_ref = FieldRef addr | VarRef addr

datatype go_list = MsgAuctionBid_3_list "slice_ref option" | ForeignList nat

text \<open>\<open>protoreflect.Value\<close>: \<open>Value_String\<close> is \<open>Interface().(string)\<close>. Asking for another type panics.\<close>

record 'v value_ops =
  ValueOfUint32 :: "u32 \<Rightarrow> 'v"
  ValueOfBool :: "bool \<Rightarrow> 'v"
  ValueOfString :: "string \<Rightarrow> 'v"
  ValueOfBytes :: "bytes option \<Rightarrow> 'v"
  ValueOfMessage :: "message \<Rightarrow> 'v"
  ValueOfList :: "go_list \<Rightarrow> 'v"
  Value_Uint :: "'v \<Rightarrow> u64 go"
  Value_Bool :: "'v \<Rightarrow> bool go"
  Value_String :: "'v \<Rightarrow> string go"
  Value_Bytes :: "'v \<Rightarrow> bytes option go"
  Value_Message :: "'v \<Rightarrow> message go"
  Value_List :: "'v \<Rightarrow> go_list go"

text \<open>Documented: an accessor returns what the constructor of its type was given.\<close>

definition value_laws :: "'v value_ops \<Rightarrow> bool" where
  "value_laws V \<longleftrightarrow>
     (\<forall>n. Value_Uint V (ValueOfUint32 V n) = Ret (ucast n)) \<and>
     (\<forall>b. Value_Bool V (ValueOfBool V b) = Ret b) \<and>
     (\<forall>s. Value_String V (ValueOfString V s) = Ret s) \<and>
     (\<forall>bz. Value_Bytes V (ValueOfBytes V bz) = Ret bz) \<and>
     (\<forall>msg. Value_Message V (ValueOfMessage V msg) = Ret msg) \<and>
     (\<forall>l. Value_List V (ValueOfList V l) = Ret l)"

lemma value_lawsD:
  assumes "value_laws V"
  shows "Value_Uint V (ValueOfUint32 V n) = Ret (ucast n)"
    and "Value_Bool V (ValueOfBool V b) = Ret b"
    and "Value_String V (ValueOfString V s) = Ret s"
    and "Value_Bytes V (ValueOfBytes V bz) = Ret bz"
    and "Value_Message V (ValueOfMessage V msg) = Ret msg"
    and "Value_List V (ValueOfList V l) = Ret l"
  using assms by (simp_all add: value_laws_def del: split_paired_All)

datatype plain_value =
    PlainUint u64 | PlainBool bool | PlainString string | PlainBytes "bytes option"
  | PlainMessage message | PlainList go_list

definition plain_values :: "plain_value value_ops" where
  "plain_values = \<lparr>
     ValueOfUint32 = (\<lambda>n. PlainUint (ucast n)), ValueOfBool = PlainBool, ValueOfString = PlainString,
     ValueOfBytes = PlainBytes, ValueOfMessage = PlainMessage, ValueOfList = PlainList,
     Value_Uint = (\<lambda>v. case v of PlainUint n \<Rightarrow> Ret n | _ \<Rightarrow> Panic),
     Value_Bool = (\<lambda>v. case v of PlainBool b \<Rightarrow> Ret b | _ \<Rightarrow> Panic),
     Value_String = (\<lambda>v. case v of PlainString s \<Rightarrow> Ret s | _ \<Rightarrow> Panic),
     Value_Bytes = (\<lambda>v. case v of PlainBytes bz \<Rightarrow> Ret bz | _ \<Rightarrow> Panic),
     Value_Message = (\<lambda>v. case v of PlainMessage msg \<Rightarrow> Ret msg | _ \<Rightarrow> Panic),
     Value_List = (\<lambda>v. case v of PlainList l \<Rightarrow> Ret l | _ \<Rightarrow> Panic) \<rparr>"

lemma plain_values_laws: "value_laws plain_values"
  by (simp add: value_laws_def plain_values_def)

text \<open>A type assertion on the message of a value.\<close>

fun assert_type :: "message_type \<Rightarrow> message \<Rightarrow> ptr go" where
  "assert_type k (k', x) = (if k = k' then Ret x else Panic)"

section \<open>Ranging over the fields of a message\<close>

text \<open>
  The function that \<open>Range\<close> calls for a field may use and change the heap, and keeps a state of its own;
  it says whether to go on. \<open>visit\<close> is one field of a generated \<open>Range\<close>.
\<close>

type_synonym ('v, 'o, 's) visitor = "field_descriptor \<Rightarrow> 'v \<Rightarrow> 'o heap \<Rightarrow> 's \<Rightarrow> (bool \<times> 'o heap \<times> 's) go"

definition visit ::
  "bool \<Rightarrow> field_descriptor \<Rightarrow> 'v \<Rightarrow> ('v, 'o, 's) visitor \<Rightarrow> 'o heap \<Rightarrow> 's \<Rightarrow>
   ('o heap \<Rightarrow> 's \<Rightarrow> ('o heap \<times> 's) go) \<Rightarrow> ('o heap \<times> 's) go" where
  "visit populated fd value f h s rest =
     (if populated then
        go_bind (f fd value h s) (\<lambda>(continue, h', s'). if continue then rest h' s' else Ret (h', s'))
      else rest h s)"

text \<open>The reference: a loop over the fields of the message, asking \<open>Has\<close> and \<open>Get\<close>.\<close>

fun range_fields ::
  "('o heap \<Rightarrow> ptr \<Rightarrow> field_descriptor \<Rightarrow> bool go) \<Rightarrow> ('o heap \<Rightarrow> ptr \<Rightarrow> field_descriptor \<Rightarrow> 'v go) \<Rightarrow>
   field_descriptor list \<Rightarrow> ('v, 'o, 's) visitor \<Rightarrow> 'o heap \<Rightarrow> ptr \<Rightarrow> 's \<Rightarrow> ('o heap \<times> 's) go" where
  "range_fields has get [] f h x s = Ret (h, s)"
| "range_fields has get (fd # fds) f h x s =
     go_bind (has h x fd) (\<lambda>populated.
       if populated then
         go_bind (get h x fd) (\<lambda>value. go_bind (f fd value h s) (\<lambda>(continue, h', s').
           if continue then range_fields has get fds f h' x s' else Ret (h', s')))
       else range_fields has get fds f h x s)"

lemma range_fields_step:
  assumes "has h x fd = go_bind (load T h x) (\<lambda>m. Ret (c m))"
    and "\<And>m. load T h x = Ret m \<Longrightarrow> c m \<Longrightarrow> get h x fd = Ret (v m)"
    and "\<And>h' s'. range_fields has get fds f h' x s' = rest h' s'"
  shows "range_fields has get (fd # fds) f h x s =
    go_bind (load T h x) (\<lambda>m. visit (c m) fd (v m) f h s rest)"
  using assms by (cases "load T h x") (simp_all add: visit_def cong: if_cong)

text \<open>A visitor that collects what it is shown.\<close>

definition collect :: "('v, 'o, (field_descriptor \<times> 'v) list) visitor" where
  "collect fd value h s = Ret (True, h, s @ [(fd, value)])"

text \<open>
  The contract of \<open>protoreflect.Message\<close> on which reflective clients rely, as far as the generated code
  can keep it: \<open>Range\<close> is the loop above, \<open>Clear\<close> leaves a field unpopulated and the others as they were,
  and a descriptor of another message panics. \<open>T\<close> is the type of the message, \<open>fields\<close> its fields.
\<close>

locale message_reflection =
  fixes T :: "('m, 'o) object_type"
    and fields :: "field_descriptor list"
    and has :: "'o heap \<Rightarrow> ptr \<Rightarrow> field_descriptor \<Rightarrow> bool go"
    and get :: "'v value_ops \<Rightarrow> 'o heap \<Rightarrow> ptr \<Rightarrow> field_descriptor \<Rightarrow> 'v go"
    and clear :: "'o heap \<Rightarrow> ptr \<Rightarrow> field_descriptor \<Rightarrow> 'o heap go"
    and range_of :: "'v value_ops \<Rightarrow> ('v, 'o, (field_descriptor \<times> 'v) list) visitor \<Rightarrow> 'o heap \<Rightarrow> ptr \<Rightarrow>
      (field_descriptor \<times> 'v) list \<Rightarrow> ('o heap \<times> (field_descriptor \<times> 'v) list) go"
  assumes distinct_fields: "distinct fields"
    and has_own: "load T h x = Ret m \<Longrightarrow> fd \<in> set fields \<Longrightarrow> \<exists>b. has h x fd = Ret b"
    and get_own: "load T h x = Ret m \<Longrightarrow> fd \<in> set fields \<Longrightarrow> \<exists>v. get V h x fd = Ret v"
    and clear_own: "load T h x = Ret m \<Longrightarrow> fd \<in> set fields \<Longrightarrow>
      \<exists>h' m'. clear h x fd = Ret h' \<and> load T h' x = Ret m' \<and> has h' x fd = Ret False"
    and clear_other: "clear h x fd = Ret h' \<Longrightarrow> fd \<in> set fields \<Longrightarrow> fd' \<in> set fields \<Longrightarrow> fd' \<noteq> fd \<Longrightarrow>
      has h' x fd' = has h x fd' \<and> get V h' x fd' = get V h x fd'"
    and range_by_fields: "range_of V f h x s = range_fields has (get V) fields f h x s"
    and unsupported: "FullName fd \<notin> FullName ` set fields \<Longrightarrow>
      has h x fd = Panic \<and> get V h x fd = Panic \<and> clear h x fd = Panic"
begin

text \<open>Populated fields with their values, in the order of the fields.\<close>

definition shown :: "'v value_ops \<Rightarrow> 'o heap \<Rightarrow> ptr \<Rightarrow> field_descriptor \<Rightarrow> (field_descriptor \<times> 'v) list" where
  "shown V h x fd =
     (if has h x fd = Ret True then (case get V h x fd of Ret v \<Rightarrow> [(fd, v)] | _ \<Rightarrow> []) else [])"

lemma shown_field: "p \<in> set (shown V h x fd) \<Longrightarrow> fst p = fd"
  unfolding shown_def by (cases "get V h x fd"; cases "has h x fd = Ret True") simp_all

definition populated :: "'v value_ops \<Rightarrow> 'o heap \<Rightarrow> ptr \<Rightarrow> (field_descriptor \<times> 'v) list" where
  "populated V h x = concat (map (shown V h x) fields)"

lemma range_collects:
  assumes "load T h x = Ret m"
  shows "range_of V collect h x s = Ret (h, s @ populated V h x)"
proof -
  have "range_fields has (get V) fds collect h x s = Ret (h, s @ concat (map (shown V h x) fds))"
    if "set fds \<subseteq> set fields" for fds
    using that
  proof (induction fds arbitrary: s)
    case (Cons fd fds)
    from Cons.prems obtain b v where "has h x fd = Ret b" "get V h x fd = Ret v"
      using has_own [OF assms] get_own [OF assms] by (meson list.set_intros(1) subsetD)
    then show ?case using Cons by (cases b) (simp_all add: collect_def shown_def)
  qed simp
  then show ?thesis by (simp add: range_by_fields populated_def)
qed

lemma populated_iff:
  "(fd, v) \<in> set (populated V h x) \<longleftrightarrow> fd \<in> set fields \<and> has h x fd = Ret True \<and> get V h x fd = Ret v"
  by (auto simp: populated_def shown_def split: if_splits go.splits)

lemma cleared_not_ranged:
  assumes "load T h x = Ret m" and "fd \<in> set fields" and "clear h x fd = Ret h'"
  shows "range_of V collect h' x [] = Ret (h', [p \<leftarrow> populated V h x. fst p \<noteq> fd])"
proof -
  obtain m' where m': "load T h' x = Ret m'" "has h' x fd = Ret False"
    using clear_own [OF assms(1,2)] assms(3) by auto
  have "shown V h' x g = [p \<leftarrow> shown V h x g. fst p \<noteq> fd]" if "g \<in> set fields" for g
  proof (cases "g = fd")
    case True
    then have "shown V h' x g = []" using m'(2) by (simp add: shown_def)
    moreover have "fst p = fd" if "p \<in> set (shown V h x g)" for p
      using that shown_field True by metis
    ultimately show ?thesis by (simp add: filter_empty_conv)
  next
    case False
    then have "shown V h' x g = shown V h x g"
      using clear_other [OF assms(3,2) that] by (simp add: shown_def)
    moreover have "fst p \<noteq> fd" if "p \<in> set (shown V h x g)" for p
      using that shown_field False by metis
    ultimately show ?thesis by (simp add: filter_id_conv)
  qed
  then have "concat (map (shown V h' x) fds) = [p \<leftarrow> concat (map (shown V h x) fds). fst p \<noteq> fd]"
    if "set fds \<subseteq> set fields" for fds
    using that by (induction fds) auto
  then have "populated V h' x = [p \<leftarrow> populated V h x. fst p \<noteq> fd]" by (simp add: populated_def)
  then show ?thesis using range_collects [OF m'(1), of V "[]"] by simp
qed

end

end
