(* ===== verification/Pulsar_Messages.thy ===== *)
theory Pulsar_Messages
  imports Pulsar_Runtime
begin

text \<open>
  The messages of \<open>api/sdk/auction/v1\<close> and
  \<open>api/sdk/auction/module/v1\<close> as heap objects. A field of message type is a
  pointer, a slice that may be nil is an option, and every message keeps the fields it does not know.
  The coin is the SDK's: its objects are of the type \<open>'c\<close>,
  and \<open>c0\<close> is \<open>new(v1beta1.Coin)\<close>. Two fields of the
  structs belong to the library and are left out: \<open>state\<close> and
  \<open>sizeCache\<close>. For every message: \<open>Reset\<close>, the
  getters, and the conversions between the message and its reflection.
\<close>

section \<open>Messages\<close>

record v1_GenesisState =
  gs_Params :: ptr
  gs_unknownFields :: bytes

record v1_Params =
  par_MaxBundleSize :: u32
  par_EscrowAccountAddress :: "bytes option"
  par_ReserveFee :: ptr
  par_MinBidIncrement :: ptr
  par_FrontRunningProtection :: bool
  par_ProposerFee :: string
  par_unknownFields :: bytes

record v1_MsgAuctionBid =
  bid_Bidder :: string
  bid_Bid :: ptr
  bid_Transactions :: "bytes option list option"
  bid_unknownFields :: bytes

record v1_MsgAuctionBidResponse =
  bidresp_unknownFields :: bytes

record v1_MsgUpdateParams =
  upd_Authority :: string
  upd_Params :: ptr
  upd_unknownFields :: bytes

record v1_MsgUpdateParamsResponse =
  updresp_unknownFields :: bytes

record v1_QueryParamsRequest =
  qreq_unknownFields :: bytes

record v1_QueryParamsResponse =
  qresp_Params :: ptr
  qresp_unknownFields :: bytes

record v1_Module =
  mod_Authority :: string
  mod_unknownFields :: bytes

datatype 'c object =
    CoinObject 'c
  | SliceObject "bytes option list option"
  | GenesisStateObject v1_GenesisState
  | ParamsObject v1_Params
  | MsgAuctionBidObject v1_MsgAuctionBid
  | MsgAuctionBidResponseObject v1_MsgAuctionBidResponse
  | MsgUpdateParamsObject v1_MsgUpdateParams
  | MsgUpdateParamsResponseObject v1_MsgUpdateParamsResponse
  | QueryParamsRequestObject v1_QueryParamsRequest
  | QueryParamsResponseObject v1_QueryParamsResponse
  | ModuleObject v1_Module

text \<open>The types of the objects; the coin is the SDK's.\<close>

definition T_Coin :: "('c, 'c object) object_type" where
  "T_Coin = \<lparr> wrap = CoinObject, unwrap = (\<lambda>ob. case ob of CoinObject c \<Rightarrow> Some c | _ \<Rightarrow> None) \<rparr>"

definition T_Slice :: "(bytes option list option, 'c object) object_type" where
  "T_Slice = \<lparr> wrap = SliceObject, unwrap = (\<lambda>ob. case ob of SliceObject xs \<Rightarrow> Some xs | _ \<Rightarrow> None) \<rparr>"

definition T_GenesisState :: "(v1_GenesisState, 'c object) object_type" where
  "T_GenesisState =
     \<lparr> wrap = GenesisStateObject, unwrap = (\<lambda>ob. case ob of GenesisStateObject m \<Rightarrow> Some m | _ \<Rightarrow> None) \<rparr>"

definition T_Params :: "(v1_Params, 'c object) object_type" where
  "T_Params =
     \<lparr> wrap = ParamsObject, unwrap = (\<lambda>ob. case ob of ParamsObject m \<Rightarrow> Some m | _ \<Rightarrow> None) \<rparr>"

definition T_MsgAuctionBid :: "(v1_MsgAuctionBid, 'c object) object_type" where
  "T_MsgAuctionBid =
     \<lparr> wrap = MsgAuctionBidObject, unwrap = (\<lambda>ob. case ob of MsgAuctionBidObject m \<Rightarrow> Some m | _ \<Rightarrow>
         None) \<rparr>"

definition T_MsgAuctionBidResponse :: "(v1_MsgAuctionBidResponse, 'c object) object_type" where
  "T_MsgAuctionBidResponse =
     \<lparr> wrap = MsgAuctionBidResponseObject, unwrap = (\<lambda>ob. case ob of MsgAuctionBidResponseObject m \<Rightarrow>
         Some m | _ \<Rightarrow> None) \<rparr>"

definition T_MsgUpdateParams :: "(v1_MsgUpdateParams, 'c object) object_type" where
  "T_MsgUpdateParams =
     \<lparr> wrap = MsgUpdateParamsObject, unwrap = (\<lambda>ob. case ob of MsgUpdateParamsObject m \<Rightarrow> Some m | _ \<Rightarrow>
         None) \<rparr>"

definition T_MsgUpdateParamsResponse :: "(v1_MsgUpdateParamsResponse, 'c object) object_type" where
  "T_MsgUpdateParamsResponse =
     \<lparr> wrap = MsgUpdateParamsResponseObject,
         unwrap = (\<lambda>ob. case ob of MsgUpdateParamsResponseObject m \<Rightarrow> Some m | _ \<Rightarrow> None) \<rparr>"

definition T_QueryParamsRequest :: "(v1_QueryParamsRequest, 'c object) object_type" where
  "T_QueryParamsRequest =
     \<lparr> wrap = QueryParamsRequestObject, unwrap = (\<lambda>ob. case ob of QueryParamsRequestObject m \<Rightarrow>
         Some m | _ \<Rightarrow> None) \<rparr>"

definition T_QueryParamsResponse :: "(v1_QueryParamsResponse, 'c object) object_type" where
  "T_QueryParamsResponse =
     \<lparr> wrap = QueryParamsResponseObject, unwrap = (\<lambda>ob. case ob of QueryParamsResponseObject m \<Rightarrow>
         Some m | _ \<Rightarrow> None) \<rparr>"

definition T_Module :: "(v1_Module, 'c object) object_type" where
  "T_Module =
     \<lparr> wrap = ModuleObject, unwrap = (\<lambda>ob. case ob of ModuleObject m \<Rightarrow> Some m | _ \<Rightarrow> None) \<rparr>"

interpretation Coin_objects: typed_objects T_Coin
  by unfold_locales (simp_all add: T_Coin_def split: object.splits)

interpretation Slice_objects: typed_objects T_Slice
  by unfold_locales (simp_all add: T_Slice_def split: object.splits)

interpretation GenesisState_objects: typed_objects T_GenesisState
  by unfold_locales (simp_all add: T_GenesisState_def split: object.splits)

interpretation Params_objects: typed_objects T_Params
  by unfold_locales (simp_all add: T_Params_def split: object.splits)

interpretation MsgAuctionBid_objects: typed_objects T_MsgAuctionBid
  by unfold_locales (simp_all add: T_MsgAuctionBid_def split: object.splits)

interpretation MsgAuctionBidResponse_objects: typed_objects T_MsgAuctionBidResponse
  by unfold_locales (simp_all add: T_MsgAuctionBidResponse_def split: object.splits)

interpretation MsgUpdateParams_objects: typed_objects T_MsgUpdateParams
  by unfold_locales (simp_all add: T_MsgUpdateParams_def split: object.splits)

interpretation MsgUpdateParamsResponse_objects: typed_objects T_MsgUpdateParamsResponse
  by unfold_locales (simp_all add: T_MsgUpdateParamsResponse_def split: object.splits)

interpretation QueryParamsRequest_objects: typed_objects T_QueryParamsRequest
  by unfold_locales (simp_all add: T_QueryParamsRequest_def split: object.splits)

interpretation QueryParamsResponse_objects: typed_objects T_QueryParamsResponse
  by unfold_locales (simp_all add: T_QueryParamsResponse_def split: object.splits)

interpretation Module_objects: typed_objects T_Module
  by unfold_locales (simp_all add: T_Module_def split: object.splits)

section \<open>Methods of the structs\<close>

text \<open>The reflection of a coin, by its own package.\<close>

definition Coin_ProtoReflect :: "ptr \<Rightarrow> message" where
  "Coin_ProtoReflect x = (CoinType, x)"

subsection \<open>GenesisState\<close>

definition zero_GenesisState :: v1_GenesisState where
  "zero_GenesisState = \<lparr> gs_Params = None, gs_unknownFields = [] \<rparr>"

definition GenesisState_Reset :: "'c object heap \<Rightarrow> ptr \<Rightarrow> 'c object heap go" where
  "GenesisState_Reset h x = store T_GenesisState h x zero_GenesisState"

definition GenesisState_GetParams :: "'c object heap \<Rightarrow> ptr \<Rightarrow> ptr go" where
  "GenesisState_GetParams h x =
     (if x \<noteq> None then go_bind (load T_GenesisState h x) (\<lambda>m. Ret (gs_Params m)) else Ret None)"

definition GenesisState_ProtoReflect :: "ptr \<Rightarrow> message" where
  "GenesisState_ProtoReflect x = (GenesisStateType, x)"

definition fastReflection_GenesisState_messageType_Zero :: "message" where
  "fastReflection_GenesisState_messageType_Zero = (GenesisStateType, None)"

definition fastReflection_GenesisState_New ::
    "'c object heap \<Rightarrow> message \<times> 'c object heap" where
  "fastReflection_GenesisState_New h =
     (case alloc T_GenesisState h zero_GenesisState of (p, h') \<Rightarrow> ((GenesisStateType, Some p), h'))"

definition fastReflection_GenesisState_Interface :: "ptr \<Rightarrow> message" where
  "fastReflection_GenesisState_Interface x = (GenesisStateType, x)"

definition fastReflection_GenesisState_IsValid :: "ptr \<Rightarrow> bool" where
  "fastReflection_GenesisState_IsValid x = (x \<noteq> None)"

subsection \<open>Params\<close>

definition zero_Params :: v1_Params where
  "zero_Params = \<lparr> par_MaxBundleSize = 0, par_EscrowAccountAddress = None, par_ReserveFee = None,
      par_MinBidIncrement = None, par_FrontRunningProtection = False, par_ProposerFee = '''',
      par_unknownFields = [] \<rparr>"

definition Params_Reset :: "'c object heap \<Rightarrow> ptr \<Rightarrow> 'c object heap go" where
  "Params_Reset h x = store T_Params h x zero_Params"

definition Params_GetMaxBundleSize :: "'c object heap \<Rightarrow> ptr \<Rightarrow> u32 go" where
  "Params_GetMaxBundleSize h x =
     (if x \<noteq> None then go_bind (load T_Params h x) (\<lambda>m. Ret (par_MaxBundleSize m)) else Ret 0)"

definition Params_GetEscrowAccountAddress ::
    "'c object heap \<Rightarrow> ptr \<Rightarrow> bytes option go" where
  "Params_GetEscrowAccountAddress h x =
     (if x \<noteq> None then go_bind (load T_Params h x) (\<lambda>m. Ret (par_EscrowAccountAddress m)) else Ret
         None)"

definition Params_GetReserveFee :: "'c object heap \<Rightarrow> ptr \<Rightarrow> ptr go" where
  "Params_GetReserveFee h x =
     (if x \<noteq> None then go_bind (load T_Params h x) (\<lambda>m. Ret (par_ReserveFee m)) else Ret None)"

definition Params_GetMinBidIncrement :: "'c object heap \<Rightarrow> ptr \<Rightarrow> ptr go" where
  "Params_GetMinBidIncrement h x =
     (if x \<noteq> None then go_bind (load T_Params h x) (\<lambda>m. Ret (par_MinBidIncrement m)) else Ret None)"

definition Params_GetFrontRunningProtection ::
    "'c object heap \<Rightarrow> ptr \<Rightarrow> bool go" where
  "Params_GetFrontRunningProtection h x =
     (if x \<noteq> None then go_bind (load T_Params h x) (\<lambda>m. Ret (par_FrontRunningProtection m)) else Ret
         False)"

definition Params_GetProposerFee :: "'c object heap \<Rightarrow> ptr \<Rightarrow> string go" where
  "Params_GetProposerFee h x =
     (if x \<noteq> None then go_bind (load T_Params h x) (\<lambda>m. Ret (par_ProposerFee m)) else Ret '''')"

definition Params_ProtoReflect :: "ptr \<Rightarrow> message" where
  "Params_ProtoReflect x = (ParamsType, x)"

definition fastReflection_Params_messageType_Zero :: "message" where
  "fastReflection_Params_messageType_Zero = (ParamsType, None)"

definition fastReflection_Params_New :: "'c object heap \<Rightarrow> message \<times> 'c object heap" where
  "fastReflection_Params_New h =
     (case alloc T_Params h zero_Params of (p, h') \<Rightarrow> ((ParamsType, Some p), h'))"

definition fastReflection_Params_Interface :: "ptr \<Rightarrow> message" where
  "fastReflection_Params_Interface x = (ParamsType, x)"

definition fastReflection_Params_IsValid :: "ptr \<Rightarrow> bool" where
  "fastReflection_Params_IsValid x = (x \<noteq> None)"

subsection \<open>MsgAuctionBid\<close>

definition zero_MsgAuctionBid :: v1_MsgAuctionBid where
  "zero_MsgAuctionBid = \<lparr> bid_Bidder = '''', bid_Bid = None, bid_Transactions = None,
      bid_unknownFields = [] \<rparr>"

definition MsgAuctionBid_Reset :: "'c object heap \<Rightarrow> ptr \<Rightarrow> 'c object heap go" where
  "MsgAuctionBid_Reset h x = store T_MsgAuctionBid h x zero_MsgAuctionBid"

definition MsgAuctionBid_GetBidder :: "'c object heap \<Rightarrow> ptr \<Rightarrow> string go" where
  "MsgAuctionBid_GetBidder h x =
     (if x \<noteq> None then go_bind (load T_MsgAuctionBid h x) (\<lambda>m. Ret (bid_Bidder m)) else Ret '''')"

definition MsgAuctionBid_GetBid :: "'c object heap \<Rightarrow> ptr \<Rightarrow> ptr go" where
  "MsgAuctionBid_GetBid h x =
     (if x \<noteq> None then go_bind (load T_MsgAuctionBid h x) (\<lambda>m. Ret (bid_Bid m)) else Ret None)"

definition MsgAuctionBid_GetTransactions ::
    "'c object heap \<Rightarrow> ptr \<Rightarrow> bytes option list option go" where
  "MsgAuctionBid_GetTransactions h x =
     (if x \<noteq> None then go_bind (load T_MsgAuctionBid h x) (\<lambda>m. Ret (bid_Transactions m)) else Ret None)"

definition MsgAuctionBid_ProtoReflect :: "ptr \<Rightarrow> message" where
  "MsgAuctionBid_ProtoReflect x = (MsgAuctionBidType, x)"

definition fastReflection_MsgAuctionBid_messageType_Zero :: "message" where
  "fastReflection_MsgAuctionBid_messageType_Zero = (MsgAuctionBidType, None)"

definition fastReflection_MsgAuctionBid_New ::
    "'c object heap \<Rightarrow> message \<times> 'c object heap" where
  "fastReflection_MsgAuctionBid_New h =
     (case alloc T_MsgAuctionBid h zero_MsgAuctionBid of (p, h') \<Rightarrow> ((MsgAuctionBidType, Some p), h'))"

definition fastReflection_MsgAuctionBid_Interface :: "ptr \<Rightarrow> message" where
  "fastReflection_MsgAuctionBid_Interface x = (MsgAuctionBidType, x)"

definition fastReflection_MsgAuctionBid_IsValid :: "ptr \<Rightarrow> bool" where
  "fastReflection_MsgAuctionBid_IsValid x = (x \<noteq> None)"

subsection \<open>MsgAuctionBidResponse\<close>

definition zero_MsgAuctionBidResponse :: v1_MsgAuctionBidResponse where
  "zero_MsgAuctionBidResponse = \<lparr> bidresp_unknownFields = [] \<rparr>"

definition MsgAuctionBidResponse_Reset ::
    "'c object heap \<Rightarrow> ptr \<Rightarrow> 'c object heap go" where
  "MsgAuctionBidResponse_Reset h x = store T_MsgAuctionBidResponse h x zero_MsgAuctionBidResponse"

definition MsgAuctionBidResponse_ProtoReflect :: "ptr \<Rightarrow> message" where
  "MsgAuctionBidResponse_ProtoReflect x = (MsgAuctionBidResponseType, x)"

definition fastReflection_MsgAuctionBidResponse_messageType_Zero :: "message" where
  "fastReflection_MsgAuctionBidResponse_messageType_Zero = (MsgAuctionBidResponseType, None)"

definition fastReflection_MsgAuctionBidResponse_New ::
    "'c object heap \<Rightarrow> message \<times> 'c object heap" where
  "fastReflection_MsgAuctionBidResponse_New h =
     (case alloc T_MsgAuctionBidResponse h zero_MsgAuctionBidResponse of (p, h') \<Rightarrow>
         ((MsgAuctionBidResponseType, Some p), h'))"

definition fastReflection_MsgAuctionBidResponse_Interface :: "ptr \<Rightarrow> message" where
  "fastReflection_MsgAuctionBidResponse_Interface x = (MsgAuctionBidResponseType, x)"

definition fastReflection_MsgAuctionBidResponse_IsValid :: "ptr \<Rightarrow> bool" where
  "fastReflection_MsgAuctionBidResponse_IsValid x = (x \<noteq> None)"

subsection \<open>MsgUpdateParams\<close>

definition zero_MsgUpdateParams :: v1_MsgUpdateParams where
  "zero_MsgUpdateParams = \<lparr> upd_Authority = '''', upd_Params = None, upd_unknownFields = [] \<rparr>"

definition MsgUpdateParams_Reset :: "'c object heap \<Rightarrow> ptr \<Rightarrow> 'c object heap go" where
  "MsgUpdateParams_Reset h x = store T_MsgUpdateParams h x zero_MsgUpdateParams"

definition MsgUpdateParams_GetAuthority :: "'c object heap \<Rightarrow> ptr \<Rightarrow> string go" where
  "MsgUpdateParams_GetAuthority h x =
     (if x \<noteq> None then go_bind (load T_MsgUpdateParams h x) (\<lambda>m. Ret (upd_Authority m)) else Ret '''')"

definition MsgUpdateParams_GetParams :: "'c object heap \<Rightarrow> ptr \<Rightarrow> ptr go" where
  "MsgUpdateParams_GetParams h x =
     (if x \<noteq> None then go_bind (load T_MsgUpdateParams h x) (\<lambda>m. Ret (upd_Params m)) else Ret None)"

definition MsgUpdateParams_ProtoReflect :: "ptr \<Rightarrow> message" where
  "MsgUpdateParams_ProtoReflect x = (MsgUpdateParamsType, x)"

definition fastReflection_MsgUpdateParams_messageType_Zero :: "message" where
  "fastReflection_MsgUpdateParams_messageType_Zero = (MsgUpdateParamsType, None)"

definition fastReflection_MsgUpdateParams_New ::
    "'c object heap \<Rightarrow> message \<times> 'c object heap" where
  "fastReflection_MsgUpdateParams_New h =
     (case alloc T_MsgUpdateParams h zero_MsgUpdateParams of (p, h') \<Rightarrow>
         ((MsgUpdateParamsType, Some p), h'))"

definition fastReflection_MsgUpdateParams_Interface :: "ptr \<Rightarrow> message" where
  "fastReflection_MsgUpdateParams_Interface x = (MsgUpdateParamsType, x)"

definition fastReflection_MsgUpdateParams_IsValid :: "ptr \<Rightarrow> bool" where
  "fastReflection_MsgUpdateParams_IsValid x = (x \<noteq> None)"

subsection \<open>MsgUpdateParamsResponse\<close>

definition zero_MsgUpdateParamsResponse :: v1_MsgUpdateParamsResponse where
  "zero_MsgUpdateParamsResponse = \<lparr> updresp_unknownFields = [] \<rparr>"

definition MsgUpdateParamsResponse_Reset ::
    "'c object heap \<Rightarrow> ptr \<Rightarrow> 'c object heap go" where
  "MsgUpdateParamsResponse_Reset h x = store T_MsgUpdateParamsResponse h x zero_MsgUpdateParamsResponse"

definition MsgUpdateParamsResponse_ProtoReflect :: "ptr \<Rightarrow> message" where
  "MsgUpdateParamsResponse_ProtoReflect x = (MsgUpdateParamsResponseType, x)"

definition fastReflection_MsgUpdateParamsResponse_messageType_Zero :: "message" where
  "fastReflection_MsgUpdateParamsResponse_messageType_Zero = (MsgUpdateParamsResponseType, None)"

definition fastReflection_MsgUpdateParamsResponse_New ::
    "'c object heap \<Rightarrow> message \<times> 'c object heap" where
  "fastReflection_MsgUpdateParamsResponse_New h =
     (case alloc T_MsgUpdateParamsResponse h zero_MsgUpdateParamsResponse of (p, h') \<Rightarrow>
         ((MsgUpdateParamsResponseType, Some p), h'))"

definition fastReflection_MsgUpdateParamsResponse_Interface :: "ptr \<Rightarrow> message" where
  "fastReflection_MsgUpdateParamsResponse_Interface x = (MsgUpdateParamsResponseType, x)"

definition fastReflection_MsgUpdateParamsResponse_IsValid :: "ptr \<Rightarrow> bool" where
  "fastReflection_MsgUpdateParamsResponse_IsValid x = (x \<noteq> None)"

subsection \<open>QueryParamsRequest\<close>

definition zero_QueryParamsRequest :: v1_QueryParamsRequest where
  "zero_QueryParamsRequest = \<lparr> qreq_unknownFields = [] \<rparr>"

definition QueryParamsRequest_Reset ::
    "'c object heap \<Rightarrow> ptr \<Rightarrow> 'c object heap go" where
  "QueryParamsRequest_Reset h x = store T_QueryParamsRequest h x zero_QueryParamsRequest"

definition QueryParamsRequest_ProtoReflect :: "ptr \<Rightarrow> message" where
  "QueryParamsRequest_ProtoReflect x = (QueryParamsRequestType, x)"

definition fastReflection_QueryParamsRequest_messageType_Zero :: "message" where
  "fastReflection_QueryParamsRequest_messageType_Zero = (QueryParamsRequestType, None)"

definition fastReflection_QueryParamsRequest_New ::
    "'c object heap \<Rightarrow> message \<times> 'c object heap" where
  "fastReflection_QueryParamsRequest_New h =
     (case alloc T_QueryParamsRequest h zero_QueryParamsRequest of (p, h') \<Rightarrow>
         ((QueryParamsRequestType, Some p), h'))"

definition fastReflection_QueryParamsRequest_Interface :: "ptr \<Rightarrow> message" where
  "fastReflection_QueryParamsRequest_Interface x = (QueryParamsRequestType, x)"

definition fastReflection_QueryParamsRequest_IsValid :: "ptr \<Rightarrow> bool" where
  "fastReflection_QueryParamsRequest_IsValid x = (x \<noteq> None)"

subsection \<open>QueryParamsResponse\<close>

definition zero_QueryParamsResponse :: v1_QueryParamsResponse where
  "zero_QueryParamsResponse = \<lparr> qresp_Params = None, qresp_unknownFields = [] \<rparr>"

definition QueryParamsResponse_Reset ::
    "'c object heap \<Rightarrow> ptr \<Rightarrow> 'c object heap go" where
  "QueryParamsResponse_Reset h x = store T_QueryParamsResponse h x zero_QueryParamsResponse"

definition QueryParamsResponse_GetParams :: "'c object heap \<Rightarrow> ptr \<Rightarrow> ptr go" where
  "QueryParamsResponse_GetParams h x =
     (if x \<noteq> None then go_bind (load T_QueryParamsResponse h x) (\<lambda>m. Ret (qresp_Params m)) else Ret
         None)"

definition QueryParamsResponse_ProtoReflect :: "ptr \<Rightarrow> message" where
  "QueryParamsResponse_ProtoReflect x = (QueryParamsResponseType, x)"

definition fastReflection_QueryParamsResponse_messageType_Zero :: "message" where
  "fastReflection_QueryParamsResponse_messageType_Zero = (QueryParamsResponseType, None)"

definition fastReflection_QueryParamsResponse_New ::
    "'c object heap \<Rightarrow> message \<times> 'c object heap" where
  "fastReflection_QueryParamsResponse_New h =
     (case alloc T_QueryParamsResponse h zero_QueryParamsResponse of (p, h') \<Rightarrow>
         ((QueryParamsResponseType, Some p), h'))"

definition fastReflection_QueryParamsResponse_Interface :: "ptr \<Rightarrow> message" where
  "fastReflection_QueryParamsResponse_Interface x = (QueryParamsResponseType, x)"

definition fastReflection_QueryParamsResponse_IsValid :: "ptr \<Rightarrow> bool" where
  "fastReflection_QueryParamsResponse_IsValid x = (x \<noteq> None)"

subsection \<open>Module\<close>

definition zero_Module :: v1_Module where
  "zero_Module = \<lparr> mod_Authority = '''', mod_unknownFields = [] \<rparr>"

definition Module_Reset :: "'c object heap \<Rightarrow> ptr \<Rightarrow> 'c object heap go" where
  "Module_Reset h x = store T_Module h x zero_Module"

definition Module_GetAuthority :: "'c object heap \<Rightarrow> ptr \<Rightarrow> string go" where
  "Module_GetAuthority h x =
     (if x \<noteq> None then go_bind (load T_Module h x) (\<lambda>m. Ret (mod_Authority m)) else Ret '''')"

definition Module_ProtoReflect :: "ptr \<Rightarrow> message" where
  "Module_ProtoReflect x = (ModuleType, x)"

definition fastReflection_Module_messageType_Zero :: "message" where
  "fastReflection_Module_messageType_Zero = (ModuleType, None)"

definition fastReflection_Module_New :: "'c object heap \<Rightarrow> message \<times> 'c object heap" where
  "fastReflection_Module_New h =
     (case alloc T_Module h zero_Module of (p, h') \<Rightarrow> ((ModuleType, Some p), h'))"

definition fastReflection_Module_Interface :: "ptr \<Rightarrow> message" where
  "fastReflection_Module_Interface x = (ModuleType, x)"

definition fastReflection_Module_IsValid :: "ptr \<Rightarrow> bool" where
  "fastReflection_Module_IsValid x = (x \<noteq> None)"

end
