(* ===== verification/Pulsar_Fast_Path.thy ===== *)
theory Pulsar_Fast_Path
  imports Pulsar_Messages Auction_Params
begin

text \<open>
  What the closures \<open>size\<close>, \<open>marshal\<close> and \<open>unmarshal\<close> of the generated \<open>ProtoMethods\<close> share. The record
  \<open>proto_runtime\<close> holds the code outside the repository that they call; \<open>put\<close> writes in front of a buffer
  of a fixed size; \<open>fields_loop\<close> is the loop over the fields of the input. Nothing in the generated code
  bounds that loop: it ends because the library's \<open>Skip\<close> never answers that a field has no bytes. So the
  loop is a partial function, and the lemmas show that it returns. The texts of the runtime's errors are
  those of the other generated code.
\<close>

section \<open>The runtime library\<close>

text \<open>
  The first three are functions of \<open>cosmos-proto/runtime\<close>; \<open>rtEncodeVarint\<close> gives the bytes written in
  front of an index. The next three are \<open>proto.MarshalOptions.Size\<close>, \<open>Marshal\<close> and \<open>UnmarshalOptions.Unmarshal\<close>
  (with \<open>Merge\<close>) on a message of this package: what the library makes of the result of the message's own
  method. The others are the coin: a new one, and the same three functions on it; the flag of
  \<open>rtCoinUnmarshal\<close> is \<open>DiscardUnknown\<close>.
\<close>

record ('c, 'o) proto_runtime =
  rtSov :: "u64 \<Rightarrow> nat"
  rtEncodeVarint :: "u64 \<Rightarrow> bytes"
  rtSkip :: "bytes \<Rightarrow> int go"
  optSize :: "nat go \<Rightarrow> nat go"
  optMarshal :: "bytes go \<Rightarrow> bytes go"
  optUnmarshal :: "'o heap go option \<Rightarrow> 'o heap go option"
  rtCoinNew :: 'c
  rtCoinSize :: "'c \<Rightarrow> nat"
  rtCoinMarshal :: "'c \<Rightarrow> bytes go"
  rtCoinUnmarshal :: "bool \<Rightarrow> 'c \<Rightarrow> bytes \<Rightarrow> 'c go"

type_synonym 'c pulsar_runtime = "('c, 'c object) proto_runtime"

text \<open>
  Documented: varints are those of the wire format; \<open>Skip\<close> finds the end of a well-formed field, and no
  field is empty; the library uses a message's own methods.
\<close>

definition runtime_laws :: "('c, 'o) proto_runtime \<Rightarrow> bool" where
  "runtime_laws R \<longleftrightarrow>
     (\<forall>v. rtSov R v = sov v) \<and> (\<forall>v. rtEncodeVarint R v = encode_varint v) \<and>
     (\<forall>bz. rtSkip R bz \<noteq> Ret 0) \<and> (\<forall>bz n. skip_field bz = Ret n \<longrightarrow> rtSkip R bz = Ret (int n)) \<and>
     (\<forall>l. optSize R l = l) \<and> (\<forall>e. optMarshal R e = e) \<and> (\<forall>r. optUnmarshal R r = r)"

lemma runtime_lawsD:
  assumes "runtime_laws R"
  shows "rtSov R = sov" and "rtEncodeVarint R = encode_varint" and "rtSkip R bz \<noteq> Ret 0"
    and "skip_field bz = Ret n \<Longrightarrow> rtSkip R bz = Ret (int n)"
    and "optSize R l = l" and "optMarshal R e = e" and "optUnmarshal R r = r"
  using assms by (auto simp: runtime_laws_def)

text \<open>A runtime whose coins are written as the codec \<open>W\<close> writes the coins of the SDK.\<close>

definition runtime_of :: "wire_ops \<Rightarrow> Coin pulsar_runtime" where
  "runtime_of W = \<lparr>
     rtSov = sov, rtEncodeVarint = encode_varint,
     rtSkip = (\<lambda>bz. go_bind (skip_field bz) (\<lambda>n. Ret (int n))),
     optSize = id, optMarshal = id, optUnmarshal = id,
     rtCoinNew = zero_coin, rtCoinSize = coinSize W, rtCoinMarshal = coinMarshal W,
     rtCoinUnmarshal = (\<lambda>discard. coinUnmarshal W) \<rparr>"

lemma runtime_of_laws: "runtime_laws (runtime_of W)"
  by (auto simp: runtime_laws_def runtime_of_def go_simps skip_field_def dest!: skip_loop_progress)

section \<open>Sizes\<close>

definition field_len :: "('c, 'o) proto_runtime \<Rightarrow> nat \<Rightarrow> nat" where
  "field_len R l = 1 + l + rtSov R (of_nat l)"

definition size_bytes :: "('c, 'o) proto_runtime \<Rightarrow> bytes \<Rightarrow> nat" where
  "size_bytes R bz = (if 0 < length bz then field_len R (length bz) else 0)"

text \<open>A field of message type: \<open>l\<close> is what \<open>options.Size\<close> says when the pointer is not nil.\<close>

definition size_message :: "('c, 'o) proto_runtime \<Rightarrow> ptr \<Rightarrow> nat go \<Rightarrow> nat go" where
  "size_message R x l = (if x \<noteq> None then go_bind l (\<lambda>l. Ret (field_len R l)) else Ret 0)"

definition coin_size :: "'c pulsar_runtime \<Rightarrow> 'c object heap \<Rightarrow> ptr \<Rightarrow> nat go" where
  "coin_size R h x = go_bind (load T_Coin h x) (\<lambda>c. Ret (rtCoinSize R c))"

section \<open>Writing\<close>

text \<open>The buffer has \<open>sz\<close> bytes, of which \<open>out\<close> are written; writing in front of the buffer panics.\<close>

definition put :: "nat \<Rightarrow> bytes \<Rightarrow> bytes \<Rightarrow> bytes go" where
  "put sz bz out = (if sz < length bz + length out then Panic else Ret (bz @ out))"

definition put_payload :: "('c, 'o) proto_runtime \<Rightarrow> nat \<Rightarrow> 8 word \<Rightarrow> bytes \<Rightarrow> bytes \<Rightarrow> bytes go" where
  "put_payload R sz tag bz out =
     go_bind (put sz bz out) (\<lambda>out.
     go_bind (put sz (rtEncodeVarint R (of_nat (length bz))) out) (\<lambda>out. put sz [tag] out))"

definition put_bytes :: "('c, 'o) proto_runtime \<Rightarrow> nat \<Rightarrow> 8 word \<Rightarrow> bytes \<Rightarrow> bytes \<Rightarrow> bytes go" where
  "put_bytes R sz tag bz out = (if 0 < length bz then put_payload R sz tag bz out else Ret out)"

definition put_uint32 :: "('c, 'o) proto_runtime \<Rightarrow> nat \<Rightarrow> 8 word \<Rightarrow> u32 \<Rightarrow> bytes \<Rightarrow> bytes go" where
  "put_uint32 R sz tag v out =
     (if v \<noteq> 0 then go_bind (put sz (rtEncodeVarint R (ucast v)) out) (\<lambda>out. put sz [tag] out) else Ret out)"

definition put_bool :: "nat \<Rightarrow> 8 word \<Rightarrow> bool \<Rightarrow> bytes \<Rightarrow> bytes go" where
  "put_bool sz tag b out = (if b then go_bind (put sz [1] out) (\<lambda>out. put sz [tag] out) else Ret out)"

text \<open>\<open>encoded\<close> is the result of \<open>options.Marshal\<close> when the pointer is not nil.\<close>

definition put_message ::
    "('c, 'o) proto_runtime \<Rightarrow> nat \<Rightarrow> 8 word \<Rightarrow> ptr \<Rightarrow> bytes go \<Rightarrow> bytes \<Rightarrow> bytes go" where
  "put_message R sz tag x encoded out =
     (if x \<noteq> None then go_bind encoded (\<lambda>bz. put_payload R sz tag bz out) else Ret out)"

definition coin_marshal :: "'c pulsar_runtime \<Rightarrow> 'c object heap \<Rightarrow> ptr \<Rightarrow> bytes go" where
  "coin_marshal R h x = go_bind (load T_Coin h x) (rtCoinMarshal R)"

text \<open>The whole buffer, unwritten bytes included, is appended to the caller's.\<close>

definition finish :: "nat \<Rightarrow> bytes \<Rightarrow> bytes \<Rightarrow> bytes go" where
  "finish sz buf out = Ret (buf @ replicate (sz - length out) 0 @ out)"

section \<open>Reading\<close>

text \<open>Continuing with a call that may not return.\<close>

definition go_run :: "'a go \<Rightarrow> ('a \<Rightarrow> 'b go option) \<Rightarrow> 'b go option" where
  "go_run m f = (case m of Ret x \<Rightarrow> f x | Err e \<Rightarrow> Some (Err e) | Panic \<Rightarrow> Some Panic)"

lemma go_run_simps [simp]:
  "go_run (Ret x) f = f x" "go_run (Err e) f = Some (Err e)" "go_run Panic f = Some Panic"
  by (simp_all add: go_run_def)

lemma go_run_Ret_iff: "go_run m f = Some (Ret y) \<longleftrightarrow> (\<exists>x. m = Ret x \<and> f x = Some (Ret y))"
  by (cases m) auto

text \<open>
  What the \<open>switch\<close> of a generated \<open>unmarshal\<close> does with a field. The state \<open>'h\<close> is the heap; \<open>keep\<close> appends
  the bytes of an unknown field to the message.
\<close>

datatype 'h field_action =
    FieldVarint "u64 \<Rightarrow> 'h go"
  | FieldUint32 "u32 \<Rightarrow> 'h go"
  | FieldPayload "bytes \<Rightarrow> 'h go option"
  | FieldUnknown
  | FieldWrongType string

definition skip_raw :: "('c, 'o) proto_runtime \<Rightarrow> (bytes \<Rightarrow> 'h go) \<Rightarrow> bytes \<Rightarrow> nat \<Rightarrow> ('h \<times> nat) go" where
  "skip_raw R keep dAtA preIndex =
     go_bind (rtSkip R (drop preIndex dAtA)) (\<lambda>skippy.
       if skippy < 0 \<or> 2 ^ 63 \<le> int preIndex + skippy then Err ErrInvalidLength
       else if int (length dAtA) < int preIndex + skippy then Err ErrUnexpectedEOF
       else go_bind (keep (take (nat skippy) (drop preIndex dAtA))) (\<lambda>h. Ret (h, preIndex + nat skippy)))"

fun run_field ::
  "('c, 'o) proto_runtime \<Rightarrow> (bytes \<Rightarrow> 'h go) \<Rightarrow> 'h field_action \<Rightarrow> bytes \<Rightarrow> nat \<Rightarrow> nat \<Rightarrow> ('h \<times> nat) go option" where
  "run_field R keep (FieldVarint f) dAtA preIndex j =
     Some (go_bind (read_varint dAtA j) (\<lambda>(v, k). go_bind (f v) (\<lambda>h. Ret (h, k))))"
| "run_field R keep (FieldUint32 f) dAtA preIndex j =
     Some (go_bind (read_varint dAtA j) (\<lambda>(v, k). go_bind (f v) (\<lambda>h. Ret (h, k))))"
| "run_field R keep (FieldPayload f) dAtA preIndex j =
     go_run (read_bytes dAtA j) (\<lambda>(bz, k). map_option (\<lambda>r. go_bind r (\<lambda>h. Ret (h, k))) (f bz))"
| "run_field R keep FieldUnknown dAtA preIndex j = Some (skip_raw R keep dAtA preIndex)"
| "run_field R keep (FieldWrongType name) dAtA preIndex j =
     Some (Err (Errorf (''proto: wrong wireType = %d for field '' @ name)))"

definition field_step ::
  "('c, 'o) proto_runtime \<Rightarrow> string \<Rightarrow> ('h \<Rightarrow> u32 \<Rightarrow> nat \<Rightarrow> 'h field_action) \<Rightarrow> ('h \<Rightarrow> bytes \<Rightarrow> 'h go) \<Rightarrow>
   bytes \<Rightarrow> 'h \<Rightarrow> nat \<Rightarrow> ('h \<times> nat) go option" where
  "field_step R name dispatch keep dAtA h i =
     go_run (read_header name dAtA i) (\<lambda>(fieldNum, wireType, j).
       run_field R (keep h) (dispatch h fieldNum wireType) dAtA i j)"

partial_function (option) fields_loop ::
  "(bytes \<Rightarrow> 'h \<Rightarrow> nat \<Rightarrow> ('h \<times> nat) go option) \<Rightarrow> bytes \<Rightarrow> 'h \<Rightarrow> nat \<Rightarrow> 'h go option" where
  "fields_loop step dAtA h i =
     (if i < length dAtA then
        Option.bind (step dAtA h i) (\<lambda>r. case r of
            Ret p \<Rightarrow> fields_loop step dAtA (fst p) (snd p)
          | Err e \<Rightarrow> Some (Err e)
          | Panic \<Rightarrow> Some Panic)
      else if length dAtA < i then Some (Err ErrUnexpectedEOF)
      else Some (Ret h))"

definition unmarshal_fields ::
  "('c, 'o) proto_runtime \<Rightarrow> string \<Rightarrow> ('h \<Rightarrow> u32 \<Rightarrow> nat \<Rightarrow> 'h field_action) \<Rightarrow> ('h \<Rightarrow> bytes \<Rightarrow> 'h go) \<Rightarrow>
   'h \<Rightarrow> bytes \<Rightarrow> 'h go option" where
  "unmarshal_fields R name dispatch keep h dAtA = fields_loop (field_step R name dispatch keep) dAtA h 0"

text \<open>\<open>options.Unmarshal\<close> of a payload into the coin at \<open>x\<close>.\<close>

definition coin_unmarshal :: "'c pulsar_runtime \<Rightarrow> bool \<Rightarrow> 'c object heap \<Rightarrow> ptr \<Rightarrow> bytes \<Rightarrow> 'c object heap go" where
  "coin_unmarshal R discard h x bz =
     go_bind (load T_Coin h x) (\<lambda>c. go_bind (rtCoinUnmarshal R discard c bz) (store T_Coin h x))"


declare fields_loop.simps [code]

section \<open>The loop returns\<close>

lemma skip_raw_progress: "runtime_laws R \<Longrightarrow> skip_raw R keep dAtA i = Ret (h, k) \<Longrightarrow> i < k"
proof -
  assume R: "runtime_laws R" and "skip_raw R keep dAtA i = Ret (h, k)"
  then obtain s where s: "rtSkip R (drop i dAtA) = Ret s" "\<not> s < 0" "k = i + nat s"
    by (auto simp: skip_raw_def go_simps split: if_splits)
  have "s \<noteq> 0" using runtime_lawsD(3) [OF R, of "drop i dAtA"] s(1) by auto
  then show "i < k" using s by simp
qed

lemma run_field_progress:
  assumes "runtime_laws R" and "run_field R keep act dAtA i j = Some (Ret (h, k))" and "i < j"
  shows "i < k"
proof (cases act)
  case (FieldVarint f)
  then show ?thesis using assms(2,3) by (auto simp: go_simps dest!: read_varint_progress)
next
  case (FieldUint32 f)
  then show ?thesis using assms(2,3) by (auto simp: go_simps dest!: read_varint_progress)
next
  case (FieldPayload f)
  show ?thesis
  proof (cases "read_bytes dAtA j")
    case (Ret q)
    then obtain bz k' where q: "read_bytes dAtA j = Ret (bz, k')" by (cases q) auto
    then have "k = k'" using assms(2) FieldPayload by (auto simp: go_bind_Ret_iff)
    then show ?thesis using read_bytes_progress [OF q] assms(3) by simp
  qed (use assms(2) FieldPayload in simp_all)
next
  case FieldUnknown
  then show ?thesis using assms(2) skip_raw_progress [OF assms(1)] by simp
qed (use assms(2) in simp)

lemma field_step_progress:
  assumes "runtime_laws R" and "field_step R name dispatch keep dAtA h i = Some (Ret (h', k))"
  shows "i < k"
proof -
  from assms(2) obtain p where p: "read_header name dAtA i = Ret p"
    and "(\<lambda>(f, w, j). run_field R (keep h) (dispatch h f w) dAtA i j) p = Some (Ret (h', k))"
    unfolding field_step_def go_run_Ret_iff by blast
  moreover obtain f w j where "p = (f, w, j)" by (cases p)
  ultimately have "read_header name dAtA i = Ret (f, w, j)"
    and "run_field R (keep h) (dispatch h f w) dAtA i j = Some (Ret (h', k))" by simp_all
  then show ?thesis using run_field_progress [OF assms(1)] read_header_progress by metis
qed

lemma fields_loop_returns:
  assumes "\<And>h i. \<exists>r. step dAtA h i = Some r" and "\<And>h i h' k. step dAtA h i = Some (Ret (h', k)) \<Longrightarrow> i < k"
  shows "\<exists>r. fields_loop step dAtA h i = Some r"
proof (induction "length dAtA - i" arbitrary: h i rule: less_induct)
  case less
  show ?case
  proof (cases "i < length dAtA")
    case True
    obtain r where r: "step dAtA h i = Some r" using assms(1) by blast
    show ?thesis
    proof (cases r)
      case (Ret p)
      then obtain h' k where p: "r = Ret (h', k)" by (cases p) auto
      with r have "i < k" using assms(2) by blast
      with True have "\<exists>r. fields_loop step dAtA h' k = Some r" by (intro less) simp
      then show ?thesis using True r p by (subst fields_loop.simps) simp
    qed (use True r in \<open>subst fields_loop.simps, simp\<close>)+
  qed (subst fields_loop.simps, simp)
qed

lemma unmarshal_fields_returns:
  assumes "runtime_laws R" and "\<And>h f w g bz. dispatch h f w = FieldPayload g \<Longrightarrow> \<exists>r. g bz = Some r"
  shows "\<exists>r. unmarshal_fields R name dispatch keep h dAtA = Some r"
  unfolding unmarshal_fields_def
proof (rule fields_loop_returns)
  show "\<exists>r. field_step R name dispatch keep dAtA h i = Some r" for h i
  proof (cases "read_header name dAtA i")
    case (Ret p)
    then obtain f w j where "read_header name dAtA i = Ret (f, w, j)" by (cases p) auto
    moreover have "\<exists>r. run_field R (keep h) (dispatch h f w) dAtA i j = Some r"
    proof (cases "dispatch h f w")
      case (FieldPayload g)
      show ?thesis
      proof (cases "read_bytes dAtA j")
        case (Ret q)
        then show ?thesis using FieldPayload assms(2) [OF FieldPayload, of "fst q"] by (cases q) auto
      qed (use FieldPayload in simp_all)
    qed simp_all
    ultimately show ?thesis by (simp add: field_step_def)
  qed (simp_all add: field_step_def)
qed (rule field_step_progress [OF assms(1)])

section \<open>Reading back what was written\<close>

text \<open>The loop when \<open>rest\<close> is what remains of the input.\<close>

definition reading ::
  "('c, 'o) proto_runtime \<Rightarrow> string \<Rightarrow> ('h \<Rightarrow> u32 \<Rightarrow> nat \<Rightarrow> 'h field_action) \<Rightarrow> ('h \<Rightarrow> bytes \<Rightarrow> 'h go) \<Rightarrow>
   bytes \<Rightarrow> 'h \<Rightarrow> bytes \<Rightarrow> 'h go option" where
  "reading R name dispatch keep dAtA h rest =
     fields_loop (field_step R name dispatch keep) dAtA h (length dAtA - length rest)"

lemma reading_done [simp]: "reading R name dispatch keep dAtA h [] = Some (Ret h)"
  by (simp add: reading_def) (subst fields_loop.simps, simp)

lemma unmarshal_reading: "unmarshal_fields R name dispatch keep h dAtA = reading R name dispatch keep dAtA h dAtA"
  by (simp add: unmarshal_fields_def reading_def)

text \<open>A tag of one byte: the number of a field and its wire type.\<close>

definition short_tag :: "u64 \<Rightarrow> bool" where
  "short_tag v \<longleftrightarrow> v < 128 \<and> 8 \<le> v \<and> v AND 7 \<noteq> 4"

lemma reading_step:
  assumes "suffix (ucast v # field @ rest) dAtA" and "short_tag v"
    and "run_field R (keep h) (dispatch h (ucast (drop_bit 3 v)) (unat (v AND 7))) dAtA
      (length dAtA - length (ucast v # field @ rest)) (length dAtA - length (field @ rest)) =
      Some (Ret (h', length dAtA - length rest))"
  shows "reading R name dispatch keep dAtA h (ucast v # field @ rest) =
    reading R name dispatch keep dAtA h' rest"
proof -
  let ?i = "length dAtA - length (ucast v # field @ rest)"
  have len: "length (ucast v # field @ rest) \<le> length dAtA"
    using suffix_length_le [OF assms(1)] .
  then have i: "?i < length dAtA" and j: "Suc ?i = length dAtA - length (field @ rest)" by auto
  from assms(2) have tag: "v < 128" "8 \<le> v" "v AND 7 \<noteq> 4" by (simp_all add: short_tag_def)
  from read_header_encoded [OF suffix_drop [OF assms(1)] tag, of name] j
  have "field_step R name dispatch keep dAtA h ?i = Some (Ret (h', length dAtA - length rest))"
    using assms(3) by (simp add: field_step_def)
  then show ?thesis
    unfolding reading_def using i by (subst fields_loop.simps) simp
qed

lemma reading_payload:
  assumes "suffix (ucast v # length_prefixed bz @ rest) dAtA" and "length dAtA < 2 ^ 63" and "short_tag v"
    and "dispatch h (ucast (drop_bit 3 v)) (unat (v AND 7)) = FieldPayload f" and "f bz = Some (Ret h')"
  shows "reading R name dispatch keep dAtA h (ucast v # length_prefixed bz @ rest) =
    reading R name dispatch keep dAtA h' rest"
proof (rule reading_step [OF assms(1,3)])
  let ?tail = "length_prefixed bz @ rest"
  have tail: "suffix ?tail dAtA" using assms(1) by (rule suffix_ConsD)
  from read_payload_encoded [OF suffix_drop [OF tail] _ assms(2)] suffix_length_le [OF tail]
  have "read_bytes dAtA (length dAtA - length ?tail) = Ret (bz, length dAtA - length rest)" by simp
  then show "run_field R (keep h) (dispatch h (ucast (drop_bit 3 v)) (unat (v AND 7))) dAtA
      (length dAtA - length (ucast v # ?tail)) (length dAtA - length ?tail) =
      Some (Ret (h', length dAtA - length rest))"
    using assms(4,5) by simp
qed

lemma reading_varint:
  assumes "suffix (ucast v # encode_varint n @ rest) dAtA" and "short_tag v"
    and "dispatch h (ucast (drop_bit 3 v)) (unat (v AND 7)) = FieldVarint f \<and> f n = Ret h' \<or>
      dispatch h (ucast (drop_bit 3 v)) (unat (v AND 7)) = FieldUint32 g \<and> g (ucast n) = Ret h'"
  shows "reading R name dispatch keep dAtA h (ucast v # encode_varint n @ rest) =
    reading R name dispatch keep dAtA h' rest"
proof (rule reading_step [OF assms(1,2)])
  let ?tail = "encode_varint n @ rest"
  have tail: "suffix ?tail dAtA" using assms(1) by (rule suffix_ConsD)
  have le: "length dAtA - length ?tail \<le> length dAtA" by simp
  have read: "read_varint dAtA (length dAtA - length ?tail) = Ret (ucast n :: u64, length dAtA - length rest)"
    "read_varint dAtA (length dAtA - length ?tail) = Ret (ucast n :: u32, length dAtA - length rest)"
    using read_encoded_varint [OF suffix_drop [OF tail] le, where 'a = 64]
      read_encoded_varint [OF suffix_drop [OF tail] le, where 'a = 32]
      suffix_length_le [OF tail] by simp_all
  then show "run_field R (keep h) (dispatch h (ucast (drop_bit 3 v)) (unat (v AND 7))) dAtA
      (length dAtA - length (ucast v # ?tail)) (length dAtA - length ?tail) =
      Some (Ret (h', length dAtA - length rest))"
    using assms(3) by auto
qed

text \<open>Well-formed fields, with tags of one byte, whose numbers a message does not know.\<close>

inductive raw_fields :: "u32 set \<Rightarrow> bytes \<Rightarrow> bool" for known :: "u32 set" where
  raw_nil: "raw_fields known []"
| raw_cons: "raw_fields known (ucast v # body @ raw)"
    if "short_tag v" and "ucast (drop_bit 3 v) \<notin> known"
      and "\<forall>rest. skip_field (ucast v # body @ rest) = Ret (Suc (length body))" and "raw_fields known raw"

lemma reading_unknown:
  assumes "suffix (ucast v # body @ rest) dAtA" and "length dAtA < 2 ^ 63" and "short_tag v" and "runtime_laws R"
    and "skip_field (ucast v # body @ rest) = Ret (Suc (length body))"
    and "dispatch h (ucast (drop_bit 3 v)) (unat (v AND 7)) = FieldUnknown" and "keep h (ucast v # body) = Ret h'"
  shows "reading R name dispatch keep dAtA h (ucast v # body @ rest) = reading R name dispatch keep dAtA h' rest"
proof (rule reading_step [OF assms(1,3)])
  let ?field = "ucast v # body @ rest"
  let ?i = "length dAtA - length ?field"
  have le: "length ?field \<le> length dAtA" using suffix_length_le [OF assms(1)] .
  have d: "drop ?i dAtA = ?field" by (rule suffix_drop [OF assms(1)])
  have skip: "rtSkip R ?field = Ret (int (Suc (length body)))" by (rule runtime_lawsD(4) [OF assms(4,5)])
  have "int ?i + int (Suc (length body)) = int (length dAtA - length rest)" using le by simp
  moreover have "int (length dAtA - length rest) < 2 ^ 63" using assms(2) by simp
  ultimately have "skip_raw R (keep h) dAtA ?i = Ret (h', length dAtA - length rest)"
    unfolding skip_raw_def d skip using assms(7) le by (simp del: of_nat_Suc)
  then show "run_field R (keep h) (dispatch h (ucast (drop_bit 3 v)) (unat (v AND 7))) dAtA
      ?i (length dAtA - length (body @ rest)) = Some (Ret (h', length dAtA - length rest))"
    using assms(6) by simp
qed

text \<open>A length-delimited field is well-formed.\<close>

lemma skip_payload:
  assumes "v < 128" and "v AND 7 = (2 :: u64)" and "length bz < 2 ^ 62"
  shows "skip_field (ucast v # length_prefixed bz @ rest) = Ret (Suc (length (length_prefixed bz)))"
proof -
  let ?e = "encode_varint (of_nat (length bz))"
  let ?d = "ucast v # length_prefixed bz @ rest"
  have at: "drop 0 ?d = ucast v # length_prefixed bz @ rest" by simp
  note tag = read_tag [OF at assms(1)]
  have "drop (Suc 0) ?d = ?e @ bz @ rest" by (simp add: length_prefixed_def)
  from read_encoded_varint [OF this, where 'a = 64]
  have len: "read_varint ?d (Suc 0) = Ret (of_nat (length bz) :: i64, Suc (length ?e))" by simp
  have small: "length bz < 2 ^ 63" using assms(3) by simp
  have nonneg: "\<not> (of_nat (length bz) :: i64) <s 0"
    using sint_of_nat_64 [OF small] by (simp add: word_sless_alt)
  have un: "unat (of_nat (length bz) :: i64) = length bz"
    using small by (simp add: unsigned_of_nat take_bit_nat_eq_self)
  have step: "skip_step ?d 0 0 = Ret (Suc (length (length_prefixed bz)), 0)"
    using tag(1) assms(2) len nonneg un by (simp add: skip_step_def length_prefixed_def)
  have "bit_len (unat (of_nat (length bz) :: u64) div 2) \<le> 63"
  proof (rule bit_len_le)
    have "unat (of_nat (length bz) :: u64) < 2 ^ LENGTH(64)" by (rule unsigned_less)
    also have "\<dots> = 2 ^ 63 * 2" by simp
    finally show "unat (of_nat (length bz) :: u64) div 2 < 2 ^ 63" by (rule less_mult_imp_div_less)
  qed
  then have "length ?e \<le> 10" by (simp add: length_encode_varint sov_eq)
  then have "\<not> 2 ^ 63 \<le> Suc (length (length_prefixed bz))"
    using assms(3) by (simp add: length_prefixed_def)
  then show ?thesis unfolding skip_field_def using step by (subst skip_loop.simps) simp
qed

end
