(* ===== verification/Pulsar_Codec.thy ===== *)
theory Pulsar_Codec
  imports Pulsar_Fast_Path
begin

text \<open>
  The fast path of the nine messages: the closures of their \<open>ProtoMethods\<close>
  (\<open>api/sdk/auction/v1/*.pulsar.go\<close>,
  \<open>api/sdk/auction/module/v1/module.pulsar.go\<close>). A nil message has size 0,
  writes nothing and reads nothing.
  Fields are written from the last to the first, behind them the unknown fields. \<open>discard\<close> is the option
  \<open>DiscardUnknown\<close>; without it the bytes of unknown fields are kept. A failed call returns the error
  alone.
\<close>

subsection \<open>Params\<close>

definition fastReflection_Params_size ::
    "'c pulsar_runtime \<Rightarrow> 'c object heap \<Rightarrow> ptr \<Rightarrow> nat go" where
  "fastReflection_Params_size R h x =
     (if x = None then Ret 0
      else go_bind (load T_Params h x) (\<lambda>m.
        go_bind (size_message R (par_ReserveFee m)
          (coin_size R h (par_ReserveFee m))) (\<lambda>l3.
        go_bind (size_message R (par_MinBidIncrement m)
          (coin_size R h (par_MinBidIncrement m))) (\<lambda>l4.
        Ret ((if par_MaxBundleSize m \<noteq> 0 then 1 + rtSov R (ucast (par_MaxBundleSize m)) else 0) +
          size_bytes R (slice_items (par_EscrowAccountAddress m)) + l3 + l4 +
          (if par_FrontRunningProtection m then 2 else 0) +
          size_bytes R (string_bytes (par_ProposerFee m)) + length (par_unknownFields m))))))"

definition fastReflection_Params_marshal ::
    "'c pulsar_runtime \<Rightarrow> 'c object heap \<Rightarrow> ptr \<Rightarrow> bytes \<Rightarrow> bytes go" where
  "fastReflection_Params_marshal R h x buf =
     (if x = None then Ret buf
      else go_bind (load T_Params h x) (\<lambda>m. go_bind (optSize R (fastReflection_Params_size R h x)) (\<lambda>sz.
        go_bind (put sz (par_unknownFields m) []) (\<lambda>out.
        go_bind (put_bytes R sz 0x32 (string_bytes (par_ProposerFee m)) out) (\<lambda>out.
        go_bind (put_bool sz 0x28 (par_FrontRunningProtection m) out) (\<lambda>out.
        go_bind (put_message R sz 0x22 (par_MinBidIncrement m)
          (coin_marshal R h (par_MinBidIncrement m)) out) (\<lambda>out.
        go_bind (put_message R sz 0x1a (par_ReserveFee m)
          (coin_marshal R h (par_ReserveFee m)) out) (\<lambda>out.
        go_bind (put_bytes R sz 0x12 (slice_items (par_EscrowAccountAddress m)) out) (\<lambda>out.
        go_bind (put_uint32 R sz 0x8 (par_MaxBundleSize m) out) (\<lambda>out.
        finish sz buf out))))))))))"

definition fastReflection_Params_case_max_bundle_size ::
    "ptr \<Rightarrow> 'c object heap \<Rightarrow> nat \<Rightarrow> 'c object heap field_action" where
  "fastReflection_Params_case_max_bundle_size x h wireType =
     (if wireType \<noteq> 0 then FieldWrongType ''MaxBundleSize''
      else FieldUint32 (\<lambda>v. update T_Params h x (\<lambda>m. m\<lparr>par_MaxBundleSize := v\<rparr>)))"

definition fastReflection_Params_case_escrow_account_address ::
    "ptr \<Rightarrow> 'c object heap \<Rightarrow> nat \<Rightarrow> 'c object heap field_action" where
  "fastReflection_Params_case_escrow_account_address x h wireType =
     (if wireType \<noteq> 2 then FieldWrongType ''EscrowAccountAddress''
      else FieldPayload (\<lambda>bz. Some (update T_Params h x (\<lambda>m. m\<lparr>par_EscrowAccountAddress := Some bz\<rparr>))))"

definition fastReflection_Params_case_reserve_fee ::
    "'c pulsar_runtime \<Rightarrow> bool \<Rightarrow> ptr \<Rightarrow> 'c object heap \<Rightarrow> nat \<Rightarrow> 'c object heap field_action" where
  "fastReflection_Params_case_reserve_fee R discard x h wireType =
     (if wireType \<noteq> 2 then FieldWrongType ''ReserveFee''
      else FieldPayload (\<lambda>bz. Some (go_bind
          (ensure_message T_Params par_ReserveFee (\<lambda>p m. m\<lparr>par_ReserveFee := p\<rparr>) T_Coin (rtCoinNew R)
              h x)
          (\<lambda>(p, h'). coin_unmarshal R discard h' p bz))))"

definition fastReflection_Params_case_min_bid_increment ::
    "'c pulsar_runtime \<Rightarrow> bool \<Rightarrow> ptr \<Rightarrow> 'c object heap \<Rightarrow> nat \<Rightarrow> 'c object heap field_action" where
  "fastReflection_Params_case_min_bid_increment R discard x h wireType =
     (if wireType \<noteq> 2 then FieldWrongType ''MinBidIncrement''
      else FieldPayload (\<lambda>bz. Some (go_bind
          (ensure_message T_Params par_MinBidIncrement (\<lambda>p m. m\<lparr>par_MinBidIncrement := p\<rparr>) T_Coin
              (rtCoinNew R) h x)
          (\<lambda>(p, h'). coin_unmarshal R discard h' p bz))))"

definition fastReflection_Params_case_front_running_protection ::
    "ptr \<Rightarrow> 'c object heap \<Rightarrow> nat \<Rightarrow> 'c object heap field_action" where
  "fastReflection_Params_case_front_running_protection x h wireType =
     (if wireType \<noteq> 0 then FieldWrongType ''FrontRunningProtection''
      else FieldVarint (\<lambda>v. update T_Params h x (\<lambda>m. m\<lparr>par_FrontRunningProtection := v \<noteq> 0\<rparr>)))"

definition fastReflection_Params_case_proposer_fee ::
    "ptr \<Rightarrow> 'c object heap \<Rightarrow> nat \<Rightarrow> 'c object heap field_action" where
  "fastReflection_Params_case_proposer_fee x h wireType =
     (if wireType \<noteq> 2 then FieldWrongType ''ProposerFee''
      else FieldPayload (\<lambda>bz. Some (update T_Params h x (\<lambda>m. m\<lparr>par_ProposerFee := bytes_string bz\<rparr>))))"

definition fastReflection_Params_fields ::
    "'c pulsar_runtime \<Rightarrow> bool \<Rightarrow> ptr \<Rightarrow> 'c object heap \<Rightarrow> u32 \<Rightarrow> nat \<Rightarrow> 'c object heap field_action" where
  "fastReflection_Params_fields R discard x h fieldNum wireType =
     (if fieldNum = 1 then fastReflection_Params_case_max_bundle_size x h wireType
      else if fieldNum = 2 then fastReflection_Params_case_escrow_account_address x h wireType
      else if fieldNum = 3 then fastReflection_Params_case_reserve_fee R discard x h wireType
      else if fieldNum = 4 then fastReflection_Params_case_min_bid_increment R discard x h wireType
      else if fieldNum = 5 then fastReflection_Params_case_front_running_protection x h wireType
      else if fieldNum = 6 then fastReflection_Params_case_proposer_fee x h wireType
      else FieldUnknown)"

definition fastReflection_Params_keep ::
    "bool \<Rightarrow> ptr \<Rightarrow> 'c object heap \<Rightarrow> bytes \<Rightarrow> 'c object heap go" where
  "fastReflection_Params_keep discard x h raw =
     (if \<not> discard
      then update T_Params h x (\<lambda>m. m\<lparr>par_unknownFields := par_unknownFields m @ raw\<rparr>)
      else Ret h)"

definition fastReflection_Params_unmarshal ::
    "'c pulsar_runtime \<Rightarrow> bool \<Rightarrow> 'c object heap \<Rightarrow> ptr \<Rightarrow> bytes \<Rightarrow> 'c object heap go option" where
  "fastReflection_Params_unmarshal R discard h x buf =
     (if x = None then Some (Ret h)
      else unmarshal_fields R ''Params'' (fastReflection_Params_fields R discard x)
          (fastReflection_Params_keep discard x) h buf)"

subsection \<open>GenesisState\<close>

definition fastReflection_GenesisState_size ::
    "'c pulsar_runtime \<Rightarrow> 'c object heap \<Rightarrow> ptr \<Rightarrow> nat go" where
  "fastReflection_GenesisState_size R h x =
     (if x = None then Ret 0
      else go_bind (load T_GenesisState h x) (\<lambda>m.
        go_bind (size_message R (gs_Params m)
          (optSize R (fastReflection_Params_size R h (gs_Params m)))) (\<lambda>l1.
        Ret (l1 + length (gs_unknownFields m)))))"

definition fastReflection_GenesisState_marshal ::
    "'c pulsar_runtime \<Rightarrow> 'c object heap \<Rightarrow> ptr \<Rightarrow> bytes \<Rightarrow> bytes go" where
  "fastReflection_GenesisState_marshal R h x buf =
     (if x = None then Ret buf
      else go_bind (load T_GenesisState h x) (\<lambda>m. go_bind (optSize R
          (fastReflection_GenesisState_size R h x)) (\<lambda>sz.
        go_bind (put sz (gs_unknownFields m) []) (\<lambda>out.
        go_bind (put_message R sz 0xa (gs_Params m)
          (optMarshal R (fastReflection_Params_marshal R h (gs_Params m) [])) out) (\<lambda>out.
        finish sz buf out)))))"

definition fastReflection_GenesisState_case_params ::
    "'c pulsar_runtime \<Rightarrow> bool \<Rightarrow> ptr \<Rightarrow> 'c object heap \<Rightarrow> nat \<Rightarrow> 'c object heap field_action" where
  "fastReflection_GenesisState_case_params R discard x h wireType =
     (if wireType \<noteq> 2 then FieldWrongType ''Params''
      else FieldPayload (\<lambda>bz. go_run
          (ensure_message T_GenesisState gs_Params (\<lambda>p m. m\<lparr>gs_Params := p\<rparr>) T_Params zero_Params h x)
          (\<lambda>(p, h'). optUnmarshal R (fastReflection_Params_unmarshal R discard h' p bz))))"

definition fastReflection_GenesisState_fields ::
    "'c pulsar_runtime \<Rightarrow> bool \<Rightarrow> ptr \<Rightarrow> 'c object heap \<Rightarrow> u32 \<Rightarrow> nat \<Rightarrow> 'c object heap field_action" where
  "fastReflection_GenesisState_fields R discard x h fieldNum wireType =
     (if fieldNum = 1 then fastReflection_GenesisState_case_params R discard x h wireType
      else FieldUnknown)"

definition fastReflection_GenesisState_keep ::
    "bool \<Rightarrow> ptr \<Rightarrow> 'c object heap \<Rightarrow> bytes \<Rightarrow> 'c object heap go" where
  "fastReflection_GenesisState_keep discard x h raw =
     (if \<not> discard
      then update T_GenesisState h x (\<lambda>m. m\<lparr>gs_unknownFields := gs_unknownFields m @ raw\<rparr>)
      else Ret h)"

definition fastReflection_GenesisState_unmarshal ::
    "'c pulsar_runtime \<Rightarrow> bool \<Rightarrow> 'c object heap \<Rightarrow> ptr \<Rightarrow> bytes \<Rightarrow> 'c object heap go option" where
  "fastReflection_GenesisState_unmarshal R discard h x buf =
     (if x = None then Some (Ret h)
      else unmarshal_fields R ''GenesisState'' (fastReflection_GenesisState_fields R discard x)
          (fastReflection_GenesisState_keep discard x) h buf)"

subsection \<open>MsgAuctionBid\<close>

definition fastReflection_MsgAuctionBid_size ::
    "'c pulsar_runtime \<Rightarrow> 'c object heap \<Rightarrow> ptr \<Rightarrow> nat go" where
  "fastReflection_MsgAuctionBid_size R h x =
     (if x = None then Ret 0
      else go_bind (load T_MsgAuctionBid h x) (\<lambda>m.
        go_bind (size_message R (bid_Bid m)
          (coin_size R h (bid_Bid m))) (\<lambda>l2.
        Ret (size_bytes R (string_bytes (bid_Bidder m)) + l2 +
          (\<Sum>b\<leftarrow>slice_items (bid_Transactions m). field_len R (length (slice_items b))) +
          length (bid_unknownFields m)))))"

definition fastReflection_MsgAuctionBid_marshal ::
    "'c pulsar_runtime \<Rightarrow> 'c object heap \<Rightarrow> ptr \<Rightarrow> bytes \<Rightarrow> bytes go" where
  "fastReflection_MsgAuctionBid_marshal R h x buf =
     (if x = None then Ret buf
      else go_bind (load T_MsgAuctionBid h x) (\<lambda>m. go_bind (optSize R
          (fastReflection_MsgAuctionBid_size R h x)) (\<lambda>sz.
        go_bind (put sz (bid_unknownFields m) []) (\<lambda>out.
        go_bind (foldr (\<lambda>b r. go_bind r (put_payload R sz 0x1a (slice_items b)))
          (slice_items (bid_Transactions m)) (Ret out)) (\<lambda>out.
        go_bind (put_message R sz 0x12 (bid_Bid m)
          (coin_marshal R h (bid_Bid m)) out) (\<lambda>out.
        go_bind (put_bytes R sz 0xa (string_bytes (bid_Bidder m)) out) (\<lambda>out.
        finish sz buf out)))))))"

definition fastReflection_MsgAuctionBid_case_bidder ::
    "ptr \<Rightarrow> 'c object heap \<Rightarrow> nat \<Rightarrow> 'c object heap field_action" where
  "fastReflection_MsgAuctionBid_case_bidder x h wireType =
     (if wireType \<noteq> 2 then FieldWrongType ''Bidder''
      else FieldPayload (\<lambda>bz. Some (update T_MsgAuctionBid h x (\<lambda>m. m\<lparr>bid_Bidder := bytes_string
          bz\<rparr>))))"

definition fastReflection_MsgAuctionBid_case_bid ::
    "'c pulsar_runtime \<Rightarrow> bool \<Rightarrow> ptr \<Rightarrow> 'c object heap \<Rightarrow> nat \<Rightarrow> 'c object heap field_action" where
  "fastReflection_MsgAuctionBid_case_bid R discard x h wireType =
     (if wireType \<noteq> 2 then FieldWrongType ''Bid''
      else FieldPayload (\<lambda>bz. Some (go_bind
          (ensure_message T_MsgAuctionBid bid_Bid (\<lambda>p m. m\<lparr>bid_Bid := p\<rparr>) T_Coin (rtCoinNew R) h x)
          (\<lambda>(p, h'). coin_unmarshal R discard h' p bz))))"

definition fastReflection_MsgAuctionBid_case_transactions ::
    "ptr \<Rightarrow> 'c object heap \<Rightarrow> nat \<Rightarrow> 'c object heap field_action" where
  "fastReflection_MsgAuctionBid_case_transactions x h wireType =
     (if wireType \<noteq> 2 then FieldWrongType ''Transactions''
      else FieldPayload (\<lambda>bz. Some (update T_MsgAuctionBid h x
          (\<lambda>m. m\<lparr>bid_Transactions := Some (slice_items (bid_Transactions m) @ [Some bz])\<rparr>))))"

definition fastReflection_MsgAuctionBid_fields ::
    "'c pulsar_runtime \<Rightarrow> bool \<Rightarrow> ptr \<Rightarrow> 'c object heap \<Rightarrow> u32 \<Rightarrow> nat \<Rightarrow> 'c object heap field_action" where
  "fastReflection_MsgAuctionBid_fields R discard x h fieldNum wireType =
     (if fieldNum = 1 then fastReflection_MsgAuctionBid_case_bidder x h wireType
      else if fieldNum = 2 then fastReflection_MsgAuctionBid_case_bid R discard x h wireType
      else if fieldNum = 3 then fastReflection_MsgAuctionBid_case_transactions x h wireType
      else FieldUnknown)"

definition fastReflection_MsgAuctionBid_keep ::
    "bool \<Rightarrow> ptr \<Rightarrow> 'c object heap \<Rightarrow> bytes \<Rightarrow> 'c object heap go" where
  "fastReflection_MsgAuctionBid_keep discard x h raw =
     (if \<not> discard
      then update T_MsgAuctionBid h x (\<lambda>m. m\<lparr>bid_unknownFields := bid_unknownFields m @ raw\<rparr>)
      else Ret h)"

definition fastReflection_MsgAuctionBid_unmarshal ::
    "'c pulsar_runtime \<Rightarrow> bool \<Rightarrow> 'c object heap \<Rightarrow> ptr \<Rightarrow> bytes \<Rightarrow> 'c object heap go option" where
  "fastReflection_MsgAuctionBid_unmarshal R discard h x buf =
     (if x = None then Some (Ret h)
      else unmarshal_fields R ''MsgAuctionBid'' (fastReflection_MsgAuctionBid_fields R discard x)
          (fastReflection_MsgAuctionBid_keep discard x) h buf)"

subsection \<open>MsgAuctionBidResponse\<close>

definition fastReflection_MsgAuctionBidResponse_size ::
    "'c pulsar_runtime \<Rightarrow> 'c object heap \<Rightarrow> ptr \<Rightarrow> nat go" where
  "fastReflection_MsgAuctionBidResponse_size R h x =
     (if x = None then Ret 0
      else go_bind (load T_MsgAuctionBidResponse h x) (\<lambda>m.
        Ret (length (bidresp_unknownFields m))))"

definition fastReflection_MsgAuctionBidResponse_marshal ::
    "'c pulsar_runtime \<Rightarrow> 'c object heap \<Rightarrow> ptr \<Rightarrow> bytes \<Rightarrow> bytes go" where
  "fastReflection_MsgAuctionBidResponse_marshal R h x buf =
     (if x = None then Ret buf
      else go_bind (load T_MsgAuctionBidResponse h x) (\<lambda>m. go_bind (optSize R
          (fastReflection_MsgAuctionBidResponse_size R h x)) (\<lambda>sz.
        go_bind (put sz (bidresp_unknownFields m) []) (\<lambda>out.
        finish sz buf out))))"

definition fastReflection_MsgAuctionBidResponse_fields ::
    "ptr \<Rightarrow> 'c object heap \<Rightarrow> u32 \<Rightarrow> nat \<Rightarrow> 'c object heap field_action" where
  "fastReflection_MsgAuctionBidResponse_fields x h fieldNum wireType = FieldUnknown"

definition fastReflection_MsgAuctionBidResponse_keep ::
    "bool \<Rightarrow> ptr \<Rightarrow> 'c object heap \<Rightarrow> bytes \<Rightarrow> 'c object heap go" where
  "fastReflection_MsgAuctionBidResponse_keep discard x h raw =
     (if \<not> discard
      then update T_MsgAuctionBidResponse h x (\<lambda>m. m\<lparr>bidresp_unknownFields := bidresp_unknownFields m
          @ raw\<rparr>)
      else Ret h)"

definition fastReflection_MsgAuctionBidResponse_unmarshal ::
    "'c pulsar_runtime \<Rightarrow> bool \<Rightarrow> 'c object heap \<Rightarrow> ptr \<Rightarrow> bytes \<Rightarrow> 'c object heap go option" where
  "fastReflection_MsgAuctionBidResponse_unmarshal R discard h x buf =
     (if x = None then Some (Ret h)
      else unmarshal_fields R ''MsgAuctionBidResponse'' (fastReflection_MsgAuctionBidResponse_fields
          x) (fastReflection_MsgAuctionBidResponse_keep discard x) h buf)"

subsection \<open>MsgUpdateParams\<close>

definition fastReflection_MsgUpdateParams_size ::
    "'c pulsar_runtime \<Rightarrow> 'c object heap \<Rightarrow> ptr \<Rightarrow> nat go" where
  "fastReflection_MsgUpdateParams_size R h x =
     (if x = None then Ret 0
      else go_bind (load T_MsgUpdateParams h x) (\<lambda>m.
        go_bind (size_message R (upd_Params m)
          (optSize R (fastReflection_Params_size R h (upd_Params m)))) (\<lambda>l2.
        Ret (size_bytes R (string_bytes (upd_Authority m)) + l2 + length (upd_unknownFields m)))))"

definition fastReflection_MsgUpdateParams_marshal ::
    "'c pulsar_runtime \<Rightarrow> 'c object heap \<Rightarrow> ptr \<Rightarrow> bytes \<Rightarrow> bytes go" where
  "fastReflection_MsgUpdateParams_marshal R h x buf =
     (if x = None then Ret buf
      else go_bind (load T_MsgUpdateParams h x) (\<lambda>m. go_bind (optSize R
          (fastReflection_MsgUpdateParams_size R h x)) (\<lambda>sz.
        go_bind (put sz (upd_unknownFields m) []) (\<lambda>out.
        go_bind (put_message R sz 0x12 (upd_Params m)
          (optMarshal R (fastReflection_Params_marshal R h (upd_Params m) [])) out) (\<lambda>out.
        go_bind (put_bytes R sz 0xa (string_bytes (upd_Authority m)) out) (\<lambda>out.
        finish sz buf out))))))"

definition fastReflection_MsgUpdateParams_case_authority ::
    "ptr \<Rightarrow> 'c object heap \<Rightarrow> nat \<Rightarrow> 'c object heap field_action" where
  "fastReflection_MsgUpdateParams_case_authority x h wireType =
     (if wireType \<noteq> 2 then FieldWrongType ''Authority''
      else FieldPayload (\<lambda>bz. Some (update T_MsgUpdateParams h x (\<lambda>m. m\<lparr>upd_Authority := bytes_string
          bz\<rparr>))))"

definition fastReflection_MsgUpdateParams_case_params ::
    "'c pulsar_runtime \<Rightarrow> bool \<Rightarrow> ptr \<Rightarrow> 'c object heap \<Rightarrow> nat \<Rightarrow> 'c object heap field_action" where
  "fastReflection_MsgUpdateParams_case_params R discard x h wireType =
     (if wireType \<noteq> 2 then FieldWrongType ''Params''
      else FieldPayload (\<lambda>bz. go_run
          (ensure_message T_MsgUpdateParams upd_Params (\<lambda>p m. m\<lparr>upd_Params := p\<rparr>) T_Params
              zero_Params h x)
          (\<lambda>(p, h'). optUnmarshal R (fastReflection_Params_unmarshal R discard h' p bz))))"

definition fastReflection_MsgUpdateParams_fields ::
    "'c pulsar_runtime \<Rightarrow> bool \<Rightarrow> ptr \<Rightarrow> 'c object heap \<Rightarrow> u32 \<Rightarrow> nat \<Rightarrow> 'c object heap field_action" where
  "fastReflection_MsgUpdateParams_fields R discard x h fieldNum wireType =
     (if fieldNum = 1 then fastReflection_MsgUpdateParams_case_authority x h wireType
      else if fieldNum = 2 then fastReflection_MsgUpdateParams_case_params R discard x h wireType
      else FieldUnknown)"

definition fastReflection_MsgUpdateParams_keep ::
    "bool \<Rightarrow> ptr \<Rightarrow> 'c object heap \<Rightarrow> bytes \<Rightarrow> 'c object heap go" where
  "fastReflection_MsgUpdateParams_keep discard x h raw =
     (if \<not> discard
      then update T_MsgUpdateParams h x (\<lambda>m. m\<lparr>upd_unknownFields := upd_unknownFields m @ raw\<rparr>)
      else Ret h)"

definition fastReflection_MsgUpdateParams_unmarshal ::
    "'c pulsar_runtime \<Rightarrow> bool \<Rightarrow> 'c object heap \<Rightarrow> ptr \<Rightarrow> bytes \<Rightarrow> 'c object heap go option" where
  "fastReflection_MsgUpdateParams_unmarshal R discard h x buf =
     (if x = None then Some (Ret h)
      else unmarshal_fields R ''MsgUpdateParams'' (fastReflection_MsgUpdateParams_fields R discard x)
          (fastReflection_MsgUpdateParams_keep discard x) h buf)"

subsection \<open>MsgUpdateParamsResponse\<close>

definition fastReflection_MsgUpdateParamsResponse_size ::
    "'c pulsar_runtime \<Rightarrow> 'c object heap \<Rightarrow> ptr \<Rightarrow> nat go" where
  "fastReflection_MsgUpdateParamsResponse_size R h x =
     (if x = None then Ret 0
      else go_bind (load T_MsgUpdateParamsResponse h x) (\<lambda>m.
        Ret (length (updresp_unknownFields m))))"

definition fastReflection_MsgUpdateParamsResponse_marshal ::
    "'c pulsar_runtime \<Rightarrow> 'c object heap \<Rightarrow> ptr \<Rightarrow> bytes \<Rightarrow> bytes go" where
  "fastReflection_MsgUpdateParamsResponse_marshal R h x buf =
     (if x = None then Ret buf
      else go_bind (load T_MsgUpdateParamsResponse h x) (\<lambda>m. go_bind (optSize R
          (fastReflection_MsgUpdateParamsResponse_size R h x)) (\<lambda>sz.
        go_bind (put sz (updresp_unknownFields m) []) (\<lambda>out.
        finish sz buf out))))"

definition fastReflection_MsgUpdateParamsResponse_fields ::
    "ptr \<Rightarrow> 'c object heap \<Rightarrow> u32 \<Rightarrow> nat \<Rightarrow> 'c object heap field_action" where
  "fastReflection_MsgUpdateParamsResponse_fields x h fieldNum wireType = FieldUnknown"

definition fastReflection_MsgUpdateParamsResponse_keep ::
    "bool \<Rightarrow> ptr \<Rightarrow> 'c object heap \<Rightarrow> bytes \<Rightarrow> 'c object heap go" where
  "fastReflection_MsgUpdateParamsResponse_keep discard x h raw =
     (if \<not> discard
      then update T_MsgUpdateParamsResponse h x (\<lambda>m. m\<lparr>updresp_unknownFields := updresp_unknownFields
          m @ raw\<rparr>)
      else Ret h)"

definition fastReflection_MsgUpdateParamsResponse_unmarshal ::
    "'c pulsar_runtime \<Rightarrow> bool \<Rightarrow> 'c object heap \<Rightarrow> ptr \<Rightarrow> bytes \<Rightarrow> 'c object heap go option" where
  "fastReflection_MsgUpdateParamsResponse_unmarshal R discard h x buf =
     (if x = None then Some (Ret h)
      else unmarshal_fields R ''MsgUpdateParamsResponse''
          (fastReflection_MsgUpdateParamsResponse_fields x)
          (fastReflection_MsgUpdateParamsResponse_keep discard x) h buf)"

subsection \<open>QueryParamsRequest\<close>

definition fastReflection_QueryParamsRequest_size ::
    "'c pulsar_runtime \<Rightarrow> 'c object heap \<Rightarrow> ptr \<Rightarrow> nat go" where
  "fastReflection_QueryParamsRequest_size R h x =
     (if x = None then Ret 0
      else go_bind (load T_QueryParamsRequest h x) (\<lambda>m.
        Ret (length (qreq_unknownFields m))))"

definition fastReflection_QueryParamsRequest_marshal ::
    "'c pulsar_runtime \<Rightarrow> 'c object heap \<Rightarrow> ptr \<Rightarrow> bytes \<Rightarrow> bytes go" where
  "fastReflection_QueryParamsRequest_marshal R h x buf =
     (if x = None then Ret buf
      else go_bind (load T_QueryParamsRequest h x) (\<lambda>m. go_bind (optSize R
          (fastReflection_QueryParamsRequest_size R h x)) (\<lambda>sz.
        go_bind (put sz (qreq_unknownFields m) []) (\<lambda>out.
        finish sz buf out))))"

definition fastReflection_QueryParamsRequest_fields ::
    "ptr \<Rightarrow> 'c object heap \<Rightarrow> u32 \<Rightarrow> nat \<Rightarrow> 'c object heap field_action" where
  "fastReflection_QueryParamsRequest_fields x h fieldNum wireType = FieldUnknown"

definition fastReflection_QueryParamsRequest_keep ::
    "bool \<Rightarrow> ptr \<Rightarrow> 'c object heap \<Rightarrow> bytes \<Rightarrow> 'c object heap go" where
  "fastReflection_QueryParamsRequest_keep discard x h raw =
     (if \<not> discard
      then update T_QueryParamsRequest h x (\<lambda>m. m\<lparr>qreq_unknownFields := qreq_unknownFields m @ raw\<rparr>)
      else Ret h)"

definition fastReflection_QueryParamsRequest_unmarshal ::
    "'c pulsar_runtime \<Rightarrow> bool \<Rightarrow> 'c object heap \<Rightarrow> ptr \<Rightarrow> bytes \<Rightarrow> 'c object heap go option" where
  "fastReflection_QueryParamsRequest_unmarshal R discard h x buf =
     (if x = None then Some (Ret h)
      else unmarshal_fields R ''QueryParamsRequest'' (fastReflection_QueryParamsRequest_fields x)
          (fastReflection_QueryParamsRequest_keep discard x) h buf)"

subsection \<open>QueryParamsResponse\<close>

definition fastReflection_QueryParamsResponse_size ::
    "'c pulsar_runtime \<Rightarrow> 'c object heap \<Rightarrow> ptr \<Rightarrow> nat go" where
  "fastReflection_QueryParamsResponse_size R h x =
     (if x = None then Ret 0
      else go_bind (load T_QueryParamsResponse h x) (\<lambda>m.
        go_bind (size_message R (qresp_Params m)
          (optSize R (fastReflection_Params_size R h (qresp_Params m)))) (\<lambda>l1.
        Ret (l1 + length (qresp_unknownFields m)))))"

definition fastReflection_QueryParamsResponse_marshal ::
    "'c pulsar_runtime \<Rightarrow> 'c object heap \<Rightarrow> ptr \<Rightarrow> bytes \<Rightarrow> bytes go" where
  "fastReflection_QueryParamsResponse_marshal R h x buf =
     (if x = None then Ret buf
      else go_bind (load T_QueryParamsResponse h x) (\<lambda>m. go_bind (optSize R
          (fastReflection_QueryParamsResponse_size R h x)) (\<lambda>sz.
        go_bind (put sz (qresp_unknownFields m) []) (\<lambda>out.
        go_bind (put_message R sz 0xa (qresp_Params m)
          (optMarshal R (fastReflection_Params_marshal R h (qresp_Params m) [])) out) (\<lambda>out.
        finish sz buf out)))))"

definition fastReflection_QueryParamsResponse_case_params ::
    "'c pulsar_runtime \<Rightarrow> bool \<Rightarrow> ptr \<Rightarrow> 'c object heap \<Rightarrow> nat \<Rightarrow> 'c object heap field_action" where
  "fastReflection_QueryParamsResponse_case_params R discard x h wireType =
     (if wireType \<noteq> 2 then FieldWrongType ''Params''
      else FieldPayload (\<lambda>bz. go_run
          (ensure_message T_QueryParamsResponse qresp_Params (\<lambda>p m. m\<lparr>qresp_Params := p\<rparr>) T_Params
              zero_Params h x)
          (\<lambda>(p, h'). optUnmarshal R (fastReflection_Params_unmarshal R discard h' p bz))))"

definition fastReflection_QueryParamsResponse_fields ::
    "'c pulsar_runtime \<Rightarrow> bool \<Rightarrow> ptr \<Rightarrow> 'c object heap \<Rightarrow> u32 \<Rightarrow> nat \<Rightarrow> 'c object heap field_action" where
  "fastReflection_QueryParamsResponse_fields R discard x h fieldNum wireType =
     (if fieldNum = 1 then fastReflection_QueryParamsResponse_case_params R discard x h wireType
      else FieldUnknown)"

definition fastReflection_QueryParamsResponse_keep ::
    "bool \<Rightarrow> ptr \<Rightarrow> 'c object heap \<Rightarrow> bytes \<Rightarrow> 'c object heap go" where
  "fastReflection_QueryParamsResponse_keep discard x h raw =
     (if \<not> discard
      then update T_QueryParamsResponse h x (\<lambda>m. m\<lparr>qresp_unknownFields := qresp_unknownFields m @ raw\<rparr>)
      else Ret h)"

definition fastReflection_QueryParamsResponse_unmarshal ::
    "'c pulsar_runtime \<Rightarrow> bool \<Rightarrow> 'c object heap \<Rightarrow> ptr \<Rightarrow> bytes \<Rightarrow> 'c object heap go option" where
  "fastReflection_QueryParamsResponse_unmarshal R discard h x buf =
     (if x = None then Some (Ret h)
      else unmarshal_fields R ''QueryParamsResponse'' (fastReflection_QueryParamsResponse_fields R
          discard x) (fastReflection_QueryParamsResponse_keep discard x) h buf)"

subsection \<open>Module\<close>

definition fastReflection_Module_size ::
    "'c pulsar_runtime \<Rightarrow> 'c object heap \<Rightarrow> ptr \<Rightarrow> nat go" where
  "fastReflection_Module_size R h x =
     (if x = None then Ret 0
      else go_bind (load T_Module h x) (\<lambda>m.
        Ret (size_bytes R (string_bytes (mod_Authority m)) + length (mod_unknownFields m))))"

definition fastReflection_Module_marshal ::
    "'c pulsar_runtime \<Rightarrow> 'c object heap \<Rightarrow> ptr \<Rightarrow> bytes \<Rightarrow> bytes go" where
  "fastReflection_Module_marshal R h x buf =
     (if x = None then Ret buf
      else go_bind (load T_Module h x) (\<lambda>m. go_bind (optSize R (fastReflection_Module_size R h x)) (\<lambda>sz.
        go_bind (put sz (mod_unknownFields m) []) (\<lambda>out.
        go_bind (put_bytes R sz 0xa (string_bytes (mod_Authority m)) out) (\<lambda>out.
        finish sz buf out)))))"

definition fastReflection_Module_case_authority ::
    "ptr \<Rightarrow> 'c object heap \<Rightarrow> nat \<Rightarrow> 'c object heap field_action" where
  "fastReflection_Module_case_authority x h wireType =
     (if wireType \<noteq> 2 then FieldWrongType ''Authority''
      else FieldPayload (\<lambda>bz. Some (update T_Module h x (\<lambda>m. m\<lparr>mod_Authority := bytes_string bz\<rparr>))))"

definition fastReflection_Module_fields ::
    "ptr \<Rightarrow> 'c object heap \<Rightarrow> u32 \<Rightarrow> nat \<Rightarrow> 'c object heap field_action" where
  "fastReflection_Module_fields x h fieldNum wireType =
     (if fieldNum = 1 then fastReflection_Module_case_authority x h wireType
      else FieldUnknown)"

definition fastReflection_Module_keep ::
    "bool \<Rightarrow> ptr \<Rightarrow> 'c object heap \<Rightarrow> bytes \<Rightarrow> 'c object heap go" where
  "fastReflection_Module_keep discard x h raw =
     (if \<not> discard
      then update T_Module h x (\<lambda>m. m\<lparr>mod_unknownFields := mod_unknownFields m @ raw\<rparr>)
      else Ret h)"

definition fastReflection_Module_unmarshal ::
    "'c pulsar_runtime \<Rightarrow> bool \<Rightarrow> 'c object heap \<Rightarrow> ptr \<Rightarrow> bytes \<Rightarrow> 'c object heap go option" where
  "fastReflection_Module_unmarshal R discard h x buf =
     (if x = None then Some (Ret h)
      else unmarshal_fields R ''Module'' (fastReflection_Module_fields x) (fastReflection_Module_keep
          discard x) h buf)"


end
