(* ===== verification/Msg_Codec.thy ===== *)
theory Msg_Codec
  imports Auction_Params
begin

text \<open>
  The wire format of the messages and the query of the auction module (\<open>x/auction/types/tx.pb.go\<close>
  and \<open>query.pb.go\<close>). A transaction carries a bid as the bytes of \<open>MsgAuctionBid\<close>, whose bundle is a
  repeated field. The codec of \<open>sdk.Coin\<close> is a parameter, as in \<open>Auction_Params\<close>. The lemmas are the
  round trips: what one node writes, another one reads back unchanged, in as many bytes as announced.
\<close>

section \<open>Strings\<close>

definition string_field :: "8 word \<Rightarrow> string \<Rightarrow> bytes" where
  "string_field tag s = (if 0 < length s then tag # length_prefixed (string_bytes s) else [])"

definition string_field_size :: "string \<Rightarrow> nat" where
  "string_field_size s = (if 0 < length s then field_size (length s) else 0)"

lemma length_string_field: "length (string_field tag s) = string_field_size s"
  using length_prefixed_size [of "string_bytes s"] by (simp add: string_field_def string_field_size_def)

lemma resume_string_field:
  assumes "suffix (string_field (ucast v) s @ rest) dAtA" and "length dAtA < 2 ^ 63"
    and "v < 128" and "8 \<le> v" and "v AND 7 \<noteq> (4 :: u64)"
    and "dispatch m (ucast (drop_bit 3 v)) (unat (v AND 7)) = ReadPayload (\<lambda>bz. Ret (f (bytes_string bz)))"
    and "s = [] \<Longrightarrow> f [] = m"
  shows "resume name dispatch dAtA m (string_field (ucast v) s @ rest) = resume name dispatch dAtA (f s) rest"
  using assms resume_payload [of v "string_bytes s" rest dAtA dispatch m, where name = name and m' = "f s"]
  by (cases "s = []") (simp_all add: string_field_def)

section \<open>MsgAuctionBid\<close>

definition zero_bid :: MsgAuctionBidData where
  "zero_bid = \<lparr> MsgBidder = [], MsgBid = zero_coin, MsgTransactions = [] \<rparr>"

definition MsgAuctionBid_Size :: "wire_ops \<Rightarrow> MsgAuctionBidData \<Rightarrow> nat" where
  "MsgAuctionBid_Size W m =
     string_field_size (MsgBidder m) + field_size (coinSize W (MsgBid m)) +
     (\<Sum>b\<leftarrow>MsgTransactions m. field_size (length b))"

text \<open>The transactions are written from the last to the first.\<close>

definition MsgAuctionBid_MarshalToSizedBuffer :: "wire_ops \<Rightarrow> MsgAuctionBidData \<Rightarrow> bytes go" where
  "MsgAuctionBid_MarshalToSizedBuffer W m =
     (let out = foldr (\<lambda>b out. 0x1a # length_prefixed b @ out) (MsgTransactions m) [] in
      go_bind (coinMarshal W (MsgBid m)) (\<lambda>c.
        let out = 0x12 # length_prefixed c @ out in
        Ret (string_field 0xa (MsgBidder m) @ out)))"

definition MsgAuctionBid_Marshal :: "wire_ops \<Rightarrow> MsgAuctionBidData \<Rightarrow> bytes go" where
  "MsgAuctionBid_Marshal W m = marshal_sized (MsgAuctionBid_Size W m) (MsgAuctionBid_MarshalToSizedBuffer W m)"

definition MsgAuctionBid_fields :: "wire_ops \<Rightarrow> MsgAuctionBidData \<Rightarrow> u32 \<Rightarrow> nat \<Rightarrow> MsgAuctionBidData action" where
  "MsgAuctionBid_fields W m fieldNum wireType =
     (if fieldNum = 1 then
        (if wireType \<noteq> 2 then WrongWireType ''Bidder''
         else ReadPayload (\<lambda>bz. Ret (m\<lparr>MsgBidder := bytes_string bz\<rparr>)))
      else if fieldNum = 2 then
        (if wireType \<noteq> 2 then WrongWireType ''Bid''
         else ReadPayload (\<lambda>bz. go_bind (coinUnmarshal W (MsgBid m) bz) (\<lambda>c. Ret (m\<lparr>MsgBid := c\<rparr>))))
      else if fieldNum = 3 then
        (if wireType \<noteq> 2 then WrongWireType ''Transactions''
         else ReadPayload (\<lambda>bz. Ret (m\<lparr>MsgTransactions := MsgTransactions m @ [bz]\<rparr>)))
      else SkipUnknown)"

definition MsgAuctionBid_Unmarshal :: "wire_ops \<Rightarrow> MsgAuctionBidData \<Rightarrow> bytes \<Rightarrow> MsgAuctionBidData go" where
  "MsgAuctionBid_Unmarshal W = unmarshal ''MsgAuctionBid'' (MsgAuctionBid_fields W)"

lemma resume_MsgAuctionBid_txs:
  assumes "length dAtA < 2 ^ 63"
  shows "suffix (foldr (\<lambda>b out. 0x1a # length_prefixed b @ out) txs []) dAtA \<Longrightarrow>
    resume nm (MsgAuctionBid_fields W) dAtA m (foldr (\<lambda>b out. 0x1a # length_prefixed b @ out) txs []) =
    Ret (m\<lparr>MsgTransactions := MsgTransactions m @ txs\<rparr>)"
proof (induction txs arbitrary: m)
  case (Cons b txs)
  let ?out = "foldr (\<lambda>b out. 0x1a # length_prefixed b @ out) txs []"
  have suf: "suffix (ucast (0x1a :: u64) # length_prefixed b @ ?out) dAtA" using Cons.prems by simp
  have "resume nm (MsgAuctionBid_fields W) dAtA m (ucast (0x1a :: u64) # length_prefixed b @ ?out) =
      resume nm (MsgAuctionBid_fields W) dAtA (m\<lparr>MsgTransactions := MsgTransactions m @ [b]\<rparr>) ?out"
    by (rule resume_payload [OF suf assms]) (simp_all add: MsgAuctionBid_fields_def)
  then show ?case using Cons.IH [OF suffix_appendD [OF suffix_ConsD [OF suf]]] by simp
qed simp

lemma length_bundle_fields:
  "length (foldr (\<lambda>b out. 0x1a # length_prefixed b @ out) txs []) = (\<Sum>b\<leftarrow>txs. field_size (length b))"
proof (induction txs)
  case (Cons b txs)
  then show ?case using length_prefixed_size [of b] by simp
qed simp

text \<open>What is written is read back, in as many bytes as announced.\<close>

lemma MsgAuctionBid_roundtrip:
  assumes "wire_laws W" and "Amount (MsgBid m) = Some a" and "\<bar>a\<bar> < 2 ^ 255"
    and "MsgAuctionBid_Size W m < 2 ^ 63"
  shows "\<exists>bz. MsgAuctionBid_Marshal W m = Ret bz \<and> length bz = MsgAuctionBid_Size W m \<and>
    MsgAuctionBid_Unmarshal W zero_bid bz = Ret m"
proof -
  obtain c where c: "coinMarshal W (MsgBid m) = Ret c" "length c = coinSize W (MsgBid m)"
      "coinUnmarshal W zero_coin c = Ret (MsgBid m)"
    using wire_lawsD(1) [OF assms(1,3,2)] by blast
  define t2 where "t2 = foldr (\<lambda>b out. 0x1a # length_prefixed b @ out) (MsgTransactions m) []"
  define t1 where "t1 = 0x12 # length_prefixed c @ t2"
  define bz where "bz = string_field 0xa (MsgBidder m) @ t1"
  have enc: "MsgAuctionBid_MarshalToSizedBuffer W m = Ret bz"
    using c(1) by (simp add: MsgAuctionBid_MarshalToSizedBuffer_def bz_def t1_def t2_def)
  have len: "length bz = MsgAuctionBid_Size W m"
    using c(2) length_prefixed_size [of c] length_bundle_fields [of "MsgTransactions m"]
    by (simp add: bz_def t1_def t2_def MsgAuctionBid_Size_def length_string_field)
  have short: "length bz < 2 ^ 63" using len assms(4) by simp
  let ?u = "resume ''MsgAuctionBid'' (MsgAuctionBid_fields W) bz"
  have s1: "suffix t1 bz" unfolding bz_def by (simp add: suffix_def)
  then have s2: "suffix t2 bz" unfolding t1_def by (rule suffix_appendD [OF suffix_ConsD])
  have e0: "?u zero_bid bz = ?u (zero_bid\<lparr>MsgBidder := MsgBidder m\<rparr>) t1"
    using resume_string_field [OF _ short, where v = "0xa" and s = "MsgBidder m" and rest = t1 and
        m = zero_bid and dispatch = "MsgAuctionBid_fields W" and name = "''MsgAuctionBid''"]
    by (simp add: bz_def MsgAuctionBid_fields_def zero_bid_def)
  have e1: "?u i t1 = ?u (i\<lparr>MsgBid := MsgBid m\<rparr>) t2" if "MsgBid i = zero_coin" for i
    using resume_payload [OF _ short, where v = "0x12" and bz = c and rest = t2 and m = i and
        dispatch = "MsgAuctionBid_fields W" and name = "''MsgAuctionBid''"] s1 c(3) that
    by (simp add: t1_def MsgAuctionBid_fields_def)
  have e2: "?u i t2 = Ret (i\<lparr>MsgTransactions := MsgTransactions i @ MsgTransactions m\<rparr>)" for i
    using resume_MsgAuctionBid_txs [OF short] s2 by (simp add: t2_def)
  have "MsgAuctionBid_Unmarshal W zero_bid bz = ?u zero_bid bz"
    by (simp add: MsgAuctionBid_Unmarshal_def unmarshal_def resume_def)
  also have "\<dots> = Ret m"
    by (simp only: e0) (subst e1, simp add: zero_bid_def, simp add: e2 zero_bid_def)
  finally show ?thesis using enc len by (simp add: MsgAuctionBid_Marshal_def marshal_sized_exact)
qed

lemma MsgAuctionBid_sample:
  "\<exists>bz. MsgAuctionBid_Marshal stroke_wire
       \<lparr> MsgBidder = ''ann'', MsgBid = coin_of ''stake'' 2, MsgTransactions = [[1, 2], [3]] \<rparr> = Ret bz \<and>
     length bz = MsgAuctionBid_Size stroke_wire
       \<lparr> MsgBidder = ''ann'', MsgBid = coin_of ''stake'' 2, MsgTransactions = [[1, 2], [3]] \<rparr> \<and>
     MsgAuctionBid_Unmarshal stroke_wire zero_bid bz =
       Ret \<lparr> MsgBidder = ''ann'', MsgBid = coin_of ''stake'' 2, MsgTransactions = [[1, 2], [3]] \<rparr>"
  by (rule MsgAuctionBid_roundtrip [OF stroke_wire_laws, where a = 2])
     (simp_all add: MsgAuctionBid_Size_def string_field_size_def field_size_def sov_small stroke_wire_def
       stroke_bytes_def)

section \<open>MsgUpdateParams\<close>

definition zero_update :: MsgUpdateParams where
  "zero_update = \<lparr> UpdAuthority = [], UpdParams = zero_params \<rparr>"

definition MsgUpdateParams_Size :: "wire_ops \<Rightarrow> MsgUpdateParams \<Rightarrow> nat" where
  "MsgUpdateParams_Size W m = string_field_size (UpdAuthority m) + field_size (Params_Size W (UpdParams m))"

definition MsgUpdateParams_MarshalToSizedBuffer :: "wire_ops \<Rightarrow> MsgUpdateParams \<Rightarrow> bytes go" where
  "MsgUpdateParams_MarshalToSizedBuffer W m =
     go_bind (Params_MarshalToSizedBuffer W (UpdParams m)) (\<lambda>p.
       let out = 0x12 # length_prefixed p in Ret (string_field 0xa (UpdAuthority m) @ out))"

definition MsgUpdateParams_Marshal :: "wire_ops \<Rightarrow> MsgUpdateParams \<Rightarrow> bytes go" where
  "MsgUpdateParams_Marshal W m =
     marshal_sized (MsgUpdateParams_Size W m) (MsgUpdateParams_MarshalToSizedBuffer W m)"

definition MsgUpdateParams_fields :: "wire_ops \<Rightarrow> MsgUpdateParams \<Rightarrow> u32 \<Rightarrow> nat \<Rightarrow> MsgUpdateParams action" where
  "MsgUpdateParams_fields W m fieldNum wireType =
     (if fieldNum = 1 then
        (if wireType \<noteq> 2 then WrongWireType ''Authority''
         else ReadPayload (\<lambda>bz. Ret (m\<lparr>UpdAuthority := bytes_string bz\<rparr>)))
      else if fieldNum = 2 then
        (if wireType \<noteq> 2 then WrongWireType ''Params''
         else ReadPayload (\<lambda>bz. go_bind (Params_Unmarshal W (UpdParams m) bz) (\<lambda>p. Ret (m\<lparr>UpdParams := p\<rparr>))))
      else SkipUnknown)"

definition MsgUpdateParams_Unmarshal :: "wire_ops \<Rightarrow> MsgUpdateParams \<Rightarrow> bytes \<Rightarrow> MsgUpdateParams go" where
  "MsgUpdateParams_Unmarshal W = unmarshal ''MsgUpdateParams'' (MsgUpdateParams_fields W)"

lemma MsgUpdateParams_roundtrip:
  assumes "wire_laws W" and "storable (UpdParams m)" and "MsgUpdateParams_Size W m < 2 ^ 63"
  shows "\<exists>bz. MsgUpdateParams_Marshal W m = Ret bz \<and> length bz = MsgUpdateParams_Size W m \<and>
    MsgUpdateParams_Unmarshal W zero_update bz = Ret m"
proof -
  have sz: "Params_Size W (UpdParams m) < 2 ^ 63"
    using assms(3) by (simp add: MsgUpdateParams_Size_def field_size_def)
  obtain p where body: "Params_MarshalToSizedBuffer W (UpdParams m) = Ret p"
    and p: "length p = Params_Size W (UpdParams m)" "Params_Unmarshal W zero_params p = Ret (UpdParams m)"
    by (rule Params_body [OF assms(1,2) sz])
  define t1 where "t1 = 0x12 # length_prefixed p @ []"
  define bz where "bz = string_field 0xa (UpdAuthority m) @ t1"
  have len: "length bz = MsgUpdateParams_Size W m"
    using p(1) length_prefixed_size [of p]
    by (simp add: bz_def t1_def MsgUpdateParams_Size_def length_string_field)
  have short: "length bz < 2 ^ 63" using len assms(3) by simp
  let ?u = "resume ''MsgUpdateParams'' (MsgUpdateParams_fields W) bz"
  have s1: "suffix t1 bz" unfolding bz_def by (simp add: suffix_def)
  have e0: "?u zero_update bz = ?u (zero_update\<lparr>UpdAuthority := UpdAuthority m\<rparr>) t1"
    using resume_string_field [OF _ short, where v = "0xa" and s = "UpdAuthority m" and rest = t1 and
        m = zero_update and dispatch = "MsgUpdateParams_fields W" and name = "''MsgUpdateParams''"]
    by (simp add: bz_def MsgUpdateParams_fields_def zero_update_def)
  have e1: "?u i t1 = Ret (i\<lparr>UpdParams := UpdParams m\<rparr>)" if "UpdParams i = zero_params" for i
    using resume_payload [OF _ short, where v = "0x12" and bz = p and rest = "[]" and m = i and
        dispatch = "MsgUpdateParams_fields W" and name = "''MsgUpdateParams''"] s1 p(2) that
    by (simp add: t1_def MsgUpdateParams_fields_def)
  have "MsgUpdateParams_Unmarshal W zero_update bz = ?u zero_update bz"
    by (simp add: MsgUpdateParams_Unmarshal_def unmarshal_def resume_def)
  also have "\<dots> = Ret m" by (simp only: e0) (simp add: e1 zero_update_def)
  finally show ?thesis using body len
    by (simp add: MsgUpdateParams_Marshal_def MsgUpdateParams_MarshalToSizedBuffer_def marshal_sized_exact
      bz_def t1_def)
qed

section \<open>The query of the parameters\<close>

definition zero_response :: QueryParamsResponse where
  "zero_response = \<lparr> RespParams = zero_params, EscrowAddressString = [] \<rparr>"

definition QueryParamsResponse_Size :: "wire_ops \<Rightarrow> QueryParamsResponse \<Rightarrow> nat" where
  "QueryParamsResponse_Size W m =
     field_size (Params_Size W (RespParams m)) + string_field_size (EscrowAddressString m)"

definition QueryParamsResponse_MarshalToSizedBuffer :: "wire_ops \<Rightarrow> QueryParamsResponse \<Rightarrow> bytes go" where
  "QueryParamsResponse_MarshalToSizedBuffer W m =
     (let out = string_field 0x12 (EscrowAddressString m) in
      go_bind (Params_MarshalToSizedBuffer W (RespParams m)) (\<lambda>p. Ret (0xa # length_prefixed p @ out)))"

definition QueryParamsResponse_Marshal :: "wire_ops \<Rightarrow> QueryParamsResponse \<Rightarrow> bytes go" where
  "QueryParamsResponse_Marshal W m =
     marshal_sized (QueryParamsResponse_Size W m) (QueryParamsResponse_MarshalToSizedBuffer W m)"

definition QueryParamsResponse_fields ::
    "wire_ops \<Rightarrow> QueryParamsResponse \<Rightarrow> u32 \<Rightarrow> nat \<Rightarrow> QueryParamsResponse action" where
  "QueryParamsResponse_fields W m fieldNum wireType =
     (if fieldNum = 1 then
        (if wireType \<noteq> 2 then WrongWireType ''Params''
         else ReadPayload (\<lambda>bz. go_bind (Params_Unmarshal W (RespParams m) bz) (\<lambda>p. Ret (m\<lparr>RespParams := p\<rparr>))))
      else if fieldNum = 2 then
        (if wireType \<noteq> 2 then WrongWireType ''EscrowAddressString''
         else ReadPayload (\<lambda>bz. Ret (m\<lparr>EscrowAddressString := bytes_string bz\<rparr>)))
      else SkipUnknown)"

definition QueryParamsResponse_Unmarshal :: "wire_ops \<Rightarrow> QueryParamsResponse \<Rightarrow> bytes \<Rightarrow> QueryParamsResponse go" where
  "QueryParamsResponse_Unmarshal W = unmarshal ''QueryParamsResponse'' (QueryParamsResponse_fields W)"

lemma QueryParamsResponse_roundtrip:
  assumes "wire_laws W" and "storable (RespParams m)" and "QueryParamsResponse_Size W m < 2 ^ 63"
  shows "\<exists>bz. QueryParamsResponse_Marshal W m = Ret bz \<and> length bz = QueryParamsResponse_Size W m \<and>
    QueryParamsResponse_Unmarshal W zero_response bz = Ret m"
proof -
  have sz: "Params_Size W (RespParams m) < 2 ^ 63"
    using assms(3) by (simp add: QueryParamsResponse_Size_def field_size_def)
  obtain p where body: "Params_MarshalToSizedBuffer W (RespParams m) = Ret p"
    and p: "length p = Params_Size W (RespParams m)" "Params_Unmarshal W zero_params p = Ret (RespParams m)"
    by (rule Params_body [OF assms(1,2) sz])
  define t1 where "t1 = string_field 0x12 (EscrowAddressString m) @ []"
  define bz where "bz = 0xa # length_prefixed p @ t1"
  have len: "length bz = QueryParamsResponse_Size W m"
    using p(1) length_prefixed_size [of p]
    by (simp add: bz_def t1_def QueryParamsResponse_Size_def length_string_field)
  have short: "length bz < 2 ^ 63" using len assms(3) by simp
  let ?u = "resume ''QueryParamsResponse'' (QueryParamsResponse_fields W) bz"
  have s1: "suffix t1 bz" unfolding bz_def by (rule suffix_ConsI) (simp add: suffix_def)
  have e0: "?u zero_response bz = ?u (zero_response\<lparr>RespParams := RespParams m\<rparr>) t1"
    using resume_payload [OF _ short, where v = "0xa" and bz = p and rest = t1 and m = zero_response and
        dispatch = "QueryParamsResponse_fields W" and name = "''QueryParamsResponse''"] p(2)
    by (simp add: bz_def QueryParamsResponse_fields_def zero_response_def)
  have e1: "?u i t1 = Ret (i\<lparr>EscrowAddressString := EscrowAddressString m\<rparr>)" if "EscrowAddressString i = []" for i
    using resume_string_field [OF _ short, where v = "0x12" and s = "EscrowAddressString m" and rest = "[]" and
        m = i and dispatch = "QueryParamsResponse_fields W" and name = "''QueryParamsResponse''" and
        f = "\<lambda>s. i\<lparr>EscrowAddressString := s\<rparr>"] s1 that
    by (cases i) (simp add: t1_def QueryParamsResponse_fields_def)
  have "QueryParamsResponse_Unmarshal W zero_response bz = ?u zero_response bz"
    by (simp add: QueryParamsResponse_Unmarshal_def unmarshal_def resume_def)
  also have "\<dots> = Ret m" by (simp only: e0) (simp add: e1 zero_response_def)
  finally show ?thesis using body len
    by (simp add: QueryParamsResponse_Marshal_def QueryParamsResponse_MarshalToSizedBuffer_def
      marshal_sized_exact bz_def t1_def)
qed

section \<open>Messages without fields\<close>

text \<open>
  \<open>MsgAuctionBidResponse\<close>, \<open>MsgUpdateParamsResponse\<close>, \<open>QueryParamsRequest\<close> (and, in another package,
  \<open>GetTxDistributionRequest\<close>) have no fields: nothing is written, and every field read is skipped.
\<close>

definition no_fields :: "unit \<Rightarrow> u32 \<Rightarrow> nat \<Rightarrow> unit action" where
  "no_fields m fieldNum wireType = SkipUnknown"

definition MsgAuctionBidResponse_Marshal :: "bytes go" where
  "MsgAuctionBidResponse_Marshal = marshal_sized 0 (Ret [])"

definition MsgAuctionBidResponse_Unmarshal :: "bytes \<Rightarrow> unit go" where
  "MsgAuctionBidResponse_Unmarshal = unmarshal ''MsgAuctionBidResponse'' no_fields ()"

definition MsgUpdateParamsResponse_Unmarshal :: "bytes \<Rightarrow> unit go" where
  "MsgUpdateParamsResponse_Unmarshal = unmarshal ''MsgUpdateParamsResponse'' no_fields ()"

definition QueryParamsRequest_Unmarshal :: "bytes \<Rightarrow> unit go" where
  "QueryParamsRequest_Unmarshal = unmarshal ''QueryParamsRequest'' no_fields ()"

definition GetTxDistributionRequest_Unmarshal :: "bytes \<Rightarrow> unit go" where
  "GetTxDistributionRequest_Unmarshal = unmarshal ''GetTxDistributionRequest'' no_fields ()"

text \<open>A field that a later version of a message might add is skipped by this one.\<close>

lemma resume_unknown_varint:
  assumes "suffix (ucast v # encode_varint x @ rest) dAtA" and "length dAtA < 2 ^ 63"
    and "v < 128" and "8 \<le> v" and "v AND 7 = (0 :: u64)"
    and "dispatch m (ucast (drop_bit 3 v)) 0 = SkipUnknown"
  shows "resume name dispatch dAtA m (ucast v # encode_varint x @ rest) = resume name dispatch dAtA m rest"
proof (rule resume_step [OF assms(1,3,4)])
  let ?field = "ucast v # encode_varint x @ rest"
  let ?i = "length dAtA - length ?field"
  let ?f = "drop ?i dAtA"
  have le: "length ?field \<le> length dAtA" using suffix_length_le [OF assms(1)] .
  have f: "?f = ?field" by (rule suffix_drop [OF assms(1)])
  then have at: "drop 0 ?f = ucast v # encode_varint x @ rest" by simp
  note tag = read_tag [OF at assms(3)]
  have "read_varint ?f (Suc 0) = Ret (x, Suc (length (encode_varint x)))"
    using read_encoded_varint [OF tag(3), where 'a = 64] tag(2) by simp
  then have step: "skip_step ?f 0 0 = Ret (Suc (length (encode_varint x)), 0)"
    using tag(1) assms(5) by (simp add: skip_step_def)
  have "Suc (length (encode_varint x)) \<le> length ?field" by simp
  also have "\<dots> \<le> length dAtA" by (rule le)
  finally have small: "\<not> 2 ^ 63 \<le> Suc (length (encode_varint x))" using assms(2) by simp
  have "skip_field ?f = Ret (Suc (length (encode_varint x)))"
    unfolding skip_field_def using step small tag(2) by (subst skip_loop.simps) simp
  moreover have "?i + Suc (length (encode_varint x)) = length dAtA - length rest" using le by simp
  ultimately have "skip_unknown dAtA ?i = Ret (length dAtA - length rest)"
    unfolding skip_unknown_def using assms(2) by (simp only: go_bind.simps) simp
  then show "run_action (dispatch m (ucast (drop_bit 3 v)) (unat (v AND 7))) dAtA
      (length dAtA - length ?field) (length dAtA - length (encode_varint x @ rest)) m =
      Ret (m, length dAtA - length rest)"
    using assms(5,6) by simp
qed (use assms(5) in simp)

lemma empty_messages_roundtrip:
  "go_bind MsgAuctionBidResponse_Marshal MsgAuctionBidResponse_Unmarshal = Ret ()"
  by (simp add: MsgAuctionBidResponse_Marshal_def MsgAuctionBidResponse_Unmarshal_def marshal_sized_def
    unmarshal_def unmarshal_loop.simps)

lemma empty_messages_skip_new_field:
  assumes "Suc (length (encode_varint x)) < 2 ^ 63"
  shows "MsgUpdateParamsResponse_Unmarshal (0x8 # encode_varint x) = Ret ()"
    and "QueryParamsRequest_Unmarshal (0x8 # encode_varint x) = Ret ()"
    and "GetTxDistributionRequest_Unmarshal (0x8 # encode_varint x) = Ret ()"
proof -
  let ?d = "0x8 # encode_varint x"
  have "resume nm no_fields ?d () (ucast (0x8 :: u64) # encode_varint x @ []) = resume nm no_fields ?d () []" for nm
    by (rule resume_unknown_varint) (use assms in \<open>simp_all add: no_fields_def\<close>)
  then have "resume nm no_fields ?d () ?d = Ret ()" for nm by (simp only: resume_done) simp
  then have "unmarshal nm no_fields () ?d = Ret ()" for nm by (simp add: resume_def unmarshal_def)
  then show "MsgUpdateParamsResponse_Unmarshal (0x8 # encode_varint x) = Ret ()"
    "QueryParamsRequest_Unmarshal (0x8 # encode_varint x) = Ret ()"
    "GetTxDistributionRequest_Unmarshal (0x8 # encode_varint x) = Ret ()"
    by (simp_all add: MsgUpdateParamsResponse_Unmarshal_def QueryParamsRequest_Unmarshal_def
      GetTxDistributionRequest_Unmarshal_def)
qed

end
