(* ===== verification/Pulsar_Wire.thy ===== *)
theory Pulsar_Wire
  imports Pulsar_Codec Msg_Codec
begin

text \<open>
  What the fast path of the pulsar API writes and reads. The first section shows that every \<open>Unmarshal\<close>
  returns. The next ones give the bytes that \<open>Marshal\<close> writes, field by field, and what \<open>Unmarshal\<close> makes of
  such bytes in the heap. On them rest the agreement with the gogoproto code of \<open>x/auction/types\<close>, which
  writes the same bytes, the round trip of parameters, and that a field added to a message later, such as
  the escrow address of the query's response, passes through the older API unharmed.
\<close>

section \<open>Unmarshal returns\<close>

lemma Params_unmarshal_returns:
  assumes "runtime_laws R"
  shows "\<exists>r. fastReflection_Params_unmarshal R discard h x buf = Some r"
proof (cases "x = None")
  case False
  have "\<exists>r. g bz = Some r"
    if "fastReflection_Params_fields R discard x h f w = FieldPayload g" for h f w g bz
    using that
    by (auto simp: fastReflection_Params_fields_def fastReflection_Params_case_max_bundle_size_def
        fastReflection_Params_case_escrow_account_address_def fastReflection_Params_case_reserve_fee_def
        fastReflection_Params_case_min_bid_increment_def fastReflection_Params_case_proposer_fee_def
        fastReflection_Params_case_front_running_protection_def split: if_splits)
  then show ?thesis
    unfolding fastReflection_Params_unmarshal_def
    by (simp, intro impI unmarshal_fields_returns [OF assms])
qed (simp add: fastReflection_Params_unmarshal_def)

text \<open>A payload read into a field of type \<open>Params\<close>.\<close>

lemma params_payload_returns:
  assumes "runtime_laws R"
  shows "\<exists>r. go_run m (\<lambda>(p, h'). optUnmarshal R (fastReflection_Params_unmarshal R discard h' p bz)) = Some r"
proof (cases m)
  case (Ret q)
  then show ?thesis
    using Params_unmarshal_returns [OF assms, of discard "snd q" "fst q" bz]
    by (cases q) (simp add: runtime_lawsD(7) [OF assms])
qed simp_all

text \<open>C24: Every \<open>Unmarshal\<close> of the pulsar API returns: whatever the input, the message and the heap, the loop
  over the fields ends with a message or an error.\<close>

theorem pulsar_unmarshal_returns:
  assumes "runtime_laws R"
  shows "(\<exists>r. fastReflection_Params_unmarshal R discard h x buf = Some r) \<and>
    (\<exists>r. fastReflection_GenesisState_unmarshal R discard h x buf = Some r) \<and>
    (\<exists>r. fastReflection_MsgAuctionBid_unmarshal R discard h x buf = Some r) \<and>
    (\<exists>r. fastReflection_MsgAuctionBidResponse_unmarshal R discard h x buf = Some r) \<and>
    (\<exists>r. fastReflection_MsgUpdateParams_unmarshal R discard h x buf = Some r) \<and>
    (\<exists>r. fastReflection_MsgUpdateParamsResponse_unmarshal R discard h x buf = Some r) \<and>
    (\<exists>r. fastReflection_QueryParamsRequest_unmarshal R discard h x buf = Some r) \<and>
    (\<exists>r. fastReflection_QueryParamsResponse_unmarshal R discard h x buf = Some r) \<and>
    (\<exists>r. fastReflection_Module_unmarshal R discard h x buf = Some r)"
proof (intro conjI)
  note returns = unmarshal_fields_returns [OF assms] and nested = params_payload_returns [OF assms]
  show "\<exists>r. fastReflection_Params_unmarshal R discard h x buf = Some r"
    by (rule Params_unmarshal_returns [OF assms])
  show "\<exists>r. fastReflection_GenesisState_unmarshal R discard h x buf = Some r"
    unfolding fastReflection_GenesisState_unmarshal_def
    by (simp, intro impI returns)
      (auto simp: fastReflection_GenesisState_fields_def fastReflection_GenesisState_case_params_def nested
        split: if_splits)
  show "\<exists>r. fastReflection_MsgAuctionBid_unmarshal R discard h x buf = Some r"
    unfolding fastReflection_MsgAuctionBid_unmarshal_def
    by (simp, intro impI returns)
      (auto simp: fastReflection_MsgAuctionBid_fields_def fastReflection_MsgAuctionBid_case_bidder_def
        fastReflection_MsgAuctionBid_case_bid_def fastReflection_MsgAuctionBid_case_transactions_def
        split: if_splits)
  show "\<exists>r. fastReflection_MsgUpdateParams_unmarshal R discard h x buf = Some r"
    unfolding fastReflection_MsgUpdateParams_unmarshal_def
    by (simp, intro impI returns)
      (auto simp: fastReflection_MsgUpdateParams_fields_def fastReflection_MsgUpdateParams_case_authority_def
        fastReflection_MsgUpdateParams_case_params_def nested split: if_splits)
  show "\<exists>r. fastReflection_QueryParamsResponse_unmarshal R discard h x buf = Some r"
    unfolding fastReflection_QueryParamsResponse_unmarshal_def
    by (simp, intro impI returns)
      (auto simp: fastReflection_QueryParamsResponse_fields_def fastReflection_QueryParamsResponse_case_params_def
        nested split: if_splits)
  show "\<exists>r. fastReflection_Module_unmarshal R discard h x buf = Some r"
    unfolding fastReflection_Module_unmarshal_def
    by (simp, intro impI returns)
      (auto simp: fastReflection_Module_fields_def fastReflection_Module_case_authority_def split: if_splits)
  show "\<exists>r. fastReflection_MsgAuctionBidResponse_unmarshal R discard h x buf = Some r"
    "\<exists>r. fastReflection_MsgUpdateParamsResponse_unmarshal R discard h x buf = Some r"
    "\<exists>r. fastReflection_QueryParamsRequest_unmarshal R discard h x buf = Some r"
    unfolding fastReflection_MsgAuctionBidResponse_unmarshal_def
      fastReflection_MsgUpdateParamsResponse_unmarshal_def fastReflection_QueryParamsRequest_unmarshal_def
    by (simp, intro impI returns,
        simp add: fastReflection_MsgAuctionBidResponse_fields_def
          fastReflection_MsgUpdateParamsResponse_fields_def fastReflection_QueryParamsRequest_fields_def)+
qed

theorem pulsar_unmarshal_returns_witness:
  "\<exists>r. fastReflection_Params_unmarshal (runtime_of stroke_wire) False
     \<lparr> next_addr = 1, objects = [0 \<mapsto> ParamsObject zero_Params] \<rparr> (Some 0) [0x08, 0x96, 0x01, 0x9a] = Some r"
  using pulsar_unmarshal_returns [OF runtime_of_laws [of stroke_wire]] by blast

section \<open>What Marshal writes\<close>

definition bytes_field :: "8 word \<Rightarrow> bytes \<Rightarrow> bytes" where
  "bytes_field tag bz = (if 0 < length bz then tag # length_prefixed bz else [])"

definition message_field :: "8 word \<Rightarrow> bytes option \<Rightarrow> bytes" where
  "message_field tag r = (case r of None \<Rightarrow> [] | Some bz \<Rightarrow> tag # length_prefixed bz)"

lemma other_fields:
  "string_field tag s = bytes_field tag (string_bytes s)" "escrow_field e = bytes_field 0x12 (slice_items e)"
  by (auto simp: string_field_def bytes_field_def escrow_field_def split: option.split)

text \<open>The message behind a pointer: not there, or of size \<open>l\<close> and written as \<open>e\<close>.\<close>

definition message_image :: "ptr \<Rightarrow> nat go \<Rightarrow> bytes go \<Rightarrow> bytes option \<Rightarrow> bool" where
  "message_image x l e r \<longleftrightarrow>
     (case r of None \<Rightarrow> x = None | Some bz \<Rightarrow> x \<noteq> None \<and> l = Ret (length bz) \<and> e = Ret bz)"

lemma length_bytes_field: "runtime_laws R \<Longrightarrow> size_bytes R bz = length (bytes_field tag bz)"
  by (simp add: size_bytes_def bytes_field_def field_len_def runtime_lawsD(1) length_prefixed_def length_encode_varint)

lemma length_payload: "runtime_laws R \<Longrightarrow> field_len R (length bz) = Suc (length (length_prefixed bz))"
  by (simp add: field_len_def runtime_lawsD(1) length_prefixed_def length_encode_varint)

lemma size_message_image:
  "runtime_laws R \<Longrightarrow> message_image x l e r \<Longrightarrow> size_message R x l = Ret (length (message_field tag r))"
  by (auto simp: message_image_def size_message_def message_field_def length_payload split: option.splits)

lemma put_fits: "length bz + length out \<le> sz \<Longrightarrow> put sz bz out = Ret (bz @ out)"
  by (simp add: put_def)

lemma put_payload_fits:
  "runtime_laws R \<Longrightarrow> Suc (length (length_prefixed bz)) + length out \<le> sz \<Longrightarrow>
   put_payload R sz tag bz out = Ret (tag # length_prefixed bz @ out)"
  by (simp add: put_payload_def put_fits runtime_lawsD(2) length_prefixed_def)

lemma put_bytes_fits:
  "runtime_laws R \<Longrightarrow> length (bytes_field tag bz) + length out \<le> sz \<Longrightarrow>
   put_bytes R sz tag bz out = Ret (bytes_field tag bz @ out)"
  by (simp add: put_bytes_def bytes_field_def put_payload_fits split: if_splits)

lemma put_message_fits:
  "runtime_laws R \<Longrightarrow> message_image x l e r \<Longrightarrow> length (message_field tag r) + length out \<le> sz \<Longrightarrow>
   put_message R sz tag x e out = Ret (message_field tag r @ out)"
  by (auto simp: message_image_def put_message_def message_field_def put_payload_fits split: option.splits)

lemma put_scalar_fits:
  assumes "runtime_laws R"
  shows "length (max_bundle_field v) + length out \<le> sz \<Longrightarrow> put_uint32 R sz 0x8 v out = Ret (max_bundle_field v @ out)"
    and "length (protection_field b) + length out \<le> sz \<Longrightarrow> put_bool sz 0x28 b out = Ret (protection_field b @ out)"
  by (simp_all add: put_uint32_def put_bool_def max_bundle_field_def protection_field_def put_fits
      runtime_lawsD(2) [OF assms] split: if_splits)

lemma finish_full: "length out = sz \<Longrightarrow> finish sz buf out = Ret (buf @ out)"
  by (simp add: finish_def)

lemmas fits = put_fits put_payload_fits put_bytes_fits finish_full

subsection \<open>Params\<close>

definition Params_wire :: "v1_Params \<Rightarrow> bytes option \<Rightarrow> bytes option \<Rightarrow> bytes" where
  "Params_wire m r c =
     max_bundle_field (par_MaxBundleSize m) @ bytes_field 0x12 (slice_items (par_EscrowAccountAddress m)) @
     message_field 0x1a r @ message_field 0x22 c @ protection_field (par_FrontRunningProtection m) @
     bytes_field 0x32 (string_bytes (par_ProposerFee m)) @ par_unknownFields m"

lemma Params_marshal_wire:
  assumes R: "runtime_laws R" and m: "load T_Params h x = Ret m"
    and r: "message_image (par_ReserveFee m) (coin_size R h (par_ReserveFee m)) (coin_marshal R h (par_ReserveFee m)) r"
    and c: "message_image (par_MinBidIncrement m) (coin_size R h (par_MinBidIncrement m))
      (coin_marshal R h (par_MinBidIncrement m)) c"
  shows "fastReflection_Params_size R h x = Ret (length (Params_wire m r c))"
    and "fastReflection_Params_marshal R h x buf = Ret (buf @ Params_wire m r c)"
proof -
  obtain a where x: "x = Some a" using m by (cases x) auto
  show sz: "fastReflection_Params_size R h x = Ret (length (Params_wire m r c))"
    using x m length_bytes_field [OF R, of "string_bytes (par_ProposerFee m)" "0x32"]
      length_bytes_field [OF R, of "slice_items (par_EscrowAccountAddress m)" "0x12"]
      size_message_image [OF R r, of "0x1a"] size_message_image [OF R c, of "0x22"]
    by (simp add: fastReflection_Params_size_def Params_wire_def length_optional_fields runtime_lawsD(1) [OF R])
  show "fastReflection_Params_marshal R h x buf = Ret (buf @ Params_wire m r c)"
    unfolding fastReflection_Params_marshal_def
    using x m sz
    by (simp add: runtime_lawsD(5) [OF R] put_fits put_bytes_fits [OF R] put_message_fits [OF R r]
      put_message_fits [OF R c] put_scalar_fits [OF R] finish_full Params_wire_def)
qed

text \<open>The parameters behind a pointer.\<close>

lemma Params_image:
  assumes "runtime_laws R" and "load T_Params h x = Ret m"
    and "message_image (par_ReserveFee m) (coin_size R h (par_ReserveFee m)) (coin_marshal R h (par_ReserveFee m)) r"
    and "message_image (par_MinBidIncrement m) (coin_size R h (par_MinBidIncrement m))
      (coin_marshal R h (par_MinBidIncrement m)) c"
  shows "message_image x (optSize R (fastReflection_Params_size R h x))
    (optMarshal R (fastReflection_Params_marshal R h x [])) (Some (Params_wire m r c))"
proof -
  have "x \<noteq> None" using assms(2) by (cases x) auto
  then show ?thesis
    using Params_marshal_wire [OF assms] runtime_lawsD(5,6) [OF assms(1)] by (simp add: message_image_def)
qed

subsection \<open>MsgAuctionBid\<close>

definition MsgAuctionBid_wire :: "v1_MsgAuctionBid \<Rightarrow> bytes option \<Rightarrow> bytes" where
  "MsgAuctionBid_wire m c =
     bytes_field 0xa (string_bytes (bid_Bidder m)) @ message_field 0x12 c @
     foldr (\<lambda>b out. 0x1a # length_prefixed (slice_items b) @ out) (slice_items (bid_Transactions m))
       (bid_unknownFields m)"

lemma put_transactions_fit:
  assumes "runtime_laws R"
    and "length (foldr (\<lambda>b out. 0x1a # length_prefixed (slice_items b) @ out) txs u) \<le> sz"
  shows "foldr (\<lambda>b r. go_bind r (put_payload R sz 0x1a (slice_items b))) txs (Ret u) =
    Ret (foldr (\<lambda>b out. 0x1a # length_prefixed (slice_items b) @ out) txs u)"
  using assms(2)
proof (induction txs)
  case (Cons b txs)
  then show ?case using put_payload_fits [OF assms(1)] by simp
qed simp

lemma length_transactions:
  "runtime_laws R \<Longrightarrow>
   length (foldr (\<lambda>b out. 0x1a # length_prefixed (slice_items b) @ out) txs u) =
     (\<Sum>b\<leftarrow>txs. field_len R (length (slice_items b))) + length u"
  by (induction txs) (simp_all add: length_payload)

lemma MsgAuctionBid_marshal_wire:
  assumes R: "runtime_laws R" and m: "load T_MsgAuctionBid h x = Ret m"
    and c: "message_image (bid_Bid m) (coin_size R h (bid_Bid m)) (coin_marshal R h (bid_Bid m)) c"
  shows "fastReflection_MsgAuctionBid_size R h x = Ret (length (MsgAuctionBid_wire m c))"
    and "fastReflection_MsgAuctionBid_marshal R h x buf = Ret (buf @ MsgAuctionBid_wire m c)"
proof -
  obtain a where x: "x = Some a" using m by (cases x) auto
  show sz: "fastReflection_MsgAuctionBid_size R h x = Ret (length (MsgAuctionBid_wire m c))"
    using x m length_bytes_field [OF R, of "string_bytes (bid_Bidder m)" "0xa"]
      size_message_image [OF R c, of "0x12"]
    by (simp add: fastReflection_MsgAuctionBid_size_def MsgAuctionBid_wire_def length_transactions [OF R])
  let ?sz = "length (MsgAuctionBid_wire m c)"
  have txs: "foldr (\<lambda>b r. go_bind r (put_payload R ?sz 0x1a (slice_items b)))
      (slice_items (bid_Transactions m)) (Ret (bid_unknownFields m)) =
      Ret (foldr (\<lambda>b out. 0x1a # length_prefixed (slice_items b) @ out) (slice_items (bid_Transactions m))
       (bid_unknownFields m))"
    by (rule put_transactions_fit [OF R]) (simp add: MsgAuctionBid_wire_def)
  have u: "length (bid_unknownFields m) \<le> ?sz"
    by (simp add: MsgAuctionBid_wire_def length_transactions [OF R])
  show "fastReflection_MsgAuctionBid_marshal R h x buf = Ret (buf @ MsgAuctionBid_wire m c)"
    unfolding fastReflection_MsgAuctionBid_marshal_def
    using x m sz u txs
    by (simp add: runtime_lawsD(5) [OF R] put_fits put_bytes_fits [OF R] put_message_fits [OF R c]
      finish_full MsgAuctionBid_wire_def)
qed

subsection \<open>Messages that hold parameters\<close>

lemma GenesisState_size_wire:
  assumes R: "runtime_laws R" and m: "load T_GenesisState h x = Ret m"
    and p: "message_image (gs_Params m) (optSize R (fastReflection_Params_size R h (gs_Params m)))
      (optMarshal R (fastReflection_Params_marshal R h (gs_Params m) [])) p"
  shows "fastReflection_GenesisState_size R h x = Ret (length (message_field 0xa p @ gs_unknownFields m))"
proof -
  obtain a where x: "x = Some a" using m by (cases x) auto
  then show ?thesis using m size_message_image [OF R p, of "0xa"] by (simp add: fastReflection_GenesisState_size_def)
qed

lemma GenesisState_marshal_wire:
  assumes R: "runtime_laws R" and m: "load T_GenesisState h x = Ret m"
    and p: "message_image (gs_Params m) (optSize R (fastReflection_Params_size R h (gs_Params m)))
      (optMarshal R (fastReflection_Params_marshal R h (gs_Params m) [])) p"
  shows "fastReflection_GenesisState_marshal R h x buf = Ret (buf @ message_field 0xa p @ gs_unknownFields m)"
proof -
  obtain a where x: "x = Some a" using m by (cases x) auto
  show ?thesis
    unfolding fastReflection_GenesisState_marshal_def using x m GenesisState_size_wire [OF assms]
    by (simp add: runtime_lawsD(5) [OF R] put_fits put_message_fits [OF R p] finish_full)
qed

lemma QueryParamsResponse_marshal_wire:
  assumes R: "runtime_laws R" and m: "load T_QueryParamsResponse h x = Ret m"
    and p: "message_image (qresp_Params m) (optSize R (fastReflection_Params_size R h (qresp_Params m)))
      (optMarshal R (fastReflection_Params_marshal R h (qresp_Params m) [])) p"
  shows "fastReflection_QueryParamsResponse_marshal R h x buf =
    Ret (buf @ message_field 0xa p @ qresp_unknownFields m)"
proof -
  obtain a where x: "x = Some a" using m by (cases x) auto
  have "fastReflection_QueryParamsResponse_size R h x =
      Ret (length (message_field 0xa p @ qresp_unknownFields m))"
    using x m size_message_image [OF R p, of "0xa"] by (simp add: fastReflection_QueryParamsResponse_size_def)
  then show ?thesis
    unfolding fastReflection_QueryParamsResponse_marshal_def using x m
    by (simp add: runtime_lawsD(5) [OF R] put_fits put_message_fits [OF R p] finish_full)
qed


section \<open>What Unmarshal reads\<close>

text \<open>Below the next free address only the objects at \<open>A\<close> have changed.\<close>

definition heap_grows :: "addr set \<Rightarrow> 'o heap \<Rightarrow> 'o heap \<Rightarrow> bool" where
  "heap_grows A h h' \<longleftrightarrow> heap_ok h' \<and> next_addr h \<le> next_addr h' \<and>
     (\<forall>b < next_addr h. b \<notin> A \<longrightarrow> objects h' b = objects h b)"

lemma heap_grows_refl: "heap_ok h \<Longrightarrow> heap_grows A h h"
  by (simp add: heap_grows_def)

lemma heap_grows_trans: "heap_grows A h h' \<Longrightarrow> heap_grows A h' h'' \<Longrightarrow> heap_grows A h h''"
  by (simp add: heap_grows_def)

lemma heap_grows_nested:
  assumes "heap_grows A h h'" and "heap_grows B h' h''" and "B \<subseteq> A \<union> {next_addr h..}"
  shows "heap_grows A h h''"
proof -
  have "b \<notin> B" if "b < next_addr h" "b \<notin> A" for b using assms(3) that by auto
  then show ?thesis using assms(1,2) by (simp add: heap_grows_def)
qed

lemma heap_grows_load: "heap_grows A h h' \<Longrightarrow> b < next_addr h \<Longrightarrow> b \<notin> A \<Longrightarrow> load T h' (Some b) = load T h (Some b)"
  by (simp add: heap_grows_def load_def)

lemma heap_grows_ok: "heap_grows A h h' \<Longrightarrow> heap_ok h'"
  by (simp add: heap_grows_def)

lemma heap_grows_store:
  assumes "heap_ok h" and "a < next_addr h" and "store T h (Some a) m = Ret h'"
  shows "heap_grows {a} h h'"
  using heap_ok_store [OF assms] next_store [OF assms(3)] assms(3) by (auto simp: heap_grows_def store_def)

lemma heap_grows_alloc: "heap_ok h \<Longrightarrow> heap_grows A h (snd (alloc T h m))"
  by (simp add: heap_grows_def) (simp add: alloc_def)

context typed_objects begin

lemma update_heap_grows:
  assumes "heap_ok h" and "load T h (Some a) = Ret m"
  shows "\<exists>h'. update T h (Some a) f = Ret h' \<and> load T h' (Some a) = Ret (f m) \<and> heap_grows {a} h h'"
proof -
  obtain h' where h': "store T h (Some a) (f m) = Ret h'" by (simp add: store_def)
  then show ?thesis
    using update_loaded [OF assms(2)] load_store_same [OF h'] load_below [OF assms]
      heap_grows_store [OF assms(1) _ h'] by simp
qed

text \<open>A field that is a byte slice or a string.\<close>

lemma read_bytes_field:
  assumes "suffix (bytes_field (ucast v) bz @ rest) dAtA" and "length dAtA < 2 ^ 63" and "short_tag v"
    and "heap_ok h" and "load T h (Some a) = Ret m"
    and "dispatch h (ucast (drop_bit 3 v)) (unat (v AND 7)) = FieldPayload (\<lambda>bz. Some (update T h (Some a) (f bz)))"
  shows "\<exists>h'. reading R name dispatch keep dAtA h (bytes_field (ucast v) bz @ rest) =
      reading R name dispatch keep dAtA h' rest \<and>
    load T h' (Some a) = Ret (if bz = [] then m else f bz m) \<and> heap_grows {a} h h'"
proof (cases "bz = []")
  case True
  then show ?thesis using assms(4,5) by (auto simp: bytes_field_def heap_grows_refl)
next
  case False
  obtain h' where h': "update T h (Some a) (f bz) = Ret h'" "load T h' (Some a) = Ret (f bz m)" "heap_grows {a} h h'"
    using update_heap_grows [OF assms(4,5)] by blast
  have "suffix (ucast v # length_prefixed bz @ rest) dAtA" using assms(1) False by (simp add: bytes_field_def)
  from reading_payload [where R = R and name = name and keep = keep and dispatch = dispatch and h = h and h' = h',
      OF this assms(2,3,6)] h' False
  show ?thesis by (auto simp: bytes_field_def)
qed

text \<open>A field that is a message of its own type, read into a new object.\<close>

lemma ensure_new:
  assumes "heap_ok h" and "load T h (Some a) = Ret m" and "field m = None" and "typed_objects T'"
  shows "\<exists>h'. ensure_message T field set_field T' new_object h (Some a) = Ret (Some (next_addr h), h') \<and>
    load T h' (Some a) = Ret (set_field (Some (next_addr h)) m) \<and>
    load T' h' (Some (next_addr h)) = Ret new_object \<and> heap_grows {a} h h' \<and> next_addr h' = Suc (next_addr h)"
proof -
  let ?h = "snd (alloc T' h new_object)" and ?p = "next_addr h"
  obtain h1 where h1: "alloc T' h new_object = (?p, h1)" by (simp add: alloc_def)
  have a: "a < ?p" by (rule load_below [OF assms(1,2)])
  then have "load T ?h (Some a) = Ret m" using assms(2) load_alloc_other [of a h T T' new_object] by simp
  from update_heap_grows [OF heap_ok_alloc [OF assms(1)] this] obtain h' where
    h': "update T ?h (Some a) (set_field (Some ?p)) = Ret h'"
      "load T h' (Some a) = Ret (set_field (Some ?p) m)" "heap_grows {a} ?h h'" by blast
  have "load T' h' (Some ?p) = load T' ?h (Some ?p)"
    by (rule heap_grows_load [OF h'(3)]) (use a in auto)
  also have "\<dots> = Ret new_object" by (rule typed_objects.load_alloc_same [OF assms(4)])
  finally have "load T' h' (Some ?p) = Ret new_object" .
  moreover have "heap_grows {a} h h'" by (rule heap_grows_trans [OF heap_grows_alloc [OF assms(1)] h'(3)])
  moreover have "next_addr h' = Suc ?p"
    using h'(1) by (auto simp: update_def go_simps dest!: next_store)
  ultimately show ?thesis
    using h' assms(2,3) h1 by (auto simp: ensure_message_def)
qed

end

lemma coin_read:
  fixes h :: "'c object heap"
  assumes "heap_ok h" and "load T_Coin h (Some p) = Ret c" and "rtCoinUnmarshal R discard c bz = Ret c'"
  shows "\<exists>h'. coin_unmarshal R discard h (Some p) bz = Ret h' \<and> load T_Coin h' (Some p) = Ret c' \<and> heap_grows {p} h h'"
proof -
  obtain h' where h': "store T_Coin h (Some p) c' = Ret h'" by (simp add: store_def)
  show ?thesis
    using Coin_objects.load_store_same [OF h'] heap_grows_store [OF assms(1) load_below [OF assms(1,2)] h'] h' assms(2,3)
    by (simp add: coin_unmarshal_def)
qed

text \<open>A coin that a message holds: none, or the one that its bytes stand for.\<close>

definition coin_at :: "'c pulsar_runtime \<Rightarrow> bool \<Rightarrow> 'c object heap \<Rightarrow> ptr \<Rightarrow> bytes option \<Rightarrow> bool" where
  "coin_at R discard h x r \<longleftrightarrow>
     (case r of None \<Rightarrow> x = None
      | Some bz \<Rightarrow> \<exists>c. x \<noteq> None \<and> load T_Coin h x = Ret c \<and> rtCoinUnmarshal R discard (rtCoinNew R) bz = Ret c)"

definition coin_readable :: "'c pulsar_runtime \<Rightarrow> bool \<Rightarrow> bytes option \<Rightarrow> bool" where
  "coin_readable R discard r \<longleftrightarrow>
     (case r of None \<Rightarrow> True | Some bz \<Rightarrow> \<exists>c. rtCoinUnmarshal R discard (rtCoinNew R) bz = Ret c)"


lemma coin_at_grows:
  assumes "coin_at R discard h x r" and "heap_ok h" and "heap_grows A h h'" and "\<And>p. x = Some p \<Longrightarrow> p \<notin> A"
  shows "coin_at R discard h' x r"
proof (cases r)
  case None
  then show ?thesis using assms(1) by (simp add: coin_at_def)
next
  case (Some bz)
  with assms(1) obtain c p where c: "x = Some p" "load T_Coin h (Some p) = Ret c"
    "rtCoinUnmarshal R discard (rtCoinNew R) bz = Ret c"
    by (auto simp: coin_at_def)
  have "load T_Coin h' (Some p) = load T_Coin h (Some p)"
    by (rule heap_grows_load [OF assms(3) load_below [OF assms(2) c(2)] assms(4) [OF c(1)]])
  then show ?thesis using c Some by (simp add: coin_at_def)
qed

lemma read_coin_field:
  fixes h :: "'c object heap" and R :: "'c pulsar_runtime"
  assumes T: "typed_objects T"
    and "suffix (message_field (ucast v) r @ rest) dAtA" and "length dAtA < 2 ^ 63" and "short_tag v"
    and ok: "heap_ok h" and m: "load T h (Some a) = Ret m" and "field m = None"
    and dispatch: "dispatch h (ucast (drop_bit 3 v)) (unat (v AND 7)) = FieldPayload (\<lambda>bz. Some (go_bind
      (ensure_message T field set_field T_Coin (rtCoinNew R) h (Some a))
      (\<lambda>(p, h'). coin_unmarshal R discard h' p bz)))"
    and "coin_readable R discard r"
  shows "\<exists>h' x. reading R name dispatch keep dAtA h (message_field (ucast v) r @ rest) =
      reading R name dispatch keep dAtA h' rest \<and>
    load T h' (Some a) = Ret (if r = None then m else set_field x m) \<and> coin_at R discard h' x r \<and>
    heap_grows {a} h h' \<and> (\<forall>p. x = Some p \<longrightarrow> next_addr h \<le> p)"
proof (cases r)
  case None
  then have "reading R name dispatch keep dAtA h (message_field (ucast v) r @ rest) =
      reading R name dispatch keep dAtA h rest \<and>
    load T h (Some a) = Ret (if r = None then m else set_field None m) \<and> coin_at R discard h None r \<and>
    heap_grows {a} h h \<and> (\<forall>p. None = Some p \<longrightarrow> next_addr h \<le> p)"
    using m ok by (simp add: message_field_def coin_at_def heap_grows_refl)
  then show ?thesis by blast
next
  case (Some bz)
  let ?p = "next_addr h"
  from assms(9) Some obtain c where c: "rtCoinUnmarshal R discard (rtCoinNew R) bz = Ret c"
    by (auto simp: coin_readable_def)
  from typed_objects.ensure_new [where field = field and set_field = set_field and new_object = "rtCoinNew R",
      OF T ok m \<open>field m = None\<close> Coin_objects.typed_objects_axioms]
  obtain h1 where h1: "ensure_message T field set_field T_Coin (rtCoinNew R) h (Some a) = Ret (Some ?p, h1)"
    "load T h1 (Some a) = Ret (set_field (Some ?p) m)" "load T_Coin h1 (Some ?p) = Ret (rtCoinNew R)"
    "heap_grows {a} h h1" "next_addr h1 = Suc ?p" by blast
  from coin_read [OF heap_grows_ok [OF h1(4)] h1(3) c] obtain h2 where
    h2: "coin_unmarshal R discard h1 (Some ?p) bz = Ret h2" "load T_Coin h2 (Some ?p) = Ret c" "heap_grows {?p} h1 h2"
    by blast
  have a: "a < ?p" by (rule load_below [OF ok m])
  have "load T h2 (Some a) = load T h1 (Some a)"
    by (rule heap_grows_load [OF h2(3)]) (use a h1(5) in auto)
  moreover have "heap_grows {a} h h2" by (rule heap_grows_nested [OF h1(4) h2(3)]) simp
  moreover have suf: "suffix (ucast v # length_prefixed bz @ rest) dAtA"
    using assms(2) Some by (simp add: message_field_def)
  have "reading R name dispatch keep dAtA h (ucast v # length_prefixed bz @ rest) =
      reading R name dispatch keep dAtA h2 rest"
    by (rule reading_payload [where dispatch = dispatch and h = h, OF suf assms(3,4) dispatch])
      (simp add: h1(1) h2(1))
  ultimately have "reading R name dispatch keep dAtA h (message_field (ucast v) r @ rest) =
      reading R name dispatch keep dAtA h2 rest \<and>
    load T h2 (Some a) = Ret (if r = None then m else set_field (Some ?p) m) \<and>
    coin_at R discard h2 (Some ?p) r \<and> heap_grows {a} h h2 \<and> (\<forall>p. Some ?p = Some p \<longrightarrow> next_addr h \<le> p)"
    using Some h1(2) h2(2) c by (simp add: message_field_def coin_at_def)
  then show ?thesis by blast
qed

text \<open>An address holds an object of one type.\<close>

lemma one_type:
  "load T_Coin h y = Ret c \<Longrightarrow> load T_GenesisState h y \<noteq> Ret g"
  "load T_Params h y = Ret m \<Longrightarrow> load T_GenesisState h y \<noteq> Ret g"
  "load T_Coin h y = Ret c \<Longrightarrow> load T_QueryParamsResponse h y \<noteq> Ret q"
  "load T_Params h y = Ret m \<Longrightarrow> load T_QueryParamsResponse h y \<noteq> Ret q"
  "load T_Coin h y = Ret c \<Longrightarrow> load T_Params h y \<noteq> Ret m"
  by (auto simp: load_def T_Coin_def T_Params_def T_GenesisState_def T_QueryParamsResponse_def
      split: option.splits object.splits)

lemma coin_at_kept:
  assumes "coin_at R discard h y r" and "heap_grows {a} h h'" and "heap_ok h"
    and "\<And>c. load T_Coin h (Some a) \<noteq> Ret c"
  shows "coin_at R discard h' y r"
  by (rule coin_at_grows [OF assms(1,3,2)])
    (use assms(1,4) in \<open>auto simp: coin_at_def split: option.splits\<close>)

context typed_objects begin

lemma read_uint32_field:
  assumes "suffix (max_bundle_field n @ rest) dAtA" and "heap_ok h" and "load T h (Some a) = Ret m"
    and "dispatch h 1 0 = FieldUint32 (\<lambda>v. update T h (Some a) (f v))"
  shows "\<exists>h'. reading R name dispatch keep dAtA h (max_bundle_field n @ rest) =
      reading R name dispatch keep dAtA h' rest \<and>
    load T h' (Some a) = Ret (if n = 0 then m else f n m) \<and> heap_grows {a} h h'"
proof (cases "n = 0")
  case True
  then show ?thesis using assms(2,3) by (auto simp: max_bundle_field_def heap_grows_refl)
next
  case False
  obtain h' where h': "update T h (Some a) (f n) = Ret h'" "load T h' (Some a) = Ret (f n m)" "heap_grows {a} h h'"
    using update_heap_grows [OF assms(2,3)] by blast
  have suf: "suffix (ucast (0x8 :: u64) # encode_varint (ucast n) @ rest) dAtA"
    using assms(1) False by (simp add: max_bundle_field_def)
  have "reading R name dispatch keep dAtA h (ucast (0x8 :: u64) # encode_varint (ucast n) @ rest) =
      reading R name dispatch keep dAtA h' rest"
    by (rule reading_varint [where g = "\<lambda>v. update T h (Some a) (f v)", OF suf])
      (use assms(4) h'(1) in \<open>simp_all add: short_tag_def ucast_up_down\<close>)
  then show ?thesis using h' False by (auto simp: max_bundle_field_def)
qed

lemma read_bool_field:
  assumes "suffix (protection_field b @ rest) dAtA" and "heap_ok h" and "load T h (Some a) = Ret m"
    and "dispatch h 5 0 = FieldVarint (\<lambda>v. update T h (Some a) (f (v \<noteq> 0)))"
  shows "\<exists>h'. reading R name dispatch keep dAtA h (protection_field b @ rest) =
      reading R name dispatch keep dAtA h' rest \<and>
    load T h' (Some a) = Ret (if b then f True m else m) \<and> heap_grows {a} h h'"
proof (cases b)
  case False
  then show ?thesis using assms(2,3) by (auto simp: protection_field_def heap_grows_refl)
next
  case True
  obtain h' where h': "update T h (Some a) (f True) = Ret h'" "load T h' (Some a) = Ret (f True m)" "heap_grows {a} h h'"
    using update_heap_grows [OF assms(2,3)] by blast
  have suf: "suffix (ucast (0x28 :: u64) # encode_varint 1 @ rest) dAtA"
    using assms(1) True by (simp add: protection_field_def encode_small)
  have "reading R name dispatch keep dAtA h (ucast (0x28 :: u64) # encode_varint 1 @ rest) =
      reading R name dispatch keep dAtA h' rest"
    by (rule reading_varint [where f = "\<lambda>v. update T h (Some a) (f (v \<noteq> 0))", OF suf])
      (use assms(4) h'(1) in \<open>simp_all add: short_tag_def\<close>)
  then show ?thesis using h' True by (auto simp: protection_field_def encode_small)
qed

text \<open>Unknown fields are kept in the order of the input, or discarded.\<close>

lemma read_unknown_fields:
  assumes "runtime_laws R" and "length dAtA < 2 ^ 63"
    and "\<And>h fd w. fd \<notin> known \<Longrightarrow> dispatch h fd w = FieldUnknown"
    and "\<And>h raw. keep h raw = (if \<not> discard then update T h (Some a) (add raw) else Ret h)"
    and "\<And>m. add [] m = m" and "\<And>m raw raw'. add raw' (add raw m) = add (raw @ raw') m"
  shows "raw_fields known raw \<Longrightarrow> suffix raw dAtA \<Longrightarrow> heap_ok h \<Longrightarrow> load T h (Some a) = Ret m \<Longrightarrow>
    \<exists>h'. reading R name dispatch keep dAtA h raw = Some (Ret h') \<and>
      load T h' (Some a) = Ret (if discard then m else add raw m) \<and> heap_grows {a} h h'"
proof (induction raw arbitrary: h m rule: raw_fields.induct)
  case raw_nil
  then show ?case using assms(5) by (auto simp: heap_grows_refl)
next
  case (raw_cons v body raw)
  let ?m = "if discard then m else add (ucast v # body) m"
  obtain h1 where h1: "keep h (ucast v # body) = Ret h1" "load T h1 (Some a) = Ret ?m" "heap_grows {a} h h1"
  proof (cases discard)
    case True
    then show thesis using that [of h] raw_cons.prems(2,3) assms(4) by (simp add: heap_grows_refl)
  next
    case False
    then show thesis
      using update_heap_grows [OF raw_cons.prems(2,3), of "add (ucast v # body)"] assms(4) that by auto
  qed
  have "suffix raw dAtA"
    using raw_cons.prems(1) suffix_appendD [of "ucast v # body" raw dAtA] by simp
  from raw_cons.IH [OF this heap_grows_ok [OF h1(3)] h1(2)] obtain h2 where
    h2: "reading R name dispatch keep dAtA h1 raw = Some (Ret h2)"
      "load T h2 (Some a) = Ret (if discard then ?m else add raw ?m)" "heap_grows {a} h1 h2" by blast
  have suf: "suffix (ucast v # body @ raw) dAtA" using raw_cons.prems(1) by simp
  have "reading R name dispatch keep dAtA h (ucast v # body @ raw) = reading R name dispatch keep dAtA h1 raw"
    by (rule reading_unknown [OF suf assms(2) raw_cons.hyps(1) assms(1)])
      (use raw_cons.hyps(2,3) assms(3) h1(1) in simp_all)
  moreover have "heap_grows {a} h h2" by (rule heap_grows_trans [OF h1(3) h2(3)])
  ultimately show ?case using h2 assms(6) [of raw "ucast v # body" m] by auto
qed

end


subsection \<open>Params\<close>

lemma string_bytes_empty: "string_bytes s = [] \<longleftrightarrow> s = []"
  by (simp add: string_bytes_def)

lemmas Params_cases = fastReflection_Params_fields_def fastReflection_Params_case_max_bundle_size_def
  fastReflection_Params_case_escrow_account_address_def fastReflection_Params_case_reserve_fee_def
  fastReflection_Params_case_min_bid_increment_def fastReflection_Params_case_front_running_protection_def
  fastReflection_Params_case_proposer_fee_def

abbreviation Params_numbers :: "u32 set" where
  "Params_numbers \<equiv> {1, 2, 3, 4, 5, 6}"

text \<open>\<open>m'\<close> in the heap says what \<open>m\<close>, \<open>r\<close> and \<open>c\<close> say on the wire.\<close>

definition Params_read_as ::
    "'c pulsar_runtime \<Rightarrow> bool \<Rightarrow> 'c object heap \<Rightarrow> v1_Params \<Rightarrow> v1_Params \<Rightarrow> bytes option \<Rightarrow> bytes option \<Rightarrow> bool" where
  "Params_read_as R discard h m' m r c \<longleftrightarrow>
     par_MaxBundleSize m' = par_MaxBundleSize m \<and>
     slice_items (par_EscrowAccountAddress m') = slice_items (par_EscrowAccountAddress m) \<and>
     coin_at R discard h (par_ReserveFee m') r \<and> coin_at R discard h (par_MinBidIncrement m') c \<and>
     par_FrontRunningProtection m' = par_FrontRunningProtection m \<and>
     par_ProposerFee m' = par_ProposerFee m \<and>
     par_unknownFields m' = (if discard then [] else par_unknownFields m)"

abbreviation Params_reading where
  "Params_reading R discard a bz \<equiv> reading R ''Params'' (fastReflection_Params_fields R discard (Some a))
     (fastReflection_Params_keep discard (Some a)) bz"

definition Params_head :: "v1_Params \<Rightarrow> bytes option \<Rightarrow> bytes option \<Rightarrow> bytes \<Rightarrow> bytes" where
  "Params_head m r c rest =
     max_bundle_field (par_MaxBundleSize m) @ bytes_field 0x12 (slice_items (par_EscrowAccountAddress m)) @
     message_field 0x1a r @ message_field 0x22 c @ rest"

definition Params_tail :: "v1_Params \<Rightarrow> bytes" where
  "Params_tail m = protection_field (par_FrontRunningProtection m) @
     bytes_field 0x32 (string_bytes (par_ProposerFee m)) @ par_unknownFields m"

lemma Params_wire_parts: "Params_wire m r c = Params_head m r c (Params_tail m)"
  by (simp add: Params_wire_def Params_head_def Params_tail_def)

text \<open>The first four fields, of which two are coins, read into new parameters.\<close>

lemma Params_read_head:
  fixes h :: "'c object heap"
  assumes suf: "suffix (Params_head m r c rest) bz" and short: "length bz < 2 ^ 63"
    and ok: "heap_ok h" and new: "load T_Params h (Some a) = Ret zero_Params"
    and r: "coin_readable R discard r" and c: "coin_readable R discard c"
  shows "\<exists>h' e x y. Params_reading R discard a bz h (Params_head m r c rest) = Params_reading R discard a bz h' rest \<and>
    load T_Params h' (Some a) = Ret (zero_Params\<lparr>par_MaxBundleSize := par_MaxBundleSize m,
      par_EscrowAccountAddress := e, par_ReserveFee := x, par_MinBidIncrement := y\<rparr>) \<and>
    slice_items e = slice_items (par_EscrowAccountAddress m) \<and> coin_at R discard h' x r \<and> coin_at R discard h' y c \<and>
    heap_grows {a} h h'"
proof -
  define t3 where "t3 = message_field (ucast (0x22 :: u64)) c @ rest"
  define t2 where "t2 = message_field (ucast (0x1a :: u64)) r @ t3"
  define t1 where "t1 = bytes_field (ucast (0x12 :: u64)) (slice_items (par_EscrowAccountAddress m)) @ t2"
  have head: "Params_head m r c rest = max_bundle_field (par_MaxBundleSize m) @ t1"
    by (simp add: Params_head_def t1_def t2_def t3_def)
  have s0: "suffix (max_bundle_field (par_MaxBundleSize m) @ t1) bz" using suf by (simp add: head)
  have s1: "suffix t1 bz" using s0 by (rule suffix_appendD)
  have s2: "suffix t2 bz" using s1 unfolding t1_def by (rule suffix_appendD)
  have s3: "suffix t3 bz" using s2 unfolding t2_def by (rule suffix_appendD)
  let ?d = "fastReflection_Params_fields R discard (Some a)" and ?k = "fastReflection_Params_keep discard (Some a)"
  let ?u = "Params_reading R discard a bz"
  have tags: "short_tag 0x12" "short_tag 0x1a" "short_tag 0x22" by (simp_all add: short_tag_def)
  let ?m1 = "zero_Params\<lparr>par_MaxBundleSize := par_MaxBundleSize m\<rparr>"
  obtain h1 where h1: "?u h (Params_head m r c rest) = ?u h1 t1" "load T_Params h1 (Some a) = Ret ?m1" "heap_grows {a} h h1"
    using Params_objects.read_uint32_field [OF s0 ok new, where dispatch = ?d and
        f = "\<lambda>v m. m\<lparr>par_MaxBundleSize := v\<rparr>" and R = R and name = "''Params''" and keep = ?k]
    by (auto simp: Params_cases head zero_Params_def)
  define e where "e = slice_items (par_EscrowAccountAddress m)"
  define m2 where "m2 = ?m1\<lparr>par_EscrowAccountAddress := if e = [] then None else Some e\<rparr>"
  obtain h2 where h2: "?u h1 t1 = ?u h2 t2" "load T_Params h2 (Some a) = Ret m2" "heap_grows {a} h1 h2"
    using Params_objects.read_bytes_field [OF s1 [unfolded t1_def] short tags(1) heap_grows_ok [OF h1(3)] h1(2),
        where dispatch = ?d and f = "\<lambda>bz m. m\<lparr>par_EscrowAccountAddress := Some bz\<rparr>" and R = R and
        name = "''Params''" and keep = ?k]
    by (auto simp: Params_cases t1_def m2_def e_def zero_Params_def)
  have nil: "par_ReserveFee m2 = None" "par_MinBidIncrement m2 = None" by (simp_all add: m2_def zero_Params_def)
  obtain h3 x where h3: "?u h2 t2 = ?u h3 t3" "load T_Params h3 (Some a) = Ret (m2\<lparr>par_ReserveFee := x\<rparr>)"
      "coin_at R discard h3 x r" "heap_grows {a} h2 h3" "\<forall>p. x = Some p \<longrightarrow> next_addr h2 \<le> p"
    using read_coin_field [where dispatch = ?d and field = par_ReserveFee and
        set_field = "\<lambda>p m. m\<lparr>par_ReserveFee := p\<rparr>" and discard = discard and R = R and name = "''Params''" and
        keep = ?k, OF Params_objects.typed_objects_axioms s2 [unfolded t2_def] short tags(2)
        heap_grows_ok [OF h2(3)] h2(2) nil(1)] r nil(1)
    by (cases "r = None") (auto simp: Params_cases t2_def coin_at_def)
  let ?m3 = "m2\<lparr>par_ReserveFee := x\<rparr>"
  have nil3: "par_MinBidIncrement ?m3 = None" using nil(2) by simp
  obtain h4 y where h4: "?u h3 t3 = ?u h4 rest" "load T_Params h4 (Some a) = Ret (?m3\<lparr>par_MinBidIncrement := y\<rparr>)"
      "coin_at R discard h4 y c" "heap_grows {a} h3 h4"
    using read_coin_field [where dispatch = ?d and field = par_MinBidIncrement and
        set_field = "\<lambda>p m. m\<lparr>par_MinBidIncrement := p\<rparr>" and discard = discard and R = R and
        name = "''Params''" and keep = ?k, OF Params_objects.typed_objects_axioms s3 [unfolded t3_def] short tags(3)
        heap_grows_ok [OF h3(4)] h3(2) nil3] c nil3
    by (cases "c = None") (auto simp: Params_cases t3_def coin_at_def)
  have g2: "heap_grows {a} h h2" by (rule heap_grows_trans [OF h1(3) h2(3)])
  have "coin_at R discard h4 x r"
    by (rule coin_at_grows [OF h3(3) heap_grows_ok [OF h3(4)] h4(4)])
      (use h3(5) load_below [OF ok new] g2 in \<open>auto simp: heap_grows_def\<close>)
  moreover have "heap_grows {a} h h4" by (rule heap_grows_trans [OF heap_grows_trans [OF g2 h3(4)] h4(4)])
  moreover have "slice_items (if e = [] then None else Some e) = slice_items (par_EscrowAccountAddress m)"
    by (simp add: e_def)
  ultimately show ?thesis using h1(1) h2(1) h3(1) h4(1,2,3) unfolding m2_def by metis
qed

text \<open>The other fields and the unknown ones.\<close>

lemma Params_read_tail:
  fixes h :: "'c object heap"
  assumes R: "runtime_laws R" and suf: "suffix (Params_tail m) bz" and short: "length bz < 2 ^ 63"
    and raw: "raw_fields Params_numbers (par_unknownFields m)"
    and ok: "heap_ok h" and n: "load T_Params h (Some a) = Ret n"
    and fresh: "\<not> par_FrontRunningProtection n" "par_ProposerFee n = ''''" "par_unknownFields n = []"
  shows "\<exists>h'. Params_reading R discard a bz h (Params_tail m) = Some (Ret h') \<and>
    load T_Params h' (Some a) = Ret (n\<lparr>par_FrontRunningProtection := par_FrontRunningProtection m,
      par_ProposerFee := par_ProposerFee m, par_unknownFields := if discard then [] else par_unknownFields m\<rparr>) \<and>
    heap_grows {a} h h'"
proof -
  define t2 where "t2 = par_unknownFields m"
  define t1 where "t1 = bytes_field (ucast (0x32 :: u64)) (string_bytes (par_ProposerFee m)) @ t2"
  have tail: "Params_tail m = protection_field (par_FrontRunningProtection m) @ t1"
    by (simp add: Params_tail_def t1_def t2_def)
  have s0: "suffix (protection_field (par_FrontRunningProtection m) @ t1) bz" using suf by (simp add: tail)
  have s1: "suffix t1 bz" using s0 by (rule suffix_appendD)
  have s2: "suffix t2 bz" using s1 unfolding t1_def by (rule suffix_appendD)
  let ?d = "fastReflection_Params_fields R discard (Some a)" and ?k = "fastReflection_Params_keep discard (Some a)"
  let ?u = "Params_reading R discard a bz"
  have tag: "short_tag 0x32" by (simp add: short_tag_def)
  let ?n1 = "n\<lparr>par_FrontRunningProtection := par_FrontRunningProtection m\<rparr>"
  obtain h1 where h1: "?u h (Params_tail m) = ?u h1 t1" "load T_Params h1 (Some a) = Ret ?n1" "heap_grows {a} h h1"
    using Params_objects.read_bool_field [OF s0 ok n, where dispatch = ?d and
        f = "\<lambda>b m. m\<lparr>par_FrontRunningProtection := b\<rparr>" and R = R and name = "''Params''" and keep = ?k] fresh(1)
    by (cases n) (auto simp: Params_cases tail)
  let ?n2 = "?n1\<lparr>par_ProposerFee := par_ProposerFee m\<rparr>"
  obtain h2 where h2: "?u h1 t1 = ?u h2 t2" "load T_Params h2 (Some a) = Ret ?n2" "heap_grows {a} h1 h2"
    using Params_objects.read_bytes_field [OF s1 [unfolded t1_def] short tag heap_grows_ok [OF h1(3)] h1(2),
        where dispatch = ?d and f = "\<lambda>bz m. m\<lparr>par_ProposerFee := bytes_string bz\<rparr>" and R = R and
        name = "''Params''" and keep = ?k] fresh(2)
    by (cases n) (auto simp: Params_cases t1_def string_bytes_empty split: if_splits)
  obtain h3 where "?u h2 t2 = Some (Ret h3)" "heap_grows {a} h2 h3"
      "load T_Params h3 (Some a) = Ret (?n2\<lparr>par_unknownFields := if discard then [] else par_unknownFields m\<rparr>)"
    using Params_objects.read_unknown_fields [OF R short, where known = Params_numbers and dispatch = ?d and
        keep = ?k and discard = discard and a = a and name = "''Params''" and
        add = "\<lambda>raw m. m\<lparr>par_unknownFields := par_unknownFields m @ raw\<rparr>", OF _ _ _ _
        raw [folded t2_def] s2 heap_grows_ok [OF h2(3)] h2(2)] fresh(3)
    by (cases n) (auto simp: Params_cases fastReflection_Params_keep_def t2_def)
  then show ?thesis
    using h1(1) h2(1) heap_grows_trans [OF heap_grows_trans [OF h1(3) h2(3)]] by auto
qed

lemma Params_read:
  fixes h :: "'c object heap"
  assumes R: "runtime_laws R" and ok: "heap_ok h" and new: "load T_Params h (Some a) = Ret zero_Params"
    and raw: "raw_fields Params_numbers (par_unknownFields m)" and r: "coin_readable R discard r"
    and c: "coin_readable R discard c" and short: "length (Params_wire m r c) < 2 ^ 63"
  shows "\<exists>h' m'. fastReflection_Params_unmarshal R discard h (Some a) (Params_wire m r c) = Some (Ret h') \<and>
    load T_Params h' (Some a) = Ret m' \<and> Params_read_as R discard h' m' m r c \<and> heap_grows {a} h h'"
proof -
  let ?bz = "Params_wire m r c"
  have suf: "suffix (Params_head m r c (Params_tail m)) ?bz" by (simp add: Params_wire_parts)
  obtain h1 e x y where h1: "Params_reading R discard a ?bz h ?bz = Params_reading R discard a ?bz h1 (Params_tail m)"
    "load T_Params h1 (Some a) = Ret (zero_Params\<lparr>par_MaxBundleSize := par_MaxBundleSize m,
      par_EscrowAccountAddress := e, par_ReserveFee := x, par_MinBidIncrement := y\<rparr>)"
    "slice_items e = slice_items (par_EscrowAccountAddress m)" "coin_at R discard h1 x r" "coin_at R discard h1 y c"
    "heap_grows {a} h h1"
    using Params_read_head [OF suf short ok new r c] unfolding Params_wire_parts [symmetric] by blast
  have tail: "suffix (Params_tail m) ?bz"
    unfolding Params_wire_parts Params_head_def by (simp add: suffix_def)
  obtain h2 where h2: "Params_reading R discard a ?bz h1 (Params_tail m) = Some (Ret h2)"
    "load T_Params h2 (Some a) = Ret (zero_Params\<lparr>par_MaxBundleSize := par_MaxBundleSize m,
      par_EscrowAccountAddress := e, par_ReserveFee := x, par_MinBidIncrement := y,
      par_FrontRunningProtection := par_FrontRunningProtection m, par_ProposerFee := par_ProposerFee m,
      par_unknownFields := if discard then [] else par_unknownFields m\<rparr>)" "heap_grows {a} h1 h2"
    using Params_read_tail [OF R tail short raw heap_grows_ok [OF h1(6)] h1(2), of discard]
    by (auto simp: zero_Params_def)
  have kept: "coin_at R discard h2 z s" if "coin_at R discard h1 z s" for z s
    by (rule coin_at_kept [OF that h2(3) heap_grows_ok [OF h1(6)]]) (metis h1(2) one_type(5))
  have "fastReflection_Params_unmarshal R discard h (Some a) ?bz = Some (Ret h2)"
    using h1(1) h2(1) by (simp add: fastReflection_Params_unmarshal_def unmarshal_reading)
  moreover have "heap_grows {a} h h2" by (rule heap_grows_trans [OF h1(6) h2(3)])
  ultimately show ?thesis
    using h2(2) h1(3) kept h1(4,5) by (auto simp: Params_read_as_def)
qed


subsection \<open>Parameters in another message\<close>

lemma read_params_field:
  fixes h :: "'c object heap" and R :: "'c pulsar_runtime"
  assumes T: "typed_objects T" and R: "runtime_laws R"
    and suf: "suffix (ucast v # length_prefixed (Params_wire m r c) @ rest) dAtA" and short: "length dAtA < 2 ^ 63"
    and tag: "short_tag v" and ok: "heap_ok h" and new: "load T h (Some a) = Ret m0" "field m0 = None"
    and dispatch: "dispatch h (ucast (drop_bit 3 v)) (unat (v AND 7)) = FieldPayload (\<lambda>bz. go_run
      (ensure_message T field set_field T_Params zero_Params h (Some a))
      (\<lambda>(p, h'). optUnmarshal R (fastReflection_Params_unmarshal R discard h' p bz)))"
    and raw: "raw_fields Params_numbers (par_unknownFields m)"
    and r: "coin_readable R discard r" and c: "coin_readable R discard c"
  shows "\<exists>h' p m'. reading R name dispatch keep dAtA h (ucast v # length_prefixed (Params_wire m r c) @ rest) =
      reading R name dispatch keep dAtA h' rest \<and>
    load T h' (Some a) = Ret (set_field (Some p) m0) \<and> load T_Params h' (Some p) = Ret m' \<and>
    Params_read_as R discard h' m' m r c \<and> heap_grows {a} h h' \<and> next_addr h \<le> p"
proof -
  let ?p = "next_addr h"
  from typed_objects.ensure_new [where field = field and set_field = set_field and new_object = zero_Params,
      OF T ok new Params_objects.typed_objects_axioms]
  obtain h1 where h1: "ensure_message T field set_field T_Params zero_Params h (Some a) = Ret (Some ?p, h1)"
    "load T h1 (Some a) = Ret (set_field (Some ?p) m0)" "load T_Params h1 (Some ?p) = Ret zero_Params"
    "heap_grows {a} h h1" "next_addr h1 = Suc ?p" by blast
  have "length (Params_wire m r c) \<le> length (length_prefixed (Params_wire m r c))"
    by (simp add: length_prefixed_def)
  then have "length (Params_wire m r c) < 2 ^ 63"
    using suffix_length_le [OF suf] short by simp
  from Params_read [OF R heap_grows_ok [OF h1(4)] h1(3) raw r c this] obtain h2 m' where
    h2: "fastReflection_Params_unmarshal R discard h1 (Some ?p) (Params_wire m r c) = Some (Ret h2)"
      "load T_Params h2 (Some ?p) = Ret m'" "Params_read_as R discard h2 m' m r c" "heap_grows {?p} h1 h2" by blast
  have "a < ?p" by (rule load_below [OF ok new(1)])
  then have "load T h2 (Some a) = load T h1 (Some a)"
    by (intro heap_grows_load [OF h2(4)]) (use h1(5) in auto)
  moreover have "heap_grows {a} h h2" by (rule heap_grows_nested [OF h1(4) h2(4)]) simp
  moreover have "reading R name dispatch keep dAtA h (ucast v # length_prefixed (Params_wire m r c) @ rest) =
      reading R name dispatch keep dAtA h2 rest"
    by (rule reading_payload [where dispatch = dispatch and h = h, OF suf short tag dispatch])
      (simp add: h1(1) h2(1) runtime_lawsD(7) [OF R])
  ultimately show ?thesis using h1(2) h2(2,3) by auto
qed

end
