(* ===== verification/Pulsar_Round_Trip.thy ===== *)
theory Pulsar_Round_Trip
  imports Pulsar_Wire
begin

text \<open>
  What the writers and the readers of the pulsar API do together: a genesis state that is written and read
  back says the same, and the API agrees on the wire with the gogoproto types of the module.
\<close>

section \<open>Round trip of the genesis state\<close>

text \<open>What a message says, with the messages behind its pointers.\<close>

definition coin_view :: "'c object heap \<Rightarrow> ptr \<Rightarrow> 'c option go" where
  "coin_view h x = (if x = None then Ret None else go_bind (load T_Coin h x) (\<lambda>c. Ret (Some c)))"

definition Params_view ::
    "'c object heap \<Rightarrow> ptr \<Rightarrow> (u32 \<times> bytes \<times> 'c option \<times> 'c option \<times> bool \<times> string \<times> bytes) option go" where
  "Params_view h x =
     (if x = None then Ret None
      else go_bind (load T_Params h x) (\<lambda>m.
        go_bind (coin_view h (par_ReserveFee m)) (\<lambda>r.
        go_bind (coin_view h (par_MinBidIncrement m)) (\<lambda>c.
        Ret (Some (par_MaxBundleSize m, slice_items (par_EscrowAccountAddress m), r, c,
          par_FrontRunningProtection m, par_ProposerFee m, par_unknownFields m))))))"

definition GenesisState_view :: "'c object heap \<Rightarrow> ptr \<Rightarrow> ((u32 \<times> bytes \<times> 'c option \<times> 'c option \<times> bool \<times>
    string \<times> bytes) option \<times> bytes) go" where
  "GenesisState_view h x =
     go_bind (load T_GenesisState h x) (\<lambda>g. go_bind (Params_view h (gs_Params g)) (\<lambda>p.
       Ret (p, gs_unknownFields g)))"

text \<open>
  A pointer to a coin is nil or leads to a coin that its own codec writes and reads back: in as many bytes
  as it announces, into a new coin.
\<close>

definition coin_codec_ok :: "'c pulsar_runtime \<Rightarrow> 'c object heap \<Rightarrow> ptr \<Rightarrow> bool" where
  "coin_codec_ok R h x \<longleftrightarrow> x = None \<or>
     (\<exists>c bz. load T_Coin h x = Ret c \<and> rtCoinMarshal R c = Ret bz \<and> rtCoinSize R c = length bz \<and>
        rtCoinUnmarshal R False (rtCoinNew R) bz = Ret c)"

text \<open>Parameters with such coins, and with unknown fields that are well-formed.\<close>

definition Params_codec_ok :: "'c pulsar_runtime \<Rightarrow> 'c object heap \<Rightarrow> ptr \<Rightarrow> bool" where
  "Params_codec_ok R h x \<longleftrightarrow> x = None \<or>
     (\<exists>m. load T_Params h x = Ret m \<and> raw_fields Params_numbers (par_unknownFields m) \<and>
        coin_codec_ok R h (par_ReserveFee m) \<and> coin_codec_ok R h (par_MinBidIncrement m))"

lemma coin_codec_image:
  assumes "coin_codec_ok R h x"
  obtains r where "message_image x (coin_size R h x) (coin_marshal R h x) r" and "coin_readable R False r"
    and "\<forall>h' y. coin_at R False h' y r \<longrightarrow> coin_view h' y = coin_view h x"
proof (cases x)
  case None
  show thesis by (rule that [of None])
    (use None in \<open>simp_all add: message_image_def coin_readable_def coin_at_def coin_view_def\<close>)
next
  case (Some p)
  with assms obtain c bz where c: "load T_Coin h x = Ret c" "rtCoinMarshal R c = Ret bz"
    "rtCoinSize R c = length bz" "rtCoinUnmarshal R False (rtCoinNew R) bz = Ret c"
    by (auto simp: coin_codec_ok_def)
  show thesis by (rule that [of "Some bz"])
    (use Some c in \<open>auto simp: message_image_def coin_readable_def coin_at_def coin_view_def coin_size_def
      coin_marshal_def\<close>)
qed

lemma wire_coin_codec:
  assumes "wire_laws W" and "load T_Coin h x = Ret (coin_of d a)" and "\<bar>a\<bar> < 2 ^ 255"
  shows "coin_codec_ok (runtime_of W) h x"
proof -
  from assms(1,3) obtain bz where "coinMarshal W (coin_of d a) = Ret bz" "length bz = coinSize W (coin_of d a)"
    "coinUnmarshal W zero_coin bz = Ret (coin_of d a)" unfolding wire_laws_def by blast
  then show ?thesis using assms(2) by (simp add: coin_codec_ok_def runtime_of_def)
qed

lemma Params_read_as_kept:
  assumes "Params_read_as R discard h m' m r c" and "heap_grows {a} h h'" and "heap_ok h"
    and "\<And>c. load T_Coin h (Some a) \<noteq> Ret c"
  shows "Params_read_as R discard h' m' m r c"
  using assms(1) coin_at_kept [OF _ assms(2-4)] by (simp add: Params_read_as_def)

lemma Params_read_view:
  assumes "load T_Params h' (Some q) = Ret m'" and "Params_read_as R False h' m' m r c"
    and "load T_Params h (Some p) = Ret m"
    and "\<forall>h' y. coin_at R False h' y r \<longrightarrow> coin_view h' y = coin_view h (par_ReserveFee m)"
    and "\<forall>h' y. coin_at R False h' y c \<longrightarrow> coin_view h' y = coin_view h (par_MinBidIncrement m)"
  shows "Params_view h' (Some q) = Params_view h (Some p)"
  using assms by (simp add: Params_view_def Params_read_as_def)

abbreviation GenesisState_reading where
  "GenesisState_reading R a bz \<equiv> reading R ''GenesisState'' (fastReflection_GenesisState_fields R False (Some a))
     (fastReflection_GenesisState_keep False (Some a)) bz"

text \<open>
  The parameters of a genesis state, written and read back: \<open>pw\<close> in front of any unknown fields is read into
  a new genesis state whose parameters then say what those at \<open>x\<close> say, and go on saying it.
\<close>

definition genesis_params_read ::
    "'c pulsar_runtime \<Rightarrow> 'c object heap \<Rightarrow> ptr \<Rightarrow> 'c object heap \<Rightarrow> addr \<Rightarrow> bytes option \<Rightarrow> bool" where
  "genesis_params_read R h x h0 a pw \<longleftrightarrow>
     (\<forall>bz raw. suffix (message_field 0xa pw @ raw) bz \<longrightarrow> length bz < 2 ^ 63 \<longrightarrow>
       (\<exists>h1 q. GenesisState_reading R a bz h0 (message_field 0xa pw @ raw) = GenesisState_reading R a bz h1 raw \<and>
         load T_GenesisState h1 (Some a) = Ret (zero_GenesisState\<lparr>gs_Params := q\<rparr>) \<and> heap_grows {a} h0 h1 \<and>
         (\<forall>h2. heap_grows {a} h1 h2 \<longrightarrow> Params_view h2 q = Params_view h x)))"

lemma genesis_params_read_nil:
  assumes "heap_ok h0" and "load T_GenesisState h0 (Some a) = Ret zero_GenesisState"
  shows "genesis_params_read R h None h0 a None"
proof -
  have "load T_GenesisState h0 (Some a) = Ret (zero_GenesisState\<lparr>gs_Params := None\<rparr>)"
    using assms(2) by (simp add: zero_GenesisState_def)
  then show ?thesis
    using heap_grows_refl [OF assms(1)]
    by (auto simp: genesis_params_read_def message_field_def Params_view_def intro!: exI [of _ h0] exI [of _ None])
qed

lemma genesis_params_read_object:
  assumes R: "runtime_laws R" and m: "load T_Params h (Some p) = Ret m"
    and raw: "raw_fields Params_numbers (par_unknownFields m)"
    and r: "coin_readable R False r" "\<forall>h' y. coin_at R False h' y r \<longrightarrow> coin_view h' y = coin_view h (par_ReserveFee m)"
    and c: "coin_readable R False c" "\<forall>h' y. coin_at R False h' y c \<longrightarrow> coin_view h' y = coin_view h (par_MinBidIncrement m)"
    and ok: "heap_ok h0" and new: "load T_GenesisState h0 (Some a) = Ret zero_GenesisState"
  shows "genesis_params_read R h (Some p) h0 a (Some (Params_wire m r c))"
  unfolding genesis_params_read_def
proof (intro allI impI)
  fix bz rest :: bytes
  assume suf: "suffix (message_field 0xa (Some (Params_wire m r c)) @ rest) bz" and short: "length bz < 2 ^ 63"
  have suf': "suffix (ucast (0xa :: u64) # length_prefixed (Params_wire m r c) @ rest) bz"
    using suf by (simp add: message_field_def)
  have nil: "gs_Params zero_GenesisState = None" by (simp add: zero_GenesisState_def)
  have tag: "short_tag 0xa" by (simp add: short_tag_def)
  let ?d = "fastReflection_GenesisState_fields R False (Some a)"
  obtain h1 q m' where h1: "GenesisState_reading R a bz h0 (message_field 0xa (Some (Params_wire m r c)) @ rest) =
      GenesisState_reading R a bz h1 rest"
    "load T_GenesisState h1 (Some a) = Ret (zero_GenesisState\<lparr>gs_Params := Some q\<rparr>)"
    "load T_Params h1 (Some q) = Ret m'" "Params_read_as R False h1 m' m r c" "heap_grows {a} h0 h1"
    using read_params_field [where dispatch = ?d and keep = "fastReflection_GenesisState_keep False (Some a)" and
        name = "''GenesisState''" and field = gs_Params and set_field = "\<lambda>p m. m\<lparr>gs_Params := p\<rparr>" and discard = False,
        OF GenesisState_objects.typed_objects_axioms R suf' short tag ok new nil _ raw r(1) c(1)]
    by (auto simp: message_field_def fastReflection_GenesisState_fields_def
      fastReflection_GenesisState_case_params_def)
  have "Params_view h2 (Some q) = Params_view h (Some p)" if g2: "heap_grows {a} h1 h2" for h2
  proof (rule Params_read_view [OF _ _ m r(2) c(2)])
    have ok1: "heap_ok h1" by (rule heap_grows_ok [OF h1(5)])
    have "q \<noteq> a" using one_type(2) [OF h1(3)] h1(2) by auto
    then show "load T_Params h2 (Some q) = Ret m'"
      using heap_grows_load [OF g2 load_below [OF ok1 h1(3)], of T_Params] h1(3) by simp
    show "Params_read_as R False h2 m' m r c"
      by (rule Params_read_as_kept [OF h1(4) g2 ok1]) (metis h1(2) one_type(1))
  qed
  then show "\<exists>h1 q. GenesisState_reading R a bz h0 (message_field 0xa (Some (Params_wire m r c)) @ rest) =
      GenesisState_reading R a bz h1 rest \<and>
    load T_GenesisState h1 (Some a) = Ret (zero_GenesisState\<lparr>gs_Params := q\<rparr>) \<and> heap_grows {a} h0 h1 \<and>
    (\<forall>h2. heap_grows {a} h1 h2 \<longrightarrow> Params_view h2 q = Params_view h (Some p))"
    using h1 by blast
qed

lemma GenesisState_params_read:
  assumes R: "runtime_laws R" and "Params_codec_ok R h (gs_Params g)"
    and new: "heap_ok h0" "load T_GenesisState h0 (Some a) = Ret zero_GenesisState"
  obtains pw where "message_image (gs_Params g) (optSize R (fastReflection_Params_size R h (gs_Params g)))
      (optMarshal R (fastReflection_Params_marshal R h (gs_Params g) [])) pw"
    and "genesis_params_read R h (gs_Params g) h0 a pw"
proof (cases "gs_Params g")
  case None
  then show thesis using that [of None] genesis_params_read_nil [OF new] by (simp add: message_image_def)
next
  case (Some p)
  with assms(2) obtain m where m: "load T_Params h (Some p) = Ret m" "raw_fields Params_numbers (par_unknownFields m)"
    and coins: "coin_codec_ok R h (par_ReserveFee m)" "coin_codec_ok R h (par_MinBidIncrement m)"
    by (auto simp: Params_codec_ok_def)
  obtain r where r: "message_image (par_ReserveFee m) (coin_size R h (par_ReserveFee m))
      (coin_marshal R h (par_ReserveFee m)) r" "coin_readable R False r"
    "\<forall>h' y. coin_at R False h' y r \<longrightarrow> coin_view h' y = coin_view h (par_ReserveFee m)"
    by (rule coin_codec_image [OF coins(1)])
  obtain c where c: "message_image (par_MinBidIncrement m) (coin_size R h (par_MinBidIncrement m))
      (coin_marshal R h (par_MinBidIncrement m)) c" "coin_readable R False c"
    "\<forall>h' y. coin_at R False h' y c \<longrightarrow> coin_view h' y = coin_view h (par_MinBidIncrement m)"
    by (rule coin_codec_image [OF coins(2)])
  show thesis
    using that [of "Some (Params_wire m r c)"] Params_image [OF R m(1) r(1) c(1)]
      genesis_params_read_object [OF R m r(2,3) c(2,3) new] Some by simp
qed

text \<open>C23: A genesis state of the pulsar API survives a round trip: what \<open>Marshal\<close> writes, \<open>Unmarshal\<close> reads into
  another new message that says the same, the parameters, their coins and the fields that this version
  does not know included.\<close>

theorem pulsar_genesis_roundtrip:
  fixes h h0 :: "'c object heap" and R :: "'c pulsar_runtime"
  assumes "runtime_laws R" and "load T_GenesisState h x = Ret g" and "raw_fields {1} (gs_unknownFields g)"
    and "Params_codec_ok R h (gs_Params g)"
    and "fastReflection_GenesisState_size R h x = Ret n" and "n < 2 ^ 63"
    and "heap_ok h0" and "load T_GenesisState h0 (Some a) = Ret zero_GenesisState"
  shows "\<exists>bz h'. fastReflection_GenesisState_marshal R h x [] = Ret bz \<and> length bz = n \<and>
    fastReflection_GenesisState_unmarshal R False h0 (Some a) bz = Some (Ret h') \<and>
    GenesisState_view h' (Some a) = GenesisState_view h x"
proof -
  note R = assms(1) and g = assms(2)
  let ?d = "fastReflection_GenesisState_fields R False (Some a)"
  let ?k = "fastReflection_GenesisState_keep False (Some a)" and ?u = "GenesisState_reading R a"
  let ?raw = "gs_unknownFields g"
  obtain pw where pw: "message_image (gs_Params g) (optSize R (fastReflection_Params_size R h (gs_Params g)))
      (optMarshal R (fastReflection_Params_marshal R h (gs_Params g) [])) pw"
    and read: "genesis_params_read R h (gs_Params g) h0 a pw"
    by (rule GenesisState_params_read [OF assms(1,4,7,8)])
  define bz where "bz = message_field 0xa pw @ ?raw"
  have n: "length bz = n" using GenesisState_size_wire [OF R g pw] assms(5) by (simp add: bz_def)
  have wr: "fastReflection_GenesisState_marshal R h x [] = Ret bz"
    using GenesisState_marshal_wire [OF R g pw] by (simp add: bz_def)
  have short: "length bz < 2 ^ 63" using n assms(6) by simp
  obtain h1 q where h1: "?u bz h0 bz = ?u bz h1 ?raw"
    "load T_GenesisState h1 (Some a) = Ret (zero_GenesisState\<lparr>gs_Params := q\<rparr>)" "heap_grows {a} h0 h1"
    and view: "\<And>h2. heap_grows {a} h1 h2 \<Longrightarrow> Params_view h2 q = Params_view h (gs_Params g)"
    using read short unfolding genesis_params_read_def bz_def by blast
  have suf: "suffix ?raw bz" unfolding bz_def suffix_def by blast
  obtain h2 where h2: "?u bz h1 ?raw = Some (Ret h2)"
    "load T_GenesisState h2 (Some a) = Ret (zero_GenesisState\<lparr>gs_Params := q, gs_unknownFields := ?raw\<rparr>)"
    "heap_grows {a} h1 h2"
    using GenesisState_objects.read_unknown_fields [OF R short, where known = "{1}" and dispatch = ?d and
        keep = ?k and discard = False and a = a and name = "''GenesisState''" and
        add = "\<lambda>raw m. m\<lparr>gs_unknownFields := gs_unknownFields m @ raw\<rparr>", OF _ _ _ _
        assms(3) suf heap_grows_ok [OF h1(3)] h1(2)]
    by (auto simp: fastReflection_GenesisState_fields_def fastReflection_GenesisState_keep_def zero_GenesisState_def)
  have "fastReflection_GenesisState_unmarshal R False h0 (Some a) bz = Some (Ret h2)"
    using h1(1) h2(1) by (simp add: fastReflection_GenesisState_unmarshal_def unmarshal_reading)
  moreover have "GenesisState_view h2 (Some a) = GenesisState_view h x"
    using g h2(2) view [OF h2(3)] by (simp add: GenesisState_view_def)
  ultimately show ?thesis using wr n by auto
qed

text \<open>A genesis state with a coin that two fields share and a field of a later version.\<close>

definition sample_genesis :: "Coin object heap" where
  "sample_genesis = \<lparr> next_addr = 3, objects =
     [0 \<mapsto> CoinObject (coin_of ''stake'' 2),
      1 \<mapsto> ParamsObject \<lparr> par_MaxBundleSize = 2, par_EscrowAccountAddress = Some [1], par_ReserveFee = Some 0,
        par_MinBidIncrement = Some 0, par_FrontRunningProtection = True, par_ProposerFee = ''0'',
        par_unknownFields = [] \<rparr>,
      2 \<mapsto> GenesisStateObject \<lparr> gs_Params = Some 1, gs_unknownFields = [0x12, 1, 7] \<rparr>] \<rparr>"

lemma raw_payload:
  assumes "short_tag v" and "v AND 7 = 2" and "ucast (drop_bit 3 v) \<notin> known" and "length bz < 2 ^ 62"
    and "raw_fields known raw"
  shows "raw_fields known (ucast v # length_prefixed bz @ raw)"
  using assms(1,3,5) skip_payload [OF _ assms(2,4)] by (intro raw_cons) (auto simp: short_tag_def)

theorem pulsar_genesis_roundtrip_witness:
  "\<exists>bz h'. fastReflection_GenesisState_marshal (runtime_of stroke_wire) sample_genesis (Some 2) [] = Ret bz \<and>
     length bz = 37 \<and>
     fastReflection_GenesisState_unmarshal (runtime_of stroke_wire) False
       \<lparr> next_addr = 1, objects = [0 \<mapsto> GenesisStateObject zero_GenesisState] \<rparr> (Some 0) bz = Some (Ret h') \<and>
     GenesisState_view h' (Some 0) = GenesisState_view sample_genesis (Some 2)"
proof (rule pulsar_genesis_roundtrip [OF runtime_of_laws])
  show "load T_GenesisState sample_genesis (Some 2) = Ret \<lparr> gs_Params = Some 1, gs_unknownFields = [0x12, 1, 7] \<rparr>"
    by (simp add: sample_genesis_def load_def T_GenesisState_def)
  have "raw_fields {1} (ucast (0x12 :: u64) # length_prefixed [7] @ [])"
    by (intro raw_payload raw_nil) (simp_all add: short_tag_def)
  then show "raw_fields {1} (gs_unknownFields \<lparr> gs_Params = Some 1, gs_unknownFields = [0x12, 1, 7] \<rparr>)"
    by (simp add: length_prefixed_def encode_varint.simps word_le_nat_alt)
  have "coin_codec_ok (runtime_of stroke_wire) sample_genesis (Some 0)"
    by (rule wire_coin_codec [OF stroke_wire_laws, of _ _ "''stake''" 2])
      (simp_all add: sample_genesis_def load_def T_Coin_def)
  then show "Params_codec_ok (runtime_of stroke_wire) sample_genesis
      (gs_Params \<lparr> gs_Params = Some 1, gs_unknownFields = [0x12, 1, 7] \<rparr>)"
    by (simp add: Params_codec_ok_def raw_nil) (simp add: sample_genesis_def load_def T_Params_def raw_nil)
  show "fastReflection_GenesisState_size (runtime_of stroke_wire) sample_genesis (Some 2) = Ret 37"
    by (simp add: sample_genesis_def load_def T_GenesisState_def T_Params_def T_Coin_def runtime_of_def
      stroke_wire_def stroke_bytes_def fastReflection_GenesisState_size_def fastReflection_Params_size_def
      size_message_def size_bytes_def coin_size_def field_len_def sov_small)
qed (simp_all add: load_def T_GenesisState_def heap_ok_def)

end
