(* ===== verification/Pulsar_Interop.thy ===== *)
theory Pulsar_Interop
  imports Pulsar_Round_Trip
begin

text \<open>
  The pulsar API and the gogoproto types of the module are generated from the same \<open>.proto\<close> files by two
  generators. A client that builds a bid with the one talks to nodes that run the other. Here the two
  codecs meet: for a bid they write the same bytes and read each other's, and a response to the query of
  the parameters keeps, in the API's unknown fields, the address that the API has no field for.
\<close>

section \<open>Bids\<close>

text \<open>The object at \<open>x\<close> says what the bid \<open>sm\<close> of the module says.\<close>

definition bid_says :: "Coin object heap \<Rightarrow> ptr \<Rightarrow> MsgAuctionBidData \<Rightarrow> bool" where
  "bid_says h x sm \<longleftrightarrow> (\<exists>m. load T_MsgAuctionBid h x = Ret m \<and> bid_Bidder m = MsgBidder sm \<and>
     load T_Coin h (bid_Bid m) = Ret (MsgBid sm) \<and>
     map slice_items (slice_items (bid_Transactions m)) = MsgTransactions sm \<and> bid_unknownFields m = [])"

abbreviation transaction_fields :: "bytes list \<Rightarrow> bytes" where
  "transaction_fields txs \<equiv> foldr (\<lambda>b out. 0x1a # length_prefixed b @ out) txs []"

lemma string_bytes_field: "bytes_field tag (string_bytes s) = string_field tag s"
  by (simp add: bytes_field_def string_field_def string_bytes_empty)

lemma read_transactions:
  fixes h :: "'c object heap" and R :: "'c pulsar_runtime"
  assumes "length dAtA < 2 ^ 63"
  shows "suffix (transaction_fields txs) dAtA \<Longrightarrow> heap_ok h \<Longrightarrow> load T_MsgAuctionBid h (Some a) = Ret m \<Longrightarrow>
    \<exists>h'. reading R nm (fastReflection_MsgAuctionBid_fields R discard (Some a)) keep dAtA h (transaction_fields txs) =
        Some (Ret h') \<and>
      load T_MsgAuctionBid h' (Some a) = Ret (if txs = [] then m else
        m\<lparr>bid_Transactions := Some (slice_items (bid_Transactions m) @ map Some txs)\<rparr>) \<and> heap_grows {a} h h'"
proof (induction txs arbitrary: h m)
  case Nil
  then show ?case by (auto simp: heap_grows_refl)
next
  case (Cons b txs)
  let ?out = "transaction_fields txs"
  let ?m = "m\<lparr>bid_Transactions := Some (slice_items (bid_Transactions m) @ [Some b])\<rparr>"
  let ?d = "fastReflection_MsgAuctionBid_fields R discard (Some a)"
  have suf: "suffix (ucast (0x1a :: u64) # length_prefixed b @ ?out) dAtA" using Cons.prems(1) by simp
  obtain h1 where h1: "update T_MsgAuctionBid h (Some a)
      (\<lambda>m. m\<lparr>bid_Transactions := Some (slice_items (bid_Transactions m) @ [Some b])\<rparr>) = Ret h1"
      "load T_MsgAuctionBid h1 (Some a) = Ret ?m" "heap_grows {a} h h1"
    using MsgAuctionBid_objects.update_heap_grows [OF Cons.prems(2,3)] by blast
  have step: "reading R nm ?d keep dAtA h (ucast (0x1a :: u64) # length_prefixed b @ ?out) =
      reading R nm ?d keep dAtA h1 ?out"
    by (rule reading_payload [where dispatch = ?d and h = h and f = "\<lambda>bz. Some (update T_MsgAuctionBid h (Some a)
      (\<lambda>m. m\<lparr>bid_Transactions := Some (slice_items (bid_Transactions m) @ [Some bz])\<rparr>))", OF suf assms])
      (simp_all add: short_tag_def fastReflection_MsgAuctionBid_fields_def
        fastReflection_MsgAuctionBid_case_transactions_def h1(1))
  from Cons.IH [OF suffix_appendD [OF suffix_ConsD [OF suf]] heap_grows_ok [OF h1(3)] h1(2)] obtain h2 where
    h2: "reading R nm ?d keep dAtA h1 ?out = Some (Ret h2)"
      "load T_MsgAuctionBid h2 (Some a) = Ret (if txs = [] then ?m else
        ?m\<lparr>bid_Transactions := Some (slice_items (bid_Transactions ?m) @ map Some txs)\<rparr>)" "heap_grows {a} h1 h2" by blast
  have "load T_MsgAuctionBid h2 (Some a) =
      Ret (m\<lparr>bid_Transactions := Some (slice_items (bid_Transactions m) @ map Some (b # txs))\<rparr>)"
    using h2(2) by simp
  then show ?case using step h2(1) heap_grows_trans [OF h1(3) h2(3)] by auto
qed

text \<open>The bytes of a bid, from its coin's.\<close>

definition bid_bytes :: "MsgAuctionBidData \<Rightarrow> bytes \<Rightarrow> bytes" where
  "bid_bytes sm c = string_field 0xa (MsgBidder sm) @ 0x12 # length_prefixed c @ transaction_fields (MsgTransactions sm)"

lemma bid_bytes_gogoproto:
  assumes "coinMarshal W (MsgBid sm) = Ret c" and "length c = coinSize W (MsgBid sm)"
  shows "MsgAuctionBid_Marshal W sm = Ret (bid_bytes sm c)"
    and "length (bid_bytes sm c) = MsgAuctionBid_Size W sm"
proof -
  show len: "length (bid_bytes sm c) = MsgAuctionBid_Size W sm"
    using assms(2) length_prefixed_size [of c] length_bundle_fields [of "MsgTransactions sm"]
    by (simp add: bid_bytes_def MsgAuctionBid_Size_def length_string_field)
  show "MsgAuctionBid_Marshal W sm = Ret (bid_bytes sm c)"
    using assms(1) len by (simp add: MsgAuctionBid_Marshal_def MsgAuctionBid_MarshalToSizedBuffer_def
      marshal_sized_exact bid_bytes_def)
qed

lemma bid_bytes_pulsar:
  assumes "coinMarshal W (MsgBid sm) = Ret c" and "length c = coinSize W (MsgBid sm)" and "bid_says h x sm"
  shows "fastReflection_MsgAuctionBid_marshal (runtime_of W) h x buf = Ret (buf @ bid_bytes sm c)"
proof -
  obtain m where m: "load T_MsgAuctionBid h x = Ret m" "bid_Bidder m = MsgBidder sm"
    "load T_Coin h (bid_Bid m) = Ret (MsgBid sm)"
    "map slice_items (slice_items (bid_Transactions m)) = MsgTransactions sm" "bid_unknownFields m = []"
    using assms(3) by (auto simp: bid_says_def)
  have "bid_Bid m \<noteq> None" using m(3) by (cases "bid_Bid m") auto
  then have "message_image (bid_Bid m) (coin_size (runtime_of W) h (bid_Bid m))
      (coin_marshal (runtime_of W) h (bid_Bid m)) (Some c)"
    using assms(1,2) m(3) by (simp add: message_image_def coin_size_def coin_marshal_def runtime_of_def)
  moreover have "MsgAuctionBid_wire m (Some c) = bid_bytes sm c"
    using m(2,4,5) by (simp add: MsgAuctionBid_wire_def bid_bytes_def message_field_def string_bytes_field
      foldr_map comp_def flip: m(4))
  ultimately show ?thesis using MsgAuctionBid_marshal_wire(2) [OF runtime_of_laws m(1)] by metis
qed

lemma bid_bytes_read:
  fixes h :: "Coin object heap"
  assumes "coinUnmarshal W zero_coin c = Ret (MsgBid sm)" and short: "length (bid_bytes sm c) < 2 ^ 63"
    and ok: "heap_ok h" and new: "load T_MsgAuctionBid h (Some a) = Ret zero_MsgAuctionBid"
  shows "\<exists>h'. fastReflection_MsgAuctionBid_unmarshal (runtime_of W) discard h (Some a) (bid_bytes sm c) =
    Some (Ret h') \<and> bid_says h' (Some a) sm"
proof -
  let ?R = "runtime_of W" and ?bz = "bid_bytes sm c"
  let ?d = "fastReflection_MsgAuctionBid_fields ?R discard (Some a)"
  let ?k = "fastReflection_MsgAuctionBid_keep discard (Some a)"
  let ?u = "reading ?R ''MsgAuctionBid'' ?d ?k ?bz"
  define t2 where "t2 = transaction_fields (MsgTransactions sm)"
  define t1 where "t1 = message_field (ucast (0x12 :: u64)) (Some c) @ t2"
  define s where "s = string_bytes (MsgBidder sm)"
  have bz: "?bz = bytes_field (ucast (0xa :: u64)) s @ t1"
    by (simp add: bid_bytes_def t1_def t2_def s_def message_field_def string_bytes_field)
  then have bz': "bytes_field 0xa s @ t1 = ?bz" by simp
  have s0: "suffix (bytes_field (ucast (0xa :: u64)) s @ t1) ?bz" by (simp add: bz)
  have s1: "suffix t1 ?bz" using s0 by (rule suffix_appendD)
  have s2: "suffix t2 ?bz" using s1 unfolding t1_def by (rule suffix_appendD)
  have tags: "short_tag 0xa" "short_tag 0x12" by (simp_all add: short_tag_def)
  note cases = fastReflection_MsgAuctionBid_fields_def fastReflection_MsgAuctionBid_case_bidder_def
    fastReflection_MsgAuctionBid_case_bid_def
  define m1 where "m1 = (if s = [] then zero_MsgAuctionBid else zero_MsgAuctionBid\<lparr>bid_Bidder := bytes_string s\<rparr>)"
  obtain h1 where h1: "?u h ?bz = ?u h1 t1" "load T_MsgAuctionBid h1 (Some a) = Ret m1" "heap_grows {a} h h1"
    using MsgAuctionBid_objects.read_bytes_field [OF s0 short tags(1) ok new, where dispatch = ?d and
        f = "\<lambda>bz m. m\<lparr>bid_Bidder := bytes_string bz\<rparr>" and R = ?R and name = "''MsgAuctionBid''" and keep = ?k]
    by (auto simp: cases m1_def bz')
  have n: "bid_Bid m1 = None" by (simp add: m1_def zero_MsgAuctionBid_def)
  have c: "coin_readable ?R discard (Some c)" using assms(1) by (simp add: coin_readable_def runtime_of_def)
  obtain h2 y where h2: "?u h1 t1 = ?u h2 t2" "load T_MsgAuctionBid h2 (Some a) = Ret (m1\<lparr>bid_Bid := y\<rparr>)"
      "coin_at ?R discard h2 y (Some c)" "heap_grows {a} h1 h2"
    using read_coin_field [where dispatch = ?d and field = bid_Bid and set_field = "\<lambda>p m. m\<lparr>bid_Bid := p\<rparr>" and
        discard = discard and R = ?R and name = "''MsgAuctionBid''" and keep = ?k,
        OF MsgAuctionBid_objects.typed_objects_axioms s1 [unfolded t1_def] short tags(2) heap_grows_ok [OF h1(3)] h1(2) n _ c]
    by (auto simp: cases t1_def)
  from read_transactions [OF short s2 [unfolded t2_def] heap_grows_ok [OF h2(4)] h2(2)] obtain h3 m3 where
    h3: "?u h2 t2 = Some (Ret h3)" "load T_MsgAuctionBid h3 (Some a) = Ret m3" "heap_grows {a} h2 h3" and
    m3: "m3 = (if MsgTransactions sm = [] then m1\<lparr>bid_Bid := y\<rparr> else (m1\<lparr>bid_Bid := y\<rparr>)
      \<lparr>bid_Transactions := Some (slice_items (bid_Transactions (m1\<lparr>bid_Bid := y\<rparr>)) @ map Some (MsgTransactions sm))\<rparr>)"
    unfolding t2_def by blast
  have "coin_at ?R discard h3 y (Some c)"
    by (rule coin_at_kept [OF h2(3) h3(3) heap_grows_ok [OF h2(4)]])
      (use h2(2) in \<open>auto simp: load_def T_Coin_def T_MsgAuctionBid_def split: option.splits object.splits\<close>)
  then have "load T_Coin h3 y = Ret (MsgBid sm)" using assms(1) by (simp add: coin_at_def runtime_of_def)
  then have "bid_says h3 (Some a) sm"
    using h3(2) by (auto simp: bid_says_def m3 m1_def zero_MsgAuctionBid_def s_def string_bytes_empty comp_def)
  then show ?thesis
    using h1(1) h2(1) h3(1) by (auto simp: fastReflection_MsgAuctionBid_unmarshal_def unmarshal_reading)
qed

text \<open>C21: For a bid with an amount, the pulsar API and the module's own types write the same bytes, whatever
  heap the API's object is in, and each reads the bid back from them.\<close>

theorem pulsar_bid_as_gogoproto:
  assumes "wire_laws W" and "Amount (MsgBid sm) = Some a" and "\<bar>a\<bar> < 2 ^ 255"
    and "MsgAuctionBid_Size W sm < 2 ^ 63"
    and "heap_ok h0" and "load T_MsgAuctionBid h0 (Some p) = Ret zero_MsgAuctionBid"
  shows "\<exists>bz h'. MsgAuctionBid_Marshal W sm = Ret bz \<and>
    (\<forall>h x. bid_says h x sm \<longrightarrow> fastReflection_MsgAuctionBid_marshal (runtime_of W) h x [] = Ret bz) \<and>
    MsgAuctionBid_Unmarshal W zero_bid bz = Ret sm \<and>
    fastReflection_MsgAuctionBid_unmarshal (runtime_of W) discard h0 (Some p) bz = Some (Ret h') \<and>
    bid_says h' (Some p) sm"
proof -
  obtain c where c: "coinMarshal W (MsgBid sm) = Ret c" "length c = coinSize W (MsgBid sm)"
      "coinUnmarshal W zero_coin c = Ret (MsgBid sm)"
    using wire_lawsD(1) [OF assms(1,3,2)] by blast
  have "MsgAuctionBid_Unmarshal W zero_bid (bid_bytes sm c) = Ret sm"
    using MsgAuctionBid_roundtrip [OF assms(1-4)] bid_bytes_gogoproto(1) [OF c(1,2)] by auto
  moreover obtain h' where "fastReflection_MsgAuctionBid_unmarshal (runtime_of W) discard h0 (Some p) (bid_bytes sm c) =
      Some (Ret h')" "bid_says h' (Some p) sm"
    using bid_bytes_read [OF c(3) _ assms(5,6)] bid_bytes_gogoproto(2) [OF c(1,2)] assms(4) by metis
  ultimately show ?thesis using bid_bytes_gogoproto(1) [OF c(1,2)] bid_bytes_pulsar [OF c(1,2)] by auto
qed


text \<open>A bid in the heap of a client, and the same bid as the module's type.\<close>

definition sample_client_bid :: MsgAuctionBidData where
  "sample_client_bid = \<lparr> MsgBidder = ''ann'', MsgBid = coin_of ''stake'' 2, MsgTransactions = [[1, 2], []] \<rparr>"

definition sample_client_heap :: "Coin object heap" where
  "sample_client_heap = \<lparr> next_addr = 2, objects =
     [0 \<mapsto> CoinObject (coin_of ''stake'' 2),
      1 \<mapsto> MsgAuctionBidObject \<lparr> bid_Bidder = ''ann'', bid_Bid = Some 0, bid_Transactions = Some [Some [1, 2], None],
        bid_unknownFields = [] \<rparr>] \<rparr>"

theorem pulsar_bid_as_gogoproto_witness:
  "\<exists>bz h'. MsgAuctionBid_Marshal stroke_wire sample_client_bid = Ret bz \<and>
    fastReflection_MsgAuctionBid_marshal (runtime_of stroke_wire) sample_client_heap (Some 1) [] = Ret bz \<and>
    MsgAuctionBid_Unmarshal stroke_wire zero_bid bz = Ret sample_client_bid \<and>
    fastReflection_MsgAuctionBid_unmarshal (runtime_of stroke_wire) False
      \<lparr> next_addr = 1, objects = [0 \<mapsto> MsgAuctionBidObject zero_MsgAuctionBid] \<rparr> (Some 0) bz = Some (Ret h') \<and>
    bid_says h' (Some 0) sample_client_bid"
proof -
  let ?h0 = "\<lparr> next_addr = 1, objects = [0 \<mapsto> MsgAuctionBidObject zero_MsgAuctionBid] \<rparr> :: Coin object heap"
  have says: "bid_says sample_client_heap (Some 1) sample_client_bid"
    by (simp add: bid_says_def sample_client_heap_def sample_client_bid_def load_def T_MsgAuctionBid_def T_Coin_def)
  have amount: "Amount (MsgBid sample_client_bid) = Some 2" by (simp add: sample_client_bid_def)
  have size: "MsgAuctionBid_Size stroke_wire sample_client_bid < 2 ^ 63"
    by (simp add: sample_client_bid_def MsgAuctionBid_Size_def string_field_size_def field_size_def sov_small
      stroke_wire_def stroke_bytes_def)
  have h0: "heap_ok ?h0" "load T_MsgAuctionBid ?h0 (Some 0) = Ret zero_MsgAuctionBid"
    by (simp_all add: heap_ok_def load_def T_MsgAuctionBid_def)
  show ?thesis
    using pulsar_bid_as_gogoproto [OF stroke_wire_laws amount _ size h0, of False] says by auto
qed

section \<open>The response to the query of the parameters\<close>

text \<open>The object at \<open>x\<close> says what the parameters \<open>p\<close> of the module say; the fee is its text.\<close>

definition params_say :: "wire_ops \<Rightarrow> Coin object heap \<Rightarrow> ptr \<Rightarrow> Params \<Rightarrow> bool" where
  "params_say W h x p \<longleftrightarrow> (\<exists>m. load T_Params h x = Ret m \<and> par_MaxBundleSize m = MaxBundleSize p \<and>
     slice_items (par_EscrowAccountAddress m) = slice_items (EscrowAccountAddress p) \<and>
     load T_Coin h (par_ReserveFee m) = Ret (ReserveFee p) \<and>
     load T_Coin h (par_MinBidIncrement m) = Ret (MinBidIncrement p) \<and>
     par_FrontRunningProtection m = FrontRunningProtection p \<and>
     decMarshal W (ProposerFee p) = Ret (string_bytes (par_ProposerFee m)) \<and> par_unknownFields m = [])"

lemma escrow_bytes_field: "escrow_field v = bytes_field 0x12 (slice_items v)"
  by (simp add: escrow_field_def bytes_field_def split: option.split)

text \<open>The bytes of storable parameters are those of an object of the API without unknown fields.\<close>

lemma storable_Params_wire:
  assumes "wire_laws W" and "storable p" and "decMarshal W (ProposerFee p) \<noteq> Ret []"
  obtains m r c where "coinMarshal W (ReserveFee p) = Ret r" and "length r = coinSize W (ReserveFee p)"
    and "coinUnmarshal W zero_coin r = Ret (ReserveFee p)"
    and "coinMarshal W (MinBidIncrement p) = Ret c" and "length c = coinSize W (MinBidIncrement p)"
    and "coinUnmarshal W zero_coin c = Ret (MinBidIncrement p)"
    and "decMarshal W (ProposerFee p) = Ret (string_bytes (par_ProposerFee m))"
    and "par_MaxBundleSize m = MaxBundleSize p" and "par_EscrowAccountAddress m = EscrowAccountAddress p"
    and "par_FrontRunningProtection m = FrontRunningProtection p" and "par_unknownFields m = []"
    and "Params_MarshalToSizedBuffer W p = Ret (Params_wire m (Some r) (Some c))"
proof -
  from assms(2) obtain a b x where "Amount (ReserveFee p) = Some a" "\<bar>a\<bar> < 2 ^ 255"
    "Amount (MinBidIncrement p) = Some b" "\<bar>b\<bar> < 2 ^ 255" "ProposerFee p = Dec x" "\<bar>x\<bar> < 2 ^ 255"
    by (auto simp: storable_def)
  with wire_lawsD [OF assms(1)] obtain r c d where
    r: "coinMarshal W (ReserveFee p) = Ret r" "length r = coinSize W (ReserveFee p)"
      "coinUnmarshal W zero_coin r = Ret (ReserveFee p)" and
    c: "coinMarshal W (MinBidIncrement p) = Ret c" "length c = coinSize W (MinBidIncrement p)"
      "coinUnmarshal W zero_coin c = Ret (MinBidIncrement p)" and
    d: "decMarshal W (ProposerFee p) = Ret d" "length d = decSize W (ProposerFee p)"
    by metis
  let ?m = "\<lparr> par_MaxBundleSize = MaxBundleSize p, par_EscrowAccountAddress = EscrowAccountAddress p,
    par_ReserveFee = None, par_MinBidIncrement = None, par_FrontRunningProtection = FrontRunningProtection p,
    par_ProposerFee = bytes_string d, par_unknownFields = [] \<rparr>"
  have nonempty: "d \<noteq> []" using assms(3) d(1) by auto
  then have "bytes_string d \<noteq> []" using string_bytes_empty [of "bytes_string d"] by simp
  then have "Params_MarshalToSizedBuffer W p = Ret (Params_wire ?m (Some r) (Some c))"
    using r c d(1) nonempty by (simp add: Params_MarshalToSizedBuffer_def Let_def length_prefixed_def Params_wire_def d(2) [symmetric]
      escrow_bytes_field message_field_def bytes_field_def)
  then show thesis using that [of r c ?m] r c d(1) by simp
qed


text \<open>Parameters that were read say what the module's say, and are written as before.\<close>

lemma params_say_read:
  assumes "load T_Params h x = Ret m'" and "Params_read_as (runtime_of W) discard h m' m (Some r) (Some c)"
    and "coinMarshal W (ReserveFee p) = Ret r" and "length r = coinSize W (ReserveFee p)"
    and "coinUnmarshal W zero_coin r = Ret (ReserveFee p)"
    and "coinMarshal W (MinBidIncrement p) = Ret c" and "length c = coinSize W (MinBidIncrement p)"
    and "coinUnmarshal W zero_coin c = Ret (MinBidIncrement p)"
    and "decMarshal W (ProposerFee p) = Ret (string_bytes (par_ProposerFee m))"
    and "par_MaxBundleSize m = MaxBundleSize p" and "par_EscrowAccountAddress m = EscrowAccountAddress p"
    and "par_FrontRunningProtection m = FrontRunningProtection p" and "par_unknownFields m = []"
  shows "params_say W h x p"
    and "message_image x (optSize (runtime_of W) (fastReflection_Params_size (runtime_of W) h x))
      (optMarshal (runtime_of W) (fastReflection_Params_marshal (runtime_of W) h x [])) (Some (Params_wire m (Some r) (Some c)))"
proof -
  have r: "load T_Coin h (par_ReserveFee m') = Ret (ReserveFee p)" "par_ReserveFee m' \<noteq> None"
    and c: "load T_Coin h (par_MinBidIncrement m') = Ret (MinBidIncrement p)" "par_MinBidIncrement m' \<noteq> None"
    using assms(2,5,8) by (auto simp: Params_read_as_def coin_at_def runtime_of_def)
  show "params_say W h x p"
    using assms(1,2,9-13) r(1) c(1) by (simp add: params_say_def Params_read_as_def)
  have "message_image (par_ReserveFee m') (coin_size (runtime_of W) h (par_ReserveFee m'))
      (coin_marshal (runtime_of W) h (par_ReserveFee m')) (Some r)"
    using r assms(3,4) by (simp add: message_image_def coin_size_def coin_marshal_def runtime_of_def)
  moreover have "message_image (par_MinBidIncrement m') (coin_size (runtime_of W) h (par_MinBidIncrement m'))
      (coin_marshal (runtime_of W) h (par_MinBidIncrement m')) (Some c)"
    using c assms(6,7) by (simp add: message_image_def coin_size_def coin_marshal_def runtime_of_def)
  moreover have "Params_wire m' (Some r) (Some c) = Params_wire m (Some r) (Some c)"
    using assms(2,13) by (simp add: Params_wire_def Params_read_as_def)
  ultimately show "message_image x (optSize (runtime_of W) (fastReflection_Params_size (runtime_of W) h x))
      (optMarshal (runtime_of W) (fastReflection_Params_marshal (runtime_of W) h x [])) (Some (Params_wire m (Some r) (Some c)))"
    using Params_image [OF runtime_of_laws assms(1)] by metis
qed

lemma raw_string_field:
  assumes "length s < 2 ^ 62" and "2 \<notin> known"
  shows "raw_fields known (string_field 0x12 s)"
proof (cases "s = []")
  case False
  have "raw_fields known (ucast (0x12 :: u64) # length_prefixed (string_bytes s) @ [])"
    by (rule raw_payload) (use assms in \<open>simp_all add: short_tag_def raw_nil\<close>)
  then show ?thesis using False by (simp add: string_field_def)
qed (simp add: string_field_def raw_nil)

lemma QueryParamsResponse_bytes:
  assumes "wire_laws W" and "storable (RespParams r)" and "Params_MarshalToSizedBuffer W (RespParams r) = Ret p"
  shows "QueryParamsResponse_Marshal W r =
      Ret (0xa # length_prefixed p @ string_field 0x12 (EscrowAddressString r))"
    and "length (0xa # length_prefixed p @ string_field 0x12 (EscrowAddressString r)) = QueryParamsResponse_Size W r"
proof -
  have "length p = Params_Size W (RespParams r)"
    using Params_encoding [OF assms(1,2)] assms(3) by (metis go.inject(1))
  then show len: "length (0xa # length_prefixed p @ string_field 0x12 (EscrowAddressString r)) =
      QueryParamsResponse_Size W r"
    using length_prefixed_size [of p] by (simp add: QueryParamsResponse_Size_def length_string_field)
  show "QueryParamsResponse_Marshal W r =
      Ret (0xa # length_prefixed p @ string_field 0x12 (EscrowAddressString r))"
    using assms(3) len by (simp add: QueryParamsResponse_Marshal_def QueryParamsResponse_MarshalToSizedBuffer_def
      marshal_sized_exact)
qed

lemma QueryParamsResponse_read:
  fixes h0 :: "'c object heap" and R :: "'c pulsar_runtime"
  assumes R: "runtime_laws R" and m: "par_unknownFields m = []"
    and readable: "coin_readable R False r" "coin_readable R False c" and s: "length s < 2 ^ 62"
    and short: "length bz < 2 ^ 63" and bz: "bz = 0xa # length_prefixed (Params_wire m r c) @ string_field 0x12 s"
    and ok: "heap_ok h0" and new: "load T_QueryParamsResponse h0 (Some a) = Ret zero_QueryParamsResponse"
  shows "\<exists>h' q m'. fastReflection_QueryParamsResponse_unmarshal R False h0 (Some a) bz = Some (Ret h') \<and>
    load T_QueryParamsResponse h' (Some a) =
      Ret \<lparr> qresp_Params = Some q, qresp_unknownFields = string_field 0x12 s \<rparr> \<and>
    load T_Params h' (Some q) = Ret m' \<and> Params_read_as R False h' m' m r c"
proof -
  let ?d = "fastReflection_QueryParamsResponse_fields R False (Some a)"
  let ?k = "fastReflection_QueryParamsResponse_keep False (Some a)"
  let ?u = "reading R ''QueryParamsResponse'' ?d ?k bz" and ?raw = "string_field 0x12 s"
  have suf: "suffix (ucast (0xa :: u64) # length_prefixed (Params_wire m r c) @ ?raw) bz" by (simp add: bz)
  have raw: "raw_fields Params_numbers (par_unknownFields m)" by (simp add: m raw_nil)
  have tag: "short_tag 0xa" by (simp add: short_tag_def)
  have nil: "qresp_Params zero_QueryParamsResponse = None" by (simp add: zero_QueryParamsResponse_def)
  obtain h1 q m' where h1: "?u h0 bz = ?u h1 ?raw"
    "load T_QueryParamsResponse h1 (Some a) = Ret (zero_QueryParamsResponse\<lparr>qresp_Params := Some q\<rparr>)"
    "load T_Params h1 (Some q) = Ret m'" "Params_read_as R False h1 m' m r c" "heap_grows {a} h0 h1"
    using read_params_field [where dispatch = ?d and keep = ?k and name = "''QueryParamsResponse''" and
        field = qresp_Params and set_field = "\<lambda>p m. m\<lparr>qresp_Params := p\<rparr>" and discard = False,
        OF QueryParamsResponse_objects.typed_objects_axioms R suf short tag ok new nil _ raw readable]
    by (auto simp: bz fastReflection_QueryParamsResponse_fields_def
      fastReflection_QueryParamsResponse_case_params_def)
  have "raw_fields {1} ?raw" by (rule raw_string_field [OF s]) simp
  moreover have "suffix ?raw bz" using suf by (rule suffix_appendD [OF suffix_ConsD])
  ultimately obtain h2 where h2: "?u h1 ?raw = Some (Ret h2)" "load T_QueryParamsResponse h2 (Some a) =
      Ret \<lparr> qresp_Params = Some q, qresp_unknownFields = ?raw \<rparr>" "heap_grows {a} h1 h2"
    using QueryParamsResponse_objects.read_unknown_fields [OF R short, where known = "{1}" and
        dispatch = ?d and keep = ?k and discard = False and a = a and name = "''QueryParamsResponse''" and
        add = "\<lambda>raw m. m\<lparr>qresp_unknownFields := qresp_unknownFields m @ raw\<rparr>", OF _ _ _ _ _ _ heap_grows_ok [OF h1(5)] h1(2)]
    by (auto simp: fastReflection_QueryParamsResponse_fields_def fastReflection_QueryParamsResponse_keep_def
      zero_QueryParamsResponse_def)
  have ok1: "heap_ok h1" by (rule heap_grows_ok [OF h1(5)])
  have "q \<noteq> a" using one_type(4) [OF h1(3)] h1(2) by auto
  then have "load T_Params h2 (Some q) = Ret m'"
    using heap_grows_load [OF h2(3) load_below [OF ok1 h1(3)], of T_Params] h1(3) by simp
  moreover have "Params_read_as R False h2 m' m r c"
    by (rule Params_read_as_kept [OF h1(4) h2(3) ok1]) (metis h1(2) one_type(3))
  moreover have "fastReflection_QueryParamsResponse_unmarshal R False h0 (Some a) bz = Some (Ret h2)"
    using h1(1) h2(1) by (simp add: fastReflection_QueryParamsResponse_unmarshal_def unmarshal_reading)
  ultimately show ?thesis using h2(2) by blast
qed

text \<open>C22: A response to the query of the parameters, as a node writes it, is read by the pulsar API without loss:
  the object says what the parameters say, the escrow address, for which the API has no field, is kept among
  the unknown fields, and writing the object gives the node's bytes again.\<close>

theorem pulsar_keeps_escrow_address:
  assumes "wire_laws W" and "storable (RespParams r)" and "decMarshal W (ProposerFee (RespParams r)) \<noteq> Ret []"
    and "QueryParamsResponse_Size W r < 2 ^ 62"
    and "heap_ok h0" and "load T_QueryParamsResponse h0 (Some a) = Ret zero_QueryParamsResponse"
  shows "\<exists>bz h' q. QueryParamsResponse_Marshal W r = Ret bz \<and>
    fastReflection_QueryParamsResponse_unmarshal (runtime_of W) False h0 (Some a) bz = Some (Ret h') \<and>
    load T_QueryParamsResponse h' (Some a) = Ret q \<and> params_say W h' (qresp_Params q) (RespParams r) \<and>
    qresp_unknownFields q = string_field 0x12 (EscrowAddressString r) \<and>
    fastReflection_QueryParamsResponse_marshal (runtime_of W) h' (Some a) [] = Ret bz"
proof -
  let ?p = "RespParams r" and ?R = "runtime_of W"
  obtain m f c where m: "coinMarshal W (ReserveFee ?p) = Ret f" "length f = coinSize W (ReserveFee ?p)"
    "coinUnmarshal W zero_coin f = Ret (ReserveFee ?p)" "coinMarshal W (MinBidIncrement ?p) = Ret c"
    "length c = coinSize W (MinBidIncrement ?p)" "coinUnmarshal W zero_coin c = Ret (MinBidIncrement ?p)"
    "decMarshal W (ProposerFee ?p) = Ret (string_bytes (par_ProposerFee m))"
    "par_MaxBundleSize m = MaxBundleSize ?p" "par_EscrowAccountAddress m = EscrowAccountAddress ?p"
    "par_FrontRunningProtection m = FrontRunningProtection ?p" "par_unknownFields m = []"
    and body: "Params_MarshalToSizedBuffer W ?p = Ret (Params_wire m (Some f) (Some c))"
    by (rule storable_Params_wire [OF assms(1-3)])
  let ?pw = "Params_wire m (Some f) (Some c)" and ?raw = "string_field 0x12 (EscrowAddressString r)"
  define bz where "bz = 0xa # length_prefixed ?pw @ ?raw"
  note node = QueryParamsResponse_bytes [OF assms(1,2) body, folded bz_def]
  have short: "length bz < 2 ^ 63" using node(2) assms(4) by simp
  have readable: "coin_readable ?R False (Some f)" "coin_readable ?R False (Some c)"
    using m(3,6) by (simp_all add: coin_readable_def runtime_of_def)
  have "length (EscrowAddressString r) < 2 ^ 62"
    using assms(4) by (simp add: QueryParamsResponse_Size_def string_field_size_def field_size_def split: if_splits)
  from QueryParamsResponse_read [OF runtime_of_laws m(11) readable this short bz_def assms(5,6)] obtain h' q m' where
    h': "fastReflection_QueryParamsResponse_unmarshal ?R False h0 (Some a) bz = Some (Ret h')"
    "load T_QueryParamsResponse h' (Some a) = Ret \<lparr> qresp_Params = Some q, qresp_unknownFields = ?raw \<rparr>"
    and m': "load T_Params h' (Some q) = Ret m'" "Params_read_as ?R False h' m' m (Some f) (Some c)" by blast
  note says = params_say_read [OF m' m]
  have "fastReflection_QueryParamsResponse_marshal ?R h' (Some a) [] = Ret bz"
    using QueryParamsResponse_marshal_wire [OF runtime_of_laws h'(2), where p = "Some ?pw"] says(2)
    by (simp add: bz_def message_field_def)
  then show ?thesis using node(1) h' says(1) by auto
qed

definition sample_response :: QueryParamsResponse where
  "sample_response = \<lparr> RespParams = NewParams 2 (Some [1]) (coin_of ''stake'' 1) (coin_of ''stake'' 1) True (Dec 0),
     EscrowAddressString = ''esc'' \<rparr>"

theorem pulsar_keeps_escrow_address_witness:
  "\<exists>bz h' q. QueryParamsResponse_Marshal stroke_wire sample_response = Ret bz \<and>
    fastReflection_QueryParamsResponse_unmarshal (runtime_of stroke_wire) False
      \<lparr> next_addr = 1, objects = [0 \<mapsto> QueryParamsResponseObject zero_QueryParamsResponse] \<rparr> (Some 0) bz =
      Some (Ret h') \<and>
    load T_QueryParamsResponse h' (Some 0) = Ret q \<and>
    params_say stroke_wire h' (qresp_Params q) (RespParams sample_response) \<and>
    qresp_unknownFields q = string_field 0x12 (EscrowAddressString sample_response) \<and>
    fastReflection_QueryParamsResponse_marshal (runtime_of stroke_wire) h' (Some 0) [] = Ret bz"
  by (rule pulsar_keeps_escrow_address [OF stroke_wire_laws])
    (simp_all add: sample_response_def NewParams_def storable_def QueryParamsResponse_Size_def Params_Size_def
      string_field_size_def field_size_def sov_small stroke_wire_def stroke_bytes_def heap_ok_def load_def
      T_QueryParamsResponse_def)

end
