(* ===== verification/Pulsar_Tx.thy ===== *)
theory Pulsar_Tx
  imports Pulsar_Messages
begin

text \<open>
  The list of the bid's transactions and the reflection methods of the four messages of
  \<open>api/sdk/auction/v1/tx.pulsar.go\<close>,
  with their contract. The capacity of a slice is not modelled: \<open>Truncate\<close>
  beyond the length, which the interface forbids, panics here.
\<close>

section \<open>The list of transactions\<close>

text \<open>The slice variable behind a list: \<open>&x.Transactions\<close>, or a variable made by \<open>NewField\<close>.\<close>

definition load_slice :: "'c object heap \<Rightarrow> slice_ref \<Rightarrow> bytes option list option go" where
  "load_slice h r =
     (case r of FieldRef a \<Rightarrow> go_bind (load T_MsgAuctionBid h (Some a)) (\<lambda>m. Ret (bid_Transactions m))
      | VarRef a \<Rightarrow> load T_Slice h (Some a))"

definition store_slice :: "'c object heap \<Rightarrow> slice_ref \<Rightarrow> bytes option list option \<Rightarrow>
    'c object heap go" where
  "store_slice h r xs =
     (case r of FieldRef a \<Rightarrow> update T_MsgAuctionBid h (Some a) (\<lambda>m. m\<lparr>bid_Transactions := xs\<rparr>)
      | VarRef a \<Rightarrow> store T_Slice h (Some a) xs)"

definition MsgAuctionBid_3_list_Len :: "'c object heap \<Rightarrow> slice_ref option \<Rightarrow> nat go" where
  "MsgAuctionBid_3_list_Len h l =
     (case l of None \<Rightarrow> Ret 0 | Some r \<Rightarrow> go_bind (load_slice h r) (\<lambda>xs. Ret (length (slice_items xs))))"

text \<open>Indexing out of range panics, and so does every other use of a nil slice variable.\<close>

definition MsgAuctionBid_3_list_Get :: "'v value_ops \<Rightarrow> 'c object heap \<Rightarrow> slice_ref option \<Rightarrow> int \<Rightarrow>
    'v go" where
  "MsgAuctionBid_3_list_Get V h l i =
     (case l of None \<Rightarrow> Panic
      | Some r \<Rightarrow> go_bind (load_slice h r) (\<lambda>xs.
          if 0 \<le> i \<and> i < int (length (slice_items xs)) then Ret (ValueOfBytes V (slice_items xs ! nat
              i))
          else Panic))"

definition MsgAuctionBid_3_list_Set ::
    "'v value_ops \<Rightarrow> 'c object heap \<Rightarrow> slice_ref option \<Rightarrow> int \<Rightarrow> 'v \<Rightarrow> 'c object heap go" where
  "MsgAuctionBid_3_list_Set V h l i v =
     go_bind (Value_Bytes V v) (\<lambda>b.
       case l of None \<Rightarrow> Panic
       | Some r \<Rightarrow> go_bind (load_slice h r) (\<lambda>xs.
           if 0 \<le> i \<and> i < int (length (slice_items xs))
           then store_slice h r (Some ((slice_items xs)[nat i := b])) else Panic))"

definition MsgAuctionBid_3_list_Append ::
    "'v value_ops \<Rightarrow> 'c object heap \<Rightarrow> slice_ref option \<Rightarrow> 'v \<Rightarrow> 'c object heap go" where
  "MsgAuctionBid_3_list_Append V h l v =
     go_bind (Value_Bytes V v) (\<lambda>b.
       case l of None \<Rightarrow> Panic
       | Some r \<Rightarrow> go_bind (load_slice h r) (\<lambda>xs. store_slice h r (Some (slice_items xs @ [b]))))"

definition MsgAuctionBid_3_list_AppendMutable :: "slice_ref option \<Rightarrow> 'v go" where
  "MsgAuctionBid_3_list_AppendMutable l = Panic"

definition MsgAuctionBid_3_list_Truncate :: "'c object heap \<Rightarrow> slice_ref option \<Rightarrow> int \<Rightarrow>
    'c object heap go" where
  "MsgAuctionBid_3_list_Truncate h l n =
     (case l of None \<Rightarrow> Panic
      | Some r \<Rightarrow> go_bind (load_slice h r) (\<lambda>xs.
          if 0 \<le> n \<and> n \<le> int (length (slice_items xs))
          then store_slice h r (map_option (take (nat n)) xs) else Panic))"

definition MsgAuctionBid_3_list_NewElement :: "'v value_ops \<Rightarrow> 'v" where
  "MsgAuctionBid_3_list_NewElement V = ValueOfBytes V None"

definition MsgAuctionBid_3_list_IsValid :: "slice_ref option \<Rightarrow> bool" where
  "MsgAuctionBid_3_list_IsValid l \<longleftrightarrow> l \<noteq> None"

text \<open>\<open>*clv.list\<close>, after the assertion that the list is of the package's type.\<close>

definition MsgAuctionBid_3_list_deref :: "'c object heap \<Rightarrow> go_list \<Rightarrow> bytes option list option go" where
  "MsgAuctionBid_3_list_deref h lv =
     (case lv of MsgAuctionBid_3_list (Some r) \<Rightarrow> load_slice h r | _ \<Rightarrow> Panic)"

section \<open>Reflection\<close>

subsection \<open>MsgAuctionBid\<close>

definition md_MsgAuctionBid :: string where
  "md_MsgAuctionBid = ''sdk.auction.v1.MsgAuctionBid''"

definition fd_MsgAuctionBid_bidder :: field_descriptor where
  "fd_MsgAuctionBid_bidder = field_of md_MsgAuctionBid ''bidder''"

definition fd_MsgAuctionBid_bid :: field_descriptor where
  "fd_MsgAuctionBid_bid = field_of md_MsgAuctionBid ''bid''"

definition fd_MsgAuctionBid_transactions :: field_descriptor where
  "fd_MsgAuctionBid_transactions = field_of md_MsgAuctionBid ''transactions''"

definition fastReflection_MsgAuctionBid_Range ::
    "'v value_ops \<Rightarrow> ('v, 'c object, 's) visitor \<Rightarrow> 'c object heap \<Rightarrow> ptr \<Rightarrow> 's \<Rightarrow>
    ('c object heap \<times> 's) go" where
  "fastReflection_MsgAuctionBid_Range V f h x s =
     go_bind (load T_MsgAuctionBid h x) (\<lambda>m. visit (bid_Bidder m \<noteq> '''') fd_MsgAuctionBid_bidder
       (ValueOfString V (bid_Bidder m)) f h s (\<lambda>h s.
     go_bind (load T_MsgAuctionBid h x) (\<lambda>m. visit (bid_Bid m \<noteq> None) fd_MsgAuctionBid_bid
       (ValueOfMessage V (Coin_ProtoReflect (bid_Bid m))) f h s (\<lambda>h s.
     go_bind (load T_MsgAuctionBid h x) (\<lambda>m. visit (slice_items (bid_Transactions m) \<noteq> [])
         fd_MsgAuctionBid_transactions
       (ValueOfList V (MsgAuctionBid_3_list (map_option FieldRef x))) f h s (\<lambda>h s.
     Ret (h, s)))))))"

definition fastReflection_MsgAuctionBid_Has ::
    "'c object heap \<Rightarrow> ptr \<Rightarrow> field_descriptor \<Rightarrow> bool go" where
  "fastReflection_MsgAuctionBid_Has h x fd =
     (if FullName fd = full_name md_MsgAuctionBid ''bidder'' then
        go_bind (load T_MsgAuctionBid h x) (\<lambda>m. Ret (bid_Bidder m \<noteq> ''''))
      else if FullName fd = full_name md_MsgAuctionBid ''bid'' then
        go_bind (load T_MsgAuctionBid h x) (\<lambda>m. Ret (bid_Bid m \<noteq> None))
      else if FullName fd = full_name md_MsgAuctionBid ''transactions'' then
        go_bind (load T_MsgAuctionBid h x) (\<lambda>m. Ret (slice_items (bid_Transactions m) \<noteq> []))
      else Panic)"

definition fastReflection_MsgAuctionBid_Clear ::
    "'c object heap \<Rightarrow> ptr \<Rightarrow> field_descriptor \<Rightarrow> 'c object heap go" where
  "fastReflection_MsgAuctionBid_Clear h x fd =
     (if FullName fd = full_name md_MsgAuctionBid ''bidder'' then
        update T_MsgAuctionBid h x (\<lambda>m. m\<lparr>bid_Bidder := ''''\<rparr>)
      else if FullName fd = full_name md_MsgAuctionBid ''bid'' then
        update T_MsgAuctionBid h x (\<lambda>m. m\<lparr>bid_Bid := None\<rparr>)
      else if FullName fd = full_name md_MsgAuctionBid ''transactions'' then
        update T_MsgAuctionBid h x (\<lambda>m. m\<lparr>bid_Transactions := None\<rparr>)
      else Panic)"

definition fastReflection_MsgAuctionBid_Get ::
    "'v value_ops \<Rightarrow> 'c object heap \<Rightarrow> ptr \<Rightarrow> field_descriptor \<Rightarrow> 'v go" where
  "fastReflection_MsgAuctionBid_Get V h x fd =
     (if FullName fd = full_name md_MsgAuctionBid ''bidder'' then
        go_bind (load T_MsgAuctionBid h x) (\<lambda>m. Ret (ValueOfString V (bid_Bidder m)))
      else if FullName fd = full_name md_MsgAuctionBid ''bid'' then
        go_bind (load T_MsgAuctionBid h x) (\<lambda>m. Ret (ValueOfMessage V (Coin_ProtoReflect (bid_Bid m))))
      else if FullName fd = full_name md_MsgAuctionBid ''transactions'' then
        go_bind (load T_MsgAuctionBid h x) (\<lambda>m.
          if slice_items (bid_Transactions m) = [] then Ret (ValueOfList V (MsgAuctionBid_3_list None))
          else Ret (ValueOfList V (MsgAuctionBid_3_list (map_option FieldRef x))))
      else Panic)"

definition fastReflection_MsgAuctionBid_Set ::
    "'v value_ops \<Rightarrow> 'c object heap \<Rightarrow> ptr \<Rightarrow> field_descriptor \<Rightarrow> 'v \<Rightarrow> 'c object heap go" where
  "fastReflection_MsgAuctionBid_Set V h x fd v =
     (if FullName fd = full_name md_MsgAuctionBid ''bidder'' then
        go_bind (Value_String V v) (\<lambda>v. update T_MsgAuctionBid h x (\<lambda>m. m\<lparr>bid_Bidder := v\<rparr>))
      else if FullName fd = full_name md_MsgAuctionBid ''bid'' then
        go_bind (go_bind (Value_Message V v) (assert_type CoinType)) (\<lambda>p.
          update T_MsgAuctionBid h x (\<lambda>m. m\<lparr>bid_Bid := p\<rparr>))
      else if FullName fd = full_name md_MsgAuctionBid ''transactions'' then
        go_bind (Value_List V v) (\<lambda>lv.
          go_bind (MsgAuctionBid_3_list_deref h lv) (\<lambda>xs. update T_MsgAuctionBid h x (\<lambda>m.
              m\<lparr>bid_Transactions := xs\<rparr>)))
      else Panic)"

definition fastReflection_MsgAuctionBid_Mutable ::
    "'v value_ops \<Rightarrow> 'c \<Rightarrow> 'c object heap \<Rightarrow> ptr \<Rightarrow> field_descriptor \<Rightarrow> ('v \<times> 'c object heap) go" where
  "fastReflection_MsgAuctionBid_Mutable V c0 h x fd =
     (if FullName fd = full_name md_MsgAuctionBid ''bid'' then
        go_bind (ensure_message T_MsgAuctionBid bid_Bid (\<lambda>p m. m\<lparr>bid_Bid := p\<rparr>) T_Coin c0 h x)
          (\<lambda>(p, h'). Ret (ValueOfMessage V (Coin_ProtoReflect p), h'))
      else if FullName fd = full_name md_MsgAuctionBid ''transactions'' then
        go_bind (load T_MsgAuctionBid h x) (\<lambda>m.
          go_bind (if bid_Transactions m =
              None then update T_MsgAuctionBid h x (\<lambda>m. m\<lparr>bid_Transactions := Some []\<rparr>) else Ret h)
            (\<lambda>h'. Ret (ValueOfList V (MsgAuctionBid_3_list (map_option FieldRef x)), h')))
      else if FullName fd = full_name md_MsgAuctionBid ''bidder'' then Panic
      else Panic)"

definition fastReflection_MsgAuctionBid_NewField ::
    "'v value_ops \<Rightarrow> 'c \<Rightarrow> 'c object heap \<Rightarrow> field_descriptor \<Rightarrow> ('v \<times> 'c object heap) go" where
  "fastReflection_MsgAuctionBid_NewField V c0 h fd =
     (if FullName fd = full_name md_MsgAuctionBid ''bidder'' then Ret (ValueOfString V '''', h)
      else if FullName fd = full_name md_MsgAuctionBid ''bid'' then
        (case alloc T_Coin h c0 of (p, h') \<Rightarrow>
          Ret (ValueOfMessage V (Coin_ProtoReflect (Some p)), h'))
      else if FullName fd = full_name md_MsgAuctionBid ''transactions'' then
        (case alloc T_Slice h (Some []) of (p, h') \<Rightarrow>
          Ret (ValueOfList V (MsgAuctionBid_3_list (Some (VarRef p))), h'))
      else Panic)"

definition fastReflection_MsgAuctionBid_WhichOneof :: "string \<Rightarrow> field_descriptor go" where
  "fastReflection_MsgAuctionBid_WhichOneof oneof = Panic"

definition fastReflection_MsgAuctionBid_GetUnknown ::
    "'c object heap \<Rightarrow> ptr \<Rightarrow> bytes go" where
  "fastReflection_MsgAuctionBid_GetUnknown h x =
     go_bind (load T_MsgAuctionBid h x) (\<lambda>m. Ret (bid_unknownFields m))"

definition fastReflection_MsgAuctionBid_SetUnknown ::
    "'c object heap \<Rightarrow> ptr \<Rightarrow> bytes \<Rightarrow> 'c object heap go" where
  "fastReflection_MsgAuctionBid_SetUnknown h x raw =
     update T_MsgAuctionBid h x (\<lambda>m. m\<lparr>bid_unknownFields := raw\<rparr>)"

subsection \<open>MsgAuctionBidResponse\<close>

definition md_MsgAuctionBidResponse :: string where
  "md_MsgAuctionBidResponse = ''sdk.auction.v1.MsgAuctionBidResponse''"

definition fastReflection_MsgAuctionBidResponse_Range ::
    "'v value_ops \<Rightarrow> ('v, 'c object, 's) visitor \<Rightarrow> 'c object heap \<Rightarrow> ptr \<Rightarrow> 's \<Rightarrow>
    ('c object heap \<times> 's) go" where
  "fastReflection_MsgAuctionBidResponse_Range V f h x s = Ret (h, s)"

definition fastReflection_MsgAuctionBidResponse_Has ::
    "'c object heap \<Rightarrow> ptr \<Rightarrow> field_descriptor \<Rightarrow> bool go" where
  "fastReflection_MsgAuctionBidResponse_Has h x fd = Panic"

definition fastReflection_MsgAuctionBidResponse_Clear ::
    "'c object heap \<Rightarrow> ptr \<Rightarrow> field_descriptor \<Rightarrow> 'c object heap go" where
  "fastReflection_MsgAuctionBidResponse_Clear h x fd = Panic"

definition fastReflection_MsgAuctionBidResponse_Get ::
    "'v value_ops \<Rightarrow> 'c object heap \<Rightarrow> ptr \<Rightarrow> field_descriptor \<Rightarrow> 'v go" where
  "fastReflection_MsgAuctionBidResponse_Get V h x fd = Panic"

definition fastReflection_MsgAuctionBidResponse_Set ::
    "'v value_ops \<Rightarrow> 'c object heap \<Rightarrow> ptr \<Rightarrow> field_descriptor \<Rightarrow> 'v \<Rightarrow> 'c object heap go" where
  "fastReflection_MsgAuctionBidResponse_Set V h x fd v = Panic"

definition fastReflection_MsgAuctionBidResponse_Mutable ::
    "'v value_ops \<Rightarrow> 'c object heap \<Rightarrow> ptr \<Rightarrow> field_descriptor \<Rightarrow> ('v \<times> 'c object heap) go" where
  "fastReflection_MsgAuctionBidResponse_Mutable V h x fd = Panic"

definition fastReflection_MsgAuctionBidResponse_NewField ::
    "'v value_ops \<Rightarrow> 'c object heap \<Rightarrow> field_descriptor \<Rightarrow> ('v \<times> 'c object heap) go" where
  "fastReflection_MsgAuctionBidResponse_NewField V h fd = Panic"

definition fastReflection_MsgAuctionBidResponse_WhichOneof ::
    "string \<Rightarrow> field_descriptor go" where
  "fastReflection_MsgAuctionBidResponse_WhichOneof oneof = Panic"

definition fastReflection_MsgAuctionBidResponse_GetUnknown ::
    "'c object heap \<Rightarrow> ptr \<Rightarrow> bytes go" where
  "fastReflection_MsgAuctionBidResponse_GetUnknown h x =
     go_bind (load T_MsgAuctionBidResponse h x) (\<lambda>m. Ret (bidresp_unknownFields m))"

definition fastReflection_MsgAuctionBidResponse_SetUnknown ::
    "'c object heap \<Rightarrow> ptr \<Rightarrow> bytes \<Rightarrow> 'c object heap go" where
  "fastReflection_MsgAuctionBidResponse_SetUnknown h x raw =
     update T_MsgAuctionBidResponse h x (\<lambda>m. m\<lparr>bidresp_unknownFields := raw\<rparr>)"

subsection \<open>MsgUpdateParams\<close>

definition md_MsgUpdateParams :: string where
  "md_MsgUpdateParams = ''sdk.auction.v1.MsgUpdateParams''"

definition fd_MsgUpdateParams_authority :: field_descriptor where
  "fd_MsgUpdateParams_authority = field_of md_MsgUpdateParams ''authority''"

definition fd_MsgUpdateParams_params :: field_descriptor where
  "fd_MsgUpdateParams_params = field_of md_MsgUpdateParams ''params''"

definition fastReflection_MsgUpdateParams_Range ::
    "'v value_ops \<Rightarrow> ('v, 'c object, 's) visitor \<Rightarrow> 'c object heap \<Rightarrow> ptr \<Rightarrow> 's \<Rightarrow>
    ('c object heap \<times> 's) go" where
  "fastReflection_MsgUpdateParams_Range V f h x s =
     go_bind (load T_MsgUpdateParams h x) (\<lambda>m. visit (upd_Authority m \<noteq> '''')
         fd_MsgUpdateParams_authority
       (ValueOfString V (upd_Authority m)) f h s (\<lambda>h s.
     go_bind (load T_MsgUpdateParams h x) (\<lambda>m. visit (upd_Params m \<noteq> None) fd_MsgUpdateParams_params
       (ValueOfMessage V (Params_ProtoReflect (upd_Params m))) f h s (\<lambda>h s.
     Ret (h, s)))))"

definition fastReflection_MsgUpdateParams_Has ::
    "'c object heap \<Rightarrow> ptr \<Rightarrow> field_descriptor \<Rightarrow> bool go" where
  "fastReflection_MsgUpdateParams_Has h x fd =
     (if FullName fd = full_name md_MsgUpdateParams ''authority'' then
        go_bind (load T_MsgUpdateParams h x) (\<lambda>m. Ret (upd_Authority m \<noteq> ''''))
      else if FullName fd = full_name md_MsgUpdateParams ''params'' then
        go_bind (load T_MsgUpdateParams h x) (\<lambda>m. Ret (upd_Params m \<noteq> None))
      else Panic)"

definition fastReflection_MsgUpdateParams_Clear ::
    "'c object heap \<Rightarrow> ptr \<Rightarrow> field_descriptor \<Rightarrow> 'c object heap go" where
  "fastReflection_MsgUpdateParams_Clear h x fd =
     (if FullName fd = full_name md_MsgUpdateParams ''authority'' then
        update T_MsgUpdateParams h x (\<lambda>m. m\<lparr>upd_Authority := ''''\<rparr>)
      else if FullName fd = full_name md_MsgUpdateParams ''params'' then
        update T_MsgUpdateParams h x (\<lambda>m. m\<lparr>upd_Params := None\<rparr>)
      else Panic)"

definition fastReflection_MsgUpdateParams_Get ::
    "'v value_ops \<Rightarrow> 'c object heap \<Rightarrow> ptr \<Rightarrow> field_descriptor \<Rightarrow> 'v go" where
  "fastReflection_MsgUpdateParams_Get V h x fd =
     (if FullName fd = full_name md_MsgUpdateParams ''authority'' then
        go_bind (load T_MsgUpdateParams h x) (\<lambda>m. Ret (ValueOfString V (upd_Authority m)))
      else if FullName fd = full_name md_MsgUpdateParams ''params'' then
        go_bind (load T_MsgUpdateParams h x) (\<lambda>m. Ret (ValueOfMessage V (Params_ProtoReflect
            (upd_Params m))))
      else Panic)"

definition fastReflection_MsgUpdateParams_Set ::
    "'v value_ops \<Rightarrow> 'c object heap \<Rightarrow> ptr \<Rightarrow> field_descriptor \<Rightarrow> 'v \<Rightarrow> 'c object heap go" where
  "fastReflection_MsgUpdateParams_Set V h x fd v =
     (if FullName fd = full_name md_MsgUpdateParams ''authority'' then
        go_bind (Value_String V v) (\<lambda>v. update T_MsgUpdateParams h x (\<lambda>m. m\<lparr>upd_Authority := v\<rparr>))
      else if FullName fd = full_name md_MsgUpdateParams ''params'' then
        go_bind (go_bind (Value_Message V v) (assert_type ParamsType)) (\<lambda>p.
          update T_MsgUpdateParams h x (\<lambda>m. m\<lparr>upd_Params := p\<rparr>))
      else Panic)"

definition fastReflection_MsgUpdateParams_Mutable ::
    "'v value_ops \<Rightarrow> 'c object heap \<Rightarrow> ptr \<Rightarrow> field_descriptor \<Rightarrow> ('v \<times> 'c object heap) go" where
  "fastReflection_MsgUpdateParams_Mutable V h x fd =
     (if FullName fd = full_name md_MsgUpdateParams ''params'' then
        go_bind (ensure_message T_MsgUpdateParams upd_Params (\<lambda>p m. m\<lparr>upd_Params := p\<rparr>) T_Params
            zero_Params h x)
          (\<lambda>(p, h'). Ret (ValueOfMessage V (Params_ProtoReflect p), h'))
      else if FullName fd = full_name md_MsgUpdateParams ''authority'' then Panic
      else Panic)"

definition fastReflection_MsgUpdateParams_NewField ::
    "'v value_ops \<Rightarrow> 'c object heap \<Rightarrow> field_descriptor \<Rightarrow> ('v \<times> 'c object heap) go" where
  "fastReflection_MsgUpdateParams_NewField V h fd =
     (if FullName fd = full_name md_MsgUpdateParams ''authority'' then Ret (ValueOfString V '''', h)
      else if FullName fd = full_name md_MsgUpdateParams ''params'' then
        (case alloc T_Params h zero_Params of (p, h') \<Rightarrow>
          Ret (ValueOfMessage V (Params_ProtoReflect (Some p)), h'))
      else Panic)"

definition fastReflection_MsgUpdateParams_WhichOneof :: "string \<Rightarrow> field_descriptor go" where
  "fastReflection_MsgUpdateParams_WhichOneof oneof = Panic"

definition fastReflection_MsgUpdateParams_GetUnknown ::
    "'c object heap \<Rightarrow> ptr \<Rightarrow> bytes go" where
  "fastReflection_MsgUpdateParams_GetUnknown h x =
     go_bind (load T_MsgUpdateParams h x) (\<lambda>m. Ret (upd_unknownFields m))"

definition fastReflection_MsgUpdateParams_SetUnknown ::
    "'c object heap \<Rightarrow> ptr \<Rightarrow> bytes \<Rightarrow> 'c object heap go" where
  "fastReflection_MsgUpdateParams_SetUnknown h x raw =
     update T_MsgUpdateParams h x (\<lambda>m. m\<lparr>upd_unknownFields := raw\<rparr>)"

subsection \<open>MsgUpdateParamsResponse\<close>

definition md_MsgUpdateParamsResponse :: string where
  "md_MsgUpdateParamsResponse = ''sdk.auction.v1.MsgUpdateParamsResponse''"

definition fastReflection_MsgUpdateParamsResponse_Range ::
    "'v value_ops \<Rightarrow> ('v, 'c object, 's) visitor \<Rightarrow> 'c object heap \<Rightarrow> ptr \<Rightarrow> 's \<Rightarrow>
    ('c object heap \<times> 's) go" where
  "fastReflection_MsgUpdateParamsResponse_Range V f h x s = Ret (h, s)"

definition fastReflection_MsgUpdateParamsResponse_Has ::
    "'c object heap \<Rightarrow> ptr \<Rightarrow> field_descriptor \<Rightarrow> bool go" where
  "fastReflection_MsgUpdateParamsResponse_Has h x fd = Panic"

definition fastReflection_MsgUpdateParamsResponse_Clear ::
    "'c object heap \<Rightarrow> ptr \<Rightarrow> field_descriptor \<Rightarrow> 'c object heap go" where
  "fastReflection_MsgUpdateParamsResponse_Clear h x fd = Panic"

definition fastReflection_MsgUpdateParamsResponse_Get ::
    "'v value_ops \<Rightarrow> 'c object heap \<Rightarrow> ptr \<Rightarrow> field_descriptor \<Rightarrow> 'v go" where
  "fastReflection_MsgUpdateParamsResponse_Get V h x fd = Panic"

definition fastReflection_MsgUpdateParamsResponse_Set ::
    "'v value_ops \<Rightarrow> 'c object heap \<Rightarrow> ptr \<Rightarrow> field_descriptor \<Rightarrow> 'v \<Rightarrow> 'c object heap go" where
  "fastReflection_MsgUpdateParamsResponse_Set V h x fd v = Panic"

definition fastReflection_MsgUpdateParamsResponse_Mutable ::
    "'v value_ops \<Rightarrow> 'c object heap \<Rightarrow> ptr \<Rightarrow> field_descriptor \<Rightarrow> ('v \<times> 'c object heap) go" where
  "fastReflection_MsgUpdateParamsResponse_Mutable V h x fd = Panic"

definition fastReflection_MsgUpdateParamsResponse_NewField ::
    "'v value_ops \<Rightarrow> 'c object heap \<Rightarrow> field_descriptor \<Rightarrow> ('v \<times> 'c object heap) go" where
  "fastReflection_MsgUpdateParamsResponse_NewField V h fd = Panic"

definition fastReflection_MsgUpdateParamsResponse_WhichOneof ::
    "string \<Rightarrow> field_descriptor go" where
  "fastReflection_MsgUpdateParamsResponse_WhichOneof oneof = Panic"

definition fastReflection_MsgUpdateParamsResponse_GetUnknown ::
    "'c object heap \<Rightarrow> ptr \<Rightarrow> bytes go" where
  "fastReflection_MsgUpdateParamsResponse_GetUnknown h x =
     go_bind (load T_MsgUpdateParamsResponse h x) (\<lambda>m. Ret (updresp_unknownFields m))"

definition fastReflection_MsgUpdateParamsResponse_SetUnknown ::
    "'c object heap \<Rightarrow> ptr \<Rightarrow> bytes \<Rightarrow> 'c object heap go" where
  "fastReflection_MsgUpdateParamsResponse_SetUnknown h x raw =
     update T_MsgUpdateParamsResponse h x (\<lambda>m. m\<lparr>updresp_unknownFields := raw\<rparr>)"

section \<open>Contract\<close>

definition MsgAuctionBid_field_list :: "field_descriptor list" where
  "MsgAuctionBid_field_list = [fd_MsgAuctionBid_bidder, fd_MsgAuctionBid_bid,
      fd_MsgAuctionBid_transactions]"

lemmas MsgAuctionBid_descriptors =
    fd_MsgAuctionBid_bidder_def fd_MsgAuctionBid_bid_def fd_MsgAuctionBid_transactions_def

lemma MsgAuctionBid_Has_field:
  "fastReflection_MsgAuctionBid_Has h x fd_MsgAuctionBid_bidder =
     go_bind (load T_MsgAuctionBid h x) (\<lambda>m. Ret (bid_Bidder m \<noteq> ''''))"
  "fastReflection_MsgAuctionBid_Has h x fd_MsgAuctionBid_bid =
     go_bind (load T_MsgAuctionBid h x) (\<lambda>m. Ret (bid_Bid m \<noteq> None))"
  "fastReflection_MsgAuctionBid_Has h x fd_MsgAuctionBid_transactions =
     go_bind (load T_MsgAuctionBid h x) (\<lambda>m. Ret (slice_items (bid_Transactions m) \<noteq> []))"
  by (simp_all add: fastReflection_MsgAuctionBid_Has_def MsgAuctionBid_descriptors)

lemma MsgAuctionBid_Get_field:
  "fastReflection_MsgAuctionBid_Get V h x fd_MsgAuctionBid_bidder =
     go_bind (load T_MsgAuctionBid h x) (\<lambda>m. Ret (ValueOfString V (bid_Bidder m)))"
  "fastReflection_MsgAuctionBid_Get V h x fd_MsgAuctionBid_bid =
     go_bind (load T_MsgAuctionBid h x) (\<lambda>m. Ret (ValueOfMessage V (Coin_ProtoReflect (bid_Bid m))))"
  "fastReflection_MsgAuctionBid_Get V h x fd_MsgAuctionBid_transactions =
     go_bind (load T_MsgAuctionBid h x) (\<lambda>m. if slice_items (bid_Transactions m) = []
       then Ret (ValueOfList V (MsgAuctionBid_3_list None)) else Ret (ValueOfList V
           (MsgAuctionBid_3_list (map_option FieldRef x))))"
  by (simp_all add: fastReflection_MsgAuctionBid_Get_def MsgAuctionBid_descriptors)

lemma MsgAuctionBid_Clear_field:
  "fastReflection_MsgAuctionBid_Clear h x fd_MsgAuctionBid_bidder =
      update T_MsgAuctionBid h x (\<lambda>m. m\<lparr>bid_Bidder := ''''\<rparr>)"
  "fastReflection_MsgAuctionBid_Clear h x fd_MsgAuctionBid_bid =
      update T_MsgAuctionBid h x (\<lambda>m. m\<lparr>bid_Bid := None\<rparr>)"
  "fastReflection_MsgAuctionBid_Clear h x fd_MsgAuctionBid_transactions =
      update T_MsgAuctionBid h x (\<lambda>m. m\<lparr>bid_Transactions := None\<rparr>)"
  by (simp_all add: fastReflection_MsgAuctionBid_Clear_def MsgAuctionBid_descriptors)

lemma MsgAuctionBid_Range_by_fields:
  "fastReflection_MsgAuctionBid_Range V f h x s =
      range_fields fastReflection_MsgAuctionBid_Has (fastReflection_MsgAuctionBid_Get V)
      MsgAuctionBid_field_list f h x s"
  unfolding fastReflection_MsgAuctionBid_Range_def MsgAuctionBid_field_list_def
  by (rule sym) ((rule range_fields_step, rule MsgAuctionBid_Has_field, simp add:
      MsgAuctionBid_Get_field)+, rule range_fields.simps)

lemma MsgAuctionBid_Clear_loaded:
  assumes "load T_MsgAuctionBid h x = Ret m" and "fd \<in> set MsgAuctionBid_field_list"
  shows "\<exists>h' m'. fastReflection_MsgAuctionBid_Clear h x fd = Ret h' \<and>
      load T_MsgAuctionBid h' x = Ret m' \<and> fastReflection_MsgAuctionBid_Has h' x fd = Ret False"
  using assms by (auto simp: MsgAuctionBid_field_list_def MsgAuctionBid_Clear_field
      MsgAuctionBid_Has_field intro!: MsgAuctionBid_objects.update_clears)

lemma MsgAuctionBid_Clear_other:
  assumes "fastReflection_MsgAuctionBid_Clear h x fd = Ret h'" and
      "fd \<in> set MsgAuctionBid_field_list" and "fd' \<in> set MsgAuctionBid_field_list" and "fd' \<noteq> fd"
  shows "fastReflection_MsgAuctionBid_Has h' x fd' = fastReflection_MsgAuctionBid_Has h x fd' \<and>
      fastReflection_MsgAuctionBid_Get V h' x fd' = fastReflection_MsgAuctionBid_Get V h x fd'"
  using assms by (auto simp: MsgAuctionBid_field_list_def MsgAuctionBid_Clear_field
      MsgAuctionBid_Has_field MsgAuctionBid_Get_field dest!: MsgAuctionBid_objects.update_dest)

interpretation MsgAuctionBid_reflection: message_reflection T_MsgAuctionBid MsgAuctionBid_field_list
    fastReflection_MsgAuctionBid_Has fastReflection_MsgAuctionBid_Get
    fastReflection_MsgAuctionBid_Clear fastReflection_MsgAuctionBid_Range
proof
  show "distinct MsgAuctionBid_field_list" by (simp add: MsgAuctionBid_field_list_def
      MsgAuctionBid_descriptors)
  show "\<exists>b. fastReflection_MsgAuctionBid_Has h x fd =
      Ret b" "\<exists>v. fastReflection_MsgAuctionBid_Get V h x fd = Ret v"
    if "load T_MsgAuctionBid h x = Ret m" and
        "fd \<in> set MsgAuctionBid_field_list" for V :: "'v value_ops" and h :: "'c object heap" and x m fd
    using that by (auto simp: MsgAuctionBid_field_list_def MsgAuctionBid_Has_field
        MsgAuctionBid_Get_field)
  show "fastReflection_MsgAuctionBid_Has h x fd = Panic \<and>
      fastReflection_MsgAuctionBid_Get V h x fd = Panic \<and>
      fastReflection_MsgAuctionBid_Clear h x fd = Panic"
    if "FullName fd \<notin> FullName ` set MsgAuctionBid_field_list" for V :: "'v value_ops" and
        h :: "'c object heap" and x fd
    using that by (simp add: MsgAuctionBid_field_list_def MsgAuctionBid_descriptors
        fastReflection_MsgAuctionBid_Has_def fastReflection_MsgAuctionBid_Get_def
        fastReflection_MsgAuctionBid_Clear_def)
qed (rule MsgAuctionBid_Range_by_fields MsgAuctionBid_Clear_other MsgAuctionBid_Clear_loaded;
    assumption)+


definition MsgAuctionBidResponse_field_list :: "field_descriptor list" where
  "MsgAuctionBidResponse_field_list = []"

lemma MsgAuctionBidResponse_Range_by_fields:
  "fastReflection_MsgAuctionBidResponse_Range V f h x s =
      range_fields fastReflection_MsgAuctionBidResponse_Has (fastReflection_MsgAuctionBidResponse_Get
      V) MsgAuctionBidResponse_field_list f h x s"
  unfolding fastReflection_MsgAuctionBidResponse_Range_def MsgAuctionBidResponse_field_list_def
  by simp

interpretation MsgAuctionBidResponse_reflection: message_reflection T_MsgAuctionBidResponse
    MsgAuctionBidResponse_field_list fastReflection_MsgAuctionBidResponse_Has
    fastReflection_MsgAuctionBidResponse_Get fastReflection_MsgAuctionBidResponse_Clear
    fastReflection_MsgAuctionBidResponse_Range
  by unfold_locales (simp_all add: MsgAuctionBidResponse_field_list_def
      MsgAuctionBidResponse_Range_by_fields fastReflection_MsgAuctionBidResponse_Has_def
      fastReflection_MsgAuctionBidResponse_Get_def fastReflection_MsgAuctionBidResponse_Clear_def)


definition MsgUpdateParams_field_list :: "field_descriptor list" where
  "MsgUpdateParams_field_list = [fd_MsgUpdateParams_authority, fd_MsgUpdateParams_params]"

lemmas MsgUpdateParams_descriptors = fd_MsgUpdateParams_authority_def fd_MsgUpdateParams_params_def

lemma MsgUpdateParams_Has_field:
  "fastReflection_MsgUpdateParams_Has h x fd_MsgUpdateParams_authority =
     go_bind (load T_MsgUpdateParams h x) (\<lambda>m. Ret (upd_Authority m \<noteq> ''''))"
  "fastReflection_MsgUpdateParams_Has h x fd_MsgUpdateParams_params =
     go_bind (load T_MsgUpdateParams h x) (\<lambda>m. Ret (upd_Params m \<noteq> None))"
  by (simp_all add: fastReflection_MsgUpdateParams_Has_def MsgUpdateParams_descriptors)

lemma MsgUpdateParams_Get_field:
  "fastReflection_MsgUpdateParams_Get V h x fd_MsgUpdateParams_authority =
     go_bind (load T_MsgUpdateParams h x) (\<lambda>m. Ret (ValueOfString V (upd_Authority m)))"
  "fastReflection_MsgUpdateParams_Get V h x fd_MsgUpdateParams_params =
     go_bind (load T_MsgUpdateParams h x) (\<lambda>m. Ret (ValueOfMessage V (Params_ProtoReflect (upd_Params
         m))))"
  by (simp_all add: fastReflection_MsgUpdateParams_Get_def MsgUpdateParams_descriptors)

lemma MsgUpdateParams_Clear_field:
  "fastReflection_MsgUpdateParams_Clear h x fd_MsgUpdateParams_authority =
      update T_MsgUpdateParams h x (\<lambda>m. m\<lparr>upd_Authority := ''''\<rparr>)"
  "fastReflection_MsgUpdateParams_Clear h x fd_MsgUpdateParams_params =
      update T_MsgUpdateParams h x (\<lambda>m. m\<lparr>upd_Params := None\<rparr>)"
  by (simp_all add: fastReflection_MsgUpdateParams_Clear_def MsgUpdateParams_descriptors)

lemma MsgUpdateParams_Range_by_fields:
  "fastReflection_MsgUpdateParams_Range V f h x s =
      range_fields fastReflection_MsgUpdateParams_Has (fastReflection_MsgUpdateParams_Get V)
      MsgUpdateParams_field_list f h x s"
  unfolding fastReflection_MsgUpdateParams_Range_def MsgUpdateParams_field_list_def
  by (rule sym) ((rule range_fields_step, rule MsgUpdateParams_Has_field, simp add:
      MsgUpdateParams_Get_field)+, rule range_fields.simps)

lemma MsgUpdateParams_Clear_loaded:
  assumes "load T_MsgUpdateParams h x = Ret m" and "fd \<in> set MsgUpdateParams_field_list"
  shows "\<exists>h' m'. fastReflection_MsgUpdateParams_Clear h x fd = Ret h' \<and>
      load T_MsgUpdateParams h' x = Ret m' \<and> fastReflection_MsgUpdateParams_Has h' x fd = Ret False"
  using assms by (auto simp: MsgUpdateParams_field_list_def MsgUpdateParams_Clear_field
      MsgUpdateParams_Has_field intro!: MsgUpdateParams_objects.update_clears)

lemma MsgUpdateParams_Clear_other:
  assumes "fastReflection_MsgUpdateParams_Clear h x fd = Ret h'" and
      "fd \<in> set MsgUpdateParams_field_list" and "fd' \<in> set MsgUpdateParams_field_list" and "fd' \<noteq> fd"
  shows "fastReflection_MsgUpdateParams_Has h' x fd' = fastReflection_MsgUpdateParams_Has h x fd' \<and>
      fastReflection_MsgUpdateParams_Get V h' x fd' = fastReflection_MsgUpdateParams_Get V h x fd'"
  using assms by (auto simp: MsgUpdateParams_field_list_def MsgUpdateParams_Clear_field
      MsgUpdateParams_Has_field MsgUpdateParams_Get_field dest!: MsgUpdateParams_objects.update_dest)

interpretation MsgUpdateParams_reflection: message_reflection T_MsgUpdateParams
    MsgUpdateParams_field_list fastReflection_MsgUpdateParams_Has fastReflection_MsgUpdateParams_Get
    fastReflection_MsgUpdateParams_Clear fastReflection_MsgUpdateParams_Range
proof
  show "distinct MsgUpdateParams_field_list" by (simp add: MsgUpdateParams_field_list_def
      MsgUpdateParams_descriptors)
  show "\<exists>b. fastReflection_MsgUpdateParams_Has h x fd =
      Ret b" "\<exists>v. fastReflection_MsgUpdateParams_Get V h x fd = Ret v"
    if "load T_MsgUpdateParams h x = Ret m" and
        "fd \<in> set MsgUpdateParams_field_list" for V :: "'v value_ops" and h :: "'c object heap" and
        x m fd
    using that by (auto simp: MsgUpdateParams_field_list_def MsgUpdateParams_Has_field
        MsgUpdateParams_Get_field)
  show "fastReflection_MsgUpdateParams_Has h x fd = Panic \<and>
      fastReflection_MsgUpdateParams_Get V h x fd = Panic \<and>
      fastReflection_MsgUpdateParams_Clear h x fd = Panic"
    if "FullName fd \<notin> FullName ` set MsgUpdateParams_field_list" for V :: "'v value_ops" and
        h :: "'c object heap" and x fd
    using that by (simp add: MsgUpdateParams_field_list_def MsgUpdateParams_descriptors
        fastReflection_MsgUpdateParams_Has_def fastReflection_MsgUpdateParams_Get_def
        fastReflection_MsgUpdateParams_Clear_def)
qed (rule MsgUpdateParams_Range_by_fields MsgUpdateParams_Clear_other MsgUpdateParams_Clear_loaded;
    assumption)+


definition MsgUpdateParamsResponse_field_list :: "field_descriptor list" where
  "MsgUpdateParamsResponse_field_list = []"

lemma MsgUpdateParamsResponse_Range_by_fields:
  "fastReflection_MsgUpdateParamsResponse_Range V f h x s =
      range_fields fastReflection_MsgUpdateParamsResponse_Has
      (fastReflection_MsgUpdateParamsResponse_Get V) MsgUpdateParamsResponse_field_list f h x s"
  unfolding fastReflection_MsgUpdateParamsResponse_Range_def MsgUpdateParamsResponse_field_list_def
  by simp

interpretation MsgUpdateParamsResponse_reflection: message_reflection T_MsgUpdateParamsResponse
    MsgUpdateParamsResponse_field_list fastReflection_MsgUpdateParamsResponse_Has
    fastReflection_MsgUpdateParamsResponse_Get fastReflection_MsgUpdateParamsResponse_Clear
    fastReflection_MsgUpdateParamsResponse_Range
  by unfold_locales (simp_all add: MsgUpdateParamsResponse_field_list_def
      MsgUpdateParamsResponse_Range_by_fields fastReflection_MsgUpdateParamsResponse_Has_def
      fastReflection_MsgUpdateParamsResponse_Get_def fastReflection_MsgUpdateParamsResponse_Clear_def)


end
