(* ===== verification/Pulsar_Genesis.thy ===== *)
theory Pulsar_Genesis
  imports Pulsar_Messages
begin

text \<open>
  The reflection methods of \<open>GenesisState\<close> and \<open>Params\<close> (\<open>api/sdk/auction/v1/genesis.pulsar.go\<close>) and
  their contract.
  A descriptor that the message does not contain, an extension or not, panics, and so does every oneof.
\<close>

section \<open>Reflection\<close>

subsection \<open>GenesisState\<close>

definition md_GenesisState :: string where
  "md_GenesisState = ''sdk.auction.v1.GenesisState''"

definition fd_GenesisState_params :: field_descriptor where
  "fd_GenesisState_params = field_of md_GenesisState ''params''"

definition fastReflection_GenesisState_Range ::
    "'v value_ops \<Rightarrow> ('v, 'c object, 's) visitor \<Rightarrow> 'c object heap \<Rightarrow> ptr \<Rightarrow> 's \<Rightarrow>
    ('c object heap \<times> 's) go" where
  "fastReflection_GenesisState_Range V f h x s =
     go_bind (load T_GenesisState h x) (\<lambda>m. visit (gs_Params m \<noteq> None) fd_GenesisState_params
       (ValueOfMessage V (Params_ProtoReflect (gs_Params m))) f h s (\<lambda>h s.
     Ret (h, s)))"

definition fastReflection_GenesisState_Has ::
    "'c object heap \<Rightarrow> ptr \<Rightarrow> field_descriptor \<Rightarrow> bool go" where
  "fastReflection_GenesisState_Has h x fd =
     (if FullName fd = full_name md_GenesisState ''params'' then
        go_bind (load T_GenesisState h x) (\<lambda>m. Ret (gs_Params m \<noteq> None))
      else Panic)"

definition fastReflection_GenesisState_Clear ::
    "'c object heap \<Rightarrow> ptr \<Rightarrow> field_descriptor \<Rightarrow> 'c object heap go" where
  "fastReflection_GenesisState_Clear h x fd =
     (if FullName fd = full_name md_GenesisState ''params'' then
        update T_GenesisState h x (\<lambda>m. m\<lparr>gs_Params := None\<rparr>)
      else Panic)"

definition fastReflection_GenesisState_Get ::
    "'v value_ops \<Rightarrow> 'c object heap \<Rightarrow> ptr \<Rightarrow> field_descriptor \<Rightarrow> 'v go" where
  "fastReflection_GenesisState_Get V h x fd =
     (if FullName fd = full_name md_GenesisState ''params'' then
        go_bind (load T_GenesisState h x) (\<lambda>m. Ret (ValueOfMessage V (Params_ProtoReflect (gs_Params
            m))))
      else Panic)"

definition fastReflection_GenesisState_Set ::
    "'v value_ops \<Rightarrow> 'c object heap \<Rightarrow> ptr \<Rightarrow> field_descriptor \<Rightarrow> 'v \<Rightarrow> 'c object heap go" where
  "fastReflection_GenesisState_Set V h x fd v =
     (if FullName fd = full_name md_GenesisState ''params'' then
        go_bind (go_bind (Value_Message V v) (assert_type ParamsType)) (\<lambda>p.
          update T_GenesisState h x (\<lambda>m. m\<lparr>gs_Params := p\<rparr>))
      else Panic)"

definition fastReflection_GenesisState_Mutable ::
    "'v value_ops \<Rightarrow> 'c object heap \<Rightarrow> ptr \<Rightarrow> field_descriptor \<Rightarrow> ('v \<times> 'c object heap) go" where
  "fastReflection_GenesisState_Mutable V h x fd =
     (if FullName fd = full_name md_GenesisState ''params'' then
        go_bind (ensure_message T_GenesisState gs_Params (\<lambda>p m. m\<lparr>gs_Params := p\<rparr>) T_Params
            zero_Params h x)
          (\<lambda>(p, h'). Ret (ValueOfMessage V (Params_ProtoReflect p), h'))
      else Panic)"

definition fastReflection_GenesisState_NewField ::
    "'v value_ops \<Rightarrow> 'c object heap \<Rightarrow> field_descriptor \<Rightarrow> ('v \<times> 'c object heap) go" where
  "fastReflection_GenesisState_NewField V h fd =
     (if FullName fd = full_name md_GenesisState ''params'' then
        (case alloc T_Params h zero_Params of (p, h') \<Rightarrow>
          Ret (ValueOfMessage V (Params_ProtoReflect (Some p)), h'))
      else Panic)"

definition fastReflection_GenesisState_WhichOneof :: "string \<Rightarrow> field_descriptor go" where
  "fastReflection_GenesisState_WhichOneof oneof = Panic"

definition fastReflection_GenesisState_GetUnknown ::
    "'c object heap \<Rightarrow> ptr \<Rightarrow> bytes go" where
  "fastReflection_GenesisState_GetUnknown h x =
     go_bind (load T_GenesisState h x) (\<lambda>m. Ret (gs_unknownFields m))"

definition fastReflection_GenesisState_SetUnknown ::
    "'c object heap \<Rightarrow> ptr \<Rightarrow> bytes \<Rightarrow> 'c object heap go" where
  "fastReflection_GenesisState_SetUnknown h x raw =
     update T_GenesisState h x (\<lambda>m. m\<lparr>gs_unknownFields := raw\<rparr>)"

subsection \<open>Params\<close>

definition md_Params :: string where
  "md_Params = ''sdk.auction.v1.Params''"

definition fd_Params_max_bundle_size :: field_descriptor where
  "fd_Params_max_bundle_size = field_of md_Params ''max_bundle_size''"

definition fd_Params_escrow_account_address :: field_descriptor where
  "fd_Params_escrow_account_address = field_of md_Params ''escrow_account_address''"

definition fd_Params_reserve_fee :: field_descriptor where
  "fd_Params_reserve_fee = field_of md_Params ''reserve_fee''"

definition fd_Params_min_bid_increment :: field_descriptor where
  "fd_Params_min_bid_increment = field_of md_Params ''min_bid_increment''"

definition fd_Params_front_running_protection :: field_descriptor where
  "fd_Params_front_running_protection = field_of md_Params ''front_running_protection''"

definition fd_Params_proposer_fee :: field_descriptor where
  "fd_Params_proposer_fee = field_of md_Params ''proposer_fee''"

definition fastReflection_Params_Range ::
    "'v value_ops \<Rightarrow> ('v, 'c object, 's) visitor \<Rightarrow> 'c object heap \<Rightarrow> ptr \<Rightarrow> 's \<Rightarrow>
    ('c object heap \<times> 's) go" where
  "fastReflection_Params_Range V f h x s =
     go_bind (load T_Params h x) (\<lambda>m. visit (par_MaxBundleSize m \<noteq> 0) fd_Params_max_bundle_size
       (ValueOfUint32 V (par_MaxBundleSize m)) f h s (\<lambda>h s.
     go_bind (load T_Params h x) (\<lambda>m. visit (slice_items (par_EscrowAccountAddress m) \<noteq> [])
         fd_Params_escrow_account_address
       (ValueOfBytes V (par_EscrowAccountAddress m)) f h s (\<lambda>h s.
     go_bind (load T_Params h x) (\<lambda>m. visit (par_ReserveFee m \<noteq> None) fd_Params_reserve_fee
       (ValueOfMessage V (Coin_ProtoReflect (par_ReserveFee m))) f h s (\<lambda>h s.
     go_bind (load T_Params h x) (\<lambda>m. visit (par_MinBidIncrement m \<noteq> None) fd_Params_min_bid_increment
       (ValueOfMessage V (Coin_ProtoReflect (par_MinBidIncrement m))) f h s (\<lambda>h s.
     go_bind (load T_Params h x) (\<lambda>m. visit (par_FrontRunningProtection m)
         fd_Params_front_running_protection
       (ValueOfBool V (par_FrontRunningProtection m)) f h s (\<lambda>h s.
     go_bind (load T_Params h x) (\<lambda>m. visit (par_ProposerFee m \<noteq> '''') fd_Params_proposer_fee
       (ValueOfString V (par_ProposerFee m)) f h s (\<lambda>h s.
     Ret (h, s)))))))))))))"

definition fastReflection_Params_Has ::
    "'c object heap \<Rightarrow> ptr \<Rightarrow> field_descriptor \<Rightarrow> bool go" where
  "fastReflection_Params_Has h x fd =
     (if FullName fd = full_name md_Params ''max_bundle_size'' then
        go_bind (load T_Params h x) (\<lambda>m. Ret (par_MaxBundleSize m \<noteq> 0))
      else if FullName fd = full_name md_Params ''escrow_account_address'' then
        go_bind (load T_Params h x) (\<lambda>m. Ret (slice_items (par_EscrowAccountAddress m) \<noteq> []))
      else if FullName fd = full_name md_Params ''reserve_fee'' then
        go_bind (load T_Params h x) (\<lambda>m. Ret (par_ReserveFee m \<noteq> None))
      else if FullName fd = full_name md_Params ''min_bid_increment'' then
        go_bind (load T_Params h x) (\<lambda>m. Ret (par_MinBidIncrement m \<noteq> None))
      else if FullName fd = full_name md_Params ''front_running_protection'' then
        go_bind (load T_Params h x) (\<lambda>m. Ret (par_FrontRunningProtection m))
      else if FullName fd = full_name md_Params ''proposer_fee'' then
        go_bind (load T_Params h x) (\<lambda>m. Ret (par_ProposerFee m \<noteq> ''''))
      else Panic)"

definition fastReflection_Params_Clear ::
    "'c object heap \<Rightarrow> ptr \<Rightarrow> field_descriptor \<Rightarrow> 'c object heap go" where
  "fastReflection_Params_Clear h x fd =
     (if FullName fd = full_name md_Params ''max_bundle_size'' then
        update T_Params h x (\<lambda>m. m\<lparr>par_MaxBundleSize := 0\<rparr>)
      else if FullName fd = full_name md_Params ''escrow_account_address'' then
        update T_Params h x (\<lambda>m. m\<lparr>par_EscrowAccountAddress := None\<rparr>)
      else if FullName fd = full_name md_Params ''reserve_fee'' then
        update T_Params h x (\<lambda>m. m\<lparr>par_ReserveFee := None\<rparr>)
      else if FullName fd = full_name md_Params ''min_bid_increment'' then
        update T_Params h x (\<lambda>m. m\<lparr>par_MinBidIncrement := None\<rparr>)
      else if FullName fd = full_name md_Params ''front_running_protection'' then
        update T_Params h x (\<lambda>m. m\<lparr>par_FrontRunningProtection := False\<rparr>)
      else if FullName fd = full_name md_Params ''proposer_fee'' then
        update T_Params h x (\<lambda>m. m\<lparr>par_ProposerFee := ''''\<rparr>)
      else Panic)"

definition fastReflection_Params_Get ::
    "'v value_ops \<Rightarrow> 'c object heap \<Rightarrow> ptr \<Rightarrow> field_descriptor \<Rightarrow> 'v go" where
  "fastReflection_Params_Get V h x fd =
     (if FullName fd = full_name md_Params ''max_bundle_size'' then
        go_bind (load T_Params h x) (\<lambda>m. Ret (ValueOfUint32 V (par_MaxBundleSize m)))
      else if FullName fd = full_name md_Params ''escrow_account_address'' then
        go_bind (load T_Params h x) (\<lambda>m. Ret (ValueOfBytes V (par_EscrowAccountAddress m)))
      else if FullName fd = full_name md_Params ''reserve_fee'' then
        go_bind (load T_Params h x) (\<lambda>m. Ret (ValueOfMessage V (Coin_ProtoReflect (par_ReserveFee m))))
      else if FullName fd = full_name md_Params ''min_bid_increment'' then
        go_bind (load T_Params h x) (\<lambda>m. Ret (ValueOfMessage V (Coin_ProtoReflect
            (par_MinBidIncrement m))))
      else if FullName fd = full_name md_Params ''front_running_protection'' then
        go_bind (load T_Params h x) (\<lambda>m. Ret (ValueOfBool V (par_FrontRunningProtection m)))
      else if FullName fd = full_name md_Params ''proposer_fee'' then
        go_bind (load T_Params h x) (\<lambda>m. Ret (ValueOfString V (par_ProposerFee m)))
      else Panic)"

definition fastReflection_Params_Set ::
    "'v value_ops \<Rightarrow> 'c object heap \<Rightarrow> ptr \<Rightarrow> field_descriptor \<Rightarrow> 'v \<Rightarrow> 'c object heap go" where
  "fastReflection_Params_Set V h x fd v =
     (if FullName fd = full_name md_Params ''max_bundle_size'' then
        go_bind (Value_Uint V v) (\<lambda>n. update T_Params h x (\<lambda>m. m\<lparr>par_MaxBundleSize := ucast n\<rparr>))
      else if FullName fd = full_name md_Params ''escrow_account_address'' then
        go_bind (Value_Bytes V v) (\<lambda>v. update T_Params h x (\<lambda>m. m\<lparr>par_EscrowAccountAddress := v\<rparr>))
      else if FullName fd = full_name md_Params ''reserve_fee'' then
        go_bind (go_bind (Value_Message V v) (assert_type CoinType)) (\<lambda>p.
          update T_Params h x (\<lambda>m. m\<lparr>par_ReserveFee := p\<rparr>))
      else if FullName fd = full_name md_Params ''min_bid_increment'' then
        go_bind (go_bind (Value_Message V v) (assert_type CoinType)) (\<lambda>p.
          update T_Params h x (\<lambda>m. m\<lparr>par_MinBidIncrement := p\<rparr>))
      else if FullName fd = full_name md_Params ''front_running_protection'' then
        go_bind (Value_Bool V v) (\<lambda>v. update T_Params h x (\<lambda>m. m\<lparr>par_FrontRunningProtection := v\<rparr>))
      else if FullName fd = full_name md_Params ''proposer_fee'' then
        go_bind (Value_String V v) (\<lambda>v. update T_Params h x (\<lambda>m. m\<lparr>par_ProposerFee := v\<rparr>))
      else Panic)"

definition fastReflection_Params_Mutable ::
    "'v value_ops \<Rightarrow> 'c \<Rightarrow> 'c object heap \<Rightarrow> ptr \<Rightarrow> field_descriptor \<Rightarrow> ('v \<times> 'c object heap) go" where
  "fastReflection_Params_Mutable V c0 h x fd =
     (if FullName fd = full_name md_Params ''reserve_fee'' then
        go_bind (ensure_message T_Params par_ReserveFee (\<lambda>p m. m\<lparr>par_ReserveFee := p\<rparr>) T_Coin c0 h x)
          (\<lambda>(p, h'). Ret (ValueOfMessage V (Coin_ProtoReflect p), h'))
      else if FullName fd = full_name md_Params ''min_bid_increment'' then
        go_bind (ensure_message T_Params par_MinBidIncrement (\<lambda>p m. m\<lparr>par_MinBidIncrement := p\<rparr>)
            T_Coin c0 h x)
          (\<lambda>(p, h'). Ret (ValueOfMessage V (Coin_ProtoReflect p), h'))
      else if FullName fd = full_name md_Params ''max_bundle_size'' then Panic
      else if FullName fd = full_name md_Params ''escrow_account_address'' then Panic
      else if FullName fd = full_name md_Params ''front_running_protection'' then Panic
      else if FullName fd = full_name md_Params ''proposer_fee'' then Panic
      else Panic)"

definition fastReflection_Params_NewField ::
    "'v value_ops \<Rightarrow> 'c \<Rightarrow> 'c object heap \<Rightarrow> field_descriptor \<Rightarrow> ('v \<times> 'c object heap) go" where
  "fastReflection_Params_NewField V c0 h fd =
     (if FullName fd = full_name md_Params ''max_bundle_size'' then Ret (ValueOfUint32 V 0, h)
      else if FullName fd =
          full_name md_Params ''escrow_account_address'' then Ret (ValueOfBytes V None, h)
      else if FullName fd = full_name md_Params ''reserve_fee'' then
        (case alloc T_Coin h c0 of (p, h') \<Rightarrow>
          Ret (ValueOfMessage V (Coin_ProtoReflect (Some p)), h'))
      else if FullName fd = full_name md_Params ''min_bid_increment'' then
        (case alloc T_Coin h c0 of (p, h') \<Rightarrow>
          Ret (ValueOfMessage V (Coin_ProtoReflect (Some p)), h'))
      else if FullName fd =
          full_name md_Params ''front_running_protection'' then Ret (ValueOfBool V False, h)
      else if FullName fd = full_name md_Params ''proposer_fee'' then Ret (ValueOfString V '''', h)
      else Panic)"

definition fastReflection_Params_WhichOneof :: "string \<Rightarrow> field_descriptor go" where
  "fastReflection_Params_WhichOneof oneof = Panic"

definition fastReflection_Params_GetUnknown ::
    "'c object heap \<Rightarrow> ptr \<Rightarrow> bytes go" where
  "fastReflection_Params_GetUnknown h x =
     go_bind (load T_Params h x) (\<lambda>m. Ret (par_unknownFields m))"

definition fastReflection_Params_SetUnknown ::
    "'c object heap \<Rightarrow> ptr \<Rightarrow> bytes \<Rightarrow> 'c object heap go" where
  "fastReflection_Params_SetUnknown h x raw =
     update T_Params h x (\<lambda>m. m\<lparr>par_unknownFields := raw\<rparr>)"

section \<open>Contract\<close>

definition GenesisState_field_list :: "field_descriptor list" where
  "GenesisState_field_list = [fd_GenesisState_params]"

lemmas GenesisState_descriptors = fd_GenesisState_params_def

lemma GenesisState_Has_field:
  "fastReflection_GenesisState_Has h x fd_GenesisState_params =
     go_bind (load T_GenesisState h x) (\<lambda>m. Ret (gs_Params m \<noteq> None))"
  by (simp_all add: fastReflection_GenesisState_Has_def GenesisState_descriptors)

lemma GenesisState_Get_field:
  "fastReflection_GenesisState_Get V h x fd_GenesisState_params =
     go_bind (load T_GenesisState h x) (\<lambda>m. Ret (ValueOfMessage V (Params_ProtoReflect (gs_Params m))))"
  by (simp_all add: fastReflection_GenesisState_Get_def GenesisState_descriptors)

lemma GenesisState_Clear_field:
  "fastReflection_GenesisState_Clear h x fd_GenesisState_params =
      update T_GenesisState h x (\<lambda>m. m\<lparr>gs_Params := None\<rparr>)"
  by (simp_all add: fastReflection_GenesisState_Clear_def GenesisState_descriptors)

lemma GenesisState_Range_by_fields:
  "fastReflection_GenesisState_Range V f h x s =
      range_fields fastReflection_GenesisState_Has (fastReflection_GenesisState_Get V)
      GenesisState_field_list f h x s"
  unfolding fastReflection_GenesisState_Range_def GenesisState_field_list_def
  by (rule sym) ((rule range_fields_step, rule GenesisState_Has_field, simp add:
      GenesisState_Get_field)+, rule range_fields.simps)

lemma GenesisState_Clear_loaded:
  assumes "load T_GenesisState h x = Ret m" and "fd \<in> set GenesisState_field_list"
  shows "\<exists>h' m'. fastReflection_GenesisState_Clear h x fd = Ret h' \<and>
      load T_GenesisState h' x = Ret m' \<and> fastReflection_GenesisState_Has h' x fd = Ret False"
  using assms by (auto simp: GenesisState_field_list_def GenesisState_Clear_field
      GenesisState_Has_field intro!: GenesisState_objects.update_clears)

lemma GenesisState_Clear_other:
  assumes "fastReflection_GenesisState_Clear h x fd = Ret h'" and
      "fd \<in> set GenesisState_field_list" and "fd' \<in> set GenesisState_field_list" and "fd' \<noteq> fd"
  shows "fastReflection_GenesisState_Has h' x fd' = fastReflection_GenesisState_Has h x fd' \<and>
      fastReflection_GenesisState_Get V h' x fd' = fastReflection_GenesisState_Get V h x fd'"
  using assms by (auto simp: GenesisState_field_list_def GenesisState_Clear_field
      GenesisState_Has_field GenesisState_Get_field dest!: GenesisState_objects.update_dest)

interpretation GenesisState_reflection: message_reflection T_GenesisState GenesisState_field_list
    fastReflection_GenesisState_Has fastReflection_GenesisState_Get fastReflection_GenesisState_Clear
    fastReflection_GenesisState_Range
proof
  show "distinct GenesisState_field_list" by (simp add: GenesisState_field_list_def
      GenesisState_descriptors)
  show "\<exists>b. fastReflection_GenesisState_Has h x fd =
      Ret b" "\<exists>v. fastReflection_GenesisState_Get V h x fd = Ret v"
    if "load T_GenesisState h x = Ret m" and
        "fd \<in> set GenesisState_field_list" for V :: "'v value_ops" and h :: "'c object heap" and x m fd
    using that by (auto simp: GenesisState_field_list_def GenesisState_Has_field GenesisState_Get_field)
  show "fastReflection_GenesisState_Has h x fd = Panic \<and>
      fastReflection_GenesisState_Get V h x fd = Panic \<and>
      fastReflection_GenesisState_Clear h x fd = Panic"
    if "FullName fd \<notin> FullName ` set GenesisState_field_list" for V :: "'v value_ops" and
        h :: "'c object heap" and x fd
    using that by (simp add: GenesisState_field_list_def GenesisState_descriptors
        fastReflection_GenesisState_Has_def fastReflection_GenesisState_Get_def
        fastReflection_GenesisState_Clear_def)
qed (rule GenesisState_Range_by_fields GenesisState_Clear_other GenesisState_Clear_loaded; assumption)+


definition Params_field_list :: "field_descriptor list" where
  "Params_field_list = [fd_Params_max_bundle_size,
     fd_Params_escrow_account_address,
     fd_Params_reserve_fee,
     fd_Params_min_bid_increment,
     fd_Params_front_running_protection,
     fd_Params_proposer_fee]"

lemmas Params_descriptors =
    fd_Params_max_bundle_size_def fd_Params_escrow_account_address_def fd_Params_reserve_fee_def
    fd_Params_min_bid_increment_def fd_Params_front_running_protection_def fd_Params_proposer_fee_def

lemma Params_Has_field:
  "fastReflection_Params_Has h x fd_Params_max_bundle_size =
     go_bind (load T_Params h x) (\<lambda>m. Ret (par_MaxBundleSize m \<noteq> 0))"
  "fastReflection_Params_Has h x fd_Params_escrow_account_address =
     go_bind (load T_Params h x) (\<lambda>m. Ret (slice_items (par_EscrowAccountAddress m) \<noteq> []))"
  "fastReflection_Params_Has h x fd_Params_reserve_fee =
     go_bind (load T_Params h x) (\<lambda>m. Ret (par_ReserveFee m \<noteq> None))"
  "fastReflection_Params_Has h x fd_Params_min_bid_increment =
     go_bind (load T_Params h x) (\<lambda>m. Ret (par_MinBidIncrement m \<noteq> None))"
  "fastReflection_Params_Has h x fd_Params_front_running_protection =
     go_bind (load T_Params h x) (\<lambda>m. Ret (par_FrontRunningProtection m))"
  "fastReflection_Params_Has h x fd_Params_proposer_fee =
     go_bind (load T_Params h x) (\<lambda>m. Ret (par_ProposerFee m \<noteq> ''''))"
  by (simp_all add: fastReflection_Params_Has_def Params_descriptors)

lemma Params_Get_field:
  "fastReflection_Params_Get V h x fd_Params_max_bundle_size =
     go_bind (load T_Params h x) (\<lambda>m. Ret (ValueOfUint32 V (par_MaxBundleSize m)))"
  "fastReflection_Params_Get V h x fd_Params_escrow_account_address =
     go_bind (load T_Params h x) (\<lambda>m. Ret (ValueOfBytes V (par_EscrowAccountAddress m)))"
  "fastReflection_Params_Get V h x fd_Params_reserve_fee =
     go_bind (load T_Params h x) (\<lambda>m. Ret (ValueOfMessage V (Coin_ProtoReflect (par_ReserveFee m))))"
  "fastReflection_Params_Get V h x fd_Params_min_bid_increment =
     go_bind (load T_Params h x) (\<lambda>m. Ret (ValueOfMessage V (Coin_ProtoReflect (par_MinBidIncrement
         m))))"
  "fastReflection_Params_Get V h x fd_Params_front_running_protection =
     go_bind (load T_Params h x) (\<lambda>m. Ret (ValueOfBool V (par_FrontRunningProtection m)))"
  "fastReflection_Params_Get V h x fd_Params_proposer_fee =
     go_bind (load T_Params h x) (\<lambda>m. Ret (ValueOfString V (par_ProposerFee m)))"
  by (simp_all add: fastReflection_Params_Get_def Params_descriptors)

lemma Params_Clear_field:
  "fastReflection_Params_Clear h x fd_Params_max_bundle_size =
      update T_Params h x (\<lambda>m. m\<lparr>par_MaxBundleSize := 0\<rparr>)"
  "fastReflection_Params_Clear h x fd_Params_escrow_account_address =
      update T_Params h x (\<lambda>m. m\<lparr>par_EscrowAccountAddress := None\<rparr>)"
  "fastReflection_Params_Clear h x fd_Params_reserve_fee =
      update T_Params h x (\<lambda>m. m\<lparr>par_ReserveFee := None\<rparr>)"
  "fastReflection_Params_Clear h x fd_Params_min_bid_increment =
      update T_Params h x (\<lambda>m. m\<lparr>par_MinBidIncrement := None\<rparr>)"
  "fastReflection_Params_Clear h x fd_Params_front_running_protection =
      update T_Params h x (\<lambda>m. m\<lparr>par_FrontRunningProtection := False\<rparr>)"
  "fastReflection_Params_Clear h x fd_Params_proposer_fee =
      update T_Params h x (\<lambda>m. m\<lparr>par_ProposerFee := ''''\<rparr>)"
  by (simp_all add: fastReflection_Params_Clear_def Params_descriptors)

lemma Params_Range_by_fields:
  "fastReflection_Params_Range V f h x s =
      range_fields fastReflection_Params_Has (fastReflection_Params_Get V) Params_field_list f h x s"
  unfolding fastReflection_Params_Range_def Params_field_list_def
  by (rule sym) ((rule range_fields_step, rule Params_Has_field, simp add: Params_Get_field)+, rule
      range_fields.simps)

lemma Params_Clear_loaded:
  assumes "load T_Params h x = Ret m" and "fd \<in> set Params_field_list"
  shows "\<exists>h' m'. fastReflection_Params_Clear h x fd = Ret h' \<and> load T_Params h' x = Ret m' \<and>
      fastReflection_Params_Has h' x fd = Ret False"
  using assms by (auto simp: Params_field_list_def Params_Clear_field Params_Has_field intro!:
      Params_objects.update_clears)

lemma Params_Clear_other:
  assumes "fastReflection_Params_Clear h x fd = Ret h'" and "fd \<in> set Params_field_list" and
      "fd' \<in> set Params_field_list" and "fd' \<noteq> fd"
  shows "fastReflection_Params_Has h' x fd' = fastReflection_Params_Has h x fd' \<and>
      fastReflection_Params_Get V h' x fd' = fastReflection_Params_Get V h x fd'"
  using assms by (auto simp: Params_field_list_def Params_Clear_field Params_Has_field
      Params_Get_field dest!: Params_objects.update_dest)

interpretation Params_reflection: message_reflection T_Params Params_field_list
    fastReflection_Params_Has fastReflection_Params_Get fastReflection_Params_Clear
    fastReflection_Params_Range
proof
  show "distinct Params_field_list" by (simp add: Params_field_list_def Params_descriptors)
  show "\<exists>b. fastReflection_Params_Has h x fd = Ret b" "\<exists>v. fastReflection_Params_Get V h x fd = Ret v"
    if "load T_Params h x = Ret m" and "fd \<in> set Params_field_list" for V :: "'v value_ops" and
        h :: "'c object heap" and x m fd
    using that by (auto simp: Params_field_list_def Params_Has_field Params_Get_field)
  show "fastReflection_Params_Has h x fd = Panic \<and> fastReflection_Params_Get V h x fd = Panic \<and>
      fastReflection_Params_Clear h x fd = Panic"
    if "FullName fd \<notin> FullName ` set Params_field_list" for V :: "'v value_ops" and
        h :: "'c object heap" and x fd
    using that by (simp add: Params_field_list_def Params_descriptors fastReflection_Params_Has_def
        fastReflection_Params_Get_def fastReflection_Params_Clear_def)
qed (rule Params_Range_by_fields Params_Clear_other Params_Clear_loaded; assumption)+


end
