(* ===== verification/Pulsar_Query.thy ===== *)
theory Pulsar_Query
  imports Pulsar_Messages
begin

text \<open>
  The reflection methods of the two messages of \<open>api/sdk/auction/v1/query.pulsar.go\<close> and of the module's
  configuration (\<open>api/sdk/auction/module/v1/module.pulsar.go\<close>), with their contract.
\<close>

section \<open>Reflection\<close>

subsection \<open>QueryParamsRequest\<close>

definition md_QueryParamsRequest :: string where
  "md_QueryParamsRequest = ''sdk.auction.v1.QueryParamsRequest''"

definition fastReflection_QueryParamsRequest_Range ::
    "'v value_ops \<Rightarrow> ('v, 'c object, 's) visitor \<Rightarrow> 'c object heap \<Rightarrow> ptr \<Rightarrow> 's \<Rightarrow>
    ('c object heap \<times> 's) go" where
  "fastReflection_QueryParamsRequest_Range V f h x s = Ret (h, s)"

definition fastReflection_QueryParamsRequest_Has ::
    "'c object heap \<Rightarrow> ptr \<Rightarrow> field_descriptor \<Rightarrow> bool go" where
  "fastReflection_QueryParamsRequest_Has h x fd = Panic"

definition fastReflection_QueryParamsRequest_Clear ::
    "'c object heap \<Rightarrow> ptr \<Rightarrow> field_descriptor \<Rightarrow> 'c object heap go" where
  "fastReflection_QueryParamsRequest_Clear h x fd = Panic"

definition fastReflection_QueryParamsRequest_Get ::
    "'v value_ops \<Rightarrow> 'c object heap \<Rightarrow> ptr \<Rightarrow> field_descriptor \<Rightarrow> 'v go" where
  "fastReflection_QueryParamsRequest_Get V h x fd = Panic"

definition fastReflection_QueryParamsRequest_Set ::
    "'v value_ops \<Rightarrow> 'c object heap \<Rightarrow> ptr \<Rightarrow> field_descriptor \<Rightarrow> 'v \<Rightarrow> 'c object heap go" where
  "fastReflection_QueryParamsRequest_Set V h x fd v = Panic"

definition fastReflection_QueryParamsRequest_Mutable ::
    "'v value_ops \<Rightarrow> 'c object heap \<Rightarrow> ptr \<Rightarrow> field_descriptor \<Rightarrow> ('v \<times> 'c object heap) go" where
  "fastReflection_QueryParamsRequest_Mutable V h x fd = Panic"

definition fastReflection_QueryParamsRequest_NewField ::
    "'v value_ops \<Rightarrow> 'c object heap \<Rightarrow> field_descriptor \<Rightarrow> ('v \<times> 'c object heap) go" where
  "fastReflection_QueryParamsRequest_NewField V h fd = Panic"

definition fastReflection_QueryParamsRequest_WhichOneof :: "string \<Rightarrow> field_descriptor go" where
  "fastReflection_QueryParamsRequest_WhichOneof oneof = Panic"

definition fastReflection_QueryParamsRequest_GetUnknown ::
    "'c object heap \<Rightarrow> ptr \<Rightarrow> bytes go" where
  "fastReflection_QueryParamsRequest_GetUnknown h x =
     go_bind (load T_QueryParamsRequest h x) (\<lambda>m. Ret (qreq_unknownFields m))"

definition fastReflection_QueryParamsRequest_SetUnknown ::
    "'c object heap \<Rightarrow> ptr \<Rightarrow> bytes \<Rightarrow> 'c object heap go" where
  "fastReflection_QueryParamsRequest_SetUnknown h x raw =
     update T_QueryParamsRequest h x (\<lambda>m. m\<lparr>qreq_unknownFields := raw\<rparr>)"

subsection \<open>QueryParamsResponse\<close>

definition md_QueryParamsResponse :: string where
  "md_QueryParamsResponse = ''sdk.auction.v1.QueryParamsResponse''"

definition fd_QueryParamsResponse_params :: field_descriptor where
  "fd_QueryParamsResponse_params = field_of md_QueryParamsResponse ''params''"

definition fastReflection_QueryParamsResponse_Range ::
    "'v value_ops \<Rightarrow> ('v, 'c object, 's) visitor \<Rightarrow> 'c object heap \<Rightarrow> ptr \<Rightarrow> 's \<Rightarrow>
    ('c object heap \<times> 's) go" where
  "fastReflection_QueryParamsResponse_Range V f h x s =
     go_bind (load T_QueryParamsResponse h x) (\<lambda>m. visit (qresp_Params m \<noteq> None)
         fd_QueryParamsResponse_params
       (ValueOfMessage V (Params_ProtoReflect (qresp_Params m))) f h s (\<lambda>h s.
     Ret (h, s)))"

definition fastReflection_QueryParamsResponse_Has ::
    "'c object heap \<Rightarrow> ptr \<Rightarrow> field_descriptor \<Rightarrow> bool go" where
  "fastReflection_QueryParamsResponse_Has h x fd =
     (if FullName fd = full_name md_QueryParamsResponse ''params'' then
        go_bind (load T_QueryParamsResponse h x) (\<lambda>m. Ret (qresp_Params m \<noteq> None))
      else Panic)"

definition fastReflection_QueryParamsResponse_Clear ::
    "'c object heap \<Rightarrow> ptr \<Rightarrow> field_descriptor \<Rightarrow> 'c object heap go" where
  "fastReflection_QueryParamsResponse_Clear h x fd =
     (if FullName fd = full_name md_QueryParamsResponse ''params'' then
        update T_QueryParamsResponse h x (\<lambda>m. m\<lparr>qresp_Params := None\<rparr>)
      else Panic)"

definition fastReflection_QueryParamsResponse_Get ::
    "'v value_ops \<Rightarrow> 'c object heap \<Rightarrow> ptr \<Rightarrow> field_descriptor \<Rightarrow> 'v go" where
  "fastReflection_QueryParamsResponse_Get V h x fd =
     (if FullName fd = full_name md_QueryParamsResponse ''params'' then
        go_bind (load T_QueryParamsResponse h x) (\<lambda>m. Ret (ValueOfMessage V (Params_ProtoReflect
            (qresp_Params m))))
      else Panic)"

definition fastReflection_QueryParamsResponse_Set ::
    "'v value_ops \<Rightarrow> 'c object heap \<Rightarrow> ptr \<Rightarrow> field_descriptor \<Rightarrow> 'v \<Rightarrow> 'c object heap go" where
  "fastReflection_QueryParamsResponse_Set V h x fd v =
     (if FullName fd = full_name md_QueryParamsResponse ''params'' then
        go_bind (go_bind (Value_Message V v) (assert_type ParamsType)) (\<lambda>p.
          update T_QueryParamsResponse h x (\<lambda>m. m\<lparr>qresp_Params := p\<rparr>))
      else Panic)"

definition fastReflection_QueryParamsResponse_Mutable ::
    "'v value_ops \<Rightarrow> 'c object heap \<Rightarrow> ptr \<Rightarrow> field_descriptor \<Rightarrow> ('v \<times> 'c object heap) go" where
  "fastReflection_QueryParamsResponse_Mutable V h x fd =
     (if FullName fd = full_name md_QueryParamsResponse ''params'' then
        go_bind (ensure_message T_QueryParamsResponse qresp_Params (\<lambda>p m. m\<lparr>qresp_Params := p\<rparr>)
            T_Params zero_Params h x)
          (\<lambda>(p, h'). Ret (ValueOfMessage V (Params_ProtoReflect p), h'))
      else Panic)"

definition fastReflection_QueryParamsResponse_NewField ::
    "'v value_ops \<Rightarrow> 'c object heap \<Rightarrow> field_descriptor \<Rightarrow> ('v \<times> 'c object heap) go" where
  "fastReflection_QueryParamsResponse_NewField V h fd =
     (if FullName fd = full_name md_QueryParamsResponse ''params'' then
        (case alloc T_Params h zero_Params of (p, h') \<Rightarrow>
          Ret (ValueOfMessage V (Params_ProtoReflect (Some p)), h'))
      else Panic)"

definition fastReflection_QueryParamsResponse_WhichOneof :: "string \<Rightarrow> field_descriptor go" where
  "fastReflection_QueryParamsResponse_WhichOneof oneof = Panic"

definition fastReflection_QueryParamsResponse_GetUnknown ::
    "'c object heap \<Rightarrow> ptr \<Rightarrow> bytes go" where
  "fastReflection_QueryParamsResponse_GetUnknown h x =
     go_bind (load T_QueryParamsResponse h x) (\<lambda>m. Ret (qresp_unknownFields m))"

definition fastReflection_QueryParamsResponse_SetUnknown ::
    "'c object heap \<Rightarrow> ptr \<Rightarrow> bytes \<Rightarrow> 'c object heap go" where
  "fastReflection_QueryParamsResponse_SetUnknown h x raw =
     update T_QueryParamsResponse h x (\<lambda>m. m\<lparr>qresp_unknownFields := raw\<rparr>)"

subsection \<open>Module\<close>

definition md_Module :: string where
  "md_Module = ''sdk.auction.module.v1.Module''"

definition fd_Module_authority :: field_descriptor where
  "fd_Module_authority = field_of md_Module ''authority''"

definition fastReflection_Module_Range ::
    "'v value_ops \<Rightarrow> ('v, 'c object, 's) visitor \<Rightarrow> 'c object heap \<Rightarrow> ptr \<Rightarrow> 's \<Rightarrow>
    ('c object heap \<times> 's) go" where
  "fastReflection_Module_Range V f h x s =
     go_bind (load T_Module h x) (\<lambda>m. visit (mod_Authority m \<noteq> '''') fd_Module_authority
       (ValueOfString V (mod_Authority m)) f h s (\<lambda>h s.
     Ret (h, s)))"

definition fastReflection_Module_Has ::
    "'c object heap \<Rightarrow> ptr \<Rightarrow> field_descriptor \<Rightarrow> bool go" where
  "fastReflection_Module_Has h x fd =
     (if FullName fd = full_name md_Module ''authority'' then
        go_bind (load T_Module h x) (\<lambda>m. Ret (mod_Authority m \<noteq> ''''))
      else Panic)"

definition fastReflection_Module_Clear ::
    "'c object heap \<Rightarrow> ptr \<Rightarrow> field_descriptor \<Rightarrow> 'c object heap go" where
  "fastReflection_Module_Clear h x fd =
     (if FullName fd = full_name md_Module ''authority'' then
        update T_Module h x (\<lambda>m. m\<lparr>mod_Authority := ''''\<rparr>)
      else Panic)"

definition fastReflection_Module_Get ::
    "'v value_ops \<Rightarrow> 'c object heap \<Rightarrow> ptr \<Rightarrow> field_descriptor \<Rightarrow> 'v go" where
  "fastReflection_Module_Get V h x fd =
     (if FullName fd = full_name md_Module ''authority'' then
        go_bind (load T_Module h x) (\<lambda>m. Ret (ValueOfString V (mod_Authority m)))
      else Panic)"

definition fastReflection_Module_Set ::
    "'v value_ops \<Rightarrow> 'c object heap \<Rightarrow> ptr \<Rightarrow> field_descriptor \<Rightarrow> 'v \<Rightarrow> 'c object heap go" where
  "fastReflection_Module_Set V h x fd v =
     (if FullName fd = full_name md_Module ''authority'' then
        go_bind (Value_String V v) (\<lambda>v. update T_Module h x (\<lambda>m. m\<lparr>mod_Authority := v\<rparr>))
      else Panic)"

definition fastReflection_Module_Mutable ::
    "'v value_ops \<Rightarrow> 'c object heap \<Rightarrow> ptr \<Rightarrow> field_descriptor \<Rightarrow> ('v \<times> 'c object heap) go" where
  "fastReflection_Module_Mutable V h x fd =
     (if FullName fd = full_name md_Module ''authority'' then Panic
      else Panic)"

definition fastReflection_Module_NewField ::
    "'v value_ops \<Rightarrow> 'c object heap \<Rightarrow> field_descriptor \<Rightarrow> ('v \<times> 'c object heap) go" where
  "fastReflection_Module_NewField V h fd =
     (if FullName fd = full_name md_Module ''authority'' then Ret (ValueOfString V '''', h)
      else Panic)"

definition fastReflection_Module_WhichOneof :: "string \<Rightarrow> field_descriptor go" where
  "fastReflection_Module_WhichOneof oneof = Panic"

definition fastReflection_Module_GetUnknown ::
    "'c object heap \<Rightarrow> ptr \<Rightarrow> bytes go" where
  "fastReflection_Module_GetUnknown h x =
     go_bind (load T_Module h x) (\<lambda>m. Ret (mod_unknownFields m))"

definition fastReflection_Module_SetUnknown ::
    "'c object heap \<Rightarrow> ptr \<Rightarrow> bytes \<Rightarrow> 'c object heap go" where
  "fastReflection_Module_SetUnknown h x raw =
     update T_Module h x (\<lambda>m. m\<lparr>mod_unknownFields := raw\<rparr>)"

section \<open>Contract\<close>

definition QueryParamsRequest_field_list :: "field_descriptor list" where
  "QueryParamsRequest_field_list = []"

lemma QueryParamsRequest_Range_by_fields:
  "fastReflection_QueryParamsRequest_Range V f h x s =
      range_fields fastReflection_QueryParamsRequest_Has (fastReflection_QueryParamsRequest_Get V)
      QueryParamsRequest_field_list f h x s"
  unfolding fastReflection_QueryParamsRequest_Range_def QueryParamsRequest_field_list_def
  by simp

interpretation QueryParamsRequest_reflection: message_reflection T_QueryParamsRequest
    QueryParamsRequest_field_list fastReflection_QueryParamsRequest_Has
    fastReflection_QueryParamsRequest_Get fastReflection_QueryParamsRequest_Clear
    fastReflection_QueryParamsRequest_Range
  by unfold_locales (simp_all add: QueryParamsRequest_field_list_def
      QueryParamsRequest_Range_by_fields fastReflection_QueryParamsRequest_Has_def
      fastReflection_QueryParamsRequest_Get_def fastReflection_QueryParamsRequest_Clear_def)


definition QueryParamsResponse_field_list :: "field_descriptor list" where
  "QueryParamsResponse_field_list = [fd_QueryParamsResponse_params]"

lemmas QueryParamsResponse_descriptors = fd_QueryParamsResponse_params_def

lemma QueryParamsResponse_Has_field:
  "fastReflection_QueryParamsResponse_Has h x fd_QueryParamsResponse_params =
     go_bind (load T_QueryParamsResponse h x) (\<lambda>m. Ret (qresp_Params m \<noteq> None))"
  by (simp_all add: fastReflection_QueryParamsResponse_Has_def QueryParamsResponse_descriptors)

lemma QueryParamsResponse_Get_field:
  "fastReflection_QueryParamsResponse_Get V h x fd_QueryParamsResponse_params =
     go_bind (load T_QueryParamsResponse h x) (\<lambda>m. Ret (ValueOfMessage V (Params_ProtoReflect
         (qresp_Params m))))"
  by (simp_all add: fastReflection_QueryParamsResponse_Get_def QueryParamsResponse_descriptors)

lemma QueryParamsResponse_Clear_field:
  "fastReflection_QueryParamsResponse_Clear h x fd_QueryParamsResponse_params =
      update T_QueryParamsResponse h x (\<lambda>m. m\<lparr>qresp_Params := None\<rparr>)"
  by (simp_all add: fastReflection_QueryParamsResponse_Clear_def QueryParamsResponse_descriptors)

lemma QueryParamsResponse_Range_by_fields:
  "fastReflection_QueryParamsResponse_Range V f h x s =
      range_fields fastReflection_QueryParamsResponse_Has (fastReflection_QueryParamsResponse_Get V)
      QueryParamsResponse_field_list f h x s"
  unfolding fastReflection_QueryParamsResponse_Range_def QueryParamsResponse_field_list_def
  by (rule sym) ((rule range_fields_step, rule QueryParamsResponse_Has_field, simp add:
      QueryParamsResponse_Get_field)+, rule range_fields.simps)

lemma QueryParamsResponse_Clear_loaded:
  assumes "load T_QueryParamsResponse h x = Ret m" and "fd \<in> set QueryParamsResponse_field_list"
  shows "\<exists>h' m'. fastReflection_QueryParamsResponse_Clear h x fd = Ret h' \<and>
      load T_QueryParamsResponse h' x = Ret m' \<and>
      fastReflection_QueryParamsResponse_Has h' x fd = Ret False"
  using assms by (auto simp: QueryParamsResponse_field_list_def QueryParamsResponse_Clear_field
      QueryParamsResponse_Has_field intro!: QueryParamsResponse_objects.update_clears)

lemma QueryParamsResponse_Clear_other:
  assumes "fastReflection_QueryParamsResponse_Clear h x fd = Ret h'" and
      "fd \<in> set QueryParamsResponse_field_list" and "fd' \<in> set QueryParamsResponse_field_list" and
      "fd' \<noteq> fd"
  shows "fastReflection_QueryParamsResponse_Has h' x fd' =
      fastReflection_QueryParamsResponse_Has h x fd' \<and>
      fastReflection_QueryParamsResponse_Get V h' x fd' =
      fastReflection_QueryParamsResponse_Get V h x fd'"
  using assms by (auto simp: QueryParamsResponse_field_list_def QueryParamsResponse_Clear_field
      QueryParamsResponse_Has_field QueryParamsResponse_Get_field dest!:
      QueryParamsResponse_objects.update_dest)

interpretation QueryParamsResponse_reflection: message_reflection T_QueryParamsResponse
    QueryParamsResponse_field_list fastReflection_QueryParamsResponse_Has
    fastReflection_QueryParamsResponse_Get fastReflection_QueryParamsResponse_Clear
    fastReflection_QueryParamsResponse_Range
proof
  show "distinct QueryParamsResponse_field_list" by (simp add: QueryParamsResponse_field_list_def
      QueryParamsResponse_descriptors)
  show "\<exists>b. fastReflection_QueryParamsResponse_Has h x fd =
      Ret b" "\<exists>v. fastReflection_QueryParamsResponse_Get V h x fd = Ret v"
    if "load T_QueryParamsResponse h x = Ret m" and
        "fd \<in> set QueryParamsResponse_field_list" for V :: "'v value_ops" and
        h :: "'c object heap" and x m fd
    using that by (auto simp: QueryParamsResponse_field_list_def QueryParamsResponse_Has_field
        QueryParamsResponse_Get_field)
  show "fastReflection_QueryParamsResponse_Has h x fd = Panic \<and>
      fastReflection_QueryParamsResponse_Get V h x fd = Panic \<and>
      fastReflection_QueryParamsResponse_Clear h x fd = Panic"
    if "FullName fd \<notin> FullName ` set QueryParamsResponse_field_list" for V :: "'v value_ops" and
        h :: "'c object heap" and x fd
    using that by (simp add: QueryParamsResponse_field_list_def QueryParamsResponse_descriptors
        fastReflection_QueryParamsResponse_Has_def fastReflection_QueryParamsResponse_Get_def
        fastReflection_QueryParamsResponse_Clear_def)
qed (rule QueryParamsResponse_Range_by_fields QueryParamsResponse_Clear_other
    QueryParamsResponse_Clear_loaded; assumption)+


definition Module_field_list :: "field_descriptor list" where
  "Module_field_list = [fd_Module_authority]"

lemmas Module_descriptors = fd_Module_authority_def

lemma Module_Has_field:
  "fastReflection_Module_Has h x fd_Module_authority =
     go_bind (load T_Module h x) (\<lambda>m. Ret (mod_Authority m \<noteq> ''''))"
  by (simp_all add: fastReflection_Module_Has_def Module_descriptors)

lemma Module_Get_field:
  "fastReflection_Module_Get V h x fd_Module_authority =
     go_bind (load T_Module h x) (\<lambda>m. Ret (ValueOfString V (mod_Authority m)))"
  by (simp_all add: fastReflection_Module_Get_def Module_descriptors)

lemma Module_Clear_field:
  "fastReflection_Module_Clear h x fd_Module_authority =
      update T_Module h x (\<lambda>m. m\<lparr>mod_Authority := ''''\<rparr>)"
  by (simp_all add: fastReflection_Module_Clear_def Module_descriptors)

lemma Module_Range_by_fields:
  "fastReflection_Module_Range V f h x s =
      range_fields fastReflection_Module_Has (fastReflection_Module_Get V) Module_field_list f h x s"
  unfolding fastReflection_Module_Range_def Module_field_list_def
  by (rule sym) ((rule range_fields_step, rule Module_Has_field, simp add: Module_Get_field)+, rule
      range_fields.simps)

lemma Module_Clear_loaded:
  assumes "load T_Module h x = Ret m" and "fd \<in> set Module_field_list"
  shows "\<exists>h' m'. fastReflection_Module_Clear h x fd = Ret h' \<and> load T_Module h' x = Ret m' \<and>
      fastReflection_Module_Has h' x fd = Ret False"
  using assms by (auto simp: Module_field_list_def Module_Clear_field Module_Has_field intro!:
      Module_objects.update_clears)

lemma Module_Clear_other:
  assumes "fastReflection_Module_Clear h x fd = Ret h'" and "fd \<in> set Module_field_list" and
      "fd' \<in> set Module_field_list" and "fd' \<noteq> fd"
  shows "fastReflection_Module_Has h' x fd' = fastReflection_Module_Has h x fd' \<and>
      fastReflection_Module_Get V h' x fd' = fastReflection_Module_Get V h x fd'"
  using assms by (auto simp: Module_field_list_def Module_Clear_field Module_Has_field
      Module_Get_field dest!: Module_objects.update_dest)

interpretation Module_reflection: message_reflection T_Module Module_field_list
    fastReflection_Module_Has fastReflection_Module_Get fastReflection_Module_Clear
    fastReflection_Module_Range
proof
  show "distinct Module_field_list" by (simp add: Module_field_list_def Module_descriptors)
  show "\<exists>b. fastReflection_Module_Has h x fd = Ret b" "\<exists>v. fastReflection_Module_Get V h x fd = Ret v"
    if "load T_Module h x = Ret m" and "fd \<in> set Module_field_list" for V :: "'v value_ops" and
        h :: "'c object heap" and x m fd
    using that by (auto simp: Module_field_list_def Module_Has_field Module_Get_field)
  show "fastReflection_Module_Has h x fd = Panic \<and> fastReflection_Module_Get V h x fd = Panic \<and>
      fastReflection_Module_Clear h x fd = Panic"
    if "FullName fd \<notin> FullName ` set Module_field_list" for V :: "'v value_ops" and
        h :: "'c object heap" and x fd
    using that by (simp add: Module_field_list_def Module_descriptors fastReflection_Module_Has_def
        fastReflection_Module_Get_def fastReflection_Module_Clear_def)
qed (rule Module_Range_by_fields Module_Clear_other Module_Clear_loaded; assumption)+


end
