(* ===== verification/Pulsar_Reflection.thy ===== *)
theory Pulsar_Reflection
  imports Pulsar_Tx Pulsar_Genesis Pulsar_Query
begin

text \<open>
  What reflective clients (the library's \<open>Merge\<close> and \<open>Clone\<close>, the JSON writer, signing in textual form) can
  do with the messages of the pulsar API: copy a message field by field with \<open>Range\<close> and \<open>Set\<close>, clear
  a field without touching the others, and change a message through what \<open>Mutable\<close> hands out.
\<close>

section \<open>Copying field by field\<close>

text \<open>\<open>Set\<close> for each pair of a field and a value.\<close>

fun set_fields ::
  "('o heap \<Rightarrow> ptr \<Rightarrow> field_descriptor \<Rightarrow> 'v \<Rightarrow> 'o heap go) \<Rightarrow> ptr \<Rightarrow> (field_descriptor \<times> 'v) list \<Rightarrow>
   'o heap \<Rightarrow> 'o heap go" where
  "set_fields set_field x [] h = Ret h"
| "set_fields set_field x ((fd, v) # ps) h = go_bind (set_field h x fd v) (set_fields set_field x ps)"

lemma set_fields_append:
  "set_fields set_field x (ps @ qs) h = go_bind (set_fields set_field x ps h) (set_fields set_field x qs)"
proof (induction ps arbitrary: h)
  case (Cons p ps)
  then show ?case by (cases p; cases "set_field h x (fst p) (snd p)") simp_all
qed simp

text \<open>One field, shown or not: the object at \<open>b\<close> takes the value, the object at \<open>a\<close> stays.\<close>

context typed_objects begin

lemma set_shown_field:
  assumes "load T h (Some a) = Ret m" and "load T h (Some b) = Ret n" and "a \<noteq> b"
    and "set_field h (Some b) fd v = update T h (Some b) f"
  shows "\<exists>h'. set_fields set_field (Some b) (if shown then [(fd, v)] else []) h = Ret h' \<and>
    load T h' (Some a) = Ret m \<and> load T h' (Some b) = Ret (if shown then f n else n)"
proof (cases shown)
  case True
  obtain h' where "update T h (Some b) f = Ret h'" "load T h' (Some b) = Ret (f n)"
    using update_Ret [OF assms(2)] by blast
  then show ?thesis using True assms load_update_iff by auto
qed (use assms in simp)

end

text \<open>What \<open>Set\<close> does with the values that \<open>Get\<close> and \<open>Range\<close> give.\<close>

lemma MsgAuctionBid_Set_field:
  assumes "value_laws V"
  shows "fastReflection_MsgAuctionBid_Set V h x fd_MsgAuctionBid_bidder (ValueOfString V s) =
      update T_MsgAuctionBid h x (\<lambda>m. m\<lparr>bid_Bidder := s\<rparr>)"
    and "fastReflection_MsgAuctionBid_Set V h x fd_MsgAuctionBid_bid (ValueOfMessage V (Coin_ProtoReflect p)) =
      update T_MsgAuctionBid h x (\<lambda>m. m\<lparr>bid_Bid := p\<rparr>)"
    and "load T_MsgAuctionBid h (Some a) = Ret m \<Longrightarrow>
      fastReflection_MsgAuctionBid_Set V h x fd_MsgAuctionBid_transactions
        (ValueOfList V (MsgAuctionBid_3_list (Some (FieldRef a)))) =
      update T_MsgAuctionBid h x (\<lambda>n. n\<lparr>bid_Transactions := bid_Transactions m\<rparr>)"
  using value_lawsD [OF assms]
  by (simp_all add: fastReflection_MsgAuctionBid_Set_def MsgAuctionBid_descriptors Coin_ProtoReflect_def
    MsgAuctionBid_3_list_deref_def load_slice_def)

lemma MsgAuctionBid_Range_collects:
  assumes "load T_MsgAuctionBid h x = Ret m"
  shows "fastReflection_MsgAuctionBid_Range V collect h x [] = Ret (h,
    (if bid_Bidder m \<noteq> '''' then [(fd_MsgAuctionBid_bidder, ValueOfString V (bid_Bidder m))] else []) @
    (if bid_Bid m \<noteq> None then [(fd_MsgAuctionBid_bid, ValueOfMessage V (Coin_ProtoReflect (bid_Bid m)))] else []) @
    (if slice_items (bid_Transactions m) \<noteq> []
     then [(fd_MsgAuctionBid_transactions, ValueOfList V (MsgAuctionBid_3_list (map_option FieldRef x)))] else []))"
  using assms by (simp add: fastReflection_MsgAuctionBid_Range_def visit_def collect_def)

text \<open>C25: Copying a bid by reflection, \<open>Set\<close> on a new bid for each field and value that \<open>Range\<close> shows of the old
  one, copies every field: the bidder, the reference to the coin, and the transactions, of which an empty
  slice becomes nil; unknown fields are not fields. The old bid stays as it was.\<close>

theorem pulsar_reflective_copy:
  assumes "value_laws V" and "load T_MsgAuctionBid h (Some a) = Ret m"
    and "load T_MsgAuctionBid h (Some b) = Ret zero_MsgAuctionBid" and "a \<noteq> b"
  shows "\<exists>ps h'. fastReflection_MsgAuctionBid_Range V collect h (Some a) [] = Ret (h, ps) \<and>
    set_fields (fastReflection_MsgAuctionBid_Set V) (Some b) ps h = Ret h' \<and>
    load T_MsgAuctionBid h' (Some a) = Ret m \<and>
    load T_MsgAuctionBid h' (Some b) = Ret (m\<lparr>bid_Transactions :=
      if slice_items (bid_Transactions m) = [] then None else bid_Transactions m, bid_unknownFields := []\<rparr>)"
proof -
  let ?set = "fastReflection_MsgAuctionBid_Set V"
  note set = MsgAuctionBid_Set_field [OF assms(1)] and 
    shown = MsgAuctionBid_objects.set_shown_field [where set_field = ?set and a = a and b = b, OF _ _ assms(4)]
  let ?bidder = "if bid_Bidder m \<noteq> '''' then [(fd_MsgAuctionBid_bidder, ValueOfString V (bid_Bidder m))] else []"
  let ?bid = "if bid_Bid m \<noteq> None then [(fd_MsgAuctionBid_bid, ValueOfMessage V (Coin_ProtoReflect (bid_Bid m)))] else []"
  let ?txs = "if slice_items (bid_Transactions m) \<noteq> [] then [(fd_MsgAuctionBid_transactions,
    ValueOfList V (MsgAuctionBid_3_list (Some (FieldRef a))))] else []"
  let ?n1 = "zero_MsgAuctionBid\<lparr>bid_Bidder := bid_Bidder m\<rparr>"
  obtain h1 where h1: "set_fields ?set (Some b) ?bidder h = Ret h1" "load T_MsgAuctionBid h1 (Some a) = Ret m"
      "load T_MsgAuctionBid h1 (Some b) = Ret ?n1"
    using shown [OF assms(2,3) set(1) [where s = "bid_Bidder m"], where shown = "bid_Bidder m \<noteq> ''''"]
    by (auto simp: zero_MsgAuctionBid_def)
  obtain h2 where h2: "set_fields ?set (Some b) ?bid h1 = Ret h2" "load T_MsgAuctionBid h2 (Some a) = Ret m"
      "load T_MsgAuctionBid h2 (Some b) = Ret (?n1\<lparr>bid_Bid := bid_Bid m\<rparr>)"
    using shown [OF h1(2,3) set(2) [where p = "bid_Bid m"], where shown = "bid_Bid m \<noteq> None"] by (auto simp: zero_MsgAuctionBid_def)
  obtain h3 where "set_fields ?set (Some b) ?txs h2 = Ret h3" "load T_MsgAuctionBid h3 (Some a) = Ret m"
      "load T_MsgAuctionBid h3 (Some b) = Ret (m\<lparr>bid_Transactions :=
        if slice_items (bid_Transactions m) = [] then None else bid_Transactions m, bid_unknownFields := []\<rparr>)"
    using shown [OF h2(2,3) set(3) [OF h2(2)], where shown = "slice_items (bid_Transactions m) \<noteq> []"]
    by (auto simp: zero_MsgAuctionBid_def)
  then show ?thesis
    using MsgAuctionBid_Range_collects [OF assms(2), of V] h1(1) h2(1) by (auto simp: set_fields_append)
qed


text \<open>A bid with a coin and one transaction, beside a new bid.\<close>

definition sample_bids :: "unit object heap" where
  "sample_bids = \<lparr> next_addr = 3, objects =
     [0 \<mapsto> CoinObject (),
      1 \<mapsto> MsgAuctionBidObject \<lparr> bid_Bidder = ''ann'', bid_Bid = Some 0, bid_Transactions = Some [Some [1]],
        bid_unknownFields = [9] \<rparr>,
      2 \<mapsto> MsgAuctionBidObject zero_MsgAuctionBid] \<rparr>"

lemma sample_bids_load:
  "load T_MsgAuctionBid sample_bids (Some 1) =
     Ret \<lparr> bid_Bidder = ''ann'', bid_Bid = Some 0, bid_Transactions = Some [Some [1]], bid_unknownFields = [9] \<rparr>"
  "load T_MsgAuctionBid sample_bids (Some 2) = Ret zero_MsgAuctionBid" "heap_ok sample_bids"
  by (auto simp: sample_bids_def load_def T_MsgAuctionBid_def heap_ok_def)

theorem pulsar_reflective_copy_witness:
  "\<exists>ps h'. fastReflection_MsgAuctionBid_Range plain_values collect sample_bids (Some 1) [] = Ret (sample_bids, ps) \<and>
    set_fields (fastReflection_MsgAuctionBid_Set plain_values) (Some 2) ps sample_bids = Ret h' \<and>
    load T_MsgAuctionBid h' (Some 2) =
      Ret \<lparr> bid_Bidder = ''ann'', bid_Bid = Some 0, bid_Transactions = Some [Some [1]], bid_unknownFields = [] \<rparr>"
proof -
  have "(1 :: nat) \<noteq> 2" by simp
  from pulsar_reflective_copy [OF plain_values_laws sample_bids_load(1,2) this] show ?thesis by auto
qed

section \<open>Changing a message through a reference\<close>

text \<open>C26: The list that \<open>Mutable\<close> gives for the transactions of a bid is the bid's own: what is appended to it is
  appended to the bid, and \<open>Get\<close> then gives the same list. A list that \<open>NewField\<close> gives is not: appending
  to it leaves the bid alone.\<close>

theorem pulsar_Mutable_aliases:
  assumes "value_laws V" and "heap_ok h" and "load T_MsgAuctionBid h (Some a) = Ret m"
  shows "(\<exists>v l h1 h2. fastReflection_MsgAuctionBid_Mutable V c0 h (Some a) fd_MsgAuctionBid_transactions = Ret (v, h1) \<and>
      Value_List V v = Ret (MsgAuctionBid_3_list l) \<and>
      MsgAuctionBid_3_list_Append V h1 l (ValueOfBytes V tx) = Ret h2 \<and>
      load T_MsgAuctionBid h2 (Some a) = Ret (m\<lparr>bid_Transactions := Some (slice_items (bid_Transactions m) @ [tx])\<rparr>) \<and>
      fastReflection_MsgAuctionBid_Get V h2 (Some a) fd_MsgAuctionBid_transactions = Ret v \<and>
      MsgAuctionBid_3_list_Get V h2 l (int (length (slice_items (bid_Transactions m)))) = Ret (ValueOfBytes V tx)) \<and>
    (\<exists>v l h1 h2. fastReflection_MsgAuctionBid_NewField V c0 h fd_MsgAuctionBid_transactions = Ret (v, h1) \<and>
      Value_List V v = Ret (MsgAuctionBid_3_list l) \<and>
      MsgAuctionBid_3_list_Append V h1 l (ValueOfBytes V tx) = Ret h2 \<and>
      MsgAuctionBid_3_list_Len h2 l = Ret 1 \<and> load T_MsgAuctionBid h2 (Some a) = Ret m)"
proof (intro conjI)
  note vals = value_lawsD [OF assms(1)]
  let ?items = "slice_items (bid_Transactions m)" and ?l = "Some (FieldRef a)"
  let ?m = "if bid_Transactions m = None then m\<lparr>bid_Transactions := Some []\<rparr> else m"
  obtain h1 where h1: "fastReflection_MsgAuctionBid_Mutable V c0 h (Some a) fd_MsgAuctionBid_transactions =
      Ret (ValueOfList V (MsgAuctionBid_3_list ?l), h1)" "load T_MsgAuctionBid h1 (Some a) = Ret ?m"
    using MsgAuctionBid_objects.update_Ret [OF assms(3), of "\<lambda>m. m\<lparr>bid_Transactions := Some []\<rparr>"] assms(3)
    by (cases "bid_Transactions m") (auto simp: fastReflection_MsgAuctionBid_Mutable_def MsgAuctionBid_descriptors)
  have items: "slice_items (bid_Transactions ?m) = ?items" by simp
  obtain h2 where h2: "update T_MsgAuctionBid h1 (Some a) (\<lambda>m. m\<lparr>bid_Transactions := Some (?items @ [tx])\<rparr>) = Ret h2"
      "load T_MsgAuctionBid h2 (Some a) = Ret (?m\<lparr>bid_Transactions := Some (?items @ [tx])\<rparr>)"
    using MsgAuctionBid_objects.update_Ret [OF h1(2)] by blast
  have "MsgAuctionBid_3_list_Append V h1 ?l (ValueOfBytes V tx) = Ret h2"
    using h1(2) h2(1) items by (simp add: MsgAuctionBid_3_list_Append_def vals load_slice_def store_slice_def)
  then show "\<exists>v l h1 h2. fastReflection_MsgAuctionBid_Mutable V c0 h (Some a) fd_MsgAuctionBid_transactions = Ret (v, h1) \<and>
      Value_List V v = Ret (MsgAuctionBid_3_list l) \<and>
      MsgAuctionBid_3_list_Append V h1 l (ValueOfBytes V tx) = Ret h2 \<and>
      load T_MsgAuctionBid h2 (Some a) = Ret (m\<lparr>bid_Transactions := Some (?items @ [tx])\<rparr>) \<and>
      fastReflection_MsgAuctionBid_Get V h2 (Some a) fd_MsgAuctionBid_transactions = Ret v \<and>
      MsgAuctionBid_3_list_Get V h2 l (int (length ?items)) = Ret (ValueOfBytes V tx)"
    using h1(1) h2(2) by (intro exI conjI)
      (auto simp: vals MsgAuctionBid_Get_field MsgAuctionBid_3_list_Get_def load_slice_def)
next
  note vals = value_lawsD [OF assms(1)]
  let ?k = "next_addr h"
  define h1 where "h1 = snd (alloc T_Slice h (Some []))"
  have a: "a < ?k" by (rule load_below [OF assms(2,3)])
  have new: "load T_Slice h1 (Some ?k) = Ret (Some [])"
    unfolding h1_def by (rule Slice_objects.load_alloc_same)
  have bid: "load T_MsgAuctionBid h1 (Some a) = Ret m"
    using a assms(3) load_alloc_other [of a h T_MsgAuctionBid T_Slice "Some []"] by (simp add: h1_def)
  obtain h2 where h2: "store T_Slice h1 (Some ?k) (Some [tx]) = Ret h2" by (simp add: store_def)
  then have "load T_MsgAuctionBid h2 (Some a) = Ret m" "load T_Slice h2 (Some ?k) = Ret (Some [tx])"
    using load_store_other [OF h2, of a T_MsgAuctionBid] bid a Slice_objects.load_store_same [OF h2] by auto
  moreover have "fastReflection_MsgAuctionBid_NewField V c0 h fd_MsgAuctionBid_transactions =
      Ret (ValueOfList V (MsgAuctionBid_3_list (Some (VarRef ?k))), h1)"
    by (simp add: fastReflection_MsgAuctionBid_NewField_def MsgAuctionBid_descriptors h1_def case_prod_unfold)
  ultimately show "\<exists>v l h1 h2. fastReflection_MsgAuctionBid_NewField V c0 h fd_MsgAuctionBid_transactions = Ret (v, h1) \<and>
      Value_List V v = Ret (MsgAuctionBid_3_list l) \<and>
      MsgAuctionBid_3_list_Append V h1 l (ValueOfBytes V tx) = Ret h2 \<and>
      MsgAuctionBid_3_list_Len h2 l = Ret 1 \<and> load T_MsgAuctionBid h2 (Some a) = Ret m"
    using h2 new by (intro exI conjI)
      (auto simp: vals MsgAuctionBid_3_list_Append_def MsgAuctionBid_3_list_Len_def load_slice_def store_slice_def)
qed

theorem pulsar_Mutable_aliases_witness:
  "\<exists>v l h1 h2. fastReflection_MsgAuctionBid_Mutable plain_values () sample_bids (Some 2)
      fd_MsgAuctionBid_transactions = Ret (v, h1) \<and>
    Value_List plain_values v = Ret (MsgAuctionBid_3_list l) \<and>
    MsgAuctionBid_3_list_Append plain_values h1 l (ValueOfBytes plain_values (Some [7])) = Ret h2 \<and>
    load T_MsgAuctionBid h2 (Some 2) = Ret (zero_MsgAuctionBid\<lparr>bid_Transactions := Some [Some [7]]\<rparr>)"
  using pulsar_Mutable_aliases [OF plain_values_laws sample_bids_load(3,2), of "()" "Some [7]"]
  by (auto simp: zero_MsgAuctionBid_def)

section \<open>Clearing a field\<close>

text \<open>Whatever field is cleared, \<open>Range\<close> then shows the others, with the values they had.\<close>

lemma MsgAuctionBid_Clear_Range:
  assumes "load T_MsgAuctionBid h x = Ret m" and "fd \<in> set MsgAuctionBid_field_list"
    and "fastReflection_MsgAuctionBid_Clear h x fd = Ret h'"
  shows "\<exists>ps. fastReflection_MsgAuctionBid_Range V collect h x [] = Ret (h, ps) \<and>
    fastReflection_MsgAuctionBid_Range V collect h' x [] = Ret (h', [p \<leftarrow> ps. fst p \<noteq> fd])"
  using MsgAuctionBid_reflection.range_collects [OF assms(1), of V "[]"]
    MsgAuctionBid_reflection.cleared_not_ranged [OF assms, of V] by auto

lemma Params_Clear_Range:
  assumes "load T_Params h x = Ret m" and "fd \<in> set Params_field_list"
    and "fastReflection_Params_Clear h x fd = Ret h'"
  shows "\<exists>ps. fastReflection_Params_Range V collect h x [] = Ret (h, ps) \<and>
    fastReflection_Params_Range V collect h' x [] = Ret (h', [p \<leftarrow> ps. fst p \<noteq> fd])"
  using Params_reflection.range_collects [OF assms(1), of V "[]"]
    Params_reflection.cleared_not_ranged [OF assms, of V] by auto

end
