(* ===== verification/Spec2Isabelle.thy ===== *)
theory Spec2Isabelle
  imports App_Check Tx_Cache Auction_Module Info_Codec Pulsar_Interop Pulsar_Reflection
begin

text \<open>
  The Block SDK: a block proposal is built and verified lane by lane. A lane is a mempool of
  transactions with rules of its own for which transactions belong to it, how they are ordered and
  how much of a block they may fill; one of them, the MEV lane, auctions the top of the block.

  \<^bold>\<open>How the parts interact.\<close> CometBFT calls the application in three ways. \<open>CheckTx\<close> runs a new or an
  old transaction against the state; the wrappers of \<open>abci/checktx\<close> look bids up in the MEV lane and
  evict from the laned mempool what is refused. The application's mempool is the laned mempool
  (\<open>block/mempool.go\<close>), which dispatches to the mempool of the first lane that matches.
  \<open>PrepareProposal\<close> (\<open>abci/abci.go\<close>) runs the chain of lanes (\<open>abci/utils.go\<close>): each lane selects
  from its mempool and hands its selection to \<open>UpdateProposal\<close> (\<open>block/proposals\<close>), which keeps the books
  of the block. \<open>ProcessProposal\<close> decodes the transactions of a proposal and lets each lane consume the
  front of what is left; the terminator at the end of the chain refuses a rest. The auction module
  (\<open>x/auction\<close>) checks bids in its ante decorator and moves the money.

  \<^bold>\<open>Theories and the code they model.\<close>
  \<^item> \<open>Go_Prelude\<close>: \<open>int64\<close> and \<open>uint64\<close> as words, the outcome \<open>go\<close> of a call (value, error, panic), and
    the lemmas every theory shares. \<open>Sdk_Interface\<close>: what the code uses of packages outside the
    repository, as records of operations with their documented laws.
  \<^item> \<open>Tx_Info\<close>: \<open>block/utils/utils.go\<close> and \<open>adapters/signer_extraction_adapter\<close>. \<open>Tx_Cache\<close>: the caching
    decoder \<open>block/utils/decoder.go\<close>; its state is the record \<open>CacheTxDecoder\<close>, its ring buffer is
    refined to a bounded queue.
  \<^item> \<open>Proposals\<close>: \<open>block/proposals\<close>. The state is the record \<open>Proposal\<close>; \<open>UpdateProposal\<close> is refined to an
    abstract block, \<open>BlockSpec\<close>, whose sums are reduced to 64 bits, and to the ideal one while they fit.
  \<^item> \<open>Base_Lane\<close> and \<open>Base_Lane_Lemmas\<close>: \<open>block/base\<close> without its mempool, with the default handlers seen as
    runs. \<open>Lanes\<close>: the interface of \<open>block/lane.go\<close>, the terminator, \<open>block/types.go\<close> and \<open>block/ante.go\<close>.
    \<open>Laned_Mempool\<close>: \<open>block/mempool.go\<close> and \<open>block/service\<close>.
  \<^item> \<open>Priority_Mempool\<close>, \<open>Priority_Mempool_Lemmas\<close>, \<open>Mempool_Reach\<close>: the priority nonce mempool
    \<open>block/base/priority_nonce.go\<close>, its invariant, and the states it reaches (\<open>pn_reach\<close>).
    \<open>Lane_Mempool\<close>: \<open>block/base/mempool.go\<close>, the constructors of \<open>block/base\<close>, \<open>lanes/base\<close> and \<open>lanes/free\<close>, and the
    laned mempool over such mempools.
  \<^item> \<open>Mev_Lane\<close>: \<open>lanes/mev\<close>. \<open>Abci\<close>: \<open>abci/abci.go\<close> and \<open>abci/utils.go\<close>. \<open>Round_Trip\<close>: the two handlers
    together. \<open>App_Run\<close>: the histories of a node's mempools and the proposals built from them.
    \<open>Test_App\<close>: the lanes, the constructor and the handlers of the application in \<open>tests/app\<close>. \<open>Check_Tx\<close>: \<open>abci/checktx\<close>.
    \<open>App_Check\<close>: the two in the application.
  \<^item> \<open>Auction_Params\<close>, \<open>Auction_Keeper\<close>: \<open>x/auction\<close>, with its types, keeper, ante decorator and rewards.
    \<open>Auction_Module\<close>: the genesis file (\<open>x/auction/module.go\<close>) and the command that places a bid
    (\<open>x/auction/client/cli/tx.go\<close>).
  \<^item> \<open>Proto_Codec\<close>, \<open>Auction_Params\<close>, \<open>Msg_Codec\<close>, \<open>Info_Codec\<close>: the generated \<open>*.pb.go\<close> files. The generator
    repeats its helpers in every file; they are modelled once, in \<open>Proto_Codec\<close>.
  \<^item> \<open>Pulsar_Runtime\<close>, \<open>Pulsar_Messages\<close>, \<open>Pulsar_Genesis\<close>, \<open>Pulsar_Tx\<close>, \<open>Pulsar_Query\<close>, \<open>Pulsar_Fast_Path\<close>,
    \<open>Pulsar_Codec\<close>: the pulsar API for clients (\<open>api/sdk/auction\<close>). Messages are objects of a heap; the
    reflection methods and the fast path of each message are definitions of their own, what they share
    is in \<open>Pulsar_Runtime\<close> and \<open>Pulsar_Fast_Path\<close>. \<open>Pulsar_Wire\<close>: what is written and read, field by field;
    \<open>Pulsar_Round_Trip\<close>, \<open>Pulsar_Interop\<close>: both together, also with the module's own types;
    \<open>Pulsar_Reflection\<close>: copying, clearing and changing messages by reflection.

  \<^bold>\<open>What is shown.\<close> A prepared proposal stays within the request, consists of what the lanes'
  handlers selected in turn, holds no transaction for two lanes, and is accepted by every node in the same state, whatever the histories of the two nodes' mempools;
  preparing never fails, a failing lane is skipped. An accepted proposal is consumed
  completely: each lane takes its segment in the context that the lane before it left. Each handler has an exact characterisation of what it
  accepts or selects. The mempools are sets of keys (nonce and sender), under every sequence of
  operations; a selection ends and yields every transaction once, if priorities depend on the key only. The cache is transparent. A
  bid that passes the ante decorator beats the top bid and is ordered against front-running, and its
  acceptance is characterised exactly; a paid bid is conserved. What the codecs write they read back, in as many bytes as they announce; the
  client API and the module write the same bytes for a bid, and the API passes on fields it does not know.

  \<^bold>\<open>Interfaces.\<close> A contract between components is a locale: \<open>handler_pair\<close> (\<open>Round_Trip\<close>), what the chain
  of lanes needs of the two handlers of a lane, interpreted by the default and by the MEV handlers;
  \<open>keyed_store\<close> and its extension \<open>keyed_mempool\<close> (\<open>Lane_Mempool\<close>), what the laned mempool needs of a lane's
  mempool, interpreted by the base mempools and by the application's; \<open>selecting_mempool\<close> (\<open>App_Run\<close>), what the agreement of two nodes needs of it, interpreted
  by the base mempools with the default priority; \<open>typed_objects\<close> and \<open>message_reflection\<close> (\<open>Pulsar_Runtime\<close>), loading
  and storing objects of a type and the contract of \<open>protoreflect.Message\<close>, interpreted by the types and the
  reflection methods of all nine messages; \<open>lane_contract\<close> and \<open>process_contract\<close> (\<open>Abci\<close>), what
  the chains need of a lane, interpreted by the base lanes and the terminator.

  \<^bold>\<open>Parameters.\<close> Decimals (\<open>dec_ops\<close>), coins (\<open>coin_ops\<close>), addresses (\<open>addr_ops\<close>), the SDK context (\<open>ctx_ops\<close>),
  the wire format of coins and decimals (\<open>wire_ops\<close>), the skip list (\<open>skiplist_ops\<close>), the wrapped
  \<open>CheckTx\<close>, the protobuf runtime of the client API (\<open>proto_runtime\<close>, \<open>value_ops\<close>), the JSON codec and the
  application's response constructors, decoders, the ante handler and the other keepers are
  arguments of the definitions that use them. Each set of laws (\<open>dec_laws\<close> and so on) states what the
  package documents and is proved of a concrete instance, which the witnesses use. The orders in which
  Go visits a map are arguments too.

  \<^bold>\<open>Bounds.\<close> Sizes and gas are 64-bit words and wrap as in Go; where a theorem needs that a sum does not
  wrap, \<open>sums_fit\<close> says so. Panics are values. Every loop is a total function, with a measure where its
  recursion is not structural, except the reader of the client API, a partial function that is shown to
  return; none uses fuel. Buffers are shorter than \<open>2^63\<close> bytes, as Go guarantees of slices.

  \<^bold>\<open>What the code does and may not mean to.\<close> The gas of a partial proposal is added without an overflow
  check, and a transaction may occur twice in it; a block size of -1 is not read as unlimited; a cache of
  size 0 panics; a transaction that replaced another can become invisible to selections, and \<open>NextSenderTx\<close> panics
  after a sender's last transaction is gone; the parity handler refuses the transactions of a lane
  without a limit; a refused transaction whose key two lanes hold stays in the second; a bid must have
  exactly the next height as its timeout, where a comment and the searcher documentation allow later
  ones; a timeout of a bundle goes unchecked because two checks share a map; a repeated value
  in a map entry is combined, not replaced; an empty escrow address passes validation and is lost in the
  store; the bid command refuses its own example; the client API was not regenerated for a new field of a
  response. The manifest names the theorem where there is one.

  \<^bold>\<open>Not modelled.\<close> The gRPC stubs and gateways; in the generated files the registration, the raw descriptors
  and the calls of the protobuf runtime, and in the client API the capacity of slices and byte slices that
  share an array; the registration of the module, the query command, events of the module and interfaces of
  other modules; mocks, test utilities and the rest of the test application; logs and
  metrics, and the texts of errors beyond their format strings; \<open>IsEmpty\<close> of the priority nonce
  mempool, which only tests call. Some effects are simplified where nothing in the repository sees
  the difference: an iterator of a mempool is run to its end at once; what the ante handler writes in
  the checks of a bid is not in the context of the insertion after them; allocations fail only for
  sizes that are no \<open>int\<close>; nil and empty maps of a proposal are one; the application's \<open>CheckTx\<close> reads with
  the decoder behind the cache, which is transparent. Mutexes are not modelled: the code takes one lock per call, and calls
  are single steps here.
\<close>

end
